(* ===== verification/Prelude.thy ===== *)
theory Prelude
  imports Main "HOL-Library.State_Monad" "HOL-Library.List_Lexorder" "HOL-Library.Char_ord"
    "HOL-Library.Multiset" "HOL-Library.Sublist"
begin

text \<open>
  Shared vocabulary of the development: the parts of Go's \<open>strings\<close>, \<open>strconv\<close>,
  \<open>slices\<close> and \<open>sort\<close> packages that the program uses, Go's \<open>error\<close> values, the
  state monad in which the controllers are written, and the proof rules for it.
  A Go string is a list of bytes, here a \<open>char list\<close>; its order is the byte-wise
  lexicographic order that \<open>sort.Strings\<close> and \<open><\<close> use.
\<close>

named_theorems go_strings "equations of the Go string functions"
named_theorems wp_rules "weakest preconditions of the state monad"
named_theorems keeps_rules "structural rules for invariants of monadic code"

section \<open>Strings\<close>

definition hasPrefix :: "string \<Rightarrow> string \<Rightarrow> bool" where
  "hasPrefix s p \<longleftrightarrow> take (length p) s = p"

definition trimPrefix :: "string \<Rightarrow> string \<Rightarrow> string" where
  "trimPrefix s p = (if hasPrefix s p then drop (length p) s else s)"

definition hasSuffix :: "string \<Rightarrow> string \<Rightarrow> bool" where
  "hasSuffix s p \<longleftrightarrow> hasPrefix (rev s) (rev p)"

definition trimSuffix :: "string \<Rightarrow> string \<Rightarrow> string" where
  "trimSuffix s p = (if hasSuffix s p then take (length s - length p) s else s)"

text \<open>\<open>strings.ToLower\<close> on the ASCII range (host names are ASCII).\<close>

definition lowerChar :: "char \<Rightarrow> char" where
  "lowerChar c =
     (let n = of_char c :: nat in if 65 \<le> n \<and> n \<le> 90 then char_of (n + 32) else c)"

definition toLower :: "string \<Rightarrow> string" where
  "toLower s = map lowerChar s"

text \<open>\<open>strings.Cut\<close> at a one-byte separator: the part before its first occurrence and
  whether it occurs.\<close>

definition cutBefore :: "char \<Rightarrow> string \<Rightarrow> string \<times> bool" where
  "cutBefore c s = (takeWhile (\<lambda>x. x \<noteq> c) s, c \<in> set s)"

fun containsStr :: "string \<Rightarrow> string \<Rightarrow> bool" where
  "containsStr [] p = (p = [])"
| "containsStr (c # s) p = (hasPrefix (c # s) p \<or> containsStr s p)"

fun joinStr :: "string \<Rightarrow> string list \<Rightarrow> string" where
  "joinStr sep [] = []"
| "joinStr sep [x] = x"
| "joinStr sep (x # y # xs) = x @ sep @ joinStr sep (y # xs)"

text \<open>\<open>fmt\<close>'s \<open>%d\<close>.\<close>

fun natDigits :: "nat \<Rightarrow> string" where
  "natDigits n = (if n < 10 then [char_of (48 + n)] else natDigits (n div 10) @ [char_of (48 + n mod 10)])"

declare natDigits.simps [simp del]

definition itoa :: "int \<Rightarrow> string" where
  "itoa i = (if i < 0 then CHR ''-'' # natDigits (nat (- i)) else natDigits (nat i))"

text \<open>Go's \<open>int64\<close> arithmetic wraps around.\<close>

definition int64_wrap :: "int \<Rightarrow> int" where
  "int64_wrap i = (i + 2 ^ 63) mod 2 ^ 64 - 2 ^ 63"

lemma int64_wrap_id [simp]: "- (2 ^ 63) \<le> i \<Longrightarrow> i < 2 ^ 63 \<Longrightarrow> int64_wrap i = i"
  by (simp add: int64_wrap_def)

lemma int64_wrap_range: "- (2 ^ 63) \<le> int64_wrap i \<and> int64_wrap i < 2 ^ 63"
  using pos_mod_sign [of "2 ^ 64" "i + 2 ^ 63"] pos_mod_bound [of "2 ^ 64" "i + 2 ^ 63"]
  by (simp add: int64_wrap_def)

lemma hasPrefix_append [simp, go_strings]: "hasPrefix (p @ s) p"
  by (simp add: hasPrefix_def)

lemma hasPrefix_iff [go_strings]: "hasPrefix s p \<longleftrightarrow> (\<exists>t. s = p @ t)"
  by (metis append_eq_conv_conj append_take_drop_id hasPrefix_def)

lemma trimPrefix_append [simp, go_strings]: "trimPrefix (p @ s) p = s"
  by (simp add: trimPrefix_def)

lemma trimPrefix_no [simp, go_strings]: "\<not> hasPrefix s p \<Longrightarrow> trimPrefix s p = s"
  by (simp add: trimPrefix_def)

lemma hasSuffix_iff [go_strings]: "hasSuffix s p \<longleftrightarrow> (\<exists>t. s = t @ p)"
  unfolding hasSuffix_def hasPrefix_iff by (metis rev_append rev_rev_ident)

lemma trimSuffix_append [simp, go_strings]: "trimSuffix (s @ p) p = s"
  by (auto simp: trimSuffix_def hasSuffix_iff)

lemma trimSuffix_no [simp, go_strings]: "\<not> hasSuffix s p \<Longrightarrow> trimSuffix s p = s"
  by (simp add: trimSuffix_def)

lemma lowerChar_idem [simp]: "lowerChar (lowerChar c) = lowerChar c"
  by (simp add: lowerChar_def Let_def)

lemma toLower_idem [simp]: "toLower (toLower s) = toLower s"
  by (simp add: toLower_def)

lemma toLower_append [simp]: "toLower (s @ t) = toLower s @ toLower t"
  by (simp add: toLower_def)

lemma cutBefore_split:
  "c \<notin> set a \<Longrightarrow> cutBefore c (a @ c # b) = (a, True)"
  by (induction a) (auto simp: cutBefore_def)

lemma natDigits_nonempty [simp]: "natDigits n \<noteq> []"
  by (subst natDigits.simps) simp

section \<open>Association lists as Go maps\<close>

text \<open>
  A Go map is an association list with distinct keys; the order of the list is one of the
  orders in which \<open>range\<close> may visit it, so a statement about every such list covers
  every iteration order.
\<close>

type_synonym 'v gomap = "(string \<times> 'v) list"

definition is_gomap :: "'v gomap \<Rightarrow> bool" where
  "is_gomap m \<longleftrightarrow> distinct (map fst m)"

fun gomap_put :: "string \<Rightarrow> 'v \<Rightarrow> 'v gomap \<Rightarrow> 'v gomap" where
  "gomap_put k v [] = [(k, v)]"
| "gomap_put k v ((k', v') # m) = (if k = k' then (k, v) # m else (k', v') # gomap_put k v m)"

lemma map_of_gomap_put [simp]: "map_of (gomap_put k v m) = (map_of m)(k \<mapsto> v)"
  by (induction m) (auto simp: fun_eq_iff)

lemma keys_gomap_put: "set (map fst (gomap_put k v m)) = insert k (set (map fst m))"
  by (induction k v m rule: gomap_put.induct) auto

lemma is_gomap_put: "is_gomap m \<Longrightarrow> is_gomap (gomap_put k v m)"
proof (induction m)
  case (Cons p m)
  then show ?case
    using keys_gomap_put [of k v m] by (cases p) (auto simp: is_gomap_def)
qed (simp add: is_gomap_def)

lemma is_gomap_Nil [simp]: "is_gomap []"
  by (simp add: is_gomap_def)

section \<open>Sorting\<close>

text \<open>
  \<open>sort.Slice\<close> sorts by a \<open>less\<close> function. Its order of elements that \<open>less\<close> does
  not separate is unspecified; the model is the insertion sort below, and
  \<open>sort_slice_unique\<close> shows that under a strict total order of the elements every
  sorted rearrangement is this one.
\<close>

fun insertBy :: "('a \<Rightarrow> 'a \<Rightarrow> bool) \<Rightarrow> 'a \<Rightarrow> 'a list \<Rightarrow> 'a list" where
  "insertBy lt x [] = [x]"
| "insertBy lt x (y # ys) = (if lt y x then y # insertBy lt x ys else x # y # ys)"

fun sortSlice :: "('a \<Rightarrow> 'a \<Rightarrow> bool) \<Rightarrow> 'a list \<Rightarrow> 'a list" where
  "sortSlice lt [] = []"
| "sortSlice lt (x # xs) = insertBy lt x (sortSlice lt xs)"

lemma mset_insertBy [simp]: "mset (insertBy lt x xs) = add_mset x (mset xs)"
  by (induction xs) auto

lemma mset_sortSlice [simp]: "mset (sortSlice lt xs) = mset xs"
  by (induction xs) auto

lemma set_sortSlice [simp]: "set (sortSlice lt xs) = set xs"
  by (metis mset_sortSlice set_mset_mset)

lemma length_sortSlice [simp]: "length (sortSlice lt xs) = length xs"
  by (metis mset_sortSlice size_mset)

lemma distinct_map_sortSlice [simp]: "distinct (map f (sortSlice lt xs)) = distinct (map f xs)"
  by (metis mset_eq_imp_distinct_iff mset_map mset_sortSlice)

lemma set_insertBy [simp]: "set (insertBy lt x xs) = insert x (set xs)"
  by (induction xs) auto

locale strict_total =
  fixes lt :: "'a \<Rightarrow> 'a \<Rightarrow> bool"
  assumes asym: "lt x y \<Longrightarrow> \<not> lt y x"
    and ntrans: "\<not> lt x y \<Longrightarrow> \<not> lt y z \<Longrightarrow> \<not> lt x z"
begin

lemma irrefl [simp]: "\<not> lt x x"
  using asym by blast

lemma sorted_insertBy:
  "sorted_wrt (\<lambda>a b. \<not> lt b a) xs \<Longrightarrow> sorted_wrt (\<lambda>a b. \<not> lt b a) (insertBy lt x xs)"
proof (induction xs)
  case (Cons y ys)
  show ?case
  proof (cases "lt y x")
    case True
    with Cons asym show ?thesis by auto
  next
    case False
    with Cons.prems ntrans show ?thesis by (auto simp: dest: ntrans)
  qed
qed simp

lemma sorted_sortSlice: "sorted_wrt (\<lambda>a b. \<not> lt b a) (sortSlice lt xs)"
  by (induction xs) (auto simp: sorted_insertBy)

lemma hd_sortSlice_minimal:
  assumes "xs \<noteq> []" and "y \<in> set xs"
  shows "\<not> lt y (hd (sortSlice lt xs))"
proof -
  obtain z zs where s: "sortSlice lt xs = z # zs"
    using assms(1) by (metis length_0_conv length_sortSlice list.exhaust)
  with assms(2) have "y \<in> set (z # zs)"
    by (metis set_sortSlice)
  then show ?thesis
    using sorted_sortSlice [of xs] s by auto
qed

text \<open>Two sorted rearrangements of one multiset agree where \<open>less\<close> separates the elements.\<close>

lemma sorted_unique:
  assumes "mset xs = mset ys"
    and "sorted_wrt (\<lambda>a b. \<not> lt b a) xs" and "sorted_wrt (\<lambda>a b. \<not> lt b a) ys"
    and "\<And>a b. a \<in> set xs \<Longrightarrow> b \<in> set xs \<Longrightarrow> \<not> lt a b \<Longrightarrow> \<not> lt b a \<Longrightarrow> a = b"
  shows "xs = ys"
  using assms
proof (induction xs arbitrary: ys)
  case (Cons x xs)
  then obtain y ys' where ys: "ys = y # ys'"
    by (cases ys) auto
  have "x \<in> set ys" and "y \<in> set (x # xs)"
    using Cons.prems(1) ys mset_eq_setD by fastforce+
  then have "\<not> lt y x \<or> x = y" and "\<not> lt x y \<or> x = y"
    using Cons.prems(2,3) ys by auto
  then have "x = y"
    using Cons.prems(4) \<open>y \<in> set (x # xs)\<close> by auto
  then show ?case
    using Cons ys by auto
qed simp

lemma sort_slice_unique:
  assumes "mset ys = mset xs" and "sorted_wrt (\<lambda>a b. \<not> lt b a) ys"
    and "\<And>a b. a \<in> set xs \<Longrightarrow> b \<in> set xs \<Longrightarrow> \<not> lt a b \<Longrightarrow> \<not> lt b a \<Longrightarrow> a = b"
  shows "ys = sortSlice lt xs"
proof (rule sorted_unique [OF _ assms(2) sorted_sortSlice])
  show "mset ys = mset (sortSlice lt xs)"
    using assms(1) by simp
  show "\<And>a b. a \<in> set ys \<Longrightarrow> b \<in> set ys \<Longrightarrow> \<not> lt a b \<Longrightarrow> \<not> lt b a \<Longrightarrow> a = b"
    using assms(1,3) mset_eq_setD by blast
qed

lemma sortSlice_perm:
  assumes "mset xs = mset ys"
    and "\<And>a b. a \<in> set xs \<Longrightarrow> b \<in> set xs \<Longrightarrow> \<not> lt a b \<Longrightarrow> \<not> lt b a \<Longrightarrow> a = b"
  shows "sortSlice lt xs = sortSlice lt ys"
  using assms mset_eq_setD [OF assms(1)]
  by (intro sort_slice_unique [OF _ sorted_sortSlice]) (auto simp del: set_sortSlice)

end

section \<open>Errors\<close>

text \<open>
  A Go \<open>error\<close> is \<open>nil\<close> or a value with a message. Errors of the API server are told
  apart by \<open>apierrors.IsNotFound\<close> and \<open>apierrors.IsAlreadyExists\<close>; \<open>Wrapped\<close> is
  \<open>fmt.Errorf\<close> with \<open>%w\<close> after the text.
\<close>

datatype api_error = NotFound string | AlreadyExists string | OtherApi string

datatype go_error = Api api_error | ErrorText string | Wrapped string go_error

fun api_text :: "api_error \<Rightarrow> string" where
  "api_text (NotFound m) = m"
| "api_text (AlreadyExists m) = m"
| "api_text (OtherApi m) = m"

fun error_text :: "go_error \<Rightarrow> string" where
  "error_text (Api e) = api_text e"
| "error_text (ErrorText m) = m"
| "error_text (Wrapped t e) = t @ '': '' @ error_text e"

fun isNotFound :: "api_error \<Rightarrow> bool" where
  "isNotFound (NotFound _) = True"
| "isNotFound _ = False"

fun isAlreadyExists :: "api_error \<Rightarrow> bool" where
  "isAlreadyExists (AlreadyExists _) = True"
| "isAlreadyExists _ = False"

section \<open>The state monad of the controllers\<close>

abbreviation ret :: "'a \<Rightarrow> ('s, 'a) state" where
  "ret \<equiv> State_Monad.return"

abbreviation bindM :: "('s, 'a) state \<Rightarrow> ('a \<Rightarrow> ('s, 'b) state) \<Rightarrow> ('s, 'b) state" where
  "bindM \<equiv> State_Monad.bind"

text \<open>\<open>if err := m; err != nil { return err }\<close> followed by the rest \<open>k\<close>.\<close>

definition andThen :: "('s, 'e + 'a) state \<Rightarrow> ('a \<Rightarrow> ('s, 'e + 'b) state) \<Rightarrow> ('s, 'e + 'b) state" where
  "andThen m k = bindM m (\<lambda>r. case r of Inl e \<Rightarrow> ret (Inl e) | Inr a \<Rightarrow> k a)"

lemma andThen_ret [simp]: "andThen (ret (Inr a)) k = k a" "andThen (ret (Inl e)) k = ret (Inl e)"
  by (simp_all add: andThen_def)

text \<open>A \<open>for\<close> loop over a slice whose body may return early with an error.\<close>

fun forEach :: "('a \<Rightarrow> ('s, 'e + unit) state) \<Rightarrow> 'a list \<Rightarrow> ('s, 'e + unit) state" where
  "forEach f [] = ret (Inr ())"
| "forEach f (x # xs) = andThen (f x) (\<lambda>_. forEach f xs)"

text \<open>Weakest precondition: \<open>Q\<close> holds of the result and the state after \<open>m\<close>.\<close>

definition wp :: "('s, 'a) state \<Rightarrow> ('a \<Rightarrow> 's \<Rightarrow> bool) \<Rightarrow> 's \<Rightarrow> bool" where
  "wp m Q s \<longleftrightarrow> (case run_state m s of (a, s') \<Rightarrow> Q a s')"

lemma wp_ret [simp, wp_rules]: "wp (ret a) Q s = Q a s"
  by (simp add: wp_def)

lemma wp_bind [simp, wp_rules]: "wp (bindM m f) Q s = wp m (\<lambda>a. wp (f a) Q) s"
  by (simp add: wp_def split: prod.splits)

lemma wp_andThen [simp, wp_rules]:
  "wp (andThen m k) Q s = wp m (\<lambda>r. case r of Inl e \<Rightarrow> Q (Inl e) | Inr a \<Rightarrow> wp (k a) Q) s"
  unfolding andThen_def wp_bind
  by (rule arg_cong [where f = "\<lambda>q. wp m q s"]) (auto simp: fun_eq_iff split: sum.splits)

lemma wp_mono: "wp m Q s \<Longrightarrow> (\<And>a s'. Q a s' \<Longrightarrow> R a s') \<Longrightarrow> wp m R s"
  by (auto simp: wp_def split: prod.splits)

lemma wp_run: "wp m Q s \<Longrightarrow> run_state m s = (a, s') \<Longrightarrow> Q a s'"
  by (simp add: wp_def)

lemma wp_conj: "wp m Q s \<Longrightarrow> wp m R s \<Longrightarrow> wp m (\<lambda>a s'. Q a s' \<and> R a s') s"
  by (auto simp: wp_def split: prod.splits)

text \<open>\<open>keeps I m\<close>: running \<open>m\<close> keeps the state predicate \<open>I\<close>.\<close>

definition keeps :: "('s \<Rightarrow> bool) \<Rightarrow> ('s, 'a) state \<Rightarrow> bool" where
  "keeps I m \<longleftrightarrow> (\<forall>s. I s \<longrightarrow> I (snd (run_state m s)))"

lemma keepsD: "keeps I m \<Longrightarrow> I s \<Longrightarrow> run_state m s = (a, s') \<Longrightarrow> I s'"
  by (metis keeps_def snd_conv)

lemma keeps_wp: "keeps I m \<longleftrightarrow> (\<forall>s. I s \<longrightarrow> wp m (\<lambda>_ s'. I s') s)"
  by (simp add: keeps_def wp_def case_prod_unfold)

lemma keeps_ret [simp, intro!, keeps_rules]: "keeps I (ret a)"
  by (simp add: keeps_def)

lemma keeps_bind [intro!, keeps_rules]:
  "keeps I m \<Longrightarrow> (\<And>a. keeps I (f a)) \<Longrightarrow> keeps I (bindM m f)"
  by (simp add: keeps_wp)
     (metis (no_types, lifting) keeps_def keeps_wp wp_mono)

lemma keeps_andThen [intro!, keeps_rules]:
  "keeps I m \<Longrightarrow> (\<And>a. keeps I (k a)) \<Longrightarrow> keeps I (andThen m k)"
  unfolding andThen_def by (auto split: sum.splits)

lemma keeps_forEach [intro!, keeps_rules]: "(\<And>x. x \<in> set xs \<Longrightarrow> keeps I (f x)) \<Longrightarrow> keeps I (forEach f xs)"
  by (induction xs) auto

lemma keeps_if [intro!, keeps_rules]:
  "(b \<Longrightarrow> keeps I m) \<Longrightarrow> (\<not> b \<Longrightarrow> keeps I n) \<Longrightarrow> keeps I (if b then m else n)"
  by simp

lemma keeps_case_sum [intro!, keeps_rules]:
  "(\<And>e. r = Inl e \<Longrightarrow> keeps I (f e)) \<Longrightarrow> (\<And>a. r = Inr a \<Longrightarrow> keeps I (g a)) \<Longrightarrow>
   keeps I (case r of Inl e \<Rightarrow> f e | Inr a \<Rightarrow> g a)"
  by (cases r) auto

lemma keeps_case_option [intro!, keeps_rules]:
  "(r = None \<Longrightarrow> keeps I n) \<Longrightarrow> (\<And>a. r = Some a \<Longrightarrow> keeps I (g a)) \<Longrightarrow>
   keeps I (case r of None \<Rightarrow> n | Some a \<Rightarrow> g a)"
  by (cases r) auto

lemma keeps_case_prod [intro!, keeps_rules]:
  "(\<And>a b. p = (a, b) \<Longrightarrow> keeps I (f a b)) \<Longrightarrow> keeps I (case p of (a, b) \<Rightarrow> f a b)"
  by (cases p) auto

text \<open>A loop by its invariant over the elements done so far.\<close>

lemma wp_forEach:
  assumes "I [] s"
    and "\<And>ys y s'. y \<in> set xs \<Longrightarrow> I ys s' \<Longrightarrow> wp (f y) (\<lambda>r. case r of Inl err \<Rightarrow> Q (Inl err) | Inr _ \<Rightarrow> I (ys @ [y])) s'"
    and "\<And>s'. I xs s' \<Longrightarrow> Q (Inr ()) s'"
  shows "wp (forEach f xs) Q s"
proof -
  have "wp (forEach f zs) Q s'" if "xs = ys @ zs" "I ys s'" for ys zs s'
    using that
  proof (induction zs arbitrary: ys s')
    case (Cons z zs)
    have "wp (f z) (\<lambda>r. case r of Inl err \<Rightarrow> Q (Inl err) | Inr _ \<Rightarrow> I (ys @ [z])) s'"
      using assms(2) [of z ys s'] Cons.prems by simp
    then show ?case unfolding forEach.simps wp_andThen
      by (rule wp_mono) (use Cons.IH [of "ys @ [z]"] Cons.prems in \<open>auto split: sum.splits\<close>)
  qed (use assms(3) in simp)
  then show ?thesis using assms(1) by (simp add: append_Nil [symmetric])
qed

end
