(* ===== verification/Api_Types.thy ===== *)
theory Api_Types
  imports Prelude
begin

text \<open>
  The resources of the \<open>solar.opendefense.cloud\<close> API group
  (\<open>api/solar/v1alpha1/*_types.go\<close>) and the parts of the Kubernetes types that the
  controllers read or write. Every resource is an \<open>object\<close>: object metadata, a spec
  and a status, of the kind's own types; a kind with no status has \<open>unit\<close> there.
  A pointer field is an \<open>option\<close>, \<open>runtime.RawExtension\<close> is its raw bytes,
  \<open>corev1.LocalObjectReference\<close> is the name it holds, a zero \<open>metav1.Time\<close> is
  \<open>None\<close> and a time is a count of nanoseconds.
\<close>

section \<open>Kubernetes metadata\<close>

record namespaced_name =
  nn_namespace :: string
  nn_name :: string

record owner_reference =
  own_apiVersion :: string
  own_kind :: string
  own_name :: string
  own_uid :: string
  own_controller :: bool

record object_meta =
  om_name :: string
  om_generateName :: string
  om_namespace :: string
  om_uid :: string
  om_generation :: int
  om_labels :: "string gomap"
  om_annotations :: "string gomap"
  om_finalizers :: "string list"
  om_deletionTimestamp :: "int option"
  om_ownerReferences :: "owner_reference list"

record ('spec, 'status) object =
  metadata :: object_meta
  spec :: 'spec
  status :: 'status

datatype condition_status = ConditionTrue | ConditionFalse | ConditionUnknown

record condition =
  cond_type :: string
  cond_status :: condition_status
  cond_observedGeneration :: int
  cond_lastTransitionTime :: "int option"
  cond_reason :: string
  cond_message :: string

record label_selector =
  ls_matchLabels :: "string gomap"
  ls_matchExpressions :: "(string \<times> string \<times> string list) list"

type_synonym labels = "string gomap"
type_synonym local_ref = string

record object_reference =
  oref_apiVersion :: string
  oref_kind :: string
  oref_namespace :: string
  oref_name :: string

definition objectKey :: "('spec, 'status) object \<Rightarrow> namespaced_name" where
  "objectKey o' = \<lparr>nn_namespace = om_namespace (metadata o'), nn_name = om_name (metadata o')\<rparr>"

lemma objectKey_iff:
  "objectKey x = k \<longleftrightarrow> om_namespace (metadata x) = nn_namespace k \<and> om_name (metadata x) = nn_name k"
  by (cases k) (auto simp: objectKey_def)

definition deleting :: "('spec, 'status) object \<Rightarrow> bool" where
  "deleting o' \<longleftrightarrow> om_deletionTimestamp (metadata o') \<noteq> None"

definition hasFinalizer :: "string \<Rightarrow> ('spec, 'status) object \<Rightarrow> bool" where
  "hasFinalizer f o' \<longleftrightarrow> f \<in> set (om_finalizers (metadata o'))"

text \<open>\<open>append(o.Finalizers, f)\<close> and \<open>slices.DeleteFunc(o.Finalizers, \<lambda>s. s = f)\<close>.\<close>

definition appendFinalizer :: "string \<Rightarrow> ('spec, 'status) object \<Rightarrow> ('spec, 'status) object" where
  "appendFinalizer f o' =
     o'\<lparr>metadata := (metadata o')\<lparr>om_finalizers := om_finalizers (metadata o') @ [f]\<rparr>\<rparr>"

definition deleteFinalizer :: "string \<Rightarrow> ('spec, 'status) object \<Rightarrow> ('spec, 'status) object" where
  "deleteFinalizer f o' =
     o'\<lparr>metadata := (metadata o')\<lparr>om_finalizers := filter (\<lambda>s. s \<noteq> f) (om_finalizers (metadata o'))\<rparr>\<rparr>"

lemma hasFinalizer_append [simp]: "hasFinalizer g (appendFinalizer f o') \<longleftrightarrow> g = f \<or> hasFinalizer g o'"
  by (auto simp: hasFinalizer_def appendFinalizer_def)

lemma hasFinalizer_delete [simp]: "hasFinalizer g (deleteFinalizer f o') \<longleftrightarrow> g \<noteq> f \<and> hasFinalizer g o'"
  by (auto simp: hasFinalizer_def deleteFinalizer_def)

lemma finalizer_frame [simp]:
  "objectKey (appendFinalizer f o') = objectKey o'" "objectKey (deleteFinalizer f o') = objectKey o'"
  "spec (appendFinalizer f o') = spec o'" "spec (deleteFinalizer f o') = spec o'"
  "status (appendFinalizer f o') = status o'" "status (deleteFinalizer f o') = status o'"
  "deleting (appendFinalizer f o') = deleting o'" "deleting (deleteFinalizer f o') = deleting o'"
  by (simp_all add: objectKey_def deleting_def appendFinalizer_def deleteFinalizer_def)

lemma status_frame [simp]:
  "deleting (o'\<lparr>status := v\<rparr>) = deleting o'" "hasFinalizer f (o'\<lparr>status := v\<rparr>) = hasFinalizer f o'"
  "objectKey (o'\<lparr>status := v\<rparr>) = objectKey o'"
  by (simp_all add: objectKey_def deleting_def hasFinalizer_def)

text \<open>\<open>metav1.ObjectMeta\{Name: n, Namespace: ns\}\<close>: a fresh object's metadata.\<close>

definition newMeta :: "string \<Rightarrow> string \<Rightarrow> object_meta" where
  "newMeta n ns =
     \<lparr>om_name = n, om_generateName = '''', om_namespace = ns, om_uid = '''', om_generation = 0,
      om_labels = [], om_annotations = [], om_finalizers = [], om_deletionTimestamp = None,
      om_ownerReferences = []\<rparr>"

section \<open>Components and component versions\<close>

record component_spec =
  comp_scheme :: string
  comp_registry :: string
  comp_repository :: string

record helm_resource_metadata =
  helm_name :: string
  helm_description :: string
  helm_version :: string
  helm_appVersion :: string
  helm_valuesTemplate :: "string option"

record resource_access =
  ra_repository :: string
  ra_insecure :: bool
  ra_tag :: string
  ra_helm :: "helm_resource_metadata option"

record entrypoint =
  ep_resourceName :: string
  ep_type :: string

record component_version_spec =
  cv_componentRef :: local_ref
  cv_tag :: string
  cv_resources :: "resource_access gomap"
  cv_entrypoint :: entrypoint

section \<open>Profiles, releases, targets and their bindings\<close>

record profile_spec =
  prf_releaseRef :: local_ref
  prf_targetSelector :: label_selector
  prf_userdata :: string

record profile_status =
  prf_matchedTargets :: int
  prf_conditions :: "condition list"

record reference_grant_from =
  from_group :: string
  from_kind :: string
  from_namespace :: string

record reference_grant_to =
  to_group :: string
  to_kind :: string

record reference_grant_spec =
  rg_from :: "reference_grant_from list"
  rg_to :: "reference_grant_to list"

record registry_spec =
  reg_hostname :: string
  reg_plainHTTP :: bool
  reg_solarSecretRef :: "local_ref option"
  reg_targetPullSecretName :: string
  reg_flavor :: string
  reg_webhookPath :: string
  reg_scanInterval :: "int option"

record registry_status =
  reg_conditions :: "condition list"

record registry_binding_spec =
  rgb_targetRef :: local_ref
  rgb_targetNamespace :: string
  rgb_registryRef :: local_ref

record release_spec =
  rel_componentVersionRef :: local_ref
  rel_componentVersionNamespace :: string
  rel_targetNamespace :: "string option"
  rel_uniqueName :: string
  rel_antiAffinity :: "label_selector option"
  rel_values :: string
  rel_failedJobTTL :: "int option"
  rel_priority :: int

record release_status =
  rel_conditions :: "condition list"
  rel_renderTaskRef :: "object_reference option"
  rel_effectiveUniqueName :: string

record release_binding_spec =
  rlb_targetRef :: local_ref
  rlb_targetNamespace :: string
  rlb_releaseRef :: local_ref

record target_spec =
  tgt_renderRegistryRef :: local_ref
  tgt_renderRegistryNamespace :: string
  tgt_userdata :: string

record target_status =
  tgt_bootstrapVersion :: int
  tgt_conditions :: "condition list"

section \<open>Rendering\<close>

datatype renderer_config_type = TypeBootstrap | TypeRelease | TypeProfile | TypeUnset

record chart_config =
  chart_name :: string
  chart_description :: string
  chart_version :: string
  chart_appVersion :: string

record resolved_resource_access =
  rra_repository :: string
  rra_insecure :: bool
  rra_tag :: string
  rra_helm :: "helm_resource_metadata option"
  rra_pullSecretName :: string

record release_input =
  ri_component :: string
  ri_resources :: "resolved_resource_access gomap"
  ri_entrypoint :: entrypoint

record release_config =
  rc_chart :: chart_config
  rc_input :: release_input
  rc_targetNamespace :: string
  rc_values :: string

record bootstrap_input =
  bi_releases :: "resolved_resource_access gomap"
  bi_userdata :: string

record bootstrap_config =
  bc_chart :: chart_config
  bc_input :: bootstrap_input

record renderer_config =
  cfg_type :: renderer_config_type
  cfg_release :: release_config
  cfg_bootstrap :: bootstrap_config

record render_task_spec =
  rt_rendererConfig :: renderer_config
  rt_repository :: string
  rt_tag :: string
  rt_baseURL :: string
  rt_pushSecretRef :: "local_ref option"
  rt_plainHTTP :: bool
  rt_failedJobTTL :: "int option"
  rt_ownerName :: string
  rt_ownerNamespace :: string
  rt_ownerKind :: string

record render_task_status =
  rt_conditions :: "condition list"
  rt_jobRef :: "object_reference option"
  rt_configSecretRef :: "object_reference option"
  rt_chartURL :: string

record render_artifact_spec =
  art_baseURL :: string
  art_repository :: string
  art_tag :: string
  art_renderTaskRef :: string
  art_pushSecretRef :: "local_ref option"
  art_pushSecretNamespace :: string
  art_registryFlavor :: string
  art_plainHTTP :: bool

record render_artifact_status =
  art_chartURL :: string
  art_conditions :: "condition list"

record render_binding_spec =
  rb_renderArtifactRef :: local_ref
  rb_ownerKind :: string
  rb_ownerName :: string
  rb_ownerNamespace :: string

type_synonym component = "(component_spec, unit) object"
type_synonym component_version = "(component_version_spec, unit) object"
type_synonym profile = "(profile_spec, profile_status) object"
type_synonym reference_grant = "(reference_grant_spec, unit) object"
type_synonym registry = "(registry_spec, registry_status) object"
type_synonym registry_binding = "(registry_binding_spec, condition list) object"
type_synonym release = "(release_spec, release_status) object"
type_synonym release_binding = "(release_binding_spec, condition list) object"
type_synonym render_artifact = "(render_artifact_spec, render_artifact_status) object"
type_synonym render_binding = "(render_binding_spec, unit) object"
type_synonym render_task = "(render_task_spec, render_task_status) object"
type_synonym target = "(target_spec, target_status) object"

text \<open>Go's zero values of the structs that the controllers build field by field.\<close>

definition emptyChart :: chart_config where
  "emptyChart = \<lparr>chart_name = '''', chart_description = '''', chart_version = '''', chart_appVersion = ''''\<rparr>"

definition emptyReleaseConfig :: release_config where
  "emptyReleaseConfig =
     \<lparr>rc_chart = emptyChart,
      rc_input = \<lparr>ri_component = '''', ri_resources = [], ri_entrypoint = \<lparr>ep_resourceName = '''', ep_type = ''''\<rparr>\<rparr>,
      rc_targetNamespace = '''', rc_values = ''''\<rparr>"

definition emptyBootstrapConfig :: bootstrap_config where
  "emptyBootstrapConfig =
     \<lparr>bc_chart = emptyChart, bc_input = \<lparr>bi_releases = [], bi_userdata = ''''\<rparr>\<rparr>"

definition emptyRenderTaskStatus :: render_task_status where
  "emptyRenderTaskStatus = \<lparr>rt_conditions = [], rt_jobRef = None, rt_configSecretRef = None, rt_chartURL = ''''\<rparr>"

text \<open>\<open>Registry.GetURL\<close>.\<close>

definition getURL :: "registry \<Rightarrow> string" where
  "getURL r = (if reg_plainHTTP (spec r) then ''http'' else ''https'') @ ''://'' @ reg_hostname (spec r)"

section \<open>Jobs and secrets\<close>

datatype secret_type = SecretBasicAuth | SecretDockerConfigJson | SecretOpaque | SecretOther string

record secret_body =
  sec_type :: secret_type
  sec_data :: "string gomap"

datatype volume_source =
    SecretVolume string "(string \<times> string) list"
  | ConfigMapVolume string "(string \<times> string) list"

record volume =
  vol_name :: string
  vol_source :: volume_source

record volume_mount =
  vm_name :: string
  vm_mountPath :: string
  vm_subPath :: string
  vm_readOnly :: bool

datatype env_value = EnvValue string | EnvField string | EnvSecretKey string string

record env_var =
  env_name :: string
  env_value :: env_value

record container =
  ctr_name :: string
  ctr_image :: string
  ctr_command :: "string list"
  ctr_args :: "string list"
  ctr_env :: "env_var list"
  ctr_volumeMounts :: "volume_mount list"

record job_spec =
  job_backoffLimit :: int
  job_ttlSecondsAfterFinished :: int
  job_restartPolicy :: string
  job_container :: container
  job_volumes :: "volume list"
  job_imagePullSecrets :: "local_ref list"

record job_status =
  js_active :: int
  js_succeeded :: int
  js_failed :: int
  js_completionTime :: string

type_synonym secret = "(secret_body, unit) object"
type_synonym job = "(job_spec, job_status) object"

end
