(* ===== verification/Sha256.thy ===== *)
theory Sha256
  imports Prelude "HOL-Library.Word"
begin

text \<open>
  Go's \<open>crypto/sha256\<close> and \<open>encoding/hex\<close>, as far as the naming helpers of
  \<open>pkg/controller/helpers.go\<close> use them: the SHA-256 digest of a byte string
  (FIPS 180-4) and its lower-case hexadecimal form. The definitions compute; the lemmas
  the naming functions need are that a digest has 64 hexadecimal characters.
\<close>

unbundle bit_operations_syntax

type_synonym u32 = "32 word"

definition sha_init :: "u32 list" where
  "sha_init = [1779033703, 3144134277, 1013904242, 2773480762,
               1359893119, 2600822924, 528734635, 1541459225]"

definition sha_k :: "u32 list" where
  "sha_k =
    [1116352408, 1899447441, 3049323471, 3921009573, 961987163, 1508970993, 2453635748, 2870763221,
     3624381080, 310598401, 607225278, 1426881987, 1925078388, 2162078206, 2614888103, 3248222580,
     3835390401, 4022224774, 264347078, 604807628, 770255983, 1249150122, 1555081692, 1996064986,
     2554220882, 2821834349, 2952996808, 3210313671, 3336571891, 3584528711, 113926993, 338241895,
     666307205, 773529912, 1294757372, 1396182291, 1695183700, 1986661051, 2177026350, 2456956037,
     2730485921, 2820302411, 3259730800, 3345764771, 3516065817, 3600352804, 4094571909, 275423344,
     430227734, 506948616, 659060556, 883997877, 958139571, 1322822218, 1537002063, 1747873779,
     1955562222, 2024104815, 2227730452, 2361852424, 2428436474, 2756734187, 3204031479, 3329325298]"

definition rotr :: "nat \<Rightarrow> u32 \<Rightarrow> u32" where
  "rotr n x = drop_bit n x OR push_bit (32 - n) x"

text \<open>Big-endian bytes of a number, \<open>n\<close> of them.\<close>

fun be_bytes :: "nat \<Rightarrow> nat \<Rightarrow> nat list" where
  "be_bytes 0 v = []"
| "be_bytes (Suc n) v = be_bytes n (v div 256) @ [v mod 256]"

definition sha_pad :: "nat list \<Rightarrow> nat list" where
  "sha_pad m = m @ [128] @ replicate ((119 - length m mod 64) mod 64) 0 @ be_bytes 8 (8 * length m)"

fun be_words :: "nat list \<Rightarrow> u32 list" where
  "be_words (a # b # c # d # r) =
     of_nat (((a * 256 + b) * 256 + c) * 256 + d) # be_words r"
| "be_words _ = []"

text \<open>The message schedule: 16 words of the block, then 48 derived ones. The list is kept
  newest word first.\<close>

fun sha_sched :: "nat \<Rightarrow> u32 list \<Rightarrow> u32 list" where
  "sha_sched 0 w = w"
| "sha_sched (Suc n) w =
     (let w15 = w ! 14; w2 = w ! 1;
          s0 = rotr 7 w15 XOR rotr 18 w15 XOR drop_bit 3 w15;
          s1 = rotr 17 w2 XOR rotr 19 w2 XOR drop_bit 10 w2
      in sha_sched n ((w ! 15 + s0 + w ! 6 + s1) # w))"

fun sha_rounds :: "(u32 \<times> u32) list \<Rightarrow> u32 list \<Rightarrow> u32 list" where
  "sha_rounds ((k, w) # kws) [a, b, c, d, e, f, g, h] =
     (let s1 = rotr 6 e XOR rotr 11 e XOR rotr 25 e;
          ch = (e AND f) XOR (NOT e AND g);
          t1 = h + s1 + ch + k + w;
          s0 = rotr 2 a XOR rotr 13 a XOR rotr 22 a;
          maj = (a AND b) XOR (a AND c) XOR (b AND c)
      in sha_rounds kws [t1 + (s0 + maj), a, b, c, d + t1, e, f, g])"
| "sha_rounds _ st = st"

definition sha_block :: "u32 list \<Rightarrow> u32 list \<Rightarrow> u32 list" where
  "sha_block block st =
     map2 (+) st (sha_rounds (zip sha_k (rev (sha_sched 48 (rev block)))) st)"

fun sha_blocks :: "nat \<Rightarrow> u32 list \<Rightarrow> u32 list \<Rightarrow> u32 list" where
  "sha_blocks 0 ws st = st"
| "sha_blocks (Suc n) ws st = sha_blocks n (drop 16 ws) (sha_block (take 16 ws) st)"

definition sha256_words :: "string \<Rightarrow> u32 list" where
  "sha256_words s =
     (let ws = be_words (sha_pad (map of_char s)) in sha_blocks (length ws div 16) ws sha_init)"

definition hex_digit :: "nat \<Rightarrow> char" where
  "hex_digit n = (if n < 10 then char_of (48 + n) else char_of (87 + n))"

definition hex_word :: "u32 \<Rightarrow> string" where
  "hex_word w = map (\<lambda>i. hex_digit (unat (drop_bit (4 * i) w AND 15))) [7, 6, 5, 4, 3, 2, 1, 0]"

text \<open>\<open>hex.EncodeToString(sha256.Sum256([]byte(s)))\<close>.\<close>

definition sha256_hex :: "string \<Rightarrow> string" where
  "sha256_hex s = concat (map hex_word (sha256_words s))"

text \<open>The \<open>[:8]\<close> prefix the program uses.\<close>

definition hash8 :: "string \<Rightarrow> string" where
  "hash8 s = take 8 (sha256_hex s)"

lemma length_sha_rounds: "length st = 8 \<Longrightarrow> length (sha_rounds kws st) = 8"
  by (induction kws st rule: sha_rounds.induct) (simp_all add: Let_def)

lemma length_sha_block: "length st = 8 \<Longrightarrow> length (sha_block b st) = 8"
  by (simp add: sha_block_def length_sha_rounds)

lemma length_sha_blocks: "length st = 8 \<Longrightarrow> length (sha_blocks n ws st) = 8"
  by (induction n ws st rule: sha_blocks.induct) (simp_all add: length_sha_block)

lemma length_sha256_words: "length (sha256_words s) = 8"
  by (simp add: sha256_words_def Let_def length_sha_blocks sha_init_def)

lemma length_hex_word [simp]: "length (hex_word w) = 8"
  by (simp add: hex_word_def)

lemma length_sha256_hex: "length (sha256_hex s) = 64"
proof -
  have "length (concat (map hex_word ws)) = 8 * length ws" for ws
    by (induction ws) simp_all
  then show ?thesis by (simp add: sha256_hex_def length_sha256_words)
qed

lemma length_hash8 [simp]: "length (hash8 s) = 8"
  by (simp add: hash8_def length_sha256_hex)

lemma hex_digit_no_sep: "n < 16 \<Longrightarrow> hex_digit n \<noteq> CHR ''-'' \<and> hex_digit n \<noteq> CHR ''/''"
proof -
  assume "n < 16"
  then have "n \<in> set [0..<16]" by simp
  moreover have "\<forall>n \<in> set [0..<16]. hex_digit n \<noteq> CHR ''-'' \<and> hex_digit n \<noteq> CHR ''/''"
    by code_simp
  ultimately show ?thesis by blast
qed

lemma unat_nibble: "unat (x AND 15 :: u32) < 16"
  using word_and_le1 [of x 15] by (simp add: word_le_nat_alt)

lemma hex_word_no_sep: "CHR ''-'' \<notin> set (hex_word w) \<and> CHR ''/'' \<notin> set (hex_word w)"
proof -
  have "hex_digit (unat (v AND 15)) \<noteq> CHR ''-''" "hex_digit (unat (v AND 15)) \<noteq> CHR ''/''" for v :: u32
    using hex_digit_no_sep [OF unat_nibble [of v]] by auto
  then show ?thesis
    unfolding hex_word_def set_map by fastforce
qed

lemma sha256_hex_no_sep: "CHR ''-'' \<notin> set (sha256_hex s) \<and> CHR ''/'' \<notin> set (sha256_hex s)"
  using hex_word_no_sep by (auto simp: sha256_hex_def)

lemma hash8_no_sep: "CHR ''-'' \<notin> set (hash8 s) \<and> CHR ''/'' \<notin> set (hash8 s)"
  using sha256_hex_no_sep [of s] by (auto simp: hash8_def dest: in_set_takeD)

end
