(* ===== verification/Naming.thy ===== *)
theory Naming
  imports Helpers
begin

text \<open>
  Properties of the naming and resource helpers of \<open>pkg/controller/helpers.go\<close>.
\<close>

section \<open>Decimal numerals\<close>

definition digit :: "char \<Rightarrow> bool" where
  "digit c \<longleftrightarrow> c \<in> set ''0123456789''"

lemma digit_char_of: "n < (10::nat) \<Longrightarrow> digit (char_of (48 + n))"
proof -
  assume "n < 10"
  moreover have "\<forall>n \<in> set [0..<10::nat]. digit (char_of (48 + n))"
    unfolding digit_def by code_simp
  ultimately show ?thesis by simp
qed

lemma natDigits_small: "n < 10 \<Longrightarrow> natDigits n = [char_of (48 + n)]"
  by (subst natDigits.simps) simp

lemma natDigits_large: "\<not> n < 10 \<Longrightarrow> natDigits n = natDigits (n div 10) @ [char_of (48 + n mod 10)]"
  by (subst natDigits.simps) simp

lemma natDigits_digits: "list_all digit (natDigits n)"
proof (induction n rule: natDigits.induct)
  case (1 n)
  show ?case
  proof (cases "n < 10")
    case True
    then show ?thesis by (simp add: natDigits_small digit_char_of)
  next
    case False
    then show ?thesis by (simp add: natDigits_large digit_char_of "1.IH")
  qed
qed

definition digitsVal :: "string \<Rightarrow> nat" where
  "digitsVal s = foldl (\<lambda>a c. 10 * a + (of_char c - 48)) 0 s"

lemma digitsVal_snoc: "digitsVal (s @ [c]) = 10 * digitsVal s + (of_char c - 48)"
  by (simp add: digitsVal_def)

lemma of_char_digit: "n < 10 \<Longrightarrow> of_char (char_of (48 + n) :: char) = (48 + n :: nat)"
  by (simp add: take_bit_eq_mod)

lemma digitsVal_natDigits: "digitsVal (natDigits n) = n"
proof (induction n rule: natDigits.induct)
  case (1 n)
  show ?case
  proof (cases "n < 10")
    case True
    then show ?thesis
      using digitsVal_snoc [of "[]"] by (simp add: natDigits_small of_char_digit digitsVal_def)
  next
    case False
    have "digitsVal (natDigits n) = 10 * (n div 10) + (of_char (char_of (48 + n mod 10) :: char) - 48)"
      unfolding natDigits_large [OF False] digitsVal_snoc "1.IH" [OF False] ..
    also have "\<dots> = 10 * (n div 10) + n mod 10"
      using of_char_digit [of "n mod 10"] by simp
    finally show ?thesis by simp
  qed
qed

lemma natDigits_inj: "natDigits m = natDigits n \<Longrightarrow> m = n"
  by (metis digitsVal_natDigits)

lemma itoa_nonneg: "0 \<le> i \<Longrightarrow> itoa i = natDigits (nat i)"
  by (simp add: itoa_def)

lemma itoa_inj_nonneg: "0 \<le> i \<Longrightarrow> 0 \<le> j \<Longrightarrow> itoa i = itoa j \<Longrightarrow> i = j"
  using natDigits_inj [of "nat i" "nat j"] by (simp add: itoa_nonneg)

lemma itoa_no_dash: "0 \<le> i \<Longrightarrow> CHR ''-'' \<notin> set (itoa i)"
proof -
  assume "0 \<le> i"
  moreover have "\<not> digit (CHR ''-'')"
    by (simp add: digit_def)
  ultimately show ?thesis
    using natDigits_digits [of "nat i"] unfolding itoa_nonneg [OF \<open>0 \<le> i\<close>] list_all_iff by blast
qed

text \<open>Splitting at the last separator and at the first one.\<close>

lemma split_first:
  assumes "a @ [c] @ x = b @ [c] @ y" and "c \<notin> set a" and "c \<notin> set b"
  shows "a = b \<and> x = y"
  using assms
proof (induction a arbitrary: b)
  case Nil
  then show ?case by (cases b) auto
next
  case (Cons z a)
  then show ?case by (cases b) auto
qed

lemma split_last:
  assumes "a @ [c] @ x = b @ [c] @ y" and "c \<notin> set x" and "c \<notin> set y"
  shows "a = b \<and> x = y"
proof -
  have "rev x @ [c] @ rev a = rev y @ [c] @ rev b"
    using arg_cong [OF assms(1), of rev] by simp
  then have "rev x = rev y \<and> rev a = rev b"
    by (rule split_first) (use assms in auto)
  then show ?thesis by simp
qed

section \<open>Lengths\<close>

lemma truncateName_short: "length name \<le> max 10 n \<Longrightarrow> truncateName name n = name"
  by (simp add: truncateName_def Let_def max_def split: if_splits)

lemma truncateName_long:
  "max 10 n < length name \<Longrightarrow> truncateName name n = take (max 10 n - 9) name @ ''-'' @ hash8 name"
  by (simp add: truncateName_def Let_def max_def split: if_splits)

lemma length_truncateName: "length (truncateName name n) \<le> max 10 n"
proof (cases "length name \<le> max 10 n")
  case False
  then have "max 10 n < length name" by linarith
  then show ?thesis
    unfolding truncateName_long [OF \<open>max 10 n < length name\<close>] by simp
qed (simp add: truncateName_short)

text \<open>Two names truncate to the same string only if they are equal or agree on the kept
  prefix and on the hash.\<close>

lemma truncateName_eq_cases:
  assumes "truncateName a n = truncateName b n"
    and "length a > max 10 n" and "length b > max 10 n"
  shows "take (max 10 n - 9) a = take (max 10 n - 9) b \<and> hash8 a = hash8 b"
  using assms by (auto simp: truncateName_long)

section \<open>RenderTask names\<close>

lemma releaseRenderTaskName_short:
  assumes "length rel \<le> 233"
  shows "releaseRenderTaskName ns rel tgt g =
    ''render-rel-'' @ rel @ ''-'' @ hash8 (ns @ ''/'' @ rel @ ''-'' @ tgt @ ''-'' @ itoa g)"
  unfolding releaseRenderTaskName_def Let_def
  by (rule truncateName_short) (use assms in \<open>simp add: maxK8sObjectNameLen_def\<close>)

text \<open>The text that is hashed determines the namespace, the target and the generation.\<close>

lemma renderTask_input_inj:
  assumes "ns @ ''/'' @ rel @ ''-'' @ tgt @ ''-'' @ itoa g =
      ns' @ ''/'' @ rel @ ''-'' @ tgt' @ ''-'' @ itoa g'"
    and "CHR ''/'' \<notin> set ns" and "CHR ''/'' \<notin> set ns'" and "0 \<le> g" and "0 \<le> g'"
  shows "ns = ns' \<and> tgt = tgt' \<and> g = g'"
proof -
  have "ns = ns' \<and> rel @ ''-'' @ tgt @ ''-'' @ itoa g = rel @ ''-'' @ tgt' @ ''-'' @ itoa g'"
    using split_first [of ns "CHR ''/''" "rel @ ''-'' @ tgt @ ''-'' @ itoa g" ns'
        "rel @ ''-'' @ tgt' @ ''-'' @ itoa g'"] assms(1-3) by simp
  then have ns: "ns = ns'" and "tgt @ ''-'' @ itoa g = tgt' @ ''-'' @ itoa g'"
    by auto
  then have "tgt = tgt' \<and> itoa g = itoa g'"
    using split_last [of tgt "CHR ''-''" "itoa g" tgt' "itoa g'"] itoa_no_dash assms(4,5) by simp
  with ns show ?thesis
    using itoa_inj_nonneg assms(4,5) by blast
qed

lemma releaseRenderTaskName_eq_release:
  assumes "releaseRenderTaskName ns rel tgt g = releaseRenderTaskName ns' rel' tgt' g'"
    and "length rel \<le> 233" and "length rel' \<le> 233"
  shows "rel = rel' \<and> hash8 (ns @ ''/'' @ rel @ ''-'' @ tgt @ ''-'' @ itoa g) =
    hash8 (ns' @ ''/'' @ rel' @ ''-'' @ tgt' @ ''-'' @ itoa g')"
proof -
  let ?h = "hash8 (ns @ ''/'' @ rel @ ''-'' @ tgt @ ''-'' @ itoa g)"
  let ?h' = "hash8 (ns' @ ''/'' @ rel' @ ''-'' @ tgt' @ ''-'' @ itoa g')"
  have "rel @ ''-'' @ ?h = rel' @ ''-'' @ ?h'"
    using assms(1) unfolding releaseRenderTaskName_short [OF assms(2)] releaseRenderTaskName_short [OF assms(3)]
    by (simp only: same_append_eq)
  then show ?thesis
    using split_last [of rel "CHR ''-''" ?h rel' ?h'] hash8_no_sep by force
qed

section \<open>Chart URLs and registry hosts\<close>

lemma renderChartURL_plain:
  assumes "\<not> hasPrefix host ''oci://''" and "\<not> hasSuffix host ''/''" and "host \<noteq> ''''"
  shows "renderChartURL host repo tag = ''oci://'' @ host @ ''/'' @ repo @ '':'' @ tag"
proof -
  have "\<not> hasSuffix (''oci://'' @ host) ''/''"
  proof
    assume "hasSuffix (''oci://'' @ host) ''/''"
    then obtain t where "''oci://'' @ host = t @ ''/''"
      unfolding hasSuffix_iff by blast
    then have "last host = CHR ''/''"
      using assms(3) by (metis last_appendR last_snoc)
    then have "host = butlast host @ ''/''"
      using assms(3) append_butlast_last_id by metis
    then show False
      using assms(2) hasSuffix_iff by blast
  qed
  then show ?thesis
    using assms(1) by (simp add: renderChartURL_def)
qed

lemma registryHost_path:
  assumes "CHR ''/'' \<notin> set host" and "\<not> hasPrefix (host @ ''/'' @ path) ''oci://''"
  shows "registryHost (host @ ''/'' @ path) = toLower host"
  using assms cutBefore_split [of "CHR ''/''" host path] by (simp add: registryHost_def)

lemma registryHost_oci:
  assumes "CHR ''/'' \<notin> set host"
  shows "registryHost (''oci://'' @ host @ ''/'' @ path) = toLower host"
  using assms cutBefore_split [of "CHR ''/''" host path]
  by (simp add: registryHost_def trimPrefix_def hasPrefix_def)

lemma registryHost_lower: "toLower (registryHost r) = registryHost r"
  by (simp add: registryHost_def Let_def split: prod.splits)

section \<open>Resources\<close>

lemma resolveResources_relaxed:
  "\<exists>resolved. resolveResources resources pulls False = Inr resolved"
  by (induction resources) (auto simp: Let_def split: sum.splits)

lemma resolveResources_keys:
  "resolveResources resources pulls strict = Inr resolved \<Longrightarrow> map fst resolved = map fst resources"
  by (induction resources arbitrary: resolved)
     (auto simp: Let_def split: sum.splits if_splits)

lemma resolveResources_strict_iff:
  "(\<exists>resolved. resolveResources resources pulls strict = Inr resolved) \<longleftrightarrow>
   (strict \<longrightarrow> (\<forall>(name, ra) \<in> set resources. map_of pulls (registryHost (ra_repository ra)) \<noteq> None))"
proof (induction resources)
  case (Cons p resources)
  obtain name ra where p: "p = (name, ra)" by (cases p)
  show ?case
  proof (cases "strict \<and> map_of pulls (registryHost (ra_repository ra)) = None")
    case True
    then show ?thesis by (auto simp: p Let_def)
  next
    case False
    have "(\<exists>resolved. resolveResources (p # resources) pulls strict = Inr resolved) \<longleftrightarrow>
      (\<exists>resolved. resolveResources resources pulls strict = Inr resolved)"
      using False by (auto simp: p Let_def split: sum.splits)
    also have "\<dots> \<longleftrightarrow> (strict \<longrightarrow>
        (\<forall>(name, ra) \<in> set resources. map_of pulls (registryHost (ra_repository ra)) \<noteq> None))"
      by (rule Cons.IH)
    finally show ?thesis using False unfolding p by (simp only: list.set) auto
  qed
qed simp

lemma resolveResources_entry:
  assumes "resolveResources resources pulls strict = Inr resolved" and "(name, ra) \<in> set resources"
  shows "(name, \<lparr>rra_repository = ra_repository ra, rra_insecure = ra_insecure ra, rra_tag = ra_tag ra,
      rra_helm = ra_helm ra,
      rra_pullSecretName = (case map_of pulls (registryHost (ra_repository ra)) of None \<Rightarrow> '''' | Some p \<Rightarrow> p)\<rparr>)
    \<in> set resolved"
  using assms
proof (induction resources arbitrary: resolved)
  case (Cons p resources)
  obtain name' ra' where p: "p = (name', ra')" by (cases p)
  from Cons.prems(1) obtain rest where rest: "resolveResources resources pulls strict = Inr rest"
    by (auto simp: p Let_def split: sum.splits if_splits)
  show ?case
    using Cons.IH [OF rest] Cons.prems rest by (auto simp: p Let_def split: if_splits)
qed simp

text \<open>The hash over the pull secrets does not depend on the iteration order of the map.\<close>

lemma map_of_perm:
  assumes "mset xs = mset ys" and "distinct (map fst xs)"
  shows "map_of xs = map_of ys"
proof
  fix k
  have d: "distinct (map fst ys)"
    using assms by (metis mset_eq_imp_distinct_iff mset_map)
  have "map_of xs k = Some v \<longleftrightarrow> map_of ys k = Some v" for v
    using assms d mset_eq_setD [OF assms(1)] by (simp add: map_of_eq_Some_iff)
  then show "map_of xs k = map_of ys k"
    by (metis not_None_eq)
qed

lemma sort_perm: "mset xs = mset ys \<Longrightarrow> sort xs = sort ys"
  by (metis properties_for_sort mset_sort sorted_sort)

lemma pullSecretsTag_perm:
  assumes "mset r = mset r'" and "is_gomap r"
  shows "pullSecretsTag r = pullSecretsTag r'"
proof -
  have "sort (map fst r) = sort (map fst r')"
    using assms(1) by (intro sort_perm) simp
  moreover have "map_of r = map_of r'"
    using assms map_of_perm by (auto simp: is_gomap_def)
  ultimately show ?thesis by (simp add: pullSecretsTag_def)
qed

section \<open>The guarantees\<close>

text \<open>Every generated name fits the limits of Kubernetes: RenderTask names have at most 253 characters,
  and names of RenderArtifacts and RenderBindings at most 63.\<close>

theorem generated_names_fit:
  "length (releaseRenderTaskName ns rel tgt g) \<le> 253 \<and> length (targetRenderTaskName tgt v) \<le> 253 \<and>
   length (renderArtifactName ns base repo tag) \<le> 63 \<and> length (renderBindingName art tgt) \<le> 63"
  using length_truncateName [of _ 253]
  by (simp add: releaseRenderTaskName_def targetRenderTaskName_def renderArtifactName_def renderBindingName_def
      maxK8sObjectNameLen_def Let_def)

text \<open>Two release RenderTasks of one namespace share a name only when they are for the same release,
  target and generation, or when two different texts have the same 32-bit hash prefix.\<close>

theorem releaseRenderTaskName_distinct:
  assumes "releaseRenderTaskName ns rel tgt g = releaseRenderTaskName ns' rel' tgt' g'"
    and "length rel \<le> 233" "length rel' \<le> 233" "CHR ''/'' \<notin> set ns" "CHR ''/'' \<notin> set ns'" "0 \<le> g" "0 \<le> g'"
  shows "(ns = ns' \<and> rel = rel' \<and> tgt = tgt' \<and> g = g') \<or>
    (\<exists>x y. x \<noteq> y \<and> hash8 x = hash8 y \<and> x = ns @ ''/'' @ rel @ ''-'' @ tgt @ ''-'' @ itoa g \<and>
       y = ns' @ ''/'' @ rel' @ ''-'' @ tgt' @ ''-'' @ itoa g')"
proof (cases "ns @ ''/'' @ rel @ ''-'' @ tgt @ ''-'' @ itoa g = ns' @ ''/'' @ rel' @ ''-'' @ tgt' @ ''-'' @ itoa g'")
  case True
  moreover have "rel = rel'" using releaseRenderTaskName_eq_release [OF assms(1-3)] by blast
  ultimately show ?thesis using renderTask_input_inj [of ns rel tgt g ns' tgt' g'] assms(4-7) by simp
next
  case False
  then show ?thesis using releaseRenderTaskName_eq_release [OF assms(1-3)] by blast
qed

text \<open>Bootstrap RenderTasks of different targets or different bootstrap versions have different names
  (for target names of at most 200 characters, where no name is truncated).\<close>

theorem targetRenderTaskName_inj:
  assumes "targetRenderTaskName tgt v = targetRenderTaskName tgt' v'"
    and "length tgt \<le> 200" "length tgt' \<le> 200" "0 \<le> v" "v < 2 ^ 63" "0 \<le> v'" "v' < 2 ^ 63"
  shows "tgt = tgt' \<and> v = v'"
proof -
  have digits: "length (natDigits n) \<le> Suc k" if "n < 10 ^ Suc k" for n k
    using that
  proof (induction k arbitrary: n)
    case (Suc k)
    show ?case
    proof (cases "n < 10")
      case False
      have "n div 10 < 10 ^ Suc k" using Suc.prems by (simp add: less_mult_imp_div_less)
      then show ?thesis using Suc.IH False by (simp add: natDigits_large)
    qed (simp add: natDigits_small)
  qed (simp add: natDigits_small)
  have short: "targetRenderTaskName t w = ''render-tgt-'' @ t @ ''-'' @ itoa w" if "length t \<le> 200" "0 \<le> w" "w < 2 ^ 63" for t w
  proof -
    have "nat w < 2 ^ 63" using that nat_less_iff by force
    then have "nat w < 10 ^ Suc 18" by simp
    then have "length (itoa w) \<le> 19" using digits [of "nat w" 18] that(2) by (simp add: itoa_nonneg)
    then show ?thesis
      unfolding targetRenderTaskName_def by (intro truncateName_short) (use that in \<open>simp add: maxK8sObjectNameLen_def\<close>)
  qed
  have "tgt @ ''-'' @ itoa v = tgt' @ ''-'' @ itoa v'"
    using assms(1) short [OF assms(2,4,5)] short [OF assms(3,6,7)] by simp
  then have "tgt = tgt' \<and> itoa v = itoa v'"
    using split_last [of tgt "CHR ''-''" "itoa v" tgt' "itoa v'"] itoa_no_dash assms(4,6) by simp
  then show ?thesis using itoa_inj_nonneg assms(4,6) by blast
qed

lemma noslash_suffix: "CHR ''/'' \<notin> set host \<Longrightarrow> host \<noteq> '''' \<Longrightarrow> \<not> hasSuffix (pre @ host) ''/''"
  unfolding hasSuffix_iff by (metis in_set_conv_decomp last_appendR last_in_set last_snoc)

lemma noslash_prefix: "CHR ''/'' \<notin> set host \<Longrightarrow> \<not> hasPrefix host ''oci://''"
  unfolding hasPrefix_iff by auto

lemma renderChartURL_forms:
  assumes "CHR ''/'' \<notin> set host" "host \<noteq> ''''"
    and "base \<in> {host, host @ ''/'', ''oci://'' @ host, ''oci://'' @ host @ ''/''}"
  shows "renderChartURL base repo tag = ''oci://'' @ host @ ''/'' @ repo @ '':'' @ tag"
proof -
  have "\<not> hasPrefix (host @ ''/'') ''oci://''"
  proof
    assume "hasPrefix (host @ ''/'') ''oci://''"
    then obtain t where "host @ ''/'' = ''oci://'' @ t" unfolding hasPrefix_iff by blast
    then have "host @ [CHR ''/''] @ '''' = ''oci:'' @ [CHR ''/''] @ ''/'' @ t" by simp
    then show False using split_first [of host "CHR ''/''" "''''" "''oci:''" "''/'' @ t"] assms(1) by simp
  qed
  moreover have "trimSuffix (''oci://'' @ host) ''/'' = ''oci://'' @ host"
    by (rule trimSuffix_no [OF noslash_suffix [OF assms(1,2)]])
  moreover have "trimSuffix (''oci://'' @ host @ ''/'') ''/'' = ''oci://'' @ host"
    using trimSuffix_append [of "''oci://'' @ host" "''/''"] by (simp only: append_assoc)
  moreover have "hasPrefix (''oci://'' @ x) ''oci://''" for x by (simp add: hasPrefix_def)
  ultimately show ?thesis
    using assms(3) noslash_prefix [OF assms(1)] unfolding renderChartURL_def Let_def
    by (elim insertE emptyE) (simp_all only: if_True if_False simp_thms append_assoc)
qed

text \<open>Chart URLs are normalised: with or without the scheme and a trailing slash, the base URL of a
  registry gives the same chart URL, whose registry host is the registry's host name in lower case.\<close>

theorem renderChartURL_roundtrip:
  assumes "CHR ''/'' \<notin> set host" "host \<noteq> ''''"
    and "base \<in> {host, host @ ''/'', ''oci://'' @ host, ''oci://'' @ host @ ''/''}"
  shows "renderChartURL base repo tag = renderChartURL host repo tag \<and>
    registryHost (renderChartURL base repo tag) = toLower host"
  using renderChartURL_forms [OF assms] renderChartURL_forms [OF assms(1,2), of host] registryHost_oci [OF assms(1)]
  by simp

text \<open>In strict mode the resources of a component resolve exactly when every one of them has a
  RegistryBinding for its host, in relaxed mode always; each resolved resource keeps its coordinates
  and gets the pull secret of its host.\<close>

theorem resolveResources_correct:
  "(\<exists>resolved. resolveResources resources pulls strict = Inr resolved) =
     (strict \<longrightarrow> (\<forall>(name, ra) \<in> set resources. map_of pulls (registryHost (ra_repository ra)) \<noteq> None)) \<and>
   (\<forall>resolved name ra. resolveResources resources pulls strict = Inr resolved \<longrightarrow> (name, ra) \<in> set resources \<longrightarrow>
     map fst resolved = map fst resources \<and>
     (name, \<lparr>rra_repository = ra_repository ra, rra_insecure = ra_insecure ra, rra_tag = ra_tag ra, rra_helm = ra_helm ra,
        rra_pullSecretName = (case map_of pulls (registryHost (ra_repository ra)) of None \<Rightarrow> '''' | Some p \<Rightarrow> p)\<rparr>)
       \<in> set resolved)"
  using resolveResources_strict_iff resolveResources_keys resolveResources_entry by blast

end
