(* ===== verification/Conflicts.thy ===== *)
theory Conflicts
  imports Naming
begin

text \<open>
  \<open>resolveReleaseConflicts\<close> of \<open>pkg/controller/target_controller.go\<close>: of the releases bound to a
  target, one per unique name is kept (the highest priority, ties by binding key), and the
  kept ones are then walked in priority order, dropping a release whose anti-affinity
  selector matches an already accepted release or that an accepted release's selector
  matches. \<open>metav1.LabelSelectorAsSelector\<close> is a parameter \<open>asSelector\<close>.
\<close>

record release_info =
  inf_bindingKey :: string
  inf_name :: string
  inf_uniqueName :: string
  inf_release :: release
  inf_cv :: component_version
  inf_rtName :: string
  inf_chartURL :: string
  inf_artifactName :: string
  inf_artifactBindingName :: string

type_synonym as_selector = "label_selector \<Rightarrow> go_error + (labels \<Rightarrow> bool)"

definition byPriority :: "release_info \<Rightarrow> release_info \<Rightarrow> bool" where
  "byPriority a b =
     (if rel_priority (spec (inf_release a)) \<noteq> rel_priority (spec (inf_release b))
      then rel_priority (spec (inf_release a)) > rel_priority (spec (inf_release b))
      else inf_bindingKey a < inf_bindingKey b)"

interpretation prio: strict_total byPriority
proof
  show "\<And>x y. byPriority x y \<Longrightarrow> \<not> byPriority y x"
    by (auto simp: byPriority_def split: if_splits)
  show "\<And>x y z. \<not> byPriority x y \<Longrightarrow> \<not> byPriority y z \<Longrightarrow> \<not> byPriority x z"
    by (auto simp: byPriority_def split: if_splits)
qed

section \<open>Step A: one release per unique name\<close>

definition setUniqueName :: "release_info \<Rightarrow> release_info" where
  "setUniqueName ri = ri\<lparr>inf_uniqueName := effectiveUniqueName (inf_release ri) (inf_cv ri)\<rparr>"

lemma setUniqueName_simps [simp]:
  "inf_release (setUniqueName ri) = inf_release ri" "inf_cv (setUniqueName ri) = inf_cv ri"
  "inf_bindingKey (setUniqueName ri) = inf_bindingKey ri"
  "inf_uniqueName (setUniqueName ri) = effectiveUniqueName (inf_release ri) (inf_cv ri)"
  by (simp_all add: setUniqueName_def)

fun namedGroups :: "release_info list \<Rightarrow> release_info list gomap \<Rightarrow> release_info list gomap" where
  "namedGroups [] groups = groups"
| "namedGroups (ri # releases) groups =
     (let ri' = setUniqueName ri; uname = inf_uniqueName ri'
      in namedGroups releases
           (gomap_put uname ((case map_of groups uname of None \<Rightarrow> [] | Some g \<Rightarrow> g) @ [ri']) groups))"

definition conflictMessage :: "string \<Rightarrow> release_info \<Rightarrow> release_info \<Rightarrow> string" where
  "conflictMessage uniqueName winner loser =
     ''binding '' @ inf_bindingKey loser @ '' filtered: uniqueName '' @ goQuote uniqueName
       @ '' conflict, lower priority than '' @ inf_bindingKey winner"

fun deduplicate ::
  "release_info list gomap \<Rightarrow> string list \<Rightarrow> release_info list \<times> string list" where
  "deduplicate groups [] = ([], [])"
| "deduplicate groups (uniqueName # uniqueNames) =
     (case deduplicate groups uniqueNames of (accepted, skipped) \<Rightarrow>
      case sortSlice byPriority (case map_of groups uniqueName of None \<Rightarrow> [] | Some g \<Rightarrow> g) of
        [] \<Rightarrow> (accepted, skipped)
      | winner # losers \<Rightarrow>
          (winner # accepted, map (conflictMessage uniqueName winner) losers @ skipped))"

section \<open>Step B: anti-affinity\<close>

fun findConflict ::
  "as_selector \<Rightarrow> (labels \<Rightarrow> bool) option \<Rightarrow> release_info \<Rightarrow> release_info list \<Rightarrow> string" where
  "findConflict asSelector riSelector ri [] = ''''"
| "findConflict asSelector riSelector ri (other # resolved) =
     (if (case riSelector of None \<Rightarrow> False | Some sel \<Rightarrow> sel (om_labels (metadata (inf_release other))))
      then inf_bindingKey other
      else if (case rel_antiAffinity (spec (inf_release other)) of
                 None \<Rightarrow> False
               | Some aa \<Rightarrow> (case asSelector aa of
                   Inl _ \<Rightarrow> False
                 | Inr otherSel \<Rightarrow> otherSel (om_labels (metadata (inf_release ri)))))
      then inf_bindingKey other
      else findConflict asSelector riSelector ri resolved)"

fun antiAffinityWalk ::
  "as_selector \<Rightarrow> release_info list \<Rightarrow> string list \<Rightarrow> release_info list \<Rightarrow> release_info list \<times> string list" where
  "antiAffinityWalk asSelector resolved skipped [] = (resolved, skipped)"
| "antiAffinityWalk asSelector resolved skipped (ri # accepted) =
     (case (case rel_antiAffinity (spec (inf_release ri)) of
              None \<Rightarrow> Inr None
            | Some aa \<Rightarrow> (case asSelector aa of Inl err \<Rightarrow> Inl err | Inr sel \<Rightarrow> Inr (Some sel))) of
        Inl err \<Rightarrow>
          antiAffinityWalk asSelector resolved
            (skipped @ [''binding '' @ inf_bindingKey ri @ '' filtered: invalid antiAffinity selector: ''
                        @ error_text err]) accepted
      | Inr riSelector \<Rightarrow>
          (let conflict = findConflict asSelector riSelector ri resolved
           in if conflict \<noteq> '''' then
                antiAffinityWalk asSelector resolved
                  (skipped @ [''binding '' @ inf_bindingKey ri @ '' filtered: anti-affinity conflict with ''
                              @ conflict]) accepted
              else antiAffinityWalk asSelector (resolved @ [ri]) skipped accepted))"

definition resolveReleaseConflicts ::
  "as_selector \<Rightarrow> release_info list \<Rightarrow> release_info list \<times> string list" where
  "resolveReleaseConflicts asSelector releases =
     (if releases = [] then ([], [])
      else let groups = namedGroups releases [];
               uniqueNames = sort (map fst groups)
           in case deduplicate groups uniqueNames of (accepted, skipped) \<Rightarrow>
                antiAffinityWalk asSelector [] skipped (sortSlice byPriority accepted))"

section \<open>The groups\<close>

lemma map_of_namedGroups:
  "map_of (namedGroups rs g) u =
     (let l = filter (\<lambda>ri. inf_uniqueName ri = u) (map setUniqueName rs)
      in if l = [] then map_of g u else Some ((case map_of g u of None \<Rightarrow> [] | Some x \<Rightarrow> x) @ l))"
  by (induction rs g rule: namedGroups.induct) (auto simp: Let_def split: option.splits if_splits)

lemma is_gomap_namedGroups: "is_gomap g \<Longrightarrow> is_gomap (namedGroups rs g)"
  by (induction rs g rule: namedGroups.induct) (auto simp: Let_def is_gomap_put)

lemma keys_namedGroups:
  "set (map fst (namedGroups rs g)) = set (map fst g) \<union> inf_uniqueName ` setUniqueName ` set rs"
  by (induction rs g rule: namedGroups.induct) (auto simp: Let_def keys_gomap_put simp del: set_map)

text \<open>The named releases that carry unique name \<open>u\<close>, and the winner among them.\<close>

definition nameGroup :: "release_info list \<Rightarrow> string \<Rightarrow> release_info list" where
  "nameGroup rs u = filter (\<lambda>ri. inf_uniqueName ri = u) (map setUniqueName rs)"

definition winner :: "release_info list \<Rightarrow> string \<Rightarrow> release_info" where
  "winner rs u = hd (sortSlice byPriority (nameGroup rs u))"

definition names :: "release_info list \<Rightarrow> string list" where
  "names rs = sort (map fst (namedGroups rs []))"

lemma set_names: "set (names rs) = inf_uniqueName ` setUniqueName ` set rs"
  using keys_namedGroups [of rs "[]"] by (simp add: names_def)

lemma distinct_names: "distinct (names rs)"
  using is_gomap_namedGroups [of "[]" rs] by (simp add: names_def is_gomap_def)

lemma group_nonempty_iff: "nameGroup rs u \<noteq> [] \<longleftrightarrow> u \<in> set (names rs)"
  by (auto simp: nameGroup_def set_names filter_empty_conv image_image)

lemma map_of_groups: "u \<in> set (names rs) \<Longrightarrow> map_of (namedGroups rs []) u = Some (nameGroup rs u)"
  using group_nonempty_iff [of rs u] by (simp add: map_of_namedGroups nameGroup_def Let_def)

lemma sortSlice_group:
  assumes "u \<in> set (names rs)"
  shows "sortSlice byPriority (nameGroup rs u) = winner rs u # tl (sortSlice byPriority (nameGroup rs u))"
proof -
  have "sortSlice byPriority (nameGroup rs u) \<noteq> []"
    using assms group_nonempty_iff [of rs u] length_sortSlice [of byPriority "nameGroup rs u"]
    by (metis length_0_conv)
  then show ?thesis by (simp add: winner_def)
qed

lemma winner_in_group: "u \<in> set (names rs) \<Longrightarrow> winner rs u \<in> set (nameGroup rs u)"
  by (metis list.set_intros(1) set_sortSlice sortSlice_group)

lemma winner_unique_name: "u \<in> set (names rs) \<Longrightarrow> inf_uniqueName (winner rs u) = u"
  using winner_in_group [of u rs] by (simp add: nameGroup_def)

lemma winner_best: "u \<in> set (names rs) \<Longrightarrow> x \<in> set (nameGroup rs u) \<Longrightarrow> \<not> byPriority x (winner rs u)"
  unfolding winner_def by (rule prio.hd_sortSlice_minimal) auto

lemma deduplicate_accepted:
  assumes "set us \<subseteq> set (names rs)"
  shows "fst (deduplicate (namedGroups rs []) us) = map (winner rs) us"
  using assms
proof (induction us)
  case (Cons u us)
  then have u: "u \<in> set (names rs)" by simp
  obtain ls where "sortSlice byPriority (nameGroup rs u) = winner rs u # ls"
    using sortSlice_group [OF u] by blast
  then show ?case
    using Cons by (cases "deduplicate (namedGroups rs []) us") (simp add: map_of_groups [OF u])
qed simp

lemma deduplicate_length:
  assumes "set us \<subseteq> set (names rs)"
  shows "length (fst (deduplicate (namedGroups rs []) us)) + length (snd (deduplicate (namedGroups rs []) us))
    = sum_list (map (\<lambda>u. length (nameGroup rs u)) us)"
  using assms
proof (induction us)
  case (Cons u us)
  then have u: "u \<in> set (names rs)" by simp
  obtain ls where ls: "sortSlice byPriority (nameGroup rs u) = winner rs u # ls"
    using sortSlice_group [OF u] by blast
  then have "length (nameGroup rs u) = Suc (length ls)"
    by (metis length_Cons length_sortSlice)
  then show ?case
    using Cons ls by (cases "deduplicate (namedGroups rs []) us") (simp add: map_of_groups [OF u])
qed simp

lemma sum_groups: "distinct us \<Longrightarrow> inf_uniqueName ` setUniqueName ` set rs \<subseteq> set us \<Longrightarrow>
  sum_list (map (\<lambda>u. length (nameGroup rs u)) us) = length rs"
proof (induction rs)
  case Nil
  then show ?case by (simp add: nameGroup_def sum_list_0)
next
  case (Cons r rs)
  let ?u = "inf_uniqueName (setUniqueName r)"
  have "length (nameGroup (r # rs) u) = (if u = ?u then 1 else 0) + length (nameGroup rs u)" for u
    by (simp add: nameGroup_def)
  then have "sum_list (map (\<lambda>u. length (nameGroup (r # rs) u)) us) =
      sum_list (map (\<lambda>u. if u = ?u then 1 else 0) us) + sum_list (map (\<lambda>u. length (nameGroup rs u)) us)"
    by (simp add: sum_list_addf)
  moreover have "sum_list (map (\<lambda>u. if u = ?u then 1 else (0::nat)) us) = count_list us ?u"
    by (induction us) auto
  moreover have "count_list us ?u = 1"
    using Cons.prems by (auto simp: distinct_count_atmost_1 count_list_0_iff)
      (metis One_nat_def count_mset distinct_count_atmost_1)
  ultimately show ?case using Cons by simp
qed

section \<open>The walk\<close>

text \<open>The selector of a release: \<open>None\<close> when it does not parse, \<open>Some None\<close> when there is none.\<close>

definition ownSelector :: "as_selector \<Rightarrow> release_info \<Rightarrow> (labels \<Rightarrow> bool) option option" where
  "ownSelector asSelector ri =
     (case rel_antiAffinity (spec (inf_release ri)) of
        None \<Rightarrow> Some None
      | Some aa \<Rightarrow> (case asSelector aa of Inl _ \<Rightarrow> None | Inr sel \<Rightarrow> Some (Some sel)))"

text \<open>\<open>repels asSelector a b\<close>: the anti-affinity selector of \<open>a\<close> matches the labels of \<open>b\<close>.\<close>

definition repels :: "as_selector \<Rightarrow> release_info \<Rightarrow> release_info \<Rightarrow> bool" where
  "repels asSelector a b =
     (case rel_antiAffinity (spec (inf_release a)) of
        None \<Rightarrow> False
      | Some aa \<Rightarrow> (case asSelector aa of
          Inl _ \<Rightarrow> False
        | Inr sel \<Rightarrow> sel (om_labels (metadata (inf_release b)))))"

definition clash :: "as_selector \<Rightarrow> release_info \<Rightarrow> release_info \<Rightarrow> bool" where
  "clash asSelector a b \<longleftrightarrow> repels asSelector a b \<or> repels asSelector b a"

lemma clash_sym: "clash asSelector a b = clash asSelector b a"
  by (auto simp: clash_def)

lemma repels_ownSelector:
  "ownSelector asSelector ri = Some sel \<Longrightarrow>
   repels asSelector ri b = (case sel of None \<Rightarrow> False | Some f \<Rightarrow> f (om_labels (metadata (inf_release b))))"
  by (auto simp: ownSelector_def repels_def split: option.splits sum.splits)

lemma findConflict_empty_iff:
  assumes "ownSelector asSelector ri = Some sel" and "\<forall>x \<in> set resolved. inf_bindingKey x \<noteq> ''''"
  shows "findConflict asSelector sel ri resolved = '''' \<longleftrightarrow> (\<forall>x \<in> set resolved. \<not> clash asSelector ri x)"
  using assms(2)
proof (induction resolved)
  case (Cons x resolved)
  have "repels asSelector x ri = (case rel_antiAffinity (spec (inf_release x)) of
                 None \<Rightarrow> False
               | Some aa \<Rightarrow> (case asSelector aa of
                   Inl _ \<Rightarrow> False
                 | Inr otherSel \<Rightarrow> otherSel (om_labels (metadata (inf_release ri)))))"
    by (simp add: repels_def)
  then show ?case
    using Cons repels_ownSelector [OF assms(1), of x] by (simp add: clash_def)
qed simp

text \<open>One step of the walk, with the three outcomes told apart.\<close>

lemma walk_step:
  "antiAffinityWalk asSelector resolved skipped (ri # accepted) =
     (case ownSelector asSelector ri of
        None \<Rightarrow> antiAffinityWalk asSelector resolved
            (skipped @ [''binding '' @ inf_bindingKey ri @ '' filtered: invalid antiAffinity selector: ''
                        @ error_text (projl (asSelector (the (rel_antiAffinity (spec (inf_release ri))))))]) accepted
      | Some sel \<Rightarrow> if findConflict asSelector sel ri resolved \<noteq> ''''
          then antiAffinityWalk asSelector resolved
            (skipped @ [''binding '' @ inf_bindingKey ri @ '' filtered: anti-affinity conflict with ''
                        @ findConflict asSelector sel ri resolved]) accepted
          else antiAffinityWalk asSelector (resolved @ [ri]) skipped accepted)"
  by (auto simp: ownSelector_def Let_def split: option.splits sum.splits)

declare antiAffinityWalk.simps(2) [simp del]

text \<open>The walk as a filter: the releases it keeps of \<open>accepted\<close> after \<open>resolved\<close>.\<close>

fun kept :: "as_selector \<Rightarrow> release_info list \<Rightarrow> release_info list \<Rightarrow> release_info list" where
  "kept asSelector resolved [] = []"
| "kept asSelector resolved (ri # accepted) =
     (if ownSelector asSelector ri \<noteq> None \<and> (\<forall>x \<in> set resolved. \<not> clash asSelector ri x)
      then ri # kept asSelector (resolved @ [ri]) accepted
      else kept asSelector resolved accepted)"

lemma walk_kept:
  assumes "\<forall>x \<in> set (resolved @ accepted). inf_bindingKey x \<noteq> ''''"
  shows "fst (antiAffinityWalk asSelector resolved skipped accepted) = resolved @ kept asSelector resolved accepted"
  using assms
proof (induction accepted arbitrary: resolved skipped)
  case (Cons ri accepted)
  show ?case
  proof (cases "ownSelector asSelector ri")
    case None
    then show ?thesis using Cons by (simp add: walk_step)
  next
    case (Some sel)
    then show ?thesis
      using Cons findConflict_empty_iff [OF Some, of resolved] by (auto simp: walk_step)
  qed
qed simp

lemma walk_length:
  "length (fst (antiAffinityWalk asSelector resolved skipped accepted)) +
   length (snd (antiAffinityWalk asSelector resolved skipped accepted)) =
   length resolved + length skipped + length accepted"
proof (induction accepted arbitrary: resolved skipped)
  case (Cons ri accepted)
  then show ?case
    by (cases "ownSelector asSelector ri") (auto simp: walk_step)
qed simp

lemma kept_subset: "set (kept asSelector resolved accepted) \<subseteq> set accepted"
  by (induction asSelector resolved accepted rule: kept.induct) auto

lemma subseq_kept: "subseq (kept asSelector resolved accepted) accepted"
  by (induction asSelector resolved accepted rule: kept.induct) auto

lemma kept_valid: "ri \<in> set (kept asSelector resolved accepted) \<Longrightarrow> ownSelector asSelector ri \<noteq> None"
  by (induction asSelector resolved accepted rule: kept.induct) (auto split: if_splits)

lemma kept_no_clash_resolved:
  "ri \<in> set (kept asSelector resolved accepted) \<Longrightarrow> x \<in> set resolved \<Longrightarrow> \<not> clash asSelector ri x"
  by (induction asSelector resolved accepted rule: kept.induct) (auto split: if_splits)

lemma kept_pairwise: "sorted_wrt (\<lambda>a b. \<not> clash asSelector a b) (kept asSelector resolved accepted)"
proof (induction asSelector resolved accepted rule: kept.induct)
  case (2 asSelector resolved ri accepted)
  then show ?case
    using kept_no_clash_resolved [of _ asSelector "resolved @ [ri]" accepted ri]
    by (auto simp: clash_sym)
qed simp

text \<open>A dropped release has a reason: its selector is invalid, or it clashes with a release kept
  before it.\<close>

lemma dropped_reason:
  assumes "ri \<in> set accepted" and "ri \<notin> set (kept asSelector resolved accepted)"
    and "sorted_wrt (\<lambda>a b. \<not> byPriority b a) accepted"
  shows "ownSelector asSelector ri = None \<or>
    (\<exists>x \<in> set resolved. clash asSelector ri x) \<or>
    (\<exists>x \<in> set (kept asSelector resolved accepted). clash asSelector ri x \<and> \<not> byPriority ri x)"
  using assms
proof (induction asSelector resolved accepted rule: kept.induct)
  case (2 asSelector resolved r accepted)
  show ?case
  proof (cases "ri = r")
    case True
    then show ?thesis using 2 by (auto split: if_splits)
  next
    case False
    then show ?thesis using 2 by (auto split: if_splits)
  qed
qed simp

section \<open>The whole resolution\<close>

text \<open>The result as a filter of the winners in priority order.\<close>

definition winners :: "release_info list \<Rightarrow> release_info list" where
  "winners rs = sortSlice byPriority (map (winner rs) (names rs))"

lemma resolve_kept:
  assumes "\<forall>x \<in> set rs. inf_bindingKey x \<noteq> ''''"
  shows "fst (resolveReleaseConflicts asSelector rs) = kept asSelector [] (winners rs)"
proof (cases "rs = []")
  case False
  have "\<forall>x \<in> set (winners rs). inf_bindingKey x \<noteq> ''''"
    using assms winner_in_group by (fastforce simp: winners_def nameGroup_def setUniqueName_def)
  then show ?thesis
    using False deduplicate_accepted [of "names rs" rs]
    by (cases "deduplicate (namedGroups rs []) (names rs)")
       (simp add: resolveReleaseConflicts_def Let_def names_def [symmetric] walk_kept winners_def)
qed (simp add: resolveReleaseConflicts_def winners_def names_def)

lemma resolve_length:
  "length (fst (resolveReleaseConflicts asSelector rs)) + length (snd (resolveReleaseConflicts asSelector rs))
   = length rs"
proof (cases "rs = []")
  case False
  have "sum_list (map (\<lambda>u. length (nameGroup rs u)) (names rs)) = length rs"
    by (rule sum_groups) (auto simp: distinct_names set_names)
  then show ?thesis
    using False deduplicate_length [of "names rs" rs]
    by (cases "deduplicate (namedGroups rs []) (names rs)")
       (simp add: resolveReleaseConflicts_def Let_def names_def [symmetric] walk_length)
qed (simp add: resolveReleaseConflicts_def)

lemma winners_unique_names: "distinct (map inf_uniqueName (winners rs))"
proof -
  have "map inf_uniqueName (map (winner rs) (names rs)) = names rs"
    using winner_unique_name by (simp add: map_idI)
  then show ?thesis
    using distinct_names by (simp add: winners_def del: map_map)
qed

lemma winners_sorted: "sorted_wrt (\<lambda>a b. \<not> byPriority b a) (winners rs)"
  unfolding winners_def by (rule prio.sorted_sortSlice)

lemma set_winners: "set (winners rs) = winner rs ` inf_uniqueName ` setUniqueName ` set rs"
  by (simp add: winners_def set_names)

lemma subseq_set: "subseq xs ys \<Longrightarrow> set xs \<subseteq> set ys"
  by (induction rule: list_emb.induct) auto

lemma distinct_map_subseq: "subseq xs ys \<Longrightarrow> distinct (map f ys) \<Longrightarrow> distinct (map f xs)"
  by (induction rule: list_emb.induct) (auto dest: subseq_set)

lemma walk_subseq:
  "\<exists>ks. fst (antiAffinityWalk asSelector resolved skipped accepted) = resolved @ ks \<and> subseq ks accepted"
proof (induction accepted arbitrary: resolved skipped)
  case (Cons ri accepted)
  have "\<exists>ks. fst (antiAffinityWalk asSelector (resolved @ [ri]) skipped accepted) = resolved @ ri # ks
      \<and> subseq ks accepted"
    using Cons.IH [of "resolved @ [ri]" skipped] by simp
  then show ?case
    using Cons.IH by (fastforce simp: walk_step split: option.splits)
qed simp

lemma resolve_subseq: "subseq (fst (resolveReleaseConflicts asSelector rs)) (winners rs)"
proof (cases "rs = []")
  case False
  then show ?thesis
    using deduplicate_accepted [of "names rs" rs]
      walk_subseq [of asSelector "[]" "snd (deduplicate (namedGroups rs []) (names rs))" "winners rs"]
    by (cases "deduplicate (namedGroups rs []) (names rs)")
       (auto simp: resolveReleaseConflicts_def Let_def names_def [symmetric] winners_def)
qed (simp add: resolveReleaseConflicts_def)

lemma in_resolved_winner:
  assumes "r \<in> set (fst (resolveReleaseConflicts asSelector rs))"
  shows "inf_uniqueName r \<in> set (names rs) \<and> r = winner rs (inf_uniqueName r)"
proof -
  have "r \<in> set (winners rs)"
    using assms subseq_set [OF resolve_subseq [of asSelector rs]] by blast
  then show ?thesis
    using winner_unique_name by (auto simp: winners_def)
qed

lemma in_nameGroup:
  "x \<in> set rs \<Longrightarrow> effectiveUniqueName (inf_release x) (inf_cv x) = u \<Longrightarrow> setUniqueName x \<in> set (nameGroup rs u)"
  by (auto simp: nameGroup_def setUniqueName_def)

lemma byPriority_setUniqueName [simp]:
  "byPriority (setUniqueName a) b = byPriority a b" "byPriority a (setUniqueName b) = byPriority a b"
  by (simp_all add: byPriority_def setUniqueName_def)

text \<open>The winners, and so the result, depend only on the multiset of the bound releases.\<close>

lemma byPriority_separates:
  "inf_bindingKey a \<noteq> inf_bindingKey b \<Longrightarrow> byPriority a b \<or> byPriority b a"
  by (auto simp: byPriority_def)

lemma separates:
  assumes "distinct (map inf_bindingKey xs)" and "a \<in> set xs" and "b \<in> set xs"
    and "\<not> byPriority a b" and "\<not> byPriority b a"
  shows "a = b"
  using assms byPriority_separates [of a b] by (metis distinct_map inj_onD)

lemma winner_perm:
  assumes "mset rs = mset rs'" and "distinct (map inf_bindingKey rs)"
  shows "winner rs u = winner rs' u"
proof -
  have "mset (nameGroup rs u) = mset (nameGroup rs' u)"
    using assms(1) unfolding nameGroup_def by (simp add: mset_filter)
  moreover have "distinct (map inf_bindingKey (nameGroup rs u))"
    using assms(2) unfolding nameGroup_def
    by (intro distinct_map_filter) (simp add: o_def setUniqueName_def)
  ultimately show ?thesis
    unfolding winner_def using separates
    by (metis (no_types, lifting) prio.sortSlice_perm)
qed

lemma names_perm: "mset rs = mset rs' \<Longrightarrow> names rs = names rs'"
  by (metis distinct_names mset_eq_setD names_def set_names sorted_distinct_set_unique sorted_sort)

lemma winners_perm:
  assumes "mset rs = mset rs'" and "distinct (map inf_bindingKey rs)"
  shows "winners rs = winners rs'"
proof -
  have "map (winner rs) (names rs) = map (winner rs') (names rs')"
    using names_perm [OF assms(1)] winner_perm [OF assms] by simp
  then show ?thesis by (simp add: winners_def)
qed

section \<open>Properties of the resolver\<close>

text \<open>(C8) The releases that survive conflict resolution have pairwise different unique names, so
  the bootstrap map keyed by unique name never overwrites one release with another.\<close>

theorem resolve_unique_names:
  "distinct (map inf_uniqueName (fst (resolveReleaseConflicts asSelector rs)))"
  by (rule distinct_map_subseq [OF resolve_subseq winners_unique_names])

text \<open>(C7) Each surviving release is one of the bound releases, carries its effective unique name, and
  no bound release with the same effective unique name precedes it in (priority descending, binding
  key ascending) order.\<close>

theorem resolve_highest_priority:
  assumes "r \<in> set (fst (resolveReleaseConflicts asSelector rs))"
  shows "r \<in> setUniqueName ` set rs
    \<and> inf_uniqueName r = effectiveUniqueName (inf_release r) (inf_cv r)
    \<and> (\<forall>x \<in> set rs. effectiveUniqueName (inf_release x) (inf_cv x) = inf_uniqueName r \<longrightarrow> \<not> byPriority x r)"
proof -
  have n: "inf_uniqueName r \<in> set (names rs)" and w: "r = winner rs (inf_uniqueName r)"
    using in_resolved_winner [OF assms] by auto
  have "r \<in> set (nameGroup rs (inf_uniqueName r))"
    using winner_in_group [OF n] w by simp
  then have "r \<in> setUniqueName ` set rs"
    by (auto simp: nameGroup_def)
  moreover have "\<not> byPriority x r"
    if "x \<in> set rs" "effectiveUniqueName (inf_release x) (inf_cv x) = inf_uniqueName r" for x
    using winner_best [OF n in_nameGroup [OF that]] w by simp
  ultimately show ?thesis
    by (auto simp: setUniqueName_def)
qed

text \<open>(C6) No two surviving releases repel each other: neither one's anti-affinity selector matches
  the other's labels.\<close>

theorem resolve_anti_affinity:
  assumes "\<forall>x \<in> set rs. inf_bindingKey x \<noteq> ''''"
    and "i < j" and "j < length (fst (resolveReleaseConflicts asSelector rs))"
  shows "\<not> clash asSelector (fst (resolveReleaseConflicts asSelector rs) ! i)
    (fst (resolveReleaseConflicts asSelector rs) ! j)"
  using assms(2,3) sorted_wrt_nth_less [OF kept_pairwise [of asSelector "[]" "winners rs"]]
  unfolding resolve_kept [OF assms(1)] by simp

text \<open>(C4) Filtering is never arbitrary: a bound release that does not survive either loses to a bound
  release of the same unique name that precedes it, or has an anti-affinity selector that does not
  parse, or repels or is repelled by a surviving release that it does not precede.\<close>

theorem resolve_dropped_justified:
  assumes keys: "\<forall>x \<in> set rs. inf_bindingKey x \<noteq> ''''"
    and distinct: "distinct (map inf_bindingKey rs)"
    and x: "x \<in> set rs" and dropped: "setUniqueName x \<notin> set (fst (resolveReleaseConflicts asSelector rs))"
  shows "(\<exists>w \<in> set rs. effectiveUniqueName (inf_release w) (inf_cv w) = effectiveUniqueName (inf_release x) (inf_cv x)
        \<and> byPriority w x)
    \<or> ownSelector asSelector x = None
    \<or> (\<exists>r \<in> set (fst (resolveReleaseConflicts asSelector rs)). clash asSelector x r \<and> \<not> byPriority x r)"
proof -
  let ?u = "effectiveUniqueName (inf_release x) (inf_cv x)" and ?x = "setUniqueName x"
  have same [simp]: "ownSelector asSelector ?x = ownSelector asSelector x"
    "clash asSelector ?x r = clash asSelector x r" for r
    by (simp_all add: ownSelector_def clash_def repels_def cong: option.case_cong sum.case_cong)
  have g: "?x \<in> set (nameGroup rs ?u)" and n: "?u \<in> set (names rs)"
    using x by (auto intro: in_nameGroup simp: set_names image_image)
  show ?thesis
  proof (cases "?x = winner rs ?u")
    case True
    then have "?x \<in> set (winners rs)"
      using x by (auto simp: set_winners image_image)
    then show ?thesis
      using dropped_reason [OF _ _ winners_sorted, of ?x rs asSelector "[]"] dropped
      unfolding resolve_kept [OF keys] by auto
  next
    case False
    obtain w where w: "w \<in> set rs" "winner rs ?u = setUniqueName w"
      "effectiveUniqueName (inf_release w) (inf_cv w) = ?u"
      using winner_in_group [OF n] by (auto simp: nameGroup_def setUniqueName_def)
    have "inf_bindingKey w \<noteq> inf_bindingKey x"
      using False w x distinct by (metis distinct_map inj_onD)
    then show ?thesis
      using byPriority_separates [of w x] winner_best [OF n g] w by auto
  qed
qed

text \<open>(C5) The survivors do not depend on the order in which the API server lists the bindings: any
  rearrangement of the bound releases gives the same result.\<close>

theorem resolve_order_independent:
  assumes "mset rs = mset rs'" and "distinct (map inf_bindingKey rs)" and "\<forall>x \<in> set rs. inf_bindingKey x \<noteq> ''''"
  shows "fst (resolveReleaseConflicts asSelector rs) = fst (resolveReleaseConflicts asSelector rs')"
  using winners_perm [OF assms(1,2)] resolve_kept assms(1,3) by (metis mset_eq_setD)

text \<open>When every anti-affinity selector parses, at least one bound release survives: the
  \<open>AllReleaseBindingsFiltered\<close> outcome needs an invalid selector.\<close>

theorem resolve_nonempty:
  assumes "rs \<noteq> []" and "\<forall>x \<in> set rs. inf_bindingKey x \<noteq> ''''" and "\<forall>x \<in> set rs. ownSelector asSelector x \<noteq> None"
  shows "fst (resolveReleaseConflicts asSelector rs) \<noteq> []"
proof -
  have "set (winners rs) \<noteq> {}"
    using assms(1) by (simp add: set_winners)
  then obtain w ws where w: "winners rs = w # ws"
    by (cases "winners rs") auto
  then have "w \<in> setUniqueName ` set rs"
    using winner_in_group by (fastforce simp: winners_def nameGroup_def dest!: arg_cong [where f = set])
  then have "ownSelector asSelector w \<noteq> None"
    using assms(3) by (auto simp: ownSelector_def setUniqueName_def)
  then show ?thesis
    unfolding resolve_kept [OF assms(2)] w by simp
qed

end
