(* ===== verification/Backoff.thy ===== *)
theory Backoff
  imports Api_Types
begin

text \<open>
  \<open>pkg/controller/backoff.go\<close>: the delay before a controller looks again at a missing
  dependency. The exponential backoff generator of \<open>github.com/cenkalti/backoff\<close> is the
  parameter \<open>nextBackOff\<close>, the \<open>i\<close>-th value that \<open>NextBackOff\<close> returns; what its
  documentation promises of it is \<open>jittered_backoff\<close>. Durations are \<open>int64\<close> nanoseconds.
\<close>

definition second :: int where "second = 1000000000"

definition dependencyWaitInitialInterval :: int where "dependencyWaitInitialInterval = 5 * second"
definition dependencyWaitMaxInterval :: int where "dependencyWaitMaxInterval = 300 * second"
definition dependencyWaitMultiplier :: int where "dependencyWaitMultiplier = 2"

text \<open>\<open>Time.Sub\<close> saturates at the range of a \<open>Duration\<close>.\<close>

definition timeSub :: "int \<Rightarrow> int \<Rightarrow> int" where
  "timeSub a b = max (- (2 ^ 63)) (min (2 ^ 63 - 1) (a - b))"

definition conditionAge :: "condition option \<Rightarrow> int \<Rightarrow> int" where
  "conditionAge cond now =
     (case cond of
        None \<Rightarrow> 0
      | Some c \<Rightarrow> (case cond_lastTransitionTime c of
          None \<Rightarrow> 0
        | Some t \<Rightarrow> (let delta = timeSub now t in if delta > 0 then delta else 0)))"

text \<open>The loop \<open>for range 1000\<close>, at its \<open>i\<close>-th step with \<open>fuel\<close> steps left.\<close>

fun backoffWalk :: "(nat \<Rightarrow> int) \<Rightarrow> int \<Rightarrow> nat \<Rightarrow> nat \<Rightarrow> int \<Rightarrow> int" where
  "backoffWalk nextBackOff age 0 i elapsed = dependencyWaitMaxInterval"
| "backoffWalk nextBackOff age (Suc fuel) i elapsed =
     (let nxt = nextBackOff i; total = int64_wrap (elapsed + nxt)
      in if age < total then nxt else backoffWalk nextBackOff age fuel (Suc i) total)"

definition requeueAfterForCondition :: "(nat \<Rightarrow> int) \<Rightarrow> condition option \<Rightarrow> int \<Rightarrow> int" where
  "requeueAfterForCondition nextBackOff cond now = backoffWalk nextBackOff (conditionAge cond now) 1000 0 0"

section \<open>The generator's contract\<close>

text \<open>The interval before randomisation: doubled from the initial one up to the maximum.\<close>

definition interval :: "nat \<Rightarrow> int" where
  "interval i = min (dependencyWaitInitialInterval * dependencyWaitMultiplier ^ i) dependencyWaitMaxInterval"

text \<open>With a randomisation factor of one half, a value lies within half the interval of it.\<close>

definition jittered_backoff :: "(nat \<Rightarrow> int) \<Rightarrow> bool" where
  "jittered_backoff nextBackOff \<longleftrightarrow>
     (\<forall>i. interval i \<le> 2 * nextBackOff i \<and> 2 * nextBackOff i \<le> 3 * interval i)"

lemmas backoff_defs = second_def dependencyWaitInitialInterval_def dependencyWaitMaxInterval_def
  dependencyWaitMultiplier_def

lemma interval_bounds: "5 * second \<le> interval i \<and> interval i \<le> 300 * second"
proof -
  have "(1::int) \<le> 2 ^ i" by simp
  then show ?thesis by (simp add: interval_def backoff_defs)
qed

lemma interval_max: "6 \<le> i \<Longrightarrow> interval i = 300 * second"
proof -
  assume "6 \<le> i"
  then have "(2::int) ^ 6 \<le> 2 ^ i" by (rule power_increasing) simp
  then show ?thesis by (simp add: interval_def backoff_defs)
qed

lemma jittered_bounds:
  assumes "jittered_backoff next"
  shows "2500000000 \<le> next i \<and> next i \<le> 450000000000"
proof -
  have "interval i \<le> 2 * next i" "2 * next i \<le> 3 * interval i"
    using assms by (auto simp: jittered_backoff_def)
  then show ?thesis using interval_bounds [of i] by (simp add: second_def)
qed

definition elapsedAfter :: "(nat \<Rightarrow> int) \<Rightarrow> nat \<Rightarrow> int" where
  "elapsedAfter next n = sum next {..<n}"

lemma elapsedAfter_Suc: "elapsedAfter next (Suc n) = elapsedAfter next n + next n"
  by (simp add: elapsedAfter_def)

lemma elapsedAfter_bounds:
  assumes "jittered_backoff next"
  shows "2500000000 * int n \<le> elapsedAfter next n \<and> elapsedAfter next n \<le> 450000000000 * int n"
proof (induction n)
  case (Suc n)
  then show ?case
    using jittered_bounds [OF assms, of n] by (simp add: elapsedAfter_Suc algebra_simps)
qed (simp add: elapsedAfter_def)

text \<open>No sum of the loop leaves the range of \<open>int64\<close>, so wrap-around never happens.\<close>

lemma elapsed_no_wrap:
  assumes "jittered_backoff next" and "n \<le> 1000"
  shows "int64_wrap (elapsedAfter next n + next n) = elapsedAfter next (Suc n)"
proof -
  have "elapsedAfter next (Suc n) \<le> 450000000000 * int (Suc n)" "0 \<le> elapsedAfter next (Suc n)"
    using elapsedAfter_bounds [OF assms(1), of "Suc n"] by auto
  moreover have "450000000000 * int (Suc n) \<le> 450000000000 * 1001"
    using assms(2) by simp
  ultimately show ?thesis
    unfolding elapsedAfter_Suc [symmetric] by (intro int64_wrap_id) simp_all
qed

lemma backoffWalk_spec:
  assumes "jittered_backoff next" and "i + fuel = 1000" and "elapsedAfter next i \<le> age"
  shows "(\<exists>j < 1000. backoffWalk next age fuel i (elapsedAfter next i) = next j
      \<and> elapsedAfter next j \<le> age \<and> age < elapsedAfter next (Suc j))
    \<or> (backoffWalk next age fuel i (elapsedAfter next i) = dependencyWaitMaxInterval
      \<and> elapsedAfter next 1000 \<le> age)"
  using assms(2,3)
proof (induction fuel arbitrary: i)
  case (Suc fuel)
  have total: "int64_wrap (elapsedAfter next i + next i) = elapsedAfter next (Suc i)"
    using elapsed_no_wrap [OF assms(1)] Suc.prems(1) by simp
  show ?case
  proof (cases "age < elapsedAfter next (Suc i)")
    case True
    then show ?thesis using Suc.prems by (auto simp: total Let_def)
  next
    case False
    then show ?thesis using Suc.IH [of "Suc i"] Suc.prems by (simp add: total Let_def)
  qed
qed simp

lemma conditionAge_nonneg: "0 \<le> conditionAge cond now"
  by (simp add: conditionAge_def Let_def split: option.splits)

lemma requeueAfter_range:
  assumes "jittered_backoff next"
  shows "2500000000 \<le> requeueAfterForCondition next cond now" "requeueAfterForCondition next cond now \<le> 450000000000"
  using backoffWalk_spec [OF assms, of 0 1000 "conditionAge cond now"] conditionAge_nonneg [of cond now]
    jittered_bounds [OF assms]
  by (auto simp: requeueAfterForCondition_def elapsedAfter_def backoff_defs)

section \<open>Properties\<close>

text \<open>The delay is the interval of the backoff step in which the condition's age falls: the
  \<open>j\<close>-th interval when the first \<open>j\<close> intervals have elapsed and the first \<open>j+1\<close> have not, and
  the maximum interval when a thousand intervals have elapsed.\<close>

theorem requeueAfter_bracket:
  assumes "jittered_backoff next"
  shows "(\<exists>j < 1000. requeueAfterForCondition next cond now = next j
      \<and> sum next {..<j} \<le> conditionAge cond now \<and> conditionAge cond now < sum next {..<Suc j})
    \<or> (requeueAfterForCondition next cond now = dependencyWaitMaxInterval
      \<and> sum next {..<1000} \<le> conditionAge cond now)"
  using backoffWalk_spec [OF assms, of 0 1000 "conditionAge cond now"] conditionAge_nonneg [of cond now]
  unfolding requeueAfterForCondition_def elapsedAfter_def by simp

text \<open>A dependency wait is always rescheduled: the delay is at least 2.5 seconds, so never the
  zero that means no requeue, and at most 7.5 minutes; a fresh wait (no condition yet) is looked at
  again within 7.5 seconds.\<close>

theorem requeueAfter_bounds:
  assumes "jittered_backoff next"
  shows "2500000000 \<le> requeueAfterForCondition next cond now
    \<and> requeueAfterForCondition next cond now \<le> 450000000000
    \<and> requeueAfterForCondition next None now \<le> 7500000000"
proof -
  have "2500000000 \<le> requeueAfterForCondition next cond now \<and> requeueAfterForCondition next cond now \<le> 450000000000"
    by (simp add: requeueAfter_range [OF assms])
  moreover have "2 * next 0 \<le> 3 * interval 0"
    using assms unfolding jittered_backoff_def by blast
  moreover have "requeueAfterForCondition next None now = next 0"
    using jittered_bounds [OF assms, of 0] elapsed_no_wrap [OF assms, of 0]
    by (simp add: requeueAfterForCondition_def conditionAge_def eval_nat_numeral elapsedAfter_def Let_def)
  ultimately show ?thesis by (simp add: interval_def backoff_defs)
qed

text \<open>(C32) The loop bound of 1000 steps is a safety net that a wait of up to 24 hours never reaches:
  the delay is then the interval of a step below 600.\<close>

theorem requeueAfter_within_a_day:
  assumes "jittered_backoff next" and "conditionAge cond now \<le> 86400 * second"
  shows "\<exists>j < 600. requeueAfterForCondition next cond now = next j"
proof -
  have lower: "elapsedAfter next (6 + n) \<ge> 150000000000 * int n" for n
  proof (induction n)
    case 0
    then show ?case using elapsedAfter_bounds [OF assms(1), of 6] by simp
  next
    case (Suc n)
    have "interval (6 + n) \<le> 2 * next (6 + n)"
      using assms(1) unfolding jittered_backoff_def by blast
    then have "150000000000 \<le> next (6 + n)"
      by (simp add: interval_max second_def)
    with Suc show ?case
      using elapsedAfter_Suc [of "next" "6 + n"] by simp
  qed
  have step: "j < 600" if "elapsedAfter next j \<le> conditionAge cond now" for j
  proof (rule ccontr)
    assume "\<not> j < 600"
    then have "150000000000 * int 594 \<le> 150000000000 * int (j - 6)" by simp
    also have "\<dots> \<le> elapsedAfter next j"
      using lower [of "j - 6"] \<open>\<not> j < 600\<close> by simp
    finally show False using that assms(2) by (simp add: second_def)
  qed
  show ?thesis
    using backoffWalk_spec [OF assms(1), of 0 1000 "conditionAge cond now"] conditionAge_nonneg [of cond now]
      step [of 1000] step
    unfolding requeueAfterForCondition_def by (auto simp: elapsedAfter_def)
qed

text \<open>The unrandomised sequence satisfies the contract.\<close>

lemma interval_jittered: "jittered_backoff interval"
  using interval_bounds by (simp add: jittered_backoff_def second_def) (smt (verit))

theorem requeueAfter_bracket_witness:
  "jittered_backoff interval \<and>
   ((\<exists>j < 1000. requeueAfterForCondition interval None 0 = interval j
      \<and> sum interval {..<j} \<le> conditionAge None 0 \<and> conditionAge None 0 < sum interval {..<Suc j})
    \<or> (requeueAfterForCondition interval None 0 = dependencyWaitMaxInterval
      \<and> sum interval {..<1000} \<le> conditionAge None 0))"
  using interval_jittered requeueAfter_bracket [OF interval_jittered, of None 0] by blast

theorem requeueAfter_bounds_witness:
  "jittered_backoff interval \<and> requeueAfterForCondition interval None 0 \<le> 7500000000"
  using interval_jittered requeueAfter_bounds [OF interval_jittered, of None 0] by blast

theorem requeueAfter_within_a_day_witness:
  "jittered_backoff interval \<and> conditionAge None 0 \<le> 86400 * second
   \<and> (\<exists>j < 600. requeueAfterForCondition interval None 0 = interval j)"
proof -
  have "conditionAge None 0 \<le> 86400 * second"
    by (simp add: conditionAge_def second_def)
  then show ?thesis
    using interval_jittered requeueAfter_within_a_day [OF interval_jittered] by blast
qed

end
