(* ===== verification/Grants.thy ===== *)
theory Grants
  imports Helpers
begin

text \<open>
  ReferenceGrants: which grant lets a resource of one namespace reference a resource of
  another (\<open>pkg/controller/profile_controller.go\<close>, \<open>pkg/controller/target_controller.go\<close>),
  and the checks that decide whether a change of a grant concerns a controller.
\<close>

text \<open>A \<open>for\<close> loop that sets a flag and breaks, or returns true, is \<open>list_ex\<close>.\<close>

definition grantPermits ::
  "reference_grant \<Rightarrow> string \<Rightarrow> string \<Rightarrow> string \<Rightarrow> string \<Rightarrow> string \<Rightarrow> bool" where
  "grantPermits grant fromGroup fromKind fromNamespace toGroup toKind =
     (if \<not> list_ex (\<lambda>f. from_namespace f = fromNamespace \<and> from_kind f = fromKind \<and> from_group f = fromGroup)
            (rg_from (spec grant))
      then False
      else list_ex (\<lambda>t. to_kind t = toKind \<and> to_group t = toGroup) (rg_to (spec grant)))"

definition grantPermitsTargetAccess :: "reference_grant \<Rightarrow> string \<Rightarrow> bool" where
  "grantPermitsTargetAccess grant fromNamespace =
     grantPermits grant solarGroup ''Profile'' fromNamespace solarGroup ''Target''"

definition grantsTargetResource :: "reference_grant \<Rightarrow> bool" where
  "grantsTargetResource grant = list_ex (\<lambda>t. to_kind t = ''Target'' \<and> to_group t = solarGroup) (rg_to (spec grant))"

definition grantPermitsComponentVersionAccess :: "reference_grant \<Rightarrow> string \<Rightarrow> bool" where
  "grantPermitsComponentVersionAccess grant fromNamespace =
     grantPermits grant solarGroup ''Release'' fromNamespace solarGroup ''ComponentVersion''"

definition grantsComponentVersionResource :: "reference_grant \<Rightarrow> bool" where
  "grantsComponentVersionResource grant =
     list_ex (\<lambda>t. to_kind t = ''ComponentVersion'' \<and> to_group t = solarGroup) (rg_to (spec grant))"

definition grantPermitsRegistryAccess :: "reference_grant \<Rightarrow> string \<Rightarrow> bool" where
  "grantPermitsRegistryAccess grant fromNamespace =
     grantPermits grant solarGroup ''Target'' fromNamespace solarGroup ''Registry''"

definition grantsRegistryResource :: "reference_grant \<Rightarrow> bool" where
  "grantsRegistryResource grant =
     list_ex (\<lambda>t. to_kind t = ''Registry'' \<and> to_group t = solarGroup) (rg_to (spec grant))"

definition grantsReleaseBindingToTargetResource :: "reference_grant \<Rightarrow> bool" where
  "grantsReleaseBindingToTargetResource grant =
     (if \<not> list_ex (\<lambda>f. from_kind f = ''ReleaseBinding'' \<and> from_group f = solarGroup) (rg_from (spec grant))
      then False
      else list_ex (\<lambda>t. to_kind t = ''Target'' \<and> to_group t = solarGroup) (rg_to (spec grant)))"

definition bindingTargetKey :: "release_binding \<Rightarrow> string" where
  "bindingTargetKey rb =
     (if rlb_targetNamespace (spec rb) = '''' then om_namespace (metadata rb) else rlb_targetNamespace (spec rb))
       @ ''/'' @ rlb_targetRef (spec rb)"

definition targetKey :: "target \<Rightarrow> string" where
  "targetKey t = om_namespace (metadata t) @ ''/'' @ om_name (metadata t)"

lemmas grant_defs = grantPermits_def grantPermitsTargetAccess_def grantPermitsComponentVersionAccess_def
  grantPermitsRegistryAccess_def grantsTargetResource_def grantsComponentVersionResource_def
  grantsRegistryResource_def grantsReleaseBindingToTargetResource_def

lemma grantPermits_iff:
  "grantPermits grant fg fk ns tg tk \<longleftrightarrow>
     (\<exists>f \<in> set (rg_from (spec grant)). from_namespace f = ns \<and> from_kind f = fk \<and> from_group f = fg) \<and>
     (\<exists>t \<in> set (rg_to (spec grant)). to_kind t = tk \<and> to_group t = tg)"
  by (auto simp: grantPermits_def list_ex_iff)

text \<open>A grant that permits an access is one whose change is mapped to the affected resources.\<close>

lemma permitted_is_mapped:
  "grantPermitsTargetAccess g ns \<Longrightarrow> grantsTargetResource g"
  "grantPermitsComponentVersionAccess g ns \<Longrightarrow> grantsComponentVersionResource g"
  "grantPermitsRegistryAccess g ns \<Longrightarrow> grantsRegistryResource g"
  by (auto simp: grant_defs split: if_splits)

text \<open>The key of a binding's target is the key of the target it names.\<close>

lemma bindingTargetKey_eq:
  assumes "CHR ''/'' \<notin> set (om_namespace (metadata t))"
    and "CHR ''/'' \<notin> set (if rlb_targetNamespace (spec rb) = '''' then om_namespace (metadata rb) else rlb_targetNamespace (spec rb))"
  shows "bindingTargetKey rb = targetKey t \<longleftrightarrow>
    (if rlb_targetNamespace (spec rb) = '''' then om_namespace (metadata rb) else rlb_targetNamespace (spec rb))
      = om_namespace (metadata t) \<and> rlb_targetRef (spec rb) = om_name (metadata t)"
  (is "_ = _ \<longleftrightarrow> ?ns = _ \<and> _")
proof -
  have "a @ ''/'' @ x = b @ ''/'' @ y \<longleftrightarrow> a = b \<and> x = y"
    if "CHR ''/'' \<notin> set a" "CHR ''/'' \<notin> set b" for a b x y :: string
    using that by (induction a arbitrary: b) (case_tac b; auto)+
  from this [OF assms(2,1)] show ?thesis
    unfolding bindingTargetKey_def targetKey_def .
qed

end
