(* ===== verification/Kube.thy ===== *)
theory Kube
  imports Backoff Helpers
begin

text \<open>
  What the controllers use of the Kubernetes client (\<open>sigs.k8s.io/controller-runtime\<close>) and
  of \<open>k8s.io/apimachinery\<close>, which are not part of the repository: a record \<open>kube\<close> of
  operations over a state of any type \<open>'s\<close>, passed to every controller. What the API
  server's documentation promises of these operations is the locale \<open>kube_laws\<close>: a view of
  the state as the maps of stored objects, and the effect of each operation on it. Reads
  are taken to see the stored objects (an informer cache that is up to date), and no other
  client acts between two calls of one reconcile; interleavings of whole reconciles are
  sequences of calls. \<open>errLogAndWrap\<close> of \<open>pkg/controller/errors.go\<close> and the blocks that every
  controller repeats (own finalizer, early returns) are here as well.
\<close>

section \<open>The client\<close>

record list_options =
  lo_namespace :: "string option"
  lo_field :: "(string \<times> string) option"
  lo_labels :: "(labels \<Rightarrow> bool) option"

definition inNamespace :: "string \<Rightarrow> list_options" where
  "inNamespace ns = \<lparr>lo_namespace = Some ns, lo_field = None, lo_labels = None\<rparr>"

definition matchingFields :: "string \<Rightarrow> string \<Rightarrow> list_options" where
  "matchingFields key v = \<lparr>lo_namespace = None, lo_field = Some (key, v), lo_labels = None\<rparr>"

definition inNamespaceMatching :: "string \<Rightarrow> string \<Rightarrow> string \<Rightarrow> list_options" where
  "inNamespaceMatching ns key v = \<lparr>lo_namespace = Some ns, lo_field = Some (key, v), lo_labels = None\<rparr>"

definition inNamespaceLabels :: "string \<Rightarrow> (labels \<Rightarrow> bool) \<Rightarrow> list_options" where
  "inNamespaceLabels ns p = \<lparr>lo_namespace = Some ns, lo_field = None, lo_labels = Some p\<rparr>"

definition anyNamespace :: list_options where
  "anyNamespace = \<lparr>lo_namespace = None, lo_field = None, lo_labels = None\<rparr>"

text \<open>The operations on the objects of one kind: cached \<open>Get\<close> and \<open>List\<close>, the uncached
  \<open>APIReader.List\<close>, \<open>Create\<close>, \<open>Delete\<close>, \<open>Patch\<close> (with or without the optimistic lock, from
  a base object to a modified one), and the status writes. A call that succeeds returns the
  object as the server stored it.\<close>

record ('s, 'spec, 'status) resource =
  res_get :: "namespaced_name \<Rightarrow> ('s, api_error + ('spec, 'status) object) state"
  res_list :: "list_options \<Rightarrow> ('s, api_error + ('spec, 'status) object list) state"
  res_apiList :: "list_options \<Rightarrow> ('s, api_error + ('spec, 'status) object list) state"
  res_create :: "('spec, 'status) object \<Rightarrow> ('s, api_error + ('spec, 'status) object) state"
  res_delete :: "('spec, 'status) object \<Rightarrow> ('s, api_error + unit) state"
  res_patch :: "bool \<Rightarrow> ('spec, 'status) object \<Rightarrow> ('spec, 'status) object \<Rightarrow>
     ('s, api_error + ('spec, 'status) object) state"
  res_statusUpdate :: "('spec, 'status) object \<Rightarrow> ('s, api_error + ('spec, 'status) object) state"
  res_statusPatch :: "('spec, 'status) object \<Rightarrow> ('spec, 'status) object \<Rightarrow>
     ('s, api_error + ('spec, 'status) object) state"

text \<open>What \<open>github.com/google/go-containerregistry\<close> gives the controllers: credentials, and the
  deletion of a tag (\<open>remote.Delete\<close>), which fails with a transport error that has an HTTP status
  code or with another error.\<close>

record auth_config =
  auth_username :: string
  auth_password :: string
  auth_auth :: string
  auth_identityToken :: string
  auth_registryToken :: string

datatype authenticator = Anonymous | FromConfig auth_config

datatype oci_error = TransportError int string | OciError string

fun oci_text :: "oci_error \<Rightarrow> string" where
  "oci_text (TransportError _ m) = m"
| "oci_text (OciError m) = m"

text \<open>The client and the other services a reconciler is built from, and its settings: the operations
  per kind, the event recorder, the clock, the condition, selector and owner-reference functions
  of apimachinery, \<open>Semantic.DeepEqual\<close>, the JSON codec of the renderer configuration and of
  docker configurations, OCI reference parsing and tag deletion, a fresh sequence of backoff
  intervals.\<close>

record 's kube =
  k_components :: "('s, component_spec, unit) resource"
  k_componentversions :: "('s, component_version_spec, unit) resource"
  k_profiles :: "('s, profile_spec, profile_status) resource"
  k_referencegrants :: "('s, reference_grant_spec, unit) resource"
  k_registries :: "('s, registry_spec, registry_status) resource"
  k_registrybindings :: "('s, registry_binding_spec, condition list) resource"
  k_releases :: "('s, release_spec, release_status) resource"
  k_releasebindings :: "('s, release_binding_spec, condition list) resource"
  k_renderartifacts :: "('s, render_artifact_spec, render_artifact_status) resource"
  k_renderbindings :: "('s, render_binding_spec, unit) resource"
  k_rendertasks :: "('s, render_task_spec, render_task_status) resource"
  k_targets :: "('s, target_spec, target_status) resource"
  k_secrets :: "('s, secret_body, unit) resource"
  k_jobs :: "('s, job_spec, job_status) resource"
  k_eventf :: "string \<Rightarrow> string \<Rightarrow> string \<Rightarrow> ('s, unit) state"
  k_now :: "('s, int) state"
  k_setStatusCondition :: "int \<Rightarrow> condition list \<Rightarrow> condition \<Rightarrow> condition list \<times> bool"
  k_findStatusCondition :: "condition list \<Rightarrow> string \<Rightarrow> condition option"
  k_isStatusConditionTrue :: "condition list \<Rightarrow> string \<Rightarrow> bool"
  k_asSelector :: "label_selector \<Rightarrow> go_error + (labels \<Rightarrow> bool)"
  k_getControllerOf :: "object_meta \<Rightarrow> owner_reference option"
  k_isControlledBy :: "object_meta \<Rightarrow> object_meta \<Rightarrow> bool"
  k_setControllerReference :: "object_meta \<Rightarrow> object_meta \<Rightarrow> go_error + object_meta"
  k_renderTaskSpecEqual :: "render_task_spec \<Rightarrow> render_task_spec \<Rightarrow> bool"
  k_bootstrapInputEqual :: "bootstrap_input \<Rightarrow> bootstrap_input \<Rightarrow> bool"
  k_marshalConfig :: "renderer_config \<Rightarrow> go_error + string"
  k_parseDockerConfig :: "string \<Rightarrow> go_error + auth_config gomap"
  k_parseReference :: "string \<Rightarrow> go_error + string \<times> string"
  k_parseTag :: "string \<Rightarrow> bool \<Rightarrow> go_error + string"
  k_remoteDelete :: "string \<Rightarrow> bool \<Rightarrow> authenticator option \<Rightarrow> ('s, oci_error + unit) state"
  k_backoff :: "('s, nat \<Rightarrow> int) state"
  k_registryBindingStrict :: bool
  k_testMode :: bool
  k_watchNamespace :: string

section \<open>Returning from a reconcile\<close>

text \<open>A reconcile returns \<open>(ctrl.Result, error)\<close>: an error, or the \<open>RequeueAfter\<close> delay (0 for
  none).\<close>

type_synonym outcome = "go_error + int"

definition isNamespaceTerminatingError :: "go_error option \<Rightarrow> bool" where
  "isNamespaceTerminatingError err =
     (case err of None \<Rightarrow> False | Some e \<Rightarrow> containsStr (error_text e) ''because it is being terminated'')"

definition errLogAndWrap :: "bool \<Rightarrow> go_error option \<Rightarrow> string \<Rightarrow> go_error option" where
  "errLogAndWrap testMode err text =
     (case err of
        None \<Rightarrow> None
      | Some e \<Rightarrow>
          if testMode \<and> isNamespaceTerminatingError err then None
          else if length text = 0 then Some e
          else Some (Wrapped text e))"

text \<open>\<open>return x, errLogAndWrap(log, err, text)\<close>: the value \<open>x\<close> is returned when the error is
  swallowed.\<close>

definition wrapErr :: "bool \<Rightarrow> go_error \<Rightarrow> string \<Rightarrow> 'a \<Rightarrow> go_error + 'a" where
  "wrapErr testMode err text x =
     (case errLogAndWrap testMode (Some err) text of None \<Rightarrow> Inr x | Some e \<Rightarrow> Inl e)"

text \<open>Inside a reconcile a step yields \<open>Inl\<close> of the outcome with which the reconcile returns at
  once, or \<open>Inr\<close> to go on.\<close>

definition failR :: "'s kube \<Rightarrow> api_error \<Rightarrow> string \<Rightarrow> ('s, outcome + 'a) state" where
  "failR e err text = ret (Inl (wrapErr (k_testMode e) (Api err) text 0))"

definition returnR :: "int \<Rightarrow> ('s, outcome + 'a) state" where
  "returnR after = ret (Inl (Inr after))"

definition orReturn :: "('s, go_error + 'a) state \<Rightarrow> ('s, outcome + 'a) state" where
  "orReturn m = bindM m (\<lambda>r. case r of Inl err \<Rightarrow> ret (Inl (Inl err)) | Inr a \<Rightarrow> ret (Inr a))"

definition finish :: "('s, outcome + unit) state \<Rightarrow> ('s, outcome) state" where
  "finish m = bindM m (\<lambda>r. case r of Inl out \<Rightarrow> ret out | Inr _ \<Rightarrow> ret (Inr 0))"

text \<open>Every reconcile first drops requests of other namespaces and objects that are gone.\<close>

definition withObject ::
  "'s kube \<Rightarrow> ('s, 'spec, 'status) resource \<Rightarrow> namespaced_name \<Rightarrow> string \<Rightarrow>
   (('spec, 'status) object \<Rightarrow> ('s, outcome) state) \<Rightarrow> ('s, outcome) state" where
  "withObject e R req text k =
     (if k_watchNamespace e \<noteq> '''' \<and> nn_namespace req \<noteq> k_watchNamespace e then ret (Inr 0)
      else bindM (res_get R req) (\<lambda>r. case r of
             Inl err \<Rightarrow> ret (if isNotFound err then Inr 0 else wrapErr (k_testMode e) (Api err) text 0)
           | Inr obj \<Rightarrow> k obj))"

definition watched :: "'s kube \<Rightarrow> namespaced_name \<Rightarrow> bool" where
  "watched e req \<longleftrightarrow> k_watchNamespace e = '''' \<or> nn_namespace req = k_watchNamespace e"

text \<open>The block that removes a resource's own finalizer at the end of its deletion, and the one
  that adds it before any other work; both read the resource again first.\<close>

definition removeSelfFinalizer ::
  "'s kube \<Rightarrow> ('s, 'spec, 'status) resource \<Rightarrow> string \<Rightarrow> string \<Rightarrow> namespaced_name \<Rightarrow> ('spec, 'status) object \<Rightarrow>
   ('s, outcome + unit) state" where
  "removeSelfFinalizer e R fin kind req obj =
     (if hasFinalizer fin obj then
        bindM (res_get R req) (\<lambda>r. case r of
          Inl err \<Rightarrow> failR e err (''failed to get latest '' @ kind @ '' for finalizer removal'')
        | Inr latest \<Rightarrow> bindM (res_patch R False latest (deleteFinalizer fin latest)) (\<lambda>p. case p of
            Inl err \<Rightarrow> failR e err (''failed to remove finalizer from '' @ kind)
          | Inr _ \<Rightarrow> ret (Inr ())))
      else ret (Inr ()))"

definition ensureSelfFinalizer ::
  "'s kube \<Rightarrow> ('s, 'spec, 'status) resource \<Rightarrow> string \<Rightarrow> string \<Rightarrow> namespaced_name \<Rightarrow> ('spec, 'status) object \<Rightarrow>
   ('s, outcome + unit) state" where
  "ensureSelfFinalizer e R fin kind req obj =
     (if \<not> hasFinalizer fin obj then
        bindM (res_get R req) (\<lambda>r. case r of
          Inl err \<Rightarrow> failR e err (''failed to get latest '' @ kind @ '' for finalizer addition'')
        | Inr latest \<Rightarrow>
            if \<not> hasFinalizer fin latest then
              bindM (res_patch R False latest (appendFinalizer fin latest)) (\<lambda>p. case p of
                Inl err \<Rightarrow> failR e err (''failed to add finalizer to '' @ kind)
              | Inr _ \<Rightarrow> ret (Inr ()))
            else ret (Inr ()))
      else ret (Inr ()))"

text \<open>The block that ends each \<open>remove\dots{}RefFinalizer\<close>: read the protected object again and
  patch the protection finalizer away.\<close>

definition dropProtection ::
  "'s kube \<Rightarrow> ('s, 'spec, 'status) resource \<Rightarrow> bool \<Rightarrow> string \<Rightarrow> string \<Rightarrow> namespaced_name \<Rightarrow>
   ('s, go_error + unit) state" where
  "dropProtection e R lock fin kind key =
     bindM (res_get R key) (\<lambda>r. case r of
       Inl err \<Rightarrow> ret (if isNotFound err then Inr ()
                      else wrapErr (k_testMode e) (Api err) (''failed to get latest '' @ kind @ '' for finalizer removal'') ())
     | Inr fresh \<Rightarrow> bindM (res_patch R lock fresh (deleteFinalizer fin fresh)) (\<lambda>p. case p of
         Inl err \<Rightarrow> ret (wrapErr (k_testMode e) (Api err) (''failed to remove protection finalizer from '' @ kind) ())
       | Inr _ \<Rightarrow> ret (Inr ())))"

text \<open>The block that adds a protection finalizer to an object that was just read.\<close>

definition addProtection ::
  "'s kube \<Rightarrow> ('s, 'spec, 'status) resource \<Rightarrow> bool \<Rightarrow> string \<Rightarrow> string \<Rightarrow> ('spec, 'status) object \<Rightarrow>
   ('s, outcome + unit) state" where
  "addProtection e R lock fin kind obj =
     (if \<not> hasFinalizer fin obj then
        bindM (res_patch R lock obj (appendFinalizer fin obj)) (\<lambda>p. case p of
          Inl err \<Rightarrow> failR e err (''failed to add protection finalizer to '' @ kind)
        | Inr _ \<Rightarrow> ret (Inr ()))
      else ret (Inr ()))"

section \<open>The contract of the API server\<close>

definition selected ::
  "(string \<Rightarrow> ('spec, 'status) object \<Rightarrow> string list) \<Rightarrow> list_options \<Rightarrow> ('spec, 'status) object \<Rightarrow> bool" where
  "selected idx opts x \<longleftrightarrow>
     (case lo_namespace opts of None \<Rightarrow> True | Some ns \<Rightarrow> om_namespace (metadata x) = ns) \<and>
     (case lo_field opts of None \<Rightarrow> True | Some (key, v) \<Rightarrow> v \<in> set (idx key x)) \<and>
     (case lo_labels opts of None \<Rightarrow> True | Some p \<Rightarrow> p (om_labels (metadata x)))"

lemma selected_simps [simp]:
  "selected idx (inNamespace ns) x \<longleftrightarrow> om_namespace (metadata x) = ns"
  "selected idx (matchingFields key v) x \<longleftrightarrow> v \<in> set (idx key x)"
  "selected idx (inNamespaceMatching ns key v) x \<longleftrightarrow> om_namespace (metadata x) = ns \<and> v \<in> set (idx key x)"
  "selected idx (inNamespaceLabels ns p) x \<longleftrightarrow> om_namespace (metadata x) = ns \<and> p (om_labels (metadata x))"
  "selected idx anyNamespace x"
  by (simp_all add: selected_def inNamespace_def matchingFields_def inNamespaceMatching_def
      inNamespaceLabels_def anyNamespace_def)

text \<open>An object that is being deleted disappears with its last finalizer.\<close>

definition settle :: "('spec, 'status) object \<Rightarrow> ('spec, 'status) object option" where
  "settle x = (if deleting x \<and> om_finalizers (metadata x) = [] then None else Some x)"

definition markDeleted :: "int \<Rightarrow> ('spec, 'status) object \<Rightarrow> ('spec, 'status) object" where
  "markDeleted t x =
     (if deleting x then x else x\<lparr>metadata := (metadata x)\<lparr>om_deletionTimestamp := Some t\<rparr>\<rparr>)"

text \<open>What a created object keeps of the request.\<close>

definition createdFrom :: "('spec, 'status) object \<Rightarrow> ('spec, 'status) object \<Rightarrow> bool" where
  "createdFrom new x \<longleftrightarrow>
     spec x = spec new \<and> om_namespace (metadata x) = om_namespace (metadata new) \<and>
     (om_name (metadata new) \<noteq> '''' \<longrightarrow> om_name (metadata x) = om_name (metadata new)) \<and>
     om_labels (metadata x) = om_labels (metadata new) \<and>
     om_finalizers (metadata x) = om_finalizers (metadata new) \<and>
     om_ownerReferences (metadata x) = om_ownerReferences (metadata new) \<and> \<not> deleting x"

locale resource_laws =
  fixes R :: "('s, 'spec, 'status) resource"
    and sel :: "'c \<Rightarrow> namespaced_name \<Rightarrow> ('spec, 'status) object option"
    and upd :: "((namespaced_name \<Rightarrow> ('spec, 'status) object option) \<Rightarrow>
                 namespaced_name \<Rightarrow> ('spec, 'status) object option) \<Rightarrow> 'c \<Rightarrow> 'c"
    and idx :: "string \<Rightarrow> ('spec, 'status) object \<Rightarrow> string list"
    and abs :: "'s \<Rightarrow> 'c"
  assumes key: "sel (abs s) k = Some x \<Longrightarrow> objectKey x = k"
    and get: "wp (res_get R k) (\<lambda>r s'. abs s' = abs s \<and> (case r of
        Inl err \<Rightarrow> isNotFound err \<longrightarrow> sel (abs s) k = None
      | Inr x \<Rightarrow> sel (abs s) k = Some x)) s"
    and list: "wp (res_list R opts) (\<lambda>r s'. abs s' = abs s \<and> (case r of
        Inl err \<Rightarrow> True
      | Inr xs \<Rightarrow> set xs = {x. sel (abs s) (objectKey x) = Some x \<and> selected idx opts x})) s"
    and apiList: "wp (res_apiList R opts) (\<lambda>r s'. abs s' = abs s \<and> (case r of
        Inl err \<Rightarrow> True
      | Inr xs \<Rightarrow> set xs = {x. sel (abs s) (objectKey x) = Some x \<and> selected idx opts x})) s"
    and create: "wp (res_create R new) (\<lambda>r s'. case r of
        Inl err \<Rightarrow> abs s' = abs s \<and> (isAlreadyExists err \<longrightarrow> om_name (metadata new) \<noteq> [] \<longrightarrow> sel (abs s) (objectKey new) \<noteq> None)
      | Inr x \<Rightarrow> createdFrom new x \<and> sel (abs s) (objectKey x) = None \<and>
                abs s' = upd (\<lambda>m. m(objectKey x := Some x)) (abs s)) s"
    and delete: "wp (res_delete R x) (\<lambda>r s'. case r of
        Inl err \<Rightarrow> abs s' = abs s \<and> (isNotFound err \<longrightarrow> sel (abs s) (objectKey x) = None)
      | Inr _ \<Rightarrow> (\<exists>old t. sel (abs s) (objectKey x) = Some old \<and>
                abs s' = upd (\<lambda>m. m(objectKey x := settle (markDeleted t old))) (abs s))) s"
    and patch: "sel (abs s) (objectKey new) = Some base \<Longrightarrow>
      wp (res_patch R lock base new) (\<lambda>r s'. case r of
        Inl err \<Rightarrow> abs s' = abs s
      | Inr x \<Rightarrow> x = new \<and> abs s' = upd (\<lambda>m. m(objectKey new := settle new)) (abs s)) s"
    and statusUpdate: "wp (res_statusUpdate R new) (\<lambda>r s'. case r of
        Inl err \<Rightarrow> abs s' = abs s
      | Inr x \<Rightarrow> (\<exists>old. sel (abs s) (objectKey new) = Some old \<and> x = old\<lparr>status := status new\<rparr> \<and>
                abs s' = upd (\<lambda>m. m(objectKey new := Some x)) (abs s))) s"
    and statusPatch: "wp (res_statusPatch R base new) (\<lambda>r s'. case r of
        Inl err \<Rightarrow> abs s' = abs s
      | Inr x \<Rightarrow> (\<exists>old. sel (abs s) (objectKey new) = Some old \<and> x = old\<lparr>status := status new\<rparr> \<and>
                abs s' = upd (\<lambda>m. m(objectKey new := Some x)) (abs s))) s"
begin

lemma get_wp:
  "(\<And>err s'. abs s' = abs s \<Longrightarrow> isNotFound err \<longrightarrow> sel (abs s) k = None \<Longrightarrow> Q (Inl err) s') \<Longrightarrow>
   (\<And>x s'. abs s' = abs s \<Longrightarrow> sel (abs s) k = Some x \<Longrightarrow> objectKey x = k \<Longrightarrow> Q (Inr x) s') \<Longrightarrow> wp (res_get R k) Q s"
  using get [of k s] by (rule wp_mono) (auto split: sum.splits dest: key)

lemma list_wp:
  "(\<And>err s'. abs s' = abs s \<Longrightarrow> Q (Inl err) s') \<Longrightarrow>
   (\<And>xs s'. abs s' = abs s \<Longrightarrow> set xs = {x. sel (abs s) (objectKey x) = Some x \<and> selected idx opts x} \<Longrightarrow> Q (Inr xs) s') \<Longrightarrow>
   wp (res_list R opts) Q s"
  using list [of opts s] by (rule wp_mono) (auto split: sum.splits)

lemma apiList_wp:
  "(\<And>err s'. abs s' = abs s \<Longrightarrow> Q (Inl err) s') \<Longrightarrow>
   (\<And>xs s'. abs s' = abs s \<Longrightarrow> set xs = {x. sel (abs s) (objectKey x) = Some x \<and> selected idx opts x} \<Longrightarrow> Q (Inr xs) s') \<Longrightarrow>
   wp (res_apiList R opts) Q s"
  using apiList [of opts s] by (rule wp_mono) (auto split: sum.splits)

lemma patch_wp:
  "sel (abs s) (objectKey new) = Some base \<Longrightarrow>
   (\<And>err s'. abs s' = abs s \<Longrightarrow> Q (Inl err) s') \<Longrightarrow>
   (\<And>s'. abs s' = upd (\<lambda>m. m(objectKey new := settle new)) (abs s) \<Longrightarrow> Q (Inr new) s') \<Longrightarrow>
   wp (res_patch R lock base new) Q s"
  by (rule wp_mono [OF patch]) (auto split: sum.splits)

lemma create_wp:
  "(\<And>err s'. abs s' = abs s \<Longrightarrow> (isAlreadyExists err \<longrightarrow> om_name (metadata new) \<noteq> [] \<longrightarrow> sel (abs s) (objectKey new) \<noteq> None) \<Longrightarrow> Q (Inl err) s') \<Longrightarrow>
   (\<And>x s'. createdFrom new x \<Longrightarrow> sel (abs s) (objectKey x) = None \<Longrightarrow>
      abs s' = upd (\<lambda>m. m(objectKey x := Some x)) (abs s) \<Longrightarrow> Q (Inr x) s') \<Longrightarrow>
   wp (res_create R new) Q s"
  using create [of new s] by (rule wp_mono) (auto split: sum.splits)

lemma delete_wp:
  "(\<And>err s'. abs s' = abs s \<Longrightarrow> isNotFound err \<longrightarrow> sel (abs s) (objectKey x) = None \<Longrightarrow> Q (Inl err) s') \<Longrightarrow>
   (\<And>old t s'. sel (abs s) (objectKey x) = Some old \<Longrightarrow>
      abs s' = upd (\<lambda>m. m(objectKey x := settle (markDeleted t old))) (abs s) \<Longrightarrow> Q (Inr ()) s') \<Longrightarrow>
   wp (res_delete R x) Q s"
  using delete [of x s] by (rule wp_mono) (auto split: sum.splits)

lemma statusUpdate_wp:
  "(\<And>err s'. abs s' = abs s \<Longrightarrow> Q (Inl err) s') \<Longrightarrow>
   (\<And>old s'. sel (abs s) (objectKey new) = Some old \<Longrightarrow>
      abs s' = upd (\<lambda>m. m(objectKey new := Some (old\<lparr>status := status new\<rparr>))) (abs s) \<Longrightarrow>
      Q (Inr (old\<lparr>status := status new\<rparr>)) s') \<Longrightarrow>
   wp (res_statusUpdate R new) Q s"
  using statusUpdate [of new s] by (rule wp_mono) (auto split: sum.splits)

lemma statusPatch_wp:
  "(\<And>err s'. abs s' = abs s \<Longrightarrow> Q (Inl err) s') \<Longrightarrow>
   (\<And>old s'. sel (abs s) (objectKey new) = Some old \<Longrightarrow>
      abs s' = upd (\<lambda>m. m(objectKey new := Some (old\<lparr>status := status new\<rparr>))) (abs s) \<Longrightarrow>
      Q (Inr (old\<lparr>status := status new\<rparr>)) s') \<Longrightarrow>
   wp (res_statusPatch R base new) Q s"
  using statusPatch [of base new s] by (rule wp_mono) (auto split: sum.splits)

text \<open>The repeated blocks, by the objects they change.\<close>

lemma removeSelf_wp:
  assumes "\<And>r s'. abs s' = abs s \<Longrightarrow> Q r s'"
    and "\<And>x s'. sel (abs s) req = Some x \<Longrightarrow> objectKey x = req \<Longrightarrow>
      abs s' = upd (\<lambda>m. m(req := settle (deleteFinalizer fin x))) (abs s) \<Longrightarrow> Q (Inr ()) s'"
  shows "wp (removeSelfFinalizer e R fin kind req obj) Q s"
  using assms unfolding removeSelfFinalizer_def failR_def
  by (auto intro!: get_wp patch_wp)

lemma ensureSelf_wp:
  assumes "\<And>out s'. abs s' = abs s \<Longrightarrow> Q (Inl out) s'"
    and "\<And>x s'. abs s' = abs s \<Longrightarrow> hasFinalizer fin obj \<or> sel (abs s) req = Some x \<and> hasFinalizer fin x \<Longrightarrow> Q (Inr ()) s'"
    and "\<And>x s'. sel (abs s) req = Some x \<Longrightarrow> objectKey x = req \<Longrightarrow>
      abs s' = upd (\<lambda>m. m(req := settle (appendFinalizer fin x))) (abs s) \<Longrightarrow> Q (Inr ()) s'"
  shows "wp (ensureSelfFinalizer e R fin kind req obj) Q s"
  using assms unfolding ensureSelfFinalizer_def failR_def
  by (auto intro!: get_wp patch_wp)

lemma dropProtection_wp:
  assumes "\<And>r s'. abs s' = abs s \<Longrightarrow> Q r s'"
    and "\<And>x s'. sel (abs s) k = Some x \<Longrightarrow> objectKey x = k \<Longrightarrow>
      abs s' = upd (\<lambda>m. m(k := settle (deleteFinalizer fin x))) (abs s) \<Longrightarrow> Q (Inr ()) s'"
  shows "wp (dropProtection e R lock fin kind k) Q s"
  using assms unfolding dropProtection_def
  by (auto intro!: get_wp patch_wp)

lemma addProtection_wp:
  assumes "sel (abs s) (objectKey obj) = Some obj"
    and "\<And>out s'. abs s' = abs s \<Longrightarrow> Q (Inl out) s'"
    and "\<And>s'. abs s' = abs s \<Longrightarrow> hasFinalizer fin obj \<Longrightarrow> Q (Inr ()) s'"
    and "\<And>s'. abs s' = upd (\<lambda>m. m(objectKey obj := settle (appendFinalizer fin obj))) (abs s) \<Longrightarrow> Q (Inr ()) s'"
  shows "wp (addProtection e R lock fin kind obj) Q s"
  using assms unfolding addProtection_def failR_def
  by (auto intro!: patch_wp)

end

lemma settle_append [simp]: "settle (appendFinalizer f x) = Some (appendFinalizer f x)"
  by (simp add: settle_def appendFinalizer_def)

lemma settle_hasFinalizer: "hasFinalizer f x \<Longrightarrow> settle x = Some x"
  by (auto simp: settle_def hasFinalizer_def)

lemma settle_active: "\<not> deleting x \<Longrightarrow> settle x = Some x"
  by (simp add: settle_def)

lemma markDeleted_simps [simp]:
  "spec (markDeleted t x) = spec x" "status (markDeleted t x) = status x" "objectKey (markDeleted t x) = objectKey x"
  "hasFinalizer f (markDeleted t x) = hasFinalizer f x" "deleting (markDeleted t x)"
  "om_finalizers (metadata (markDeleted t x)) = om_finalizers (metadata x)"
  by (auto simp: markDeleted_def objectKey_def hasFinalizer_def deleting_def)

text \<open>What a deletion leaves: no object, or one that is being deleted.\<close>

definition goneOrDeleting :: "('spec, 'status) object option \<Rightarrow> bool" where
  "goneOrDeleting v \<longleftrightarrow> (\<forall>x. v = Some x \<longrightarrow> deleting x)"

lemma goneOrDeleting_settle [simp]: "goneOrDeleting (settle (markDeleted t x))"
  by (auto simp: goneOrDeleting_def settle_def split: if_splits)

lemma goneOrDeleting_None [simp]: "goneOrDeleting None"
  by (simp add: goneOrDeleting_def)

lemma wp_orReturn [simp, wp_rules]:
  "wp (orReturn m) Q s = wp m (\<lambda>r. case r of Inl err \<Rightarrow> Q (Inl (Inl err)) | Inr a \<Rightarrow> Q (Inr a)) s"
  unfolding orReturn_def wp_bind
  by (rule arg_cong [where f = "\<lambda>q. wp m q s"]) (auto simp: fun_eq_iff split: sum.splits)

lemma wp_finish [simp, wp_rules]:
  "wp (finish m) Q s = wp m (\<lambda>r. case r of Inl out \<Rightarrow> Q out | Inr _ \<Rightarrow> Q (Inr 0)) s"
  unfolding finish_def wp_bind
  by (rule arg_cong [where f = "\<lambda>q. wp m q s"]) (auto simp: fun_eq_iff split: sum.splits)

lemma wp_failR [simp, wp_rules]: "wp (failR e err text) Q s = Q (Inl (wrapErr (k_testMode e) (Api err) text 0)) s"
  by (simp add: failR_def)

lemma wp_returnR [simp, wp_rules]: "wp (returnR after) Q s = Q (Inl (Inr after)) s"
  by (simp add: returnR_def)

lemma wrapErr_production [simp]: "text \<noteq> '''' \<Longrightarrow> wrapErr False err text x = Inl (Wrapped text err)"
  by (simp add: wrapErr_def errLogAndWrap_def)

text \<open>Proof rules for branching code under \<open>wp\<close>.\<close>

lemma wp_if [wp_rules]: "(b \<Longrightarrow> wp m Q s) \<Longrightarrow> (\<not> b \<Longrightarrow> wp n Q s) \<Longrightarrow> wp (if b then m else n) Q s"
  by simp

lemma wp_case_sum [wp_rules]:
  "(\<And>a. r = Inl a \<Longrightarrow> wp (f a) Q s) \<Longrightarrow> (\<And>b. r = Inr b \<Longrightarrow> wp (g b) Q s) \<Longrightarrow>
   wp (case r of Inl a \<Rightarrow> f a | Inr b \<Rightarrow> g b) Q s"
  by (cases r) auto

text \<open>What a successful run (outcome \<open>Inr\<close>) outside test mode has done: the runs that end in an error
  drop out.\<close>

definition succeeds :: "('a \<Rightarrow> 's \<Rightarrow> bool) \<Rightarrow> 'e + 'a \<Rightarrow> 's \<Rightarrow> bool" where
  "succeeds P r s \<longleftrightarrow> (case r of Inl _ \<Rightarrow> True | Inr a \<Rightarrow> P a s)"

lemma succeeds_simps [simp]: "succeeds P (Inl err) s" "succeeds P (Inr a) s = P a s"
  by (simp_all add: succeeds_def)

lemma succeeds_wrapErr [simp]: "\<not> tm \<Longrightarrow> text \<noteq> '''' \<Longrightarrow> succeeds P (wrapErr tm err text x) s"
  by (simp add: wrapErr_def errLogAndWrap_def)

lemma wp_succeeds: "wp m (succeeds P) s \<Longrightarrow> run_state m s = (Inr a, s') \<Longrightarrow> P a s'"
  by (simp add: wp_def)

context resource_laws begin

lemma withObject_wp:
  assumes "sel (abs s) req = Some x" "watched e req" "\<not> k_testMode e" "text \<noteq> ''''"
    and "\<And>s'. abs s' = abs s \<Longrightarrow> objectKey x = req \<Longrightarrow> wp (k x) (succeeds P) s'"
  shows "wp (withObject e R req text k) (succeeds P) s"
  using assms unfolding withObject_def watched_def by (auto intro!: get_wp)

lemma ensureSelf_prod:
  assumes "sel (abs s) req = Some x" "\<not> k_testMode e" and "\<And>err s'. abs s' = abs s \<Longrightarrow> Q (Inl (Inl err)) s'"
    and "\<And>s'. abs s' = abs s \<Longrightarrow> hasFinalizer fin x \<Longrightarrow> Q (Inr ()) s'"
    and "\<And>s'. abs s' = upd (\<lambda>m. m(req := Some (appendFinalizer fin x))) (abs s) \<Longrightarrow> Q (Inr ()) s'"
  shows "wp (ensureSelfFinalizer e R fin kind req x) Q s"
  using assms unfolding ensureSelfFinalizer_def failR_def by (auto intro!: get_wp patch_wp)

lemma withObject_case:
  assumes "sel (abs s) req = Some x" "\<not> k_testMode e" "text \<noteq> ''''"
    and "\<not> watched e req \<Longrightarrow> Q (Inr 0) s" and "\<And>err s'. abs s' = abs s \<Longrightarrow> Q (Inl err) s'"
    and "\<And>s'. abs s' = abs s \<Longrightarrow> objectKey x = req \<Longrightarrow> wp (k x) Q s'"
  shows "wp (withObject e R req text k) Q s"
  using assms unfolding withObject_def watched_def by (auto intro!: get_wp)

lemma withObject_any:
  assumes "\<And>r s'. abs s' = abs s \<Longrightarrow> Q r s'"
    and "\<And>x s'. abs s' = abs s \<Longrightarrow> sel (abs s) req = Some x \<Longrightarrow> objectKey x = req \<Longrightarrow> wp (k x) Q s'"
  shows "wp (withObject e R req text k) Q s"
  using assms unfolding withObject_def by (auto intro!: get_wp)

end

section \<open>The whole cluster\<close>

record cluster =
  cl_components :: "namespaced_name \<Rightarrow> component option"
  cl_componentversions :: "namespaced_name \<Rightarrow> component_version option"
  cl_profiles :: "namespaced_name \<Rightarrow> profile option"
  cl_referencegrants :: "namespaced_name \<Rightarrow> reference_grant option"
  cl_registries :: "namespaced_name \<Rightarrow> registry option"
  cl_registrybindings :: "namespaced_name \<Rightarrow> registry_binding option"
  cl_releases :: "namespaced_name \<Rightarrow> release option"
  cl_releasebindings :: "namespaced_name \<Rightarrow> release_binding option"
  cl_renderartifacts :: "namespaced_name \<Rightarrow> render_artifact option"
  cl_renderbindings :: "namespaced_name \<Rightarrow> render_binding option"
  cl_rendertasks :: "namespaced_name \<Rightarrow> render_task option"
  cl_targets :: "namespaced_name \<Rightarrow> target option"
  cl_secrets :: "namespaced_name \<Rightarrow> secret option"
  cl_jobs :: "namespaced_name \<Rightarrow> job option"
  cl_ociTags :: "string \<Rightarrow> bool"

locale kube_laws =
  comp: resource_laws "k_components e" cl_components cl_components_update "\<lambda>_ _. []" abs +
  cv: resource_laws "k_componentversions e" cl_componentversions cl_componentversions_update index_component_version abs +
  pro: resource_laws "k_profiles e" cl_profiles cl_profiles_update index_profile abs +
  grant: resource_laws "k_referencegrants e" cl_referencegrants cl_referencegrants_update "\<lambda>_ _. []" abs +
  reg: resource_laws "k_registries e" cl_registries cl_registries_update "\<lambda>_ _. []" abs +
  regb: resource_laws "k_registrybindings e" cl_registrybindings cl_registrybindings_update index_registry_binding abs +
  rel: resource_laws "k_releases e" cl_releases cl_releases_update index_release abs +
  relb: resource_laws "k_releasebindings e" cl_releasebindings cl_releasebindings_update index_release_binding abs +
  art: resource_laws "k_renderartifacts e" cl_renderartifacts cl_renderartifacts_update "\<lambda>_ _. []" abs +
  rb: resource_laws "k_renderbindings e" cl_renderbindings cl_renderbindings_update index_render_binding abs +
  rt: resource_laws "k_rendertasks e" cl_rendertasks cl_rendertasks_update index_render_task abs +
  tgt: resource_laws "k_targets e" cl_targets cl_targets_update index_target abs +
  sec: resource_laws "k_secrets e" cl_secrets cl_secrets_update "\<lambda>_ _. []" abs +
  job: resource_laws "k_jobs e" cl_jobs cl_jobs_update "\<lambda>_ _. []" abs
  for e :: "'s kube" and abs :: "'s \<Rightarrow> cluster" +
  assumes event: "wp (k_eventf e t reason note) (\<lambda>_ s'. abs s' = abs s) s"
    and now: "wp (k_now e) (\<lambda>_ s'. abs s' = abs s) s"
    and backoff: "wp (k_backoff e) (\<lambda>f s'. abs s' = abs s \<and> jittered_backoff f) s"
    and remoteDelete: "wp (k_remoteDelete e ref insecure credentials) (\<lambda>r s'. case r of
        Inl (TransportError code msg) \<Rightarrow> abs s' = abs s \<and> (code = 404 \<longrightarrow> \<not> cl_ociTags (abs s) ref)
      | Inl (OciError msg) \<Rightarrow> abs s' = abs s
      | Inr _ \<Rightarrow> abs s' = cl_ociTags_update (\<lambda>m. m(ref := False)) (abs s)) s"
    and setCondition_find: "k_setStatusCondition e tm conds c = (conds', changed) \<Longrightarrow>
      k_findStatusCondition e conds' (cond_type c) = Some c' \<Longrightarrow>
      cond_status c' = cond_status c \<and> cond_reason c' = cond_reason c \<and> cond_message c' = cond_message c"
    and setCondition_some: "k_setStatusCondition e tm conds c = (conds', changed) \<Longrightarrow>
      k_findStatusCondition e conds' (cond_type c) \<noteq> None"
    and setCondition_other: "k_setStatusCondition e tm conds c = (conds', changed) \<Longrightarrow> ty \<noteq> cond_type c \<Longrightarrow>
      k_findStatusCondition e conds' ty = k_findStatusCondition e conds ty"
    and setCondition_same: "k_setStatusCondition e tm conds c = (conds', False) \<Longrightarrow> conds' = conds"
    and conditionTrue: "k_isStatusConditionTrue e conds ty \<longleftrightarrow>
      (\<exists>c. k_findStatusCondition e conds ty = Some c \<and> cond_status c = ConditionTrue)"
    and controllerOf: "om_ownerReferences m = om_ownerReferences m' \<Longrightarrow> k_getControllerOf e m = k_getControllerOf e m'"
    and controlledBy: "om_ownerReferences m = om_ownerReferences m' \<Longrightarrow> k_isControlledBy e m owner = k_isControlledBy e m' owner"
    and setControllerRef: "k_setControllerReference e owner m = Inr m' \<Longrightarrow>
      m' = m\<lparr>om_ownerReferences := om_ownerReferences m'\<rparr> \<and> k_isControlledBy e m' owner"
    and specEqual_refl: "k_renderTaskSpecEqual e sp sp"

end
