(* ===== verification/Protection.thy ===== *)
theory Protection
  imports Kube
begin

text \<open>
  Deletion protection, the protocol that five controllers share: a referencing object
  (ComponentVersion, Release, RegistryBinding, Target, ReleaseBinding, Profile) puts a
  finalizer on the object it references, and the finalizer is removed when no active
  object references it any more. The locale \<open>protection\<close> states what the protocol is about
  for one pair of kinds, \<open>protects c k t\<close> (the active object \<open>k\<close> references \<open>t\<close>, which exists
  and carries the finalizer), and proves which writes keep it.
\<close>

section \<open>Writes that respect a set of finalizers\<close>

text \<open>\<open>tame F m m'\<close>: one write on the objects of a kind that removes no finalizer of \<open>F\<close> and leaves
  the spec alone: a finalizer added, another finalizer removed, a status written, a deletion
  requested.\<close>

inductive tame ::
  "string set \<Rightarrow> (namespaced_name \<Rightarrow> ('spec, 'status) object option) \<Rightarrow>
   (namespaced_name \<Rightarrow> ('spec, 'status) object option) \<Rightarrow> bool" for F m where
  tame_append: "m k = Some x \<Longrightarrow> tame F m (m(k := Some (appendFinalizer f x)))"
| tame_remove: "m k = Some x \<Longrightarrow> f \<notin> F \<Longrightarrow> tame F m (m(k := settle (deleteFinalizer f x)))"
| tame_status: "m k = Some x \<Longrightarrow> tame F m (m(k := Some (x\<lparr>status := v\<rparr>)))"
| tame_delete: "m k = Some x \<Longrightarrow> tame F m (m(k := settle (markDeleted t x)))"

text \<open>What users and other controllers do to the objects of one kind: create an object under a free
  key, or edit one while keeping the finalizers of \<open>F\<close>, the reference and the deletion state.\<close>

inductive client ::
  "string set \<Rightarrow> (('spec, 'status) object \<Rightarrow> 'r) \<Rightarrow> (namespaced_name \<Rightarrow> ('spec, 'status) object option) \<Rightarrow>
   (namespaced_name \<Rightarrow> ('spec, 'status) object option) \<Rightarrow> bool" for F refs m where
  client_create: "m k = None \<Longrightarrow> client F refs m (m(k := Some x))"
| client_edit: "m k = Some x \<Longrightarrow> refs y = refs x \<Longrightarrow> deleting y = deleting x \<Longrightarrow>
    (\<forall>f \<in> F. hasFinalizer f x \<longrightarrow> hasFinalizer f y) \<Longrightarrow> client F refs m (m(k := Some y))"

section \<open>Protection\<close>

locale protection =
  fixes selA :: "'c \<Rightarrow> namespaced_name \<Rightarrow> ('a, 'sa) object option"
    and updA :: "((namespaced_name \<Rightarrow> ('a, 'sa) object option) \<Rightarrow> namespaced_name \<Rightarrow> ('a, 'sa) object option) \<Rightarrow> 'c \<Rightarrow> 'c"
    and selB :: "'c \<Rightarrow> namespaced_name \<Rightarrow> ('b, 'sb) object option"
    and updB :: "((namespaced_name \<Rightarrow> ('b, 'sb) object option) \<Rightarrow> namespaced_name \<Rightarrow> ('b, 'sb) object option) \<Rightarrow> 'c \<Rightarrow> 'c"
    and refs :: "('a, 'sa) object \<Rightarrow> namespaced_name option"
    and fin :: string
  assumes selA_updA: "selA (updA f c) = f (selA c)"
    and selB_updB: "selB (updB g c) = g (selB c)"
    and selB_updA: "selB (updA f c) = selB c"
    and selA_updB: "selA (updB g c) = selA c"
    and refs_meta: "spec x = spec y \<Longrightarrow> om_namespace (metadata x) = om_namespace (metadata y) \<Longrightarrow> refs x = refs y"
begin

definition protects :: "'c \<Rightarrow> namespaced_name \<Rightarrow> namespaced_name \<Rightarrow> bool" where
  "protects c k t \<longleftrightarrow>
     (\<exists>a b. selA c k = Some a \<and> \<not> deleting a \<and> refs a = Some t \<and> selB c t = Some b \<and> hasFinalizer fin b)"

lemma refs_simps [simp]:
  "refs (appendFinalizer f x) = refs x" "refs (deleteFinalizer f x) = refs x" "refs (x\<lparr>status := v\<rparr>) = refs x"
  by (rule refs_meta; simp add: appendFinalizer_def deleteFinalizer_def)+

text \<open>The writes of the controllers: a finalizer added to or removed from the referencing object,
  a status write on it, a finalizer added to the referenced object, a change of another
  object of its kind, the removal of another finalizer.\<close>

lemma keep_append_A:
  "protects c k t \<Longrightarrow> selA c r = Some x \<Longrightarrow> protects (updA (\<lambda>m. m(r := Some (appendFinalizer f x))) c) k t"
  unfolding protects_def selA_updA selB_updA
  by auto

lemma keep_delete_A:
  "protects c k t \<Longrightarrow> selA c r = Some x \<Longrightarrow>
   protects (updA (\<lambda>m. m(r := settle (deleteFinalizer f x))) c) k t"
  unfolding protects_def selA_updA selB_updA
  by (auto simp: settle_active)

lemma keep_status_A:
  "protects c k t \<Longrightarrow> selA c r = Some x \<Longrightarrow> protects (updA (\<lambda>m. m(r := Some (x\<lparr>status := v\<rparr>))) c) k t"
  unfolding protects_def selA_updA selB_updA
  by auto

lemma keep_append_B:
  "protects c k t \<Longrightarrow> selB c r = Some x \<Longrightarrow> protects (updB (\<lambda>m. m(r := Some (appendFinalizer f x))) c) k t"
  unfolding protects_def selB_updB selA_updB by auto

lemma keep_other_B: "protects c k t \<Longrightarrow> r \<noteq> t \<Longrightarrow> protects (updB (\<lambda>m. m(r := y)) c) k t"
  unfolding protects_def selB_updB selA_updB by auto

lemma keep_delete_B:
  "protects c k t \<Longrightarrow> selB c r = Some x \<Longrightarrow> f \<noteq> fin \<Longrightarrow>
   protects (updB (\<lambda>m. m(r := settle (deleteFinalizer f x))) c) k t"
  unfolding protects_def selB_updB selA_updB
  by (auto simp: settle_hasFinalizer [where f = fin])

lemma keep_status_B:
  "protects c k t \<Longrightarrow> selB c r = Some x \<Longrightarrow> protects (updB (\<lambda>m. m(r := Some (x\<lparr>status := v\<rparr>))) c) k t"
  unfolding protects_def selB_updB selA_updB by auto

lemma keep_markDeleted_B:
  "protects c k t \<Longrightarrow> selB c r = Some x \<Longrightarrow>
   protects (updB (\<lambda>m. m(r := settle (markDeleted tm x))) c) k t"
  unfolding protects_def selB_updB selA_updB by (auto simp: settle_hasFinalizer)

text \<open>A deletion request for a protected object leaves the object in place.\<close>

lemma protected_survives_delete:
  assumes "protects c k t" and "selB c t = Some b"
  shows "selB (updB (\<lambda>m. m(t := settle (markDeleted tm b))) c) t \<noteq> None"
  using assms by (auto simp: protects_def selB_updB settle_hasFinalizer)

lemma keep_tame_B:
  assumes "protects c k t" and "tame F (selB c) (g (selB c))" and "fin \<in> F"
  shows "protects (updB g c) k t"
proof -
  obtain a b where ab: "selA c k = Some a" "\<not> deleting a" "refs a = Some t" "selB c t = Some b" "hasFinalizer fin b"
    using assms(1) by (auto simp: protects_def)
  from assms(2) have "\<exists>b'. g (selB c) t = Some b' \<and> hasFinalizer fin b'"
  proof cases
    case (tame_remove k' x f)
    then have "fin \<noteq> f" using assms(3) by auto
    then have "hasFinalizer fin x \<Longrightarrow> settle (deleteFinalizer f x) = Some (deleteFinalizer f x)"
      by (intro settle_hasFinalizer) simp
    then show ?thesis using tame_remove ab \<open>fin \<noteq> f\<close> by auto
  next
    case (tame_status k' x v)
    then show ?thesis using ab by auto
  next
    case (tame_delete k' x t')
    then show ?thesis using ab by (auto simp: settle_hasFinalizer)
  qed (use ab in auto)
  then show ?thesis using ab by (auto simp: protects_def selB_updB selA_updB)
qed

lemma keep_tame_A:
  assumes "protects c k t" and "tame F (selA c) (f (selA c))"
    and "selA (updA f c) k = Some a" and "\<not> deleting a"
  shows "protects (updA f c) k t"
  using assms(2,1,3,4) unfolding protects_def selA_updA selB_updA
  by cases (auto simp: settle_def split: if_splits)

definition active :: "'c \<Rightarrow> namespaced_name \<Rightarrow> bool" where
  "active c k \<longleftrightarrow> (\<exists>a. selA c k = Some a \<and> \<not> deleting a)"

text \<open>No tame write makes an object active again.\<close>

lemma tame_active: "tame F (selA c) (f (selA c)) \<Longrightarrow> active (updA f c) k \<Longrightarrow> active c k"
  unfolding active_def selA_updA
  by (erule tame.cases) (auto simp: settle_def split: if_splits)

lemma drop_active:
  "selA c t = Some b \<Longrightarrow> active (updA (\<lambda>m. m(t := settle (deleteFinalizer f b))) c) k \<Longrightarrow> active c k"
  unfolding active_def selA_updA by (auto simp: settle_def split: if_splits)

lemma active_frame: "selA c' = selA c \<Longrightarrow> active c' k \<Longrightarrow> active c k"
  by (simp add: active_def)

lemma keep_frame: "protects c k t \<Longrightarrow> selA c' = selA c \<Longrightarrow> selB c' = selB c \<Longrightarrow> protects c' k t"
  by (simp add: protects_def)

text \<open>Clients that create objects and edit them respect the protection as well.\<close>

lemma keep_client_A:
  assumes "client F refs (selA c) m" and "protects c k t"
  shows "protects (updA (\<lambda>_. m) c) k t"
  using assms by (cases) (auto simp: protects_def selA_updA selB_updA)

lemma keep_client_B:
  assumes "client F g (selB c) m" and "fin \<in> F" and "protects c k t"
  shows "protects (updB (\<lambda>_. m) c) k t"
  using assms by (cases) (auto simp: protects_def selB_updB selA_updB)

text \<open>Removing the finalizer is safe when nothing active references the object.\<close>

lemma keep_drop:
  assumes "protects c k t" and "\<forall>k' a. selA c k' = Some a \<longrightarrow> refs a = Some r \<longrightarrow> deleting a"
  shows "protects (updB (\<lambda>m. m(r := y)) c) k t"
  using assms by (intro keep_other_B) (auto simp: protects_def)

lemma protects_active: "protects c k t \<Longrightarrow> selA c k = Some a \<Longrightarrow> \<not> deleting a"
  by (auto simp: protects_def)

end

section \<open>The references\<close>

text \<open>Which object an object references, as the reconcilers resolve it.\<close>

definition cvRef :: "component_version \<Rightarrow> namespaced_name option" where
  "cvRef cv = (if cv_componentRef (spec cv) = '''' then None
     else Some \<lparr>nn_namespace = om_namespace (metadata cv), nn_name = cv_componentRef (spec cv)\<rparr>)"

definition releaseRef :: "release \<Rightarrow> namespaced_name option" where
  "releaseRef rel = (if rel_componentVersionRef (spec rel) = '''' then None
     else Some \<lparr>nn_namespace = (if rel_componentVersionNamespace (spec rel) \<noteq> ''''
                  then rel_componentVersionNamespace (spec rel) else om_namespace (metadata rel)),
                nn_name = rel_componentVersionRef (spec rel)\<rparr>)"

definition registryBindingRef :: "registry_binding \<Rightarrow> namespaced_name option" where
  "registryBindingRef rb = (if rgb_registryRef (spec rb) = '''' then None
     else Some \<lparr>nn_namespace = om_namespace (metadata rb), nn_name = rgb_registryRef (spec rb)\<rparr>)"

definition targetRef :: "target \<Rightarrow> namespaced_name option" where
  "targetRef t = (if tgt_renderRegistryRef (spec t) = '''' then None
     else Some \<lparr>nn_namespace = (if tgt_renderRegistryNamespace (spec t) \<noteq> ''''
                  then tgt_renderRegistryNamespace (spec t) else om_namespace (metadata t)),
                nn_name = tgt_renderRegistryRef (spec t)\<rparr>)"

definition profileRef :: "profile \<Rightarrow> namespaced_name option" where
  "profileRef p = (if prf_releaseRef (spec p) = '''' then None
     else Some \<lparr>nn_namespace = om_namespace (metadata p), nn_name = prf_releaseRef (spec p)\<rparr>)"

definition releaseBindingRef :: "release_binding \<Rightarrow> namespaced_name option" where
  "releaseBindingRef rb = (if rlb_releaseRef (spec rb) = '''' then None
     else Some \<lparr>nn_namespace = om_namespace (metadata rb), nn_name = rlb_releaseRef (spec rb)\<rparr>)"

interpretation cvp: protection cl_componentversions cl_componentversions_update
  cl_components cl_components_update cvRef componentRefFinalizer
  by unfold_locales (simp_all add: cvRef_def)

interpretation relp: protection cl_releases cl_releases_update
  cl_componentversions cl_componentversions_update releaseRef componentVersionRefFinalizer
  by unfold_locales (simp_all add: releaseRef_def)

interpretation regp: protection cl_registrybindings cl_registrybindings_update
  cl_registries cl_registries_update registryBindingRef registryRefFinalizer
  by unfold_locales (simp_all add: registryBindingRef_def)

interpretation tgtp: protection cl_targets cl_targets_update
  cl_registries cl_registries_update targetRef registryRefFinalizer
  by unfold_locales (simp_all add: targetRef_def)

interpretation prfp: protection cl_profiles cl_profiles_update
  cl_releases cl_releases_update profileRef releaseRefFinalizer
  by unfold_locales (simp_all add: profileRef_def)

interpretation rlbp: protection cl_releasebindings cl_releasebindings_update
  cl_releases cl_releases_update releaseBindingRef releaseRefFinalizer
  by unfold_locales (simp_all add: releaseBindingRef_def)

end
