(* ===== verification/Protocol.thy ===== *)
theory Protocol
  imports Protection
begin

text \<open>
  The deletion-protection protocol as an abstract step relation on the cluster. A step is a
  tame write on one kind, any write on a kind that neither protects nor is protected, or
  the removal of a protection finalizer from an object that no active object references.
  \<open>evolve\<close> is the specification that every reconciler is shown to implement (\<open>follows\<close>), and
  protection is proved once, for the specification.
\<close>

definition unreferenced ::
  "(namespaced_name \<Rightarrow> ('a, 'sa) object option) \<Rightarrow> (('a, 'sa) object \<Rightarrow> namespaced_name option) \<Rightarrow>
   namespaced_name \<Rightarrow> bool" where
  "unreferenced m refs t \<longleftrightarrow> (\<forall>k a. m k = Some a \<longrightarrow> refs a = Some t \<longrightarrow> deleting a)"

text \<open>A ReleaseBinding whose controller is a Profile that is gone or being deleted is about to be
  collected and counts as no reference; \<open>ctrlOf\<close> is \<open>metav1.GetControllerOf\<close>.\<close>

definition orphaned :: "(object_meta \<Rightarrow> owner_reference option) \<Rightarrow> cluster \<Rightarrow> release_binding \<Rightarrow> bool" where
  "orphaned ctrlOf c rb \<longleftrightarrow>
     (\<exists>o'. ctrlOf (metadata rb) = Some o' \<and> own_kind o' = ''Profile'' \<and> own_apiVersion o' = schemeGroupVersion \<and>
       (\<forall>p. cl_profiles c \<lparr>nn_namespace = om_namespace (metadata rb), nn_name = own_name o'\<rparr> = Some p \<longrightarrow> deleting p))"

definition unbound :: "(object_meta \<Rightarrow> owner_reference option) \<Rightarrow> cluster \<Rightarrow> namespaced_name \<Rightarrow> bool" where
  "unbound ctrlOf c t \<longleftrightarrow>
     (\<forall>k rb. cl_releasebindings c k = Some rb \<longrightarrow> releaseBindingRef rb = Some t \<longrightarrow> deleting rb \<or> orphaned ctrlOf c rb)"

inductive evolve :: "(object_meta \<Rightarrow> owner_reference option) \<Rightarrow> cluster \<Rightarrow> cluster \<Rightarrow> bool" for ctrlOf where
  ev_components: "tame {componentRefFinalizer} (cl_components c) (f (cl_components c)) \<Longrightarrow>
    evolve ctrlOf c (cl_components_update f c)"
| ev_componentversions: "tame {componentVersionRefFinalizer} (cl_componentversions c) (f (cl_componentversions c)) \<Longrightarrow>
    evolve ctrlOf c (cl_componentversions_update f c)"
| ev_releases: "tame {releaseRefFinalizer} (cl_releases c) (f (cl_releases c)) \<Longrightarrow> evolve ctrlOf c (cl_releases_update f c)"
| ev_registries: "tame {registryRefFinalizer} (cl_registries c) (f (cl_registries c)) \<Longrightarrow>
    evolve ctrlOf c (cl_registries_update f c)"
| ev_profiles: "tame {} (cl_profiles c) (f (cl_profiles c)) \<Longrightarrow> evolve ctrlOf c (cl_profiles_update f c)"
| ev_registrybindings: "tame {} (cl_registrybindings c) (f (cl_registrybindings c)) \<Longrightarrow>
    evolve ctrlOf c (cl_registrybindings_update f c)"
| ev_releasebindings: "tame {} (cl_releasebindings c) (f (cl_releasebindings c)) \<Longrightarrow>
    evolve ctrlOf c (cl_releasebindings_update f c)"
| ev_create_releasebinding: "cl_releasebindings c k = None \<Longrightarrow>
    (\<forall>t b. releaseBindingRef rb = Some t \<longrightarrow> cl_releases c t = Some b \<longrightarrow> hasFinalizer releaseRefFinalizer b) \<Longrightarrow>
    evolve ctrlOf c (cl_releasebindings_update (\<lambda>m. m(k := Some rb)) c)"
| ev_targets: "tame {} (cl_targets c) (f (cl_targets c)) \<Longrightarrow> evolve ctrlOf c (cl_targets_update f c)"
| ev_renderartifacts: "evolve ctrlOf c (cl_renderartifacts_update g1 c)"
| ev_renderbindings: "evolve ctrlOf c (cl_renderbindings_update g2 c)"
| ev_rendertasks: "evolve ctrlOf c (cl_rendertasks_update g3 c)"
| ev_referencegrants: "evolve ctrlOf c (cl_referencegrants_update g6 c)"
| ev_ociTags: "evolve ctrlOf c (cl_ociTags_update g7 c)"
| ev_secrets: "evolve ctrlOf c (cl_secrets_update g4 c)"
| ev_jobs: "evolve ctrlOf c (cl_jobs_update g5 c)"
| ev_drop_component: "cl_components c t = Some b1 \<Longrightarrow> unreferenced (cl_componentversions c) cvRef t \<Longrightarrow>
    evolve ctrlOf c (cl_components_update (\<lambda>m. m(t := settle (deleteFinalizer componentRefFinalizer b1))) c)"
| ev_drop_componentversion: "cl_componentversions c t = Some b2 \<Longrightarrow> unreferenced (cl_releases c) releaseRef t \<Longrightarrow>
    evolve ctrlOf c (cl_componentversions_update (\<lambda>m. m(t := settle (deleteFinalizer componentVersionRefFinalizer b2))) c)"
| ev_drop_release: "cl_releases c t = Some b3 \<Longrightarrow> unreferenced (cl_profiles c) profileRef t \<Longrightarrow>
    unbound ctrlOf c t \<Longrightarrow>
    evolve ctrlOf c (cl_releases_update (\<lambda>m. m(t := settle (deleteFinalizer releaseRefFinalizer b3))) c)"
| ev_drop_registry: "cl_registries c t = Some b4 \<Longrightarrow> unreferenced (cl_targets c) targetRef t \<Longrightarrow>
    unreferenced (cl_registrybindings c) registryBindingRef t \<Longrightarrow>
    evolve ctrlOf c (cl_registries_update (\<lambda>m. m(t := settle (deleteFinalizer registryRefFinalizer b4))) c)"

lemma evolve_once: "evolve ctrlOf c c' \<Longrightarrow> (evolve ctrlOf)\<^sup>*\<^sup>* c c'"
  by (rule r_into_rtranclp)

lemma tame_drop: "m k = Some x \<Longrightarrow> tame {} m (m(k := settle (deleteFinalizer f x)))"
  by (rule tame_remove) simp_all

text \<open>A protected object stays protected along every step, as long as the object that references
  it is active.\<close>

lemma cvp_evolve:
  assumes "evolve ctrlOf c c'" and "cvp.protects c k t" and "cl_componentversions c' k = Some a" "\<not> deleting a"
  shows "cvp.protects c' k t"
  using assms
proof cases
  case (ev_drop_component t' b)
  then show ?thesis using assms(2) by (auto intro!: cvp.keep_drop simp: unreferenced_def)
next
  case (ev_drop_componentversion t' b)
  then show ?thesis using assms by (auto intro!: cvp.keep_tame_A tame_drop)
qed (use assms in \<open>auto intro: cvp.keep_frame cvp.keep_tame_A cvp.keep_tame_B\<close>)

lemma relp_evolve:
  assumes "evolve ctrlOf c c'" and "relp.protects c k t" and "cl_releases c' k = Some a" "\<not> deleting a"
  shows "relp.protects c' k t"
  using assms
proof cases
  case (ev_drop_componentversion t' b)
  then show ?thesis using assms(2) by (auto intro!: relp.keep_drop simp: unreferenced_def)
next
  case (ev_drop_release t' b)
  then show ?thesis using assms by (auto intro!: relp.keep_tame_A tame_drop)
qed (use assms in \<open>auto intro: relp.keep_frame relp.keep_tame_A relp.keep_tame_B\<close>)

lemma prfp_evolve:
  assumes "evolve ctrlOf c c'" and "prfp.protects c k t" and "cl_profiles c' k = Some a" "\<not> deleting a"
  shows "prfp.protects c' k t"
  using assms
proof cases
  case (ev_drop_release t' b)
  then show ?thesis using assms(2) by (auto intro!: prfp.keep_drop simp: unreferenced_def)
qed (use assms in \<open>auto intro: prfp.keep_frame prfp.keep_tame_A prfp.keep_tame_B\<close>)

lemma regp_evolve:
  assumes "evolve ctrlOf c c'" and "regp.protects c k t" and "cl_registrybindings c' k = Some a" "\<not> deleting a"
  shows "regp.protects c' k t"
  using assms
proof cases
  case (ev_drop_registry t' b)
  then show ?thesis using assms(2) by (auto intro!: regp.keep_drop simp: unreferenced_def)
qed (use assms in \<open>auto intro: regp.keep_frame regp.keep_tame_A regp.keep_tame_B\<close>)

lemma tgtp_evolve:
  assumes "evolve ctrlOf c c'" and "tgtp.protects c k t" and "cl_targets c' k = Some a" "\<not> deleting a"
  shows "tgtp.protects c' k t"
  using assms
proof cases
  case (ev_drop_registry t' b)
  then show ?thesis using assms(2) by (auto intro!: tgtp.keep_drop simp: unreferenced_def)
qed (use assms in \<open>auto intro: tgtp.keep_frame tgtp.keep_tame_A tgtp.keep_tame_B\<close>)

text \<open>An object that is deleted, or being deleted, is not made active again by a step.\<close>

lemma cvp_active: "evolve ctrlOf c c' \<Longrightarrow> cvp.active c' k \<Longrightarrow> cvp.active c k"
proof (induction rule: evolve.induct)
  case (ev_componentversions c f)
  then show ?case by (rule cvp.tame_active)
next
  case (ev_drop_componentversion c t b)
  then show ?case using cvp.drop_active by blast
qed (auto simp: cvp.active_def)

lemma relp_active: "evolve ctrlOf c c' \<Longrightarrow> relp.active c' k \<Longrightarrow> relp.active c k"
proof (induction rule: evolve.induct)
  case (ev_releases c f)
  then show ?case by (rule relp.tame_active)
next
  case (ev_drop_release c t b)
  then show ?case using relp.drop_active by blast
qed (auto simp: relp.active_def)

lemma regp_active: "evolve ctrlOf c c' \<Longrightarrow> regp.active c' k \<Longrightarrow> regp.active c k"
proof (induction rule: evolve.induct)
  case (ev_registrybindings c f)
  then show ?case by (rule regp.tame_active)
qed (auto simp: regp.active_def)

lemma tgtp_active: "evolve ctrlOf c c' \<Longrightarrow> tgtp.active c' k \<Longrightarrow> tgtp.active c k"
proof (induction rule: evolve.induct)
  case (ev_targets c f)
  then show ?case by (rule tgtp.tame_active)
qed (auto simp: tgtp.active_def)

lemma prfp_active: "evolve ctrlOf c c' \<Longrightarrow> prfp.active c' k \<Longrightarrow> prfp.active c k"
proof (induction rule: evolve.induct)
  case (ev_profiles c f)
  then show ?case by (rule prfp.tame_active)
qed (auto simp: prfp.active_def)

text \<open>ReleaseBindings are also created by the controllers; for them the invariant is that the
  Release of an active binding that is not orphaned carries the finalizer as long as it exists.\<close>

definition bindingGuarded ::
  "(object_meta \<Rightarrow> owner_reference option) \<Rightarrow> cluster \<Rightarrow> namespaced_name \<Rightarrow> namespaced_name \<Rightarrow> bool" where
  "bindingGuarded ctrlOf c k t \<longleftrightarrow>
     (\<forall>a b. cl_releasebindings c k = Some a \<longrightarrow> \<not> deleting a \<longrightarrow> releaseBindingRef a = Some t \<longrightarrow>
        \<not> orphaned ctrlOf c a \<longrightarrow> cl_releases c t = Some b \<longrightarrow> hasFinalizer releaseRefFinalizer b)"

lemma orphaned_cong:
  assumes "\<And>m m'. om_ownerReferences m = om_ownerReferences m' \<Longrightarrow> ctrlOf m = ctrlOf m'"
    and "om_ownerReferences (metadata a) = om_ownerReferences (metadata a')"
    and "om_namespace (metadata a) = om_namespace (metadata a')" and "cl_profiles c = cl_profiles c'"
  shows "orphaned ctrlOf c a = orphaned ctrlOf c' a'"
  using assms(1) [OF assms(2)] assms(3,4) by (simp add: orphaned_def)

lemma orphaned_stays:
  assumes "tame {} (cl_profiles c) (f (cl_profiles c))" and "orphaned ctrlOf c a"
  shows "orphaned ctrlOf (cl_profiles_update f c) a"
proof -
  have "deleting p" if "f (cl_profiles c) r = Some p" "\<forall>p. cl_profiles c r = Some p \<longrightarrow> deleting p" for r p
    using assms(1) that by (cases) (auto simp: settle_def split: if_splits)
  then show ?thesis using assms(2) by (fastforce simp: orphaned_def)
qed

lemma tame_binding:
  assumes "tame {} m m'" and "m' k = Some a" and "\<not> deleting a"
  obtains a0 where "m k = Some a0" "\<not> deleting a0" "spec a0 = spec a"
    "om_ownerReferences (metadata a0) = om_ownerReferences (metadata a)"
    "om_namespace (metadata a0) = om_namespace (metadata a)"
  using assms
proof (cases rule: tame.cases [consumes 1, case_names append remove status delete])
  case (append k' x f)
  then show ?thesis using assms(2,3) that by (auto simp: appendFinalizer_def deleting_def split: if_splits)
next
  case (remove k' x f)
  then show ?thesis using assms(2,3) that
    by (auto simp: settle_def deleteFinalizer_def deleting_def split: if_splits)
next
  case (status k' x v)
  then show ?thesis using assms(2,3) that by (auto simp: deleting_def split: if_splits)
next
  case (delete k' x t)
  then show ?thesis using assms(2,3) that by (auto simp: settle_def split: if_splits)
qed

lemma tame_finalizer:
  assumes "tame {fin} m m'" and "m' k = Some b"
  obtains b0 where "m k = Some b0" "hasFinalizer fin b0 \<Longrightarrow> hasFinalizer fin b"
  using assms by (cases) (auto simp: settle_def split: if_splits)

lemma bindingGuarded_evolve:
  assumes ctrl: "\<And>m m'. om_ownerReferences m = om_ownerReferences m' \<Longrightarrow> ctrlOf m = ctrlOf m'"
    and "evolve ctrlOf c c'" and "bindingGuarded ctrlOf c k t"
  shows "bindingGuarded ctrlOf c' k t"
  using assms(2,3)
proof (induction rule: evolve.induct)
  case (ev_releasebindings c f)
  show ?case unfolding bindingGuarded_def
  proof (intro allI impI)
    fix a b assume a: "cl_releasebindings (cl_releasebindings_update f c) k = Some a" "\<not> deleting a"
      and r: "releaseBindingRef a = Some t" "\<not> orphaned ctrlOf (cl_releasebindings_update f c) a"
        "cl_releases (cl_releasebindings_update f c) t = Some b"
    obtain a0 where a0: "cl_releasebindings c k = Some a0" "\<not> deleting a0" "spec a0 = spec a"
      "om_ownerReferences (metadata a0) = om_ownerReferences (metadata a)"
      "om_namespace (metadata a0) = om_namespace (metadata a)"
      using tame_binding [OF ev_releasebindings(1), of k a] a by auto
    have "orphaned ctrlOf c a0 = orphaned ctrlOf (cl_releasebindings_update f c) a"
      by (rule orphaned_cong [OF ctrl]) (use a0 in auto)
    moreover have "releaseBindingRef a0 = Some t" using r(1) a0(3,5) by (auto simp: releaseBindingRef_def split: if_splits)
    ultimately show "hasFinalizer releaseRefFinalizer b"
      using ev_releasebindings.prems a0 r by (auto simp: bindingGuarded_def)
  qed
next
  case (ev_releases c f)
  then show ?case
    unfolding bindingGuarded_def orphaned_def by simp (meson tame_finalizer)
next
  case (ev_profiles c f)
  then show ?case using orphaned_stays [of c f] by (simp add: bindingGuarded_def) blast
next
  case (ev_create_releasebinding c k' rb)
  then show ?case by (auto simp: bindingGuarded_def orphaned_def)
next
  case (ev_drop_release c t' b)
  have o: "orphaned ctrlOf (cl_releases_update g c) = orphaned ctrlOf c" for g
    by (simp add: fun_eq_iff orphaned_def)
  show ?case
    using ev_drop_release unfolding bindingGuarded_def unbound_def by (simp add: o) blast
qed (auto simp: bindingGuarded_def orphaned_def)

section \<open>Programs that follow the protocol\<close>

definition follows :: "'s kube \<Rightarrow> ('s \<Rightarrow> cluster) \<Rightarrow> ('s, 'a) state \<Rightarrow> bool" where
  "follows e view m \<longleftrightarrow> (\<forall>s. (evolve (k_getControllerOf e))\<^sup>*\<^sup>* (view s) (view (snd (run_state m s))))"

lemma follows_wp:
  "follows e view m \<longleftrightarrow> (\<forall>s. wp m (\<lambda>_ s'. (evolve (k_getControllerOf e))\<^sup>*\<^sup>* (view s) (view s')) s)"
  by (simp add: follows_def wp_def case_prod_unfold)

lemma follows_ret [simp, intro!]: "follows e view (ret a)"
  by (simp add: follows_def)

lemma follows_bind [intro!]:
  assumes "follows e view m" and "\<And>a. follows e view (f a)"
  shows "follows e view (bindM m f)"
  unfolding follows_wp
proof
  fix s
  have "wp m (\<lambda>a s'. wp (f a) (\<lambda>_ s''. (evolve (k_getControllerOf e))\<^sup>*\<^sup>* (view s) (view s'')) s') s"
    using assms(1) [unfolded follows_wp, rule_format, of s]
  proof (rule wp_mono)
    fix a s' assume r: "(evolve (k_getControllerOf e))\<^sup>*\<^sup>* (view s) (view s')"
    show "wp (f a) (\<lambda>_ s''. (evolve (k_getControllerOf e))\<^sup>*\<^sup>* (view s) (view s'')) s'"
      using assms(2) [unfolded follows_wp, rule_format, of a s'] by (rule wp_mono) (use r in auto)
  qed
  then show "wp (bindM m f) (\<lambda>_ s'. (evolve (k_getControllerOf e))\<^sup>*\<^sup>* (view s) (view s')) s"
    by simp
qed

lemma follows_andThen [intro!]:
  "follows e view m \<Longrightarrow> (\<And>a. follows e view (k a)) \<Longrightarrow> follows e view (andThen m k)"
  unfolding andThen_def by (auto split: sum.splits)

lemma follows_forEach [intro!]: "(\<And>x. x \<in> set xs \<Longrightarrow> follows e view (f x)) \<Longrightarrow> follows e view (forEach f xs)"
  by (induction xs) auto

lemma follows_if [intro!]:
  "(b \<Longrightarrow> follows e view m) \<Longrightarrow> (\<not> b \<Longrightarrow> follows e view n) \<Longrightarrow> follows e view (if b then m else n)"
  by simp

lemma follows_case_sum [intro!]:
  "(\<And>x. r = Inl x \<Longrightarrow> follows e view (f x)) \<Longrightarrow> (\<And>a. r = Inr a \<Longrightarrow> follows e view (g a)) \<Longrightarrow>
   follows e view (case r of Inl x \<Rightarrow> f x | Inr a \<Rightarrow> g a)"
  by (cases r) auto

lemma follows_case_option [intro!]:
  "(r = None \<Longrightarrow> follows e view n) \<Longrightarrow> (\<And>a. r = Some a \<Longrightarrow> follows e view (g a)) \<Longrightarrow>
   follows e view (case r of None \<Rightarrow> n | Some a \<Rightarrow> g a)"
  by (cases r) auto

lemma follows_case_prod [intro!]:
  "(\<And>a b. p = (a, b) \<Longrightarrow> follows e view (f a b)) \<Longrightarrow> follows e view (case p of (a, b) \<Rightarrow> f a b)"
  by (cases p) auto

lemma follows_early [simp, intro!]: "follows e view (failR e' err text)" "follows e view (returnR n)"
  by (simp_all add: failR_def returnR_def)

lemma follows_orReturn [intro!]: "follows e view m \<Longrightarrow> follows e view (orReturn m)"
  unfolding orReturn_def by (auto split: sum.splits)

lemma follows_finish [intro!]: "follows e view m \<Longrightarrow> follows e view (finish m)"
  unfolding finish_def by (auto split: sum.splits)

lemma wp_follows:
  "follows e view m \<Longrightarrow> (\<And>a s'. (evolve (k_getControllerOf e))\<^sup>*\<^sup>* (view s) (view s') \<Longrightarrow> Q a s') \<Longrightarrow> wp m Q s"
  by (simp add: follows_def wp_def case_prod_unfold)

text \<open>The same in a given state: \<open>advances e view m s\<close> when the run of \<open>m\<close> from \<open>s\<close> is a sequence of steps.\<close>

definition advances :: "'s kube \<Rightarrow> ('s \<Rightarrow> cluster) \<Rightarrow> ('s, 'a) state \<Rightarrow> 's \<Rightarrow> bool" where
  "advances e view m s \<longleftrightarrow> wp m (\<lambda>_ s'. (evolve (k_getControllerOf e))\<^sup>*\<^sup>* (view s) (view s')) s"

lemma follows_advances: "follows e view m \<longleftrightarrow> (\<forall>s. advances e view m s)"
  by (simp add: follows_wp advances_def)

lemma advancesI: "follows e view m \<Longrightarrow> advances e view m s"
  by (simp add: follows_advances)

lemma advances_bind:
  assumes "advances e view m s" and "\<And>a. follows e view (f a)"
  shows "advances e view (bindM m f) s"
  unfolding advances_def wp_bind
  by (rule wp_mono [OF assms(1) [unfolded advances_def]], rule wp_follows [OF assms(2)]) auto

lemma advances_andThen:
  "advances e view m s \<Longrightarrow> (\<And>a. follows e view (k a)) \<Longrightarrow> advances e view (andThen m k) s"
  unfolding andThen_def by (rule advances_bind) (auto split: sum.splits)

lemma advances_orReturn: "advances e view m s \<Longrightarrow> advances e view (orReturn m) s"
  unfolding orReturn_def by (rule advances_bind) (auto split: sum.splits)

lemma advances_finish: "advances e view m s \<Longrightarrow> advances e view (finish m) s"
  unfolding finish_def by (rule advances_bind) (auto split: sum.splits)

lemma advances_if: "(b \<Longrightarrow> advances e view m s) \<Longrightarrow> (\<not> b \<Longrightarrow> advances e view n s) \<Longrightarrow> advances e view (if b then m else n) s"
  by simp

text \<open>A read keeps the state and gives facts about it.\<close>

lemma advances_read:
  assumes "wp m (\<lambda>a s'. view s' = view s \<and> advances e view (f a) s') s"
  shows "advances e view (bindM m f) s"
  unfolding advances_def wp_bind using assms by (rule wp_mono) (auto simp: advances_def)

lemma advances_step:
  assumes "wp m (\<lambda>a s'. (evolve (k_getControllerOf e))\<^sup>*\<^sup>* (view s) (view s') \<and> advances e view (f a) s') s"
  shows "advances e view (bindM m f) s"
  unfolding advances_def wp_bind using assms
  by (rule wp_mono) (auto simp: advances_def elim!: wp_mono)

lemma advances_step_andThen:
  assumes "wp m (\<lambda>a s'. (evolve (k_getControllerOf e))\<^sup>*\<^sup>* (view s) (view s') \<and> (\<forall>x. a = Inr x \<longrightarrow> advances e view (f x) s')) s"
  shows "advances e view (andThen m f) s"
  unfolding andThen_def
  by (rule advances_step, rule wp_mono [OF assms]) (auto intro!: advancesI [OF follows_ret] split: sum.split)

text \<open>Code that only reads.\<close>

definition quiet :: "('s \<Rightarrow> 'c) \<Rightarrow> ('s, 'a) state \<Rightarrow> bool" where
  "quiet view m \<longleftrightarrow> (\<forall>s. wp m (\<lambda>_ s'. view s' = view s) s)"

lemma quietD: "quiet view m \<Longrightarrow> (\<And>a s'. view s' = view s \<Longrightarrow> Q a s') \<Longrightarrow> wp m Q s"
  by (rule wp_mono [of m "\<lambda>_ s'. view s' = view s"]) (simp_all add: quiet_def)

lemma quiet_ret [simp, intro!]: "quiet view (ret a)"
  by (simp add: quiet_def)

lemma quiet_bind [intro!]:
  assumes "quiet view m" and "\<And>a. quiet view (f a)"
  shows "quiet view (bindM m f)"
  unfolding quiet_def wp_bind
  by (intro allI quietD [OF assms(1)] quietD [OF assms(2)]) simp

lemma quiet_branches [intro!]:
  "(b \<Longrightarrow> quiet view m) \<Longrightarrow> (\<not> b \<Longrightarrow> quiet view n) \<Longrightarrow> quiet view (if b then m else n)"
  "(\<And>x. r = Inl x \<Longrightarrow> quiet view (f x)) \<Longrightarrow> (\<And>y. r = Inr y \<Longrightarrow> quiet view (g y)) \<Longrightarrow>
   quiet view (case r of Inl x \<Rightarrow> f x | Inr y \<Rightarrow> g y)"
  "(o' = None \<Longrightarrow> quiet view m) \<Longrightarrow> (\<And>z. o' = Some z \<Longrightarrow> quiet view (h z)) \<Longrightarrow>
   quiet view (case o' of None \<Rightarrow> m | Some z \<Rightarrow> h z)"
  by (auto split: sum.splits option.splits)

lemma quiet_early [simp, intro!]: "quiet view (failR e err text)" "quiet view (returnR n)"
  by (simp_all add: failR_def returnR_def)

lemma quiet_andThen [intro!]: "quiet view m \<Longrightarrow> (\<And>a. quiet view (k a)) \<Longrightarrow> quiet view (andThen m k)"
  unfolding andThen_def by auto

lemma quiet_forEach [intro!]: "(\<And>x. x \<in> set xs \<Longrightarrow> quiet view (f x)) \<Longrightarrow> quiet view (forEach f xs)"
  by (induction xs) auto

lemma quiet_view: "quiet view m \<Longrightarrow> quiet (\<lambda>s. f (view s)) m"
  unfolding quiet_def [of "\<lambda>s. f (view s)"] by (auto elim!: quietD)

lemma quiet_follows: "quiet view m \<Longrightarrow> follows e view m"
  unfolding follows_wp by (auto elim!: quietD)

lemma advances_quiet:
  "quiet view m \<Longrightarrow> (\<And>a s'. view s' = view s \<Longrightarrow> advances e view (k a) s') \<Longrightarrow> advances e view (andThen m k) s"
  unfolding andThen_def
  by (rule advances_read, erule quietD) (auto split: sum.splits intro!: advancesI [OF follows_ret])

text \<open>A step that leaves a part of the state alone.\<close>

lemma advances_framed:
  assumes "follows e view m" and "quiet (\<lambda>s. f (view s)) m"
    and "\<And>a s'. f (view s') = f (view s) \<Longrightarrow> advances e view (k a) s'"
  shows "advances e view (bindM m k) s"
  unfolding advances_def wp_bind
proof (rule wp_mono [OF wp_conj [OF assms(1) [unfolded follows_wp, rule_format, of s] assms(2) [unfolded quiet_def, rule_format, of s]]])
  fix a s' assume "(evolve (k_getControllerOf e))\<^sup>*\<^sup>* (view s) (view s') \<and> f (view s') = f (view s)"
  then show "wp (k a) (\<lambda>_ s''. (evolve (k_getControllerOf e))\<^sup>*\<^sup>* (view s) (view s'')) s'"
    using assms(3) [of s' a] by (auto simp: advances_def elim!: wp_mono)
qed

lemma advances_framed_andThen:
  "follows e view m \<Longrightarrow> quiet (\<lambda>s. f (view s)) m \<Longrightarrow>
   (\<And>a s'. f (view s') = f (view s) \<Longrightarrow> advances e view (k a) s') \<Longrightarrow> advances e view (andThen m k) s"
  unfolding andThen_def
  by (rule advances_framed) (auto split: sum.splits intro!: advancesI [OF follows_ret])

text \<open>A run on which a part of the state is known not to change.\<close>

definition frames :: "('s \<Rightarrow> 'c) \<Rightarrow> ('s, 'a) state \<Rightarrow> 's \<Rightarrow> bool" where
  "frames view m s \<longleftrightarrow> wp m (\<lambda>_ s'. view s' = view s) s"

lemma framesI: "quiet view m \<Longrightarrow> frames view m s"
  by (simp add: quiet_def frames_def)

lemma advances_framesD:
  assumes "advances e view m s" and "frames (\<lambda>s. f (view s)) m s"
    and "\<And>a s'. f (view s') = f (view s) \<Longrightarrow> advances e view (k a) s'"
  shows "advances e view (bindM m k) s"
  unfolding advances_def wp_bind
proof (rule wp_mono [OF wp_conj [OF assms(1,2) [unfolded advances_def frames_def]]])
  fix a s' assume "(evolve (k_getControllerOf e))\<^sup>*\<^sup>* (view s) (view s') \<and> f (view s') = f (view s)"
  then show "wp (k a) (\<lambda>_ s''. (evolve (k_getControllerOf e))\<^sup>*\<^sup>* (view s) (view s'')) s'"
    using assms(3) [of s' a] by (auto simp: advances_def elim!: wp_mono)
qed

lemma advances_forEach:
  assumes "\<And>x s'. x \<in> set xs \<Longrightarrow> f (view s') = f (view s) \<Longrightarrow> advances e view (g x) s'"
    and "\<And>x. x \<in> set xs \<Longrightarrow> quiet (\<lambda>s. f (view s)) (g x)"
  shows "advances e view (forEach g xs) s"
  using assms
proof (induction xs arbitrary: s)
  case (Cons x xs)
  then show ?case unfolding forEach.simps andThen_def
    by (intro advances_framesD [where f = f]) (auto intro!: framesI advancesI [OF follows_ret] split: sum.splits)
qed (simp add: advancesI)

lemmas advances_rules = advances_if advances_andThen advances_orReturn advances_finish
  advancesI [OF follows_ret] advancesI [OF follows_early(1)] advancesI [OF follows_early(2)]

text \<open>A write that the protocol allows in every state, by kind.\<close>

locale tracked = resource_laws R sel upd idx abs
  for R :: "('s, 'spec, 'status) resource" and sel upd idx and abs :: "'s \<Rightarrow> cluster" +
  fixes e :: "'s kube" and F :: "string set"
  assumes allowed: "tame F (sel c) (f (sel c)) \<Longrightarrow> evolve (k_getControllerOf e) c (upd f c)"
begin

lemma reads [simp, intro!]:
  "follows e abs (res_get R k)" "follows e abs (res_list R opts)" "follows e abs (res_apiList R opts)"
  by (auto simp: follows_wp intro!: get_wp list_wp apiList_wp)

lemma step: "tame F (sel (abs s)) (f (sel (abs s))) \<Longrightarrow> abs s' = upd f (abs s) \<Longrightarrow>
  (evolve (k_getControllerOf e))\<^sup>*\<^sup>* (abs s) (abs s')"
  by (simp add: r_into_rtranclp allowed)

lemma delete_follows [intro!]: "follows e abs (res_delete R x)"
  unfolding follows_wp by (auto intro!: delete_wp elim!: step [rotated] intro: tame_delete)

lemma status_follows [intro!]: "follows e abs (res_statusUpdate R x)" "follows e abs (res_statusPatch R b x)"
  unfolding follows_wp
  by (auto intro!: statusUpdate_wp statusPatch_wp elim!: step [rotated] intro: tame_status)

lemma ensureSelf_follows [intro!]: "follows e abs (ensureSelfFinalizer e' R fin kind req obj)"
  unfolding follows_wp by (auto intro!: ensureSelf_wp elim!: step [rotated] intro: tame_append)

lemma removeSelf_follows: "fin \<notin> F \<Longrightarrow> follows e abs (removeSelfFinalizer e' R fin kind req obj)"
  unfolding follows_wp by (auto intro!: removeSelf_wp elim!: step [rotated] intro: tame_remove)

lemma quiet_reads [simp, intro!]:
  "quiet abs (res_get R k)" "quiet abs (res_list R opts)" "quiet abs (res_apiList R opts)"
  unfolding quiet_def by (auto intro!: get_wp list_wp apiList_wp)

lemma get_advances:
  assumes "\<And>err s'. abs s' = abs s \<Longrightarrow> advances e abs (g (Inl err)) s'"
    and "\<And>x s'. abs s' = abs s \<Longrightarrow> sel (abs s) k = Some x \<Longrightarrow> objectKey x = k \<Longrightarrow> advances e abs (g (Inr x)) s'"
  shows "advances e abs (bindM (res_get R k) g) s"
  using assms by (intro advances_read get_wp) auto

lemma list_advances:
  assumes "\<And>err s'. abs s' = abs s \<Longrightarrow> advances e abs (g (Inl err)) s'"
    and "\<And>xs s'. abs s' = abs s \<Longrightarrow> set xs = {x. sel (abs s) (objectKey x) = Some x \<and> selected idx opts x} \<Longrightarrow>
      advances e abs (g (Inr xs)) s'"
  shows "advances e abs (bindM (res_list R opts) g) s"
  using assms by (intro advances_read list_wp) auto

lemma withObject_advances:
  assumes "\<And>x s. sel (abs s) req = Some x \<Longrightarrow> objectKey x = req \<Longrightarrow> advances e abs (k x) s"
  shows "follows e abs (withObject e R req text k)"
  unfolding withObject_def follows_advances using assms
  by (auto intro!: advances_if get_advances advancesI [OF follows_ret])

lemma add_advances:
  assumes "sel (abs s) (objectKey x) = Some x"
  shows "advances e abs (addProtection e' R lock fin kind x) s"
proof -
  have "(evolve (k_getControllerOf e))\<^sup>*\<^sup>* (abs s) (upd (\<lambda>m. m(objectKey x := Some (appendFinalizer fin x))) (abs s))"
    using assms by (intro r_into_rtranclp allowed) (auto intro: tame_append)
  then show ?thesis unfolding advances_def using assms by (auto intro!: addProtection_wp)
qed

end

text \<open>Every kind is tracked, each with the protection finalizer it may carry.\<close>

sublocale kube_laws \<subseteq> compT: tracked "k_components e" cl_components cl_components_update "\<lambda>_ _. []" abs e "{componentRefFinalizer}"
  by unfold_locales (rule ev_components)

sublocale kube_laws \<subseteq> cvT: tracked "k_componentversions e" cl_componentversions cl_componentversions_update index_component_version abs e "{componentVersionRefFinalizer}"
  by unfold_locales (rule ev_componentversions)

sublocale kube_laws \<subseteq> proT: tracked "k_profiles e" cl_profiles cl_profiles_update index_profile abs e "{}"
  by unfold_locales (rule ev_profiles)

sublocale kube_laws \<subseteq> grantT: tracked "k_referencegrants e" cl_referencegrants cl_referencegrants_update "\<lambda>_ _. []" abs e "{}"
  by unfold_locales (rule ev_referencegrants)

sublocale kube_laws \<subseteq> regT: tracked "k_registries e" cl_registries cl_registries_update "\<lambda>_ _. []" abs e "{registryRefFinalizer}"
  by unfold_locales (rule ev_registries)

sublocale kube_laws \<subseteq> regbT: tracked "k_registrybindings e" cl_registrybindings cl_registrybindings_update index_registry_binding abs e "{}"
  by unfold_locales (rule ev_registrybindings)

sublocale kube_laws \<subseteq> relT: tracked "k_releases e" cl_releases cl_releases_update index_release abs e "{releaseRefFinalizer}"
  by unfold_locales (rule ev_releases)

sublocale kube_laws \<subseteq> relbT: tracked "k_releasebindings e" cl_releasebindings cl_releasebindings_update index_release_binding abs e "{}"
  by unfold_locales (rule ev_releasebindings)

sublocale kube_laws \<subseteq> artT: tracked "k_renderartifacts e" cl_renderartifacts cl_renderartifacts_update "\<lambda>_ _. []" abs e "{}"
  by unfold_locales (rule ev_renderartifacts)

sublocale kube_laws \<subseteq> rbT: tracked "k_renderbindings e" cl_renderbindings cl_renderbindings_update index_render_binding abs e "{}"
  by unfold_locales (rule ev_renderbindings)

sublocale kube_laws \<subseteq> rtT: tracked "k_rendertasks e" cl_rendertasks cl_rendertasks_update index_render_task abs e "{}"
  by unfold_locales (rule ev_rendertasks)

sublocale kube_laws \<subseteq> tgtT: tracked "k_targets e" cl_targets cl_targets_update index_target abs e "{}"
  by unfold_locales (rule ev_targets)

sublocale kube_laws \<subseteq> secT: tracked "k_secrets e" cl_secrets cl_secrets_update "\<lambda>_ _. []" abs e "{}"
  by unfold_locales (rule ev_secrets)

sublocale kube_laws \<subseteq> jobT: tracked "k_jobs e" cl_jobs cl_jobs_update "\<lambda>_ _. []" abs e "{}"
  by unfold_locales (rule ev_jobs)

context kube_laws begin

lemma event_follows [intro!]: "follows e abs (k_eventf e t reason msg)"
  unfolding follows_wp by (auto intro!: wp_mono [OF event])

lemma now_follows [intro!]: "follows e abs (k_now e)"
  unfolding follows_wp by (auto intro!: wp_mono [OF now])

lemma quiet_event [simp, intro!]: "quiet abs (k_eventf e t reason msg)"
  unfolding quiet_def by (auto intro!: wp_mono [OF event])

lemma quiet_now [simp, intro!]: "quiet abs (k_now e)"
  unfolding quiet_def by (auto intro!: wp_mono [OF now])

lemma withObject_follows [intro!]:
  "follows e abs (res_get R req) \<Longrightarrow> (\<And>obj. follows e abs (k obj)) \<Longrightarrow> follows e abs (withObject e R req text k)"
  unfolding withObject_def by (auto split: sum.splits)

text \<open>Kinds outside the protocol may be created in every state; a ReleaseBinding when its Release is
  gone or protected.\<close>

lemma creates [intro!]:
  "follows e abs (res_create (k_rendertasks e) x1)" "follows e abs (res_create (k_renderbindings e) x2)"
  "follows e abs (res_create (k_renderartifacts e) x3)" "follows e abs (res_create (k_secrets e) x4)"
  "follows e abs (res_create (k_jobs e) x5)"
  unfolding follows_wp
  by (auto intro!: rt.create_wp rb.create_wp art.create_wp sec.create_wp job.create_wp
      evolve_once [OF ev_rendertasks] evolve_once [OF ev_renderbindings] evolve_once [OF ev_renderartifacts]
      evolve_once [OF ev_secrets] evolve_once [OF ev_jobs])

lemma create_binding_advances:
  assumes "\<And>t b. releaseBindingRef rb = Some t \<Longrightarrow> cl_releases (abs s) t = Some b \<Longrightarrow> hasFinalizer releaseRefFinalizer b"
  shows "advances e abs (res_create (k_releasebindings e) rb) s"
proof -
  have "releaseBindingRef x = releaseBindingRef rb" if "createdFrom rb x" for x
    using that by (simp add: createdFrom_def releaseBindingRef_def)
  then show ?thesis unfolding advances_def using assms
    by (auto intro!: relb.create_wp evolve_once [OF ev_create_releasebinding])
qed

text \<open>Removing a protection finalizer is a step of the protocol when nothing references the object.\<close>

lemma drop_component:
  "unreferenced (cl_componentversions (abs s)) cvRef k \<Longrightarrow>
   advances e abs (dropProtection e (k_components e) lock componentRefFinalizer kind k) s"
  unfolding advances_def by (rule comp.dropProtection_wp) (auto intro: r_into_rtranclp ev_drop_component)

lemma drop_componentversion:
  "unreferenced (cl_releases (abs s)) releaseRef k \<Longrightarrow>
   advances e abs (dropProtection e (k_componentversions e) lock componentVersionRefFinalizer kind k) s"
  unfolding advances_def by (rule cv.dropProtection_wp) (auto intro: r_into_rtranclp ev_drop_componentversion)

lemma drop_release:
  "unreferenced (cl_profiles (abs s)) profileRef k \<Longrightarrow>
   unbound (k_getControllerOf e) (abs s) k \<Longrightarrow>
   advances e abs (dropProtection e (k_releases e) lock releaseRefFinalizer kind k) s"
  unfolding advances_def by (rule rel.dropProtection_wp) (auto intro: r_into_rtranclp ev_drop_release)

lemma drop_registry:
  "unreferenced (cl_targets (abs s)) targetRef k \<Longrightarrow> unreferenced (cl_registrybindings (abs s)) registryBindingRef k \<Longrightarrow>
   advances e abs (dropProtection e (k_registries e) lock registryRefFinalizer kind k) s"
  unfolding advances_def by (rule reg.dropProtection_wp) (auto intro: r_into_rtranclp ev_drop_registry)

end

end
