(* ===== verification/ComponentVersionController.thy ===== *)
theory ComponentVersionController
  imports Protocol
begin

text \<open>
  \<open>pkg/controller/componentversion_controller.go\<close>: a ComponentVersion protects the Component it
  references from deletion by a finalizer on the Component, and takes the finalizer away
  when the last active ComponentVersion that references it is deleted.
\<close>

definition removeComponentRefFinalizer ::
  "'s kube \<Rightarrow> component_version \<Rightarrow> component \<Rightarrow> ('s, go_error + unit) state" where
  "removeComponentRefFinalizer e deletingCV cmp =
     (if \<not> hasFinalizer componentRefFinalizer cmp then ret (Inr ())
      else do {
        r \<leftarrow> res_list (k_componentversions e)
               (inNamespaceMatching (om_namespace (metadata cmp)) indexCVByComponentName (om_name (metadata cmp)));
        (case r of
           Inl err \<Rightarrow> ret (wrapErr (k_testMode e) (Api err) ''failed to list ComponentVersions for Component finalizer check'' ())
         | Inr cvs \<Rightarrow>
             if list_ex (\<lambda>cv. om_name (metadata cv) \<noteq> om_name (metadata deletingCV) \<and> \<not> deleting cv) cvs
             then ret (Inr ())
             else dropProtection e (k_components e) False componentRefFinalizer ''Component'' (objectKey cmp))
      })"

definition componentVersionDelete ::
  "'s kube \<Rightarrow> namespaced_name \<Rightarrow> component_version \<Rightarrow> ('s, outcome + unit) state" where
  "componentVersionDelete e req cv =
     andThen
       (if cv_componentRef (spec cv) \<noteq> '''' then do {
          r \<leftarrow> res_get (k_components e)
                 \<lparr>nn_namespace = om_namespace (metadata cv), nn_name = cv_componentRef (spec cv)\<rparr>;
          (case r of
             Inl err \<Rightarrow> if isNotFound err then ret (Inr ())
                        else failR e err ''failed to get Component for finalizer cleanup''
           | Inr cmp \<Rightarrow> orReturn (removeComponentRefFinalizer e cv cmp))
        } else ret (Inr ()))
       (\<lambda>_. removeSelfFinalizer e (k_componentversions e) componentVersionFinalizer ''ComponentVersion'' req cv)"

definition componentVersionProtect :: "'s kube \<Rightarrow> component_version \<Rightarrow> ('s, outcome + unit) state" where
  "componentVersionProtect e cv =
     (if cv_componentRef (spec cv) \<noteq> '''' then do {
        r \<leftarrow> res_get (k_components e)
               \<lparr>nn_namespace = om_namespace (metadata cv), nn_name = cv_componentRef (spec cv)\<rparr>;
        (case r of
           Inl err \<Rightarrow> if isNotFound err then ret (Inr ())
                      else failR e err ''failed to get Component for protection finalizer''
         | Inr cmp \<Rightarrow> addProtection e (k_components e) False componentRefFinalizer ''Component'' cmp)
      } else ret (Inr ()))"

definition componentVersionReconcile :: "'s kube \<Rightarrow> namespaced_name \<Rightarrow> ('s, outcome) state" where
  "componentVersionReconcile e req =
     withObject e (k_componentversions e) req ''failed to get ComponentVersion'' (\<lambda>cv. finish (
       if deleting cv then componentVersionDelete e req cv
       else andThen (ensureSelfFinalizer e (k_componentversions e) componentVersionFinalizer ''ComponentVersion'' req cv)
              (\<lambda>_. componentVersionProtect e cv)))"

section \<open>The controller follows the protocol\<close>

context kube_laws begin

lemma cv_unreferenced:
  assumes d: "cl_componentversions (abs s) (objectKey d) = Some d" "deleting d" and c: "cvRef d = Some (objectKey c)"
    and xs: "set xs = {x. cl_componentversions (abs s) (objectKey x) = Some x \<and>
      om_namespace (metadata x) = om_namespace (metadata c) \<and>
      om_name (metadata c) \<in> set (index_component_version indexCVByComponentName x)}"
    and none: "\<not> list_ex (\<lambda>cv. om_name (metadata cv) \<noteq> om_name (metadata d) \<and> \<not> deleting cv) xs"
  shows "unreferenced (cl_componentversions (abs s)) cvRef (objectKey c)"
  unfolding unreferenced_def
proof (intro allI impI)
  fix k a assume a: "cl_componentversions (abs s) k = Some a" "cvRef a = Some (objectKey c)"
  then have k: "k = objectKey a" by (simp add: cv.key)
  have ref: "om_namespace (metadata a) = om_namespace (metadata c)" "cv_componentRef (spec a) = om_name (metadata c)"
      "om_namespace (metadata d) = om_namespace (metadata c)" "om_name (metadata c) \<noteq> ''''"
    using a(2) c by (auto simp: cvRef_def objectKey_def split: if_splits)
  then have "a \<in> set xs"
    using a(1) k by (simp add: xs index_component_version_def nonEmpty_def)
  then have "om_name (metadata a) = om_name (metadata d) \<or> deleting a"
    using none by (auto simp: list_ex_iff)
  then show "deleting a"
  proof
    assume "om_name (metadata a) = om_name (metadata d)"
    then have "objectKey a = objectKey d" using ref by (simp add: objectKey_def)
    with k have "k = objectKey d" by (rule trans)
    then show ?thesis using a(1) d by simp
  qed
qed

lemma removeComponentRefFinalizer_advances:
  assumes "cl_componentversions (abs s) (objectKey d) = Some d" "deleting d" "cvRef d = Some (objectKey c)"
  shows "advances e abs (removeComponentRefFinalizer e d c) s"
  unfolding removeComponentRefFinalizer_def using assms
  by (auto intro!: cvT.list_advances advances_rules drop_component
      elim!: cv_unreferenced [rotated 3])

lemma componentVersionDelete_advances:
  assumes "cl_componentversions (abs s) (objectKey x) = Some x" "deleting x"
  shows "advances e abs (componentVersionDelete e req x) s"
  unfolding componentVersionDelete_def using assms
  by (auto intro!: advances_rules compT.get_advances removeComponentRefFinalizer_advances cvT.removeSelf_follows advancesI [OF cvT.removeSelf_follows] simp: finalizer_defs cvRef_def)

lemma componentVersionProtect_follows [intro!]: "follows e abs (componentVersionProtect e x)"
  unfolding componentVersionProtect_def follows_advances
  by (auto intro!: advances_rules compT.get_advances compT.add_advances)

lemma componentVersionReconcile_follows: "follows e abs (componentVersionReconcile e req)"
  unfolding componentVersionReconcile_def
  by (rule cvT.withObject_advances) (auto intro!: advances_finish advances_if componentVersionDelete_advances
      advancesI [OF follows_andThen])

end

section \<open>What a reconcile achieves\<close>

context kube_laws begin

lemma componentVersionReconcile_protects:
  assumes "\<not> k_testMode e" "watched e k" and "cl_componentversions (abs s) k = Some cv" "\<not> deleting cv" "cvRef cv = Some t"
    and "cl_components (abs s) t = Some b"
  shows "wp (componentVersionReconcile e k) (succeeds (\<lambda>n s'.
    (\<exists>cv'. cl_componentversions (abs s') k = Some cv' \<and> hasFinalizer componentVersionFinalizer cv') \<and>
    (\<exists>b'. cl_components (abs s') t = Some b' \<and> hasFinalizer componentRefFinalizer b'))) s"
proof -
  have t: "t = \<lparr>nn_namespace = om_namespace (metadata cv), nn_name = cv_componentRef (spec cv)\<rparr>" "cv_componentRef (spec cv) \<noteq> ''''"
    using assms(5) by (auto simp: cvRef_def split: if_splits)
  have protect: "wp (componentVersionProtect e cv) (\<lambda>r. case r of Inl out \<Rightarrow> succeeds P out | Inr _ \<Rightarrow> succeeds P (Inr 0)) s1"
    if "cl_components (abs s1) = cl_components (abs s)" "\<exists>cv'. cl_componentversions (abs s1) k = Some cv' \<and> hasFinalizer componentVersionFinalizer cv'"
    and P: "\<And>s'. (\<exists>cv'. cl_componentversions (abs s') k = Some cv' \<and> hasFinalizer componentVersionFinalizer cv') \<Longrightarrow>
      (\<exists>b'. cl_components (abs s') t = Some b' \<and> hasFinalizer componentRefFinalizer b') \<Longrightarrow> P 0 s'" for s1 and P :: "int \<Rightarrow> 's \<Rightarrow> bool"
    using t that assms(1,6) unfolding componentVersionProtect_def addProtection_def failR_def
    by (auto intro!: comp.get_wp comp.patch_wp P)
  show ?thesis
    unfolding componentVersionReconcile_def
  proof (rule cv.withObject_wp [OF assms(3,2,1)])
    fix s1 assume s1: "abs s1 = abs s" and k: "objectKey cv = k"
    show "wp (finish (if deleting cv then componentVersionDelete e k cv
        else andThen (ensureSelfFinalizer e (k_componentversions e) componentVersionFinalizer ''ComponentVersion'' k cv)
               (\<lambda>_. componentVersionProtect e cv))) (succeeds (\<lambda>n s'.
       (\<exists>cv'. cl_componentversions (abs s') k = Some cv' \<and> hasFinalizer componentVersionFinalizer cv') \<and>
       (\<exists>b'. cl_components (abs s') t = Some b' \<and> hasFinalizer componentRefFinalizer b'))) s1"
      using assms(1,3,4) s1 unfolding ensureSelfFinalizer_def failR_def
      by (auto intro!: protect cv.get_wp cv.patch_wp)
  qed simp
qed

end

text \<open>A successful reconcile of an active ComponentVersion leaves it with its own finalizer and the
  Component it references, if there is one, with the protection finalizer.\<close>

theorem componentVersion_reconcile_protects:
  assumes "kube_laws e view" "\<not> k_testMode e" "watched e k"
    and "cl_componentversions (view s) k = Some cv" "\<not> deleting cv" "cvRef cv = Some t"
    and "cl_components (view s) t = Some b"
    and "run_state (componentVersionReconcile e k) s = (Inr n, s')"
  shows "(\<exists>cv'. cl_componentversions (view s') k = Some cv' \<and> hasFinalizer componentVersionFinalizer cv') \<and>
    (\<exists>b'. cl_components (view s') t = Some b' \<and> hasFinalizer componentRefFinalizer b')"
  using wp_succeeds [OF kube_laws.componentVersionReconcile_protects [OF assms(1-7)] assms(8)] .

context kube_laws begin

lemma removeComponentRefFinalizer_drops:
  assumes "\<not> k_testMode e" "cvRef d = Some (objectKey c)" "cl_components (abs s) (objectKey c) = Some c"
    and "cl_componentversions (abs s) (objectKey d) = Some d"
    and others: "\<And>k a. k \<noteq> objectKey d \<Longrightarrow> cl_componentversions (abs s) k = Some a \<Longrightarrow> cvRef a = Some (objectKey c) \<Longrightarrow> deleting a"
  shows "wp (removeComponentRefFinalizer e d c) (succeeds (\<lambda>_ s'.
    cl_componentversions (abs s') = cl_componentversions (abs s) \<and>
    (\<forall>c'. cl_components (abs s') (objectKey c) = Some c' \<longrightarrow> \<not> hasFinalizer componentRefFinalizer c'))) s"
proof -
  have "\<not> list_ex (\<lambda>cv. om_name (metadata cv) \<noteq> om_name (metadata d) \<and> \<not> deleting cv) xs"
    if xs: "set xs = {x. cl_componentversions (abs s) (objectKey x) = Some x \<and>
      om_namespace (metadata x) = om_namespace (metadata c) \<and>
      om_name (metadata c) \<in> set (index_component_version indexCVByComponentName x)}" for xs
  proof -
    have "deleting x" if x: "x \<in> set xs" "om_name (metadata x) \<noteq> om_name (metadata d)" for x
    proof (rule others)
      show "objectKey x \<noteq> objectKey d" using x(2) by (simp add: objectKey_def)
      show "cl_componentversions (abs s) (objectKey x) = Some x" using x(1) xs by simp
      show "cvRef x = Some (objectKey c)"
        using x(1) xs by (auto simp: cvRef_def objectKey_def index_component_version_def nonEmpty_def split: if_splits)
    qed
    then show ?thesis by (auto simp: list_ex_iff)
  qed
  then show ?thesis
    using assms(1,3) unfolding removeComponentRefFinalizer_def dropProtection_def
    by (auto intro!: cv.list_wp comp.get_wp comp.patch_wp simp: settle_def split: if_splits)
qed

lemma componentVersionReconcile_drops:
  assumes "\<not> k_testMode e" "watched e k" and "cl_componentversions (abs s) k = Some cv" "deleting cv" "cvRef cv = Some t"
    and "cl_components (abs s) t = Some b"
    and "\<And>k' a. k' \<noteq> k \<Longrightarrow> cl_componentversions (abs s) k' = Some a \<Longrightarrow> cvRef a = Some t \<Longrightarrow> deleting a"
  shows "wp (componentVersionReconcile e k) (succeeds (\<lambda>n s'.
    (\<forall>b'. cl_components (abs s') t = Some b' \<longrightarrow> \<not> hasFinalizer componentRefFinalizer b') \<and>
    (\<forall>cv'. cl_componentversions (abs s') k = Some cv' \<longrightarrow> \<not> hasFinalizer componentVersionFinalizer cv'))) s"
  unfolding componentVersionReconcile_def
proof (rule cv.withObject_wp [OF assms(3,2,1)])
  fix s1 assume s1: "abs s1 = abs s" and k: "objectKey cv = k"
  have t: "t = \<lparr>nn_namespace = om_namespace (metadata cv), nn_name = cv_componentRef (spec cv)\<rparr>" "cv_componentRef (spec cv) \<noteq> ''''"
    using assms(5) by (auto simp: cvRef_def split: if_splits)
  have drop: "wp (removeComponentRefFinalizer e cv b) (case_sum F G) s2"
    if "abs s2 = abs s" "objectKey b = \<lparr>nn_namespace = om_namespace (metadata cv), nn_name = cv_componentRef (spec cv)\<rparr>"
      "\<And>err s'. F err s'"
      "\<And>s'. cl_componentversions (abs s') = cl_componentversions (abs s) \<Longrightarrow>
        (\<forall>c'. cl_components (abs s') t = Some c' \<longrightarrow> \<not> hasFinalizer componentRefFinalizer c') \<Longrightarrow> G () s'" for s2 F G
    by (rule wp_mono [OF removeComponentRefFinalizer_drops])
      (use that assms k t in \<open>auto split: sum.splits\<close>)
  show "wp (finish (if deleting cv then componentVersionDelete e k cv
      else andThen (ensureSelfFinalizer e (k_componentversions e) componentVersionFinalizer ''ComponentVersion'' k cv)
             (\<lambda>_. componentVersionProtect e cv))) (succeeds (\<lambda>n s'.
      (\<forall>b'. cl_components (abs s') t = Some b' \<longrightarrow> \<not> hasFinalizer componentRefFinalizer b') \<and>
      (\<forall>cv'. cl_componentversions (abs s') k = Some cv' \<longrightarrow> \<not> hasFinalizer componentVersionFinalizer cv'))) s1"
    using assms(1,3,4,6) s1 t k unfolding componentVersionDelete_def removeSelfFinalizer_def failR_def
    by (auto intro!: comp.get_wp cv.get_wp cv.patch_wp drop simp: settle_def split: if_splits)
qed simp

end

text \<open>A successful reconcile of the last ComponentVersion of a Component, while it is being deleted,
  gives the protection up: the Component no longer carries the finalizer (so a pending deletion of
  it completes), and the ComponentVersion no longer carries its own.\<close>

theorem componentVersion_last_reference_released:
  assumes "kube_laws e view" "\<not> k_testMode e" "watched e k"
    and "cl_componentversions (view s) k = Some cv" "deleting cv" "cvRef cv = Some t"
    and "cl_components (view s) t = Some b"
    and "\<forall>k' a. k' \<noteq> k \<longrightarrow> cl_componentversions (view s) k' = Some a \<longrightarrow> cvRef a = Some t \<longrightarrow> deleting a"
    and "run_state (componentVersionReconcile e k) s = (Inr n, s')"
  shows "(\<forall>b'. cl_components (view s') t = Some b' \<longrightarrow> \<not> hasFinalizer componentRefFinalizer b') \<and>
    (\<forall>cv'. cl_componentversions (view s') k = Some cv' \<longrightarrow> \<not> hasFinalizer componentVersionFinalizer cv')"
proof -
  have "\<And>k' a. k' \<noteq> k \<Longrightarrow> cl_componentversions (view s) k' = Some a \<Longrightarrow> cvRef a = Some t \<Longrightarrow> deleting a"
    using assms(8) by blast
  from wp_succeeds [OF kube_laws.componentVersionReconcile_drops [OF assms(1-7) this] assms(9)] show ?thesis .
qed

end
