(* ===== verification/RegistryBindingController.thy ===== *)
theory RegistryBindingController
  imports Protocol
begin

text \<open>
  \<open>pkg/controller/registrybinding_controller.go\<close> and the shared \<open>removeRegistryRefFinalizer\<close> of
  \<open>pkg/controller/helpers.go\<close>: a RegistryBinding protects its Registry, and so does a Target;
  the finalizer goes when neither an active Target nor an active RegistryBinding is left.
  A nil \<open>skipTarget\<close> or \<open>skipRegistryBinding\<close> is \<open>None\<close>.
\<close>

definition skippedTarget :: "target option \<Rightarrow> target \<Rightarrow> bool" where
  "skippedTarget skipTarget t \<longleftrightarrow>
     (case skipTarget of None \<Rightarrow> False
      | Some sk \<Rightarrow> om_name (metadata t) = om_name (metadata sk) \<and> om_namespace (metadata t) = om_namespace (metadata sk))"

definition skippedBinding :: "registry_binding option \<Rightarrow> registry_binding \<Rightarrow> bool" where
  "skippedBinding skipRegistryBinding b \<longleftrightarrow>
     (case skipRegistryBinding of None \<Rightarrow> False | Some sk \<Rightarrow> om_name (metadata b) = om_name (metadata sk))"

definition removeRegistryRefFinalizer ::
  "'s kube \<Rightarrow> target option \<Rightarrow> registry_binding option \<Rightarrow> registry \<Rightarrow> ('s, go_error + unit) state" where
  "removeRegistryRefFinalizer e skipTarget skipRegistryBinding reg =
     (if \<not> hasFinalizer registryRefFinalizer reg then ret (Inr ())
      else do {
        r \<leftarrow> res_list (k_targets e)
               (matchingFields indexTargetByRegistryRef (om_namespace (metadata reg) @ ''/'' @ om_name (metadata reg)));
        (case r of
           Inl err \<Rightarrow> ret (wrapErr (k_testMode e) (Api err) ''failed to list Targets for Registry finalizer check'' ())
         | Inr targets \<Rightarrow>
             if list_ex (\<lambda>t. \<not> skippedTarget skipTarget t \<and> \<not> deleting t) targets
             then ret (Inr ())
             else do {
               rb \<leftarrow> res_list (k_registrybindings e)
                      (inNamespaceMatching (om_namespace (metadata reg)) indexRegistryBindingByRegistryName
                         (om_name (metadata reg)));
               (case rb of
                  Inl err \<Rightarrow> ret (wrapErr (k_testMode e) (Api err)
                    ''failed to list RegistryBindings for Registry finalizer check'' ())
                | Inr rbs \<Rightarrow>
                    if list_ex (\<lambda>b. \<not> skippedBinding skipRegistryBinding b \<and> \<not> deleting b) rbs
                    then ret (Inr ())
                    else dropProtection e (k_registries e) True registryRefFinalizer ''Registry'' (objectKey reg))
             })
      })"

definition registryBindingDelete ::
  "'s kube \<Rightarrow> namespaced_name \<Rightarrow> registry_binding \<Rightarrow> ('s, outcome + unit) state" where
  "registryBindingDelete e req rb =
     andThen
       (if rgb_registryRef (spec rb) \<noteq> '''' then do {
          r \<leftarrow> res_get (k_registries e)
                 \<lparr>nn_namespace = om_namespace (metadata rb), nn_name = rgb_registryRef (spec rb)\<rparr>;
          (case r of
             Inl err \<Rightarrow> if isNotFound err then ret (Inr ())
                        else failR e err ''failed to get Registry for finalizer cleanup''
           | Inr reg \<Rightarrow> orReturn (removeRegistryRefFinalizer e None (Some rb) reg))
        } else ret (Inr ()))
       (\<lambda>_. removeSelfFinalizer e (k_registrybindings e) registryBindingFinalizer ''RegistryBinding'' req rb)"

definition registryBindingProtect :: "'s kube \<Rightarrow> registry_binding \<Rightarrow> ('s, outcome + unit) state" where
  "registryBindingProtect e rb =
     (if rgb_registryRef (spec rb) \<noteq> '''' then do {
        r \<leftarrow> res_get (k_registries e)
               \<lparr>nn_namespace = om_namespace (metadata rb), nn_name = rgb_registryRef (spec rb)\<rparr>;
        (case r of
           Inl err \<Rightarrow> if isNotFound err then ret (Inr ())
                      else failR e err ''failed to get Registry for protection finalizer''
         | Inr reg \<Rightarrow> addProtection e (k_registries e) True registryRefFinalizer ''Registry'' reg)
      } else ret (Inr ()))"

definition registryBindingReconcile :: "'s kube \<Rightarrow> namespaced_name \<Rightarrow> ('s, outcome) state" where
  "registryBindingReconcile e req =
     withObject e (k_registrybindings e) req ''failed to get RegistryBinding'' (\<lambda>rb. finish (
       if deleting rb then registryBindingDelete e req rb
       else andThen (ensureSelfFinalizer e (k_registrybindings e) registryBindingFinalizer ''RegistryBinding'' req rb)
              (\<lambda>_. registryBindingProtect e rb)))"

section \<open>The controller follows the protocol\<close>

context kube_laws begin

lemma target_unreferenced:
  assumes xs: "set xs = {x. cl_targets (abs s) (objectKey x) = Some x \<and>
      om_namespace (metadata reg) @ CHR ''/'' # om_name (metadata reg) \<in> set (index_target indexTargetByRegistryRef x)}"
    and none: "\<not> list_ex (\<lambda>t. \<not> skip t \<and> \<not> deleting t) xs"
    and skip: "\<And>t. cl_targets (abs s) (objectKey t) = Some t \<Longrightarrow> skip t \<Longrightarrow> deleting t"
  shows "unreferenced (cl_targets (abs s)) targetRef (objectKey reg)"
  unfolding unreferenced_def
proof (intro allI impI)
  fix k a assume a: "cl_targets (abs s) k = Some a" "targetRef a = Some (objectKey reg)"
  then have k: "cl_targets (abs s) (objectKey a) = Some a" by (simp add: tgt.key)
  have "om_namespace (metadata reg) @ CHR ''/'' # om_name (metadata reg) \<in> set (index_target indexTargetByRegistryRef a)"
    using a(2) by (auto simp: targetRef_def index_target_def objectKey_def split: if_splits)
  then have "a \<in> set xs" using k by (simp add: xs)
  then show "deleting a" using none skip [OF k] by (auto simp: list_ex_iff)
qed

lemma registryBinding_unreferenced:
  assumes xs: "set xs = {x. cl_registrybindings (abs s) (objectKey x) = Some x \<and>
      om_namespace (metadata x) = om_namespace (metadata reg) \<and>
      om_name (metadata reg) \<in> set (index_registry_binding indexRegistryBindingByRegistryName x)}"
    and none: "\<not> list_ex (\<lambda>t. \<not> skip t \<and> \<not> deleting t) xs"
    and skip: "\<And>t. cl_registrybindings (abs s) (objectKey t) = Some t \<Longrightarrow>
      om_namespace (metadata t) = om_namespace (metadata reg) \<Longrightarrow> skip t \<Longrightarrow> deleting t"
  shows "unreferenced (cl_registrybindings (abs s)) registryBindingRef (objectKey reg)"
  unfolding unreferenced_def
proof (intro allI impI)
  fix k a assume a: "cl_registrybindings (abs s) k = Some a" "registryBindingRef a = Some (objectKey reg)"
  then have k: "cl_registrybindings (abs s) (objectKey a) = Some a" by (simp add: regb.key)
  have ns: "om_namespace (metadata a) = om_namespace (metadata reg)"
      "om_name (metadata reg) \<in> set (index_registry_binding indexRegistryBindingByRegistryName a)"
    using a(2) by (auto simp: registryBindingRef_def index_registry_binding_def objectKey_def nonEmpty_def
        index_defs split: if_splits)
  then have "a \<in> set xs" using k by (simp add: xs)
  then show "deleting a" using none skip [OF k ns(1)] by (auto simp: list_ex_iff)
qed

lemma removeRegistryRefFinalizer_advances:
  assumes "\<And>t. cl_targets (abs s) (objectKey t) = Some t \<Longrightarrow> skippedTarget skipTarget t \<Longrightarrow> deleting t"
    and "\<And>t. cl_registrybindings (abs s) (objectKey t) = Some t \<Longrightarrow>
      om_namespace (metadata t) = om_namespace (metadata reg) \<Longrightarrow> skippedBinding skipRB t \<Longrightarrow> deleting t"
  shows "advances e abs (removeRegistryRefFinalizer e skipTarget skipRB reg) s"
  unfolding removeRegistryRefFinalizer_def
  by (auto intro!: tgtT.list_advances regbT.list_advances advances_rules drop_registry
      elim!: target_unreferenced [where skip = "skippedTarget skipTarget"]
        registryBinding_unreferenced [where skip = "skippedBinding skipRB"] simp: assms)

lemma registryBindingDelete_advances:
  assumes "cl_registrybindings (abs s) (objectKey x) = Some x" "deleting x"
  shows "advances e abs (registryBindingDelete e req x) s"
proof -
  have "deleting t" if "cl_registrybindings (abs s) (objectKey t) = Some t" "skippedBinding (Some x) t"
    "om_namespace (metadata t) = om_namespace (metadata x)" for t
  proof -
    have "objectKey t = objectKey x" using that by (simp add: skippedBinding_def objectKey_def)
    from that(1) [unfolded this] have "t = x" using assms(1) by simp
    then show ?thesis using assms(2) by simp
  qed
  then show ?thesis
    unfolding registryBindingDelete_def
    by (auto intro!: advances_rules regT.get_advances removeRegistryRefFinalizer_advances regbT.removeSelf_follows advancesI [OF regbT.removeSelf_follows]
      simp: finalizer_defs skippedTarget_def objectKey_iff)
qed

lemma registryBindingProtect_follows [intro!]: "follows e abs (registryBindingProtect e x)"
  unfolding registryBindingProtect_def follows_advances
  by (auto intro!: advances_rules regT.get_advances regT.add_advances)

lemma registryBindingReconcile_follows: "follows e abs (registryBindingReconcile e req)"
  unfolding registryBindingReconcile_def
  by (rule regbT.withObject_advances) (auto intro!: advances_finish advances_if registryBindingDelete_advances
      advancesI [OF follows_andThen])

end

end
