(* ===== verification/ReleaseController.thy ===== *)
theory ReleaseController
  imports Protocol Grants
begin

text \<open>
  \<open>pkg/controller/release_controller.go\<close>: a Release resolves its ComponentVersion, possibly in
  another namespace when a ReferenceGrant permits it, protects it from deletion and reports
  the resolution and the effective unique name in its status.
\<close>

definition ConditionTypeComponentVersionResolved :: string where
  "ConditionTypeComponentVersionResolved = ''ComponentVersionResolved''"

definition releaseCVNamespace :: "release \<Rightarrow> string" where
  "releaseCVNamespace res =
     (if rel_componentVersionNamespace (spec res) \<noteq> '''' then rel_componentVersionNamespace (spec res)
      else om_namespace (metadata res))"

definition removeComponentVersionRefFinalizer ::
  "'s kube \<Rightarrow> release \<Rightarrow> component_version \<Rightarrow> ('s, go_error + unit) state" where
  "removeComponentVersionRefFinalizer e deletingRelease cv =
     (if \<not> hasFinalizer componentVersionRefFinalizer cv then ret (Inr ())
      else do {
        r \<leftarrow> res_list (k_releases e)
               (matchingFields indexReleaseByCVRef (om_namespace (metadata cv) @ ''/'' @ om_name (metadata cv)));
        (case r of
           Inl err \<Rightarrow> ret (wrapErr (k_testMode e) (Api err) ''failed to list Releases for ComponentVersion finalizer check'' ())
         | Inr rels \<Rightarrow>
             if list_ex (\<lambda>rel. \<not> (om_name (metadata rel) = om_name (metadata deletingRelease) \<and>
                                  om_namespace (metadata rel) = om_namespace (metadata deletingRelease)) \<and>
                              \<not> deleting rel) rels
             then ret (Inr ())
             else dropProtection e (k_componentversions e) False componentVersionRefFinalizer ''ComponentVersion''
                    (objectKey cv))
      })"

definition componentVersionGranted ::
  "'s kube \<Rightarrow> release \<Rightarrow> string \<Rightarrow> ('s, api_error + bool) state" where
  "componentVersionGranted e rel cvNamespace = do {
     r \<leftarrow> res_list (k_referencegrants e) (inNamespace cvNamespace);
     (case r of
        Inl err \<Rightarrow> ret (Inl err)
      | Inr grants \<Rightarrow>
          ret (Inr (list_ex (\<lambda>g. grantPermitsComponentVersionAccess g (om_namespace (metadata rel))) grants)))
   }"

text \<open>The block that sets the \<open>ComponentVersionResolved\<close> condition to false and writes the status
  when the condition changed.\<close>

definition releaseUnresolved ::
  "'s kube \<Rightarrow> release \<Rightarrow> string \<Rightarrow> string \<Rightarrow> ('s, outcome + unit) state" where
  "releaseUnresolved e res reason msg = do {
     t \<leftarrow> k_now e;
     (case k_setStatusCondition e t (rel_conditions (status res))
        \<lparr>cond_type = ConditionTypeComponentVersionResolved, cond_status = ConditionFalse,
         cond_observedGeneration = om_generation (metadata res), cond_lastTransitionTime = None,
         cond_reason = reason, cond_message = msg\<rparr> of (conds, changed) \<Rightarrow>
        if changed then do {
          u \<leftarrow> res_statusUpdate (k_releases e) (res\<lparr>status := (status res)\<lparr>rel_conditions := conds\<rparr>\<rparr>);
          (case u of Inl err \<Rightarrow> failR e err ''failed to update status'' | Inr _ \<Rightarrow> ret (Inr ()))
        } else ret (Inr ()))
   }"

definition releaseDelete :: "'s kube \<Rightarrow> namespaced_name \<Rightarrow> release \<Rightarrow> ('s, outcome + unit) state" where
  "releaseDelete e req res =
     andThen
       (if rel_componentVersionRef (spec res) \<noteq> '''' then do {
          r \<leftarrow> res_get (k_componentversions e)
                 \<lparr>nn_namespace = releaseCVNamespace res, nn_name = rel_componentVersionRef (spec res)\<rparr>;
          (case r of
             Inl err \<Rightarrow> if isNotFound err then ret (Inr ())
                        else failR e err ''failed to get ComponentVersion for finalizer cleanup''
           | Inr cv \<Rightarrow> orReturn (removeComponentVersionRefFinalizer e res cv))
        } else ret (Inr ()))
       (\<lambda>_. removeSelfFinalizer e (k_releases e) releaseFinalizer ''Release'' req res)"

text \<open>The grant check for a ComponentVersion of another namespace; \<open>Inr False\<close> when there is no grant.\<close>

definition releaseGrantCheck :: "'s kube \<Rightarrow> release \<Rightarrow> ('s, outcome + bool) state" where
  "releaseGrantCheck e res =
     (let cvNamespace = releaseCVNamespace res in
      if cvNamespace \<noteq> om_namespace (metadata res) then do {
        g \<leftarrow> componentVersionGranted e res cvNamespace;
        (case g of
           Inl err \<Rightarrow> failR e err ''failed to check ReferenceGrant for cross-namespace ComponentVersion''
         | Inr granted \<Rightarrow> ret (Inr granted))
      } else ret (Inr True))"

text \<open>The block for a ComponentVersion that was found: the condition and the effective unique name.\<close>

definition releaseResolved :: "'s kube \<Rightarrow> release \<Rightarrow> component_version \<Rightarrow> ('s, outcome + unit) state" where
  "releaseResolved e res cv = do {
     t \<leftarrow> k_now e;
     (case k_setStatusCondition e t (rel_conditions (status res))
        \<lparr>cond_type = ConditionTypeComponentVersionResolved, cond_status = ConditionTrue,
         cond_observedGeneration = om_generation (metadata res), cond_lastTransitionTime = None,
         cond_reason = ''Resolved'', cond_message = ''ComponentVersion resolved: '' @ om_name (metadata cv)\<rparr>
      of (conds, condChanged) \<Rightarrow>
        let uname = effectiveUniqueName res cv;
            nameChanged = rel_effectiveUniqueName (status res) \<noteq> uname
        in if condChanged \<or> nameChanged then do {
             u \<leftarrow> res_statusUpdate (k_releases e)
                    (res\<lparr>status := (status res)\<lparr>rel_conditions := conds, rel_effectiveUniqueName := uname\<rparr>\<rparr>);
             (case u of Inl err \<Rightarrow> failR e err ''failed to update status'' | Inr _ \<Rightarrow> ret (Inr ()))
           } else ret (Inr ()))
   }"

definition releaseResolve :: "'s kube \<Rightarrow> release \<Rightarrow> ('s, outcome + unit) state" where
  "releaseResolve e res = do {
     r \<leftarrow> res_get (k_componentversions e)
            \<lparr>nn_namespace = releaseCVNamespace res, nn_name = rel_componentVersionRef (spec res)\<rparr>;
     (case r of
        Inl err \<Rightarrow> if isNotFound err
                   then releaseUnresolved e res ''NotFound'' (''ComponentVersion not found: '' @ rel_componentVersionRef (spec res))
                   else failR e err ''failed to get ComponentVersion''
      | Inr cv \<Rightarrow>
          andThen (addProtection e (k_componentversions e) False componentVersionRefFinalizer ''ComponentVersion'' cv)
            (\<lambda>_. releaseResolved e res cv))
   }"

definition releaseReconcile :: "'s kube \<Rightarrow> namespaced_name \<Rightarrow> ('s, outcome) state" where
  "releaseReconcile e req =
     withObject e (k_releases e) req ''failed to get object'' (\<lambda>res. finish (
       if deleting res then releaseDelete e req res
       else
         andThen (ensureSelfFinalizer e (k_releases e) releaseFinalizer ''Release'' req res) (\<lambda>_.
         andThen (releaseGrantCheck e res) (\<lambda>granted.
           if \<not> granted
           then releaseUnresolved e res ''NotGranted''
                  (''no ReferenceGrant permits access to ComponentVersion in namespace '' @ releaseCVNamespace res)
           else releaseResolve e res))))"

section \<open>Watches\<close>

definition mapComponentVersionToReleases ::
  "'s kube \<Rightarrow> component_version \<Rightarrow> ('s, namespaced_name list) state" where
  "mapComponentVersionToReleases e obj = do {
     r \<leftarrow> res_list (k_releases e)
            (matchingFields indexReleaseByCVRef (om_namespace (metadata obj) @ ''/'' @ om_name (metadata obj)));
     (case r of Inl err \<Rightarrow> ret [] | Inr rels \<Rightarrow> ret (map objectKey rels))
   }"

fun releasesOfGrant :: "'s kube \<Rightarrow> reference_grant \<Rightarrow> reference_grant_from list \<Rightarrow> ('s, namespaced_name list) state" where
  "releasesOfGrant e grant [] = ret []"
| "releasesOfGrant e grant (from' # froms) =
     (if from_kind from' \<noteq> ''Release'' \<or> from_group from' \<noteq> solarGroup then releasesOfGrant e grant froms
      else do {
        r \<leftarrow> res_list (k_releases e) (inNamespace (from_namespace from'));
        rest \<leftarrow> releasesOfGrant e grant froms;
        (case r of
           Inl err \<Rightarrow> ret rest
         | Inr rels \<Rightarrow> ret (map objectKey (filter (\<lambda>rel.
               rel_componentVersionNamespace (spec rel) = om_namespace (metadata grant)) rels) @ rest))
      })"

definition mapReferenceGrantToReleases :: "'s kube \<Rightarrow> reference_grant \<Rightarrow> ('s, namespaced_name list) state" where
  "mapReferenceGrantToReleases e grant =
     (if \<not> grantsComponentVersionResource grant then ret [] else releasesOfGrant e grant (rg_from (spec grant)))"

section \<open>The controller follows the protocol\<close>

context kube_laws begin

lemma release_unreferenced:
  assumes d: "cl_releases (abs s) (objectKey d) = Some d" "deleting d"
    and xs: "set xs = {x. cl_releases (abs s) (objectKey x) = Some x \<and>
      om_namespace (metadata cv) @ CHR ''/'' # om_name (metadata cv) \<in> set (index_release indexReleaseByCVRef x)}"
    and none: "\<not> list_ex (\<lambda>rel. (om_name (metadata rel) = om_name (metadata d) \<longrightarrow>
      om_namespace (metadata rel) \<noteq> om_namespace (metadata d)) \<and> \<not> deleting rel) xs"
  shows "unreferenced (cl_releases (abs s)) releaseRef (objectKey cv)"
  unfolding unreferenced_def
proof (intro allI impI)
  fix k a assume a: "cl_releases (abs s) k = Some a" "releaseRef a = Some (objectKey cv)"
  then have k: "cl_releases (abs s) (objectKey a) = Some a" by (simp add: rel.key)
  have "om_namespace (metadata cv) @ CHR ''/'' # om_name (metadata cv) \<in> set (index_release indexReleaseByCVRef a)"
    using a(2) by (auto simp: releaseRef_def index_release_def objectKey_def split: if_splits)
  then have "a \<in> set xs" using k by (simp add: xs)
  then have "objectKey a = objectKey d \<or> deleting a"
    using none by (auto simp: list_ex_iff objectKey_def)
  then show "deleting a"
  proof
    assume "objectKey a = objectKey d"
    from k [unfolded this] have "a = d" using d(1) by simp
    then show ?thesis using d(2) by simp
  qed
qed

lemma removeComponentVersionRefFinalizer_advances:
  assumes "cl_releases (abs s) (objectKey d) = Some d" "deleting d"
  shows "advances e abs (removeComponentVersionRefFinalizer e d cv) s"
  unfolding removeComponentVersionRefFinalizer_def using assms
  by (auto intro!: relT.list_advances advances_rules drop_componentversion elim!: release_unreferenced [rotated 2])

lemma releaseDelete_advances:
  assumes "cl_releases (abs s) (objectKey x) = Some x" "deleting x"
  shows "advances e abs (releaseDelete e req x) s"
  unfolding releaseDelete_def using assms
  by (auto intro!: advances_rules cvT.get_advances removeComponentVersionRefFinalizer_advances relT.removeSelf_follows advancesI [OF relT.removeSelf_follows]
      simp: finalizer_defs)

lemma releaseUnresolved_follows [intro!]: "follows e abs (releaseUnresolved e x reason msg)"
  unfolding releaseUnresolved_def by (auto split: prod.splits)

lemma releaseGrantCheck_follows [intro!]: "follows e abs (releaseGrantCheck e x)"
  unfolding releaseGrantCheck_def componentVersionGranted_def Let_def by (auto split: sum.splits)

lemma releaseResolved_follows [intro!]: "follows e abs (releaseResolved e x v)"
  unfolding releaseResolved_def Let_def by (auto split: prod.splits)

lemma releaseResolve_follows [intro!]: "follows e abs (releaseResolve e x)"
  unfolding releaseResolve_def follows_advances
  by (auto intro!: advances_rules cvT.get_advances cvT.add_advances advancesI [OF releaseUnresolved_follows])

lemma releaseReconcile_follows: "follows e abs (releaseReconcile e req)"
  unfolding releaseReconcile_def
  by (rule relT.withObject_advances) (auto intro!: advances_finish advances_if releaseDelete_advances
      advancesI [OF follows_andThen])

end

section \<open>Access across namespaces\<close>

text \<open>The Release at \<open>k\<close> reports the resolution of its ComponentVersion with this status and reason.\<close>

definition releaseReports :: "'s kube \<Rightarrow> cluster \<Rightarrow> namespaced_name \<Rightarrow> condition_status \<Rightarrow> string \<Rightarrow> bool" where
  "releaseReports e c k st reason \<longleftrightarrow> (\<exists>rel cnd. cl_releases c k = Some rel \<and>
     k_findStatusCondition e (rel_conditions (status rel)) ConditionTypeComponentVersionResolved = Some cnd \<and>
     cond_status cnd = st \<and> cond_reason cnd = reason)"

context kube_laws begin

text \<open>What \<open>SetStatusCondition\<close> leaves in the list of conditions.\<close>

lemma setCondition_result:
  assumes "k_setStatusCondition e tm conds c = (conds', ch)"
  obtains c' where "k_findStatusCondition e conds' (cond_type c) = Some c'" "cond_status c' = cond_status c"
    "cond_reason c' = cond_reason c" "\<not> ch \<Longrightarrow> conds' = conds"
proof -
  obtain c' where c': "k_findStatusCondition e conds' (cond_type c) = Some c'"
    using setCondition_some [OF assms] by blast
  have "conds' = conds" if "\<not> ch" using setCondition_same assms that by (cases ch) auto
  then show thesis using that c' setCondition_find [OF assms c'] by blast
qed

lemma releaseUnresolved_wp:
  assumes "cl_releases (abs s) (objectKey x) = Some y" "status y = status x" "\<not> k_testMode e"
  shows "wp (releaseUnresolved e x reason msg) (\<lambda>r s'. cl_componentversions (abs s') = cl_componentversions (abs s) \<and>
    (\<forall>out n. r = Inl out \<longrightarrow> out \<noteq> Inr n) \<and> (r = Inr () \<longrightarrow> releaseReports e (abs s') (objectKey x) ConditionFalse reason)) s"
  unfolding releaseUnresolved_def wp_bind
proof (rule wp_mono [OF now])
  fix tm s1 assume s1: "abs s1 = abs s"
  let ?c = "\<lparr>cond_type = ConditionTypeComponentVersionResolved, cond_status = ConditionFalse,
       cond_observedGeneration = om_generation (metadata x), cond_lastTransitionTime = None,
       cond_reason = reason, cond_message = msg\<rparr>"
  obtain conds ch where set: "k_setStatusCondition e tm (rel_conditions (status x)) ?c = (conds, ch)" by force
  then obtain c where c: "k_findStatusCondition e conds ConditionTypeComponentVersionResolved = Some c"
      "cond_status c = ConditionFalse" "cond_reason c = reason" "\<not> ch \<Longrightarrow> conds = rel_conditions (status x)"
    by (rule setCondition_result) auto
  show "wp (case k_setStatusCondition e tm (rel_conditions (status x)) ?c of (conds, changed) \<Rightarrow>
      if changed then do {
        u \<leftarrow> res_statusUpdate (k_releases e) (x\<lparr>status := (status x)\<lparr>rel_conditions := conds\<rparr>\<rparr>);
        (case u of Inl err \<Rightarrow> failR e err ''failed to update status'' | Inr _ \<Rightarrow> ret (Inr ()))
      } else ret (Inr ()))
    (\<lambda>r s'. cl_componentversions (abs s') = cl_componentversions (abs s) \<and> (\<forall>out n. r = Inl out \<longrightarrow> out \<noteq> Inr n) \<and>
      (r = Inr () \<longrightarrow> releaseReports e (abs s') (objectKey x) ConditionFalse reason)) s1"
    unfolding set prod.case releaseReports_def
    using assms s1 c by (cases ch) (auto intro!: rel.statusUpdate_wp)
qed

lemma releaseGrantCheck_denied:
  assumes "releaseCVNamespace x \<noteq> om_namespace (metadata x)" "\<not> k_testMode e"
    and "\<And>k g. cl_referencegrants (abs s) k = Some g \<Longrightarrow> om_namespace (metadata g) = releaseCVNamespace x \<Longrightarrow>
      \<not> grantPermitsComponentVersionAccess g (om_namespace (metadata x))"
  shows "wp (releaseGrantCheck e x) (\<lambda>r s'. abs s' = abs s \<and> r \<noteq> Inr True \<and> (\<forall>out n. r = Inl out \<longrightarrow> out \<noteq> Inr n)) s"
  using assms unfolding releaseGrantCheck_def componentVersionGranted_def Let_def
  by (auto intro!: grant.list_wp simp: list_ex_iff failR_def)

lemma releaseReconcile_denied:
  assumes x: "cl_releases (abs s) k = Some x" "\<not> deleting x" and tm: "\<not> k_testMode e"
    and ns: "releaseCVNamespace x \<noteq> om_namespace (metadata x)"
    and grants: "\<And>j g. cl_referencegrants (abs s) j = Some g \<Longrightarrow> om_namespace (metadata g) = releaseCVNamespace x \<Longrightarrow>
      \<not> grantPermitsComponentVersionAccess g (om_namespace (metadata x))"
  shows "wp (releaseReconcile e k) (\<lambda>r s'. cl_componentversions (abs s') = cl_componentversions (abs s) \<and>
    (\<forall>n. watched e k \<longrightarrow> r = Inr n \<longrightarrow> releaseReports e (abs s') k ConditionFalse ''NotGranted'')) s"
proof -
  define Post where "Post r s' \<longleftrightarrow> cl_componentversions (abs s') = cl_componentversions (abs s) \<and>
    (\<forall>out n. r = Inl out \<longrightarrow> out \<noteq> Inr n) \<and> (r = Inr () \<longrightarrow> releaseReports e (abs s') k ConditionFalse ''NotGranted'')"
    for r :: "outcome + unit" and s'
  have "wp (andThen (releaseGrantCheck e x) (\<lambda>granted. if \<not> granted
         then releaseUnresolved e x ''NotGranted'' msg else releaseResolve e x)) Post s1"
    if s1: "cl_referencegrants (abs s1) = cl_referencegrants (abs s)" "cl_releases (abs s1) k = Some y" "status y = status x"
      "cl_componentversions (abs s1) = cl_componentversions (abs s)"
      and k: "objectKey x = k" for s1 y msg
    unfolding wp_andThen
  proof (rule wp_mono [OF releaseGrantCheck_denied [OF ns tm]])
    fix r :: "outcome + bool" and s2 assume r: "abs s2 = abs s1 \<and> r \<noteq> Inr True \<and> (\<forall>out n. r = Inl out \<longrightarrow> out \<noteq> Inr n)"
    have "wp (releaseUnresolved e x ''NotGranted'' msg) Post s2"
      unfolding Post_def by (rule wp_mono [OF releaseUnresolved_wp [OF _ s1(3) tm]]) (use r s1 k in auto)
    then show "(case r of Inl out \<Rightarrow> Post (Inl out)
        | Inr granted \<Rightarrow> wp (if \<not> granted then releaseUnresolved e x ''NotGranted'' msg else releaseResolve e x) Post) s2"
      using r s1 by (cases r) (auto simp: Post_def)
  qed (use grants s1 in auto)
  note denied = this
  have "wp (andThen (ensureSelfFinalizer e (k_releases e) releaseFinalizer ''Release'' k x)
      (\<lambda>_. andThen (releaseGrantCheck e x) (\<lambda>granted. if \<not> granted
         then releaseUnresolved e x ''NotGranted'' msg else releaseResolve e x))) Post s1"
    if "abs s1 = abs s" "objectKey x = k" for s1 msg
    unfolding wp_andThen
    by (rule rel.ensureSelf_prod)
      (use that x tm in \<open>auto intro!: denied [unfolded wp_andThen] simp: Post_def\<close>)
  note active = this
  show ?thesis
    unfolding releaseReconcile_def
  proof (rule rel.withObject_case [OF x(1) tm])
    fix s1 assume s1: "abs s1 = abs s" "objectKey x = k"
    show "wp (finish (if deleting x then releaseDelete e k x
       else andThen (ensureSelfFinalizer e (k_releases e) releaseFinalizer ''Release'' k x) (\<lambda>_.
         andThen (releaseGrantCheck e x) (\<lambda>granted. if \<not> granted
           then releaseUnresolved e x ''NotGranted''
                  (''no ReferenceGrant permits access to ComponentVersion in namespace '' @ releaseCVNamespace x)
           else releaseResolve e x))))
      (\<lambda>r s'. cl_componentversions (abs s') = cl_componentversions (abs s) \<and>
        (\<forall>n. watched e k \<longrightarrow> r = Inr n \<longrightarrow> releaseReports e (abs s') k ConditionFalse ''NotGranted'')) s1"
      unfolding wp_finish if_not_P [OF x(2)]
      by (rule wp_mono [OF active [OF s1]]) (auto simp: Post_def split: sum.splits)
  qed auto
qed

end

text \<open>Namespace isolation: while no ReferenceGrant of the other namespace permits it, no reconcile of a
  Release touches a ComponentVersion of another namespace (not even to protect it), and a reconcile
  that succeeds reports \<open>NotGranted\<close>.\<close>

theorem release_without_grant_isolated:
  assumes "kube_laws e view" "\<not> k_testMode e" "watched e k"
    and "cl_releases (view s) k = Some rel" "\<not> deleting rel" "releaseCVNamespace rel \<noteq> om_namespace (metadata rel)"
    and "\<forall>j g. cl_referencegrants (view s) j = Some g \<longrightarrow> om_namespace (metadata g) = releaseCVNamespace rel \<longrightarrow>
           \<not> grantPermitsComponentVersionAccess g (om_namespace (metadata rel))"
    and "run_state (releaseReconcile e k) s = (out, s')"
  shows "cl_componentversions (view s') = cl_componentversions (view s) \<and>
    (\<forall>n. out = Inr n \<longrightarrow> releaseReports e (view s') k ConditionFalse ''NotGranted'')"
  using wp_run [OF kube_laws.releaseReconcile_denied [OF assms(1,4,5,2,6)] assms(8)] assms(3,7) by blast

section \<open>Resolution\<close>

context kube_laws begin

text \<open>What a Release that is resolved to the ComponentVersion \<open>v\<close> at \<open>t\<close> leaves behind.\<close>

definition releaseSettled :: "'s \<Rightarrow> release \<Rightarrow> component_version \<Rightarrow> namespaced_name \<Rightarrow> bool" where
  "releaseSettled s' x v t \<longleftrightarrow> releaseReports e (abs s') (objectKey x) ConditionTrue ''Resolved'' \<and>
    (\<exists>rel'. cl_releases (abs s') (objectKey x) = Some rel' \<and> rel_effectiveUniqueName (status rel') = effectiveUniqueName x v) \<and>
    (\<exists>v'. cl_componentversions (abs s') t = Some v' \<and> hasFinalizer componentVersionRefFinalizer v')"

lemma releaseResolved_wp:
  assumes "cl_releases (abs s) (objectKey x) = Some y" "status y = status x" "\<not> k_testMode e"
    and "cl_componentversions (abs s) t = Some v'" "hasFinalizer componentVersionRefFinalizer v'"
    and "\<And>err s'. Q (Inl (Inl err)) s'" and "\<And>s'. releaseSettled s' x v t \<Longrightarrow> Q (Inr ()) s'"
  shows "wp (releaseResolved e x v) Q s"
  unfolding releaseResolved_def wp_bind
proof (rule wp_mono [OF now])
  fix tm s1 assume s1: "abs s1 = abs s"
  let ?c = "\<lparr>cond_type = ConditionTypeComponentVersionResolved, cond_status = ConditionTrue,
       cond_observedGeneration = om_generation (metadata x), cond_lastTransitionTime = None,
       cond_reason = ''Resolved'', cond_message = ''ComponentVersion resolved: '' @ om_name (metadata v)\<rparr>"
  obtain conds ch where set: "k_setStatusCondition e tm (rel_conditions (status x)) ?c = (conds, ch)" by force
  then obtain c where c: "k_findStatusCondition e conds ConditionTypeComponentVersionResolved = Some c"
      "cond_status c = ConditionTrue" "cond_reason c = ''Resolved''" "\<not> ch \<Longrightarrow> conds = rel_conditions (status x)"
    by (rule setCondition_result) auto
  show "wp (case k_setStatusCondition e tm (rel_conditions (status x)) ?c of (conds, condChanged) \<Rightarrow>
      let uname = effectiveUniqueName x v; nameChanged = rel_effectiveUniqueName (status x) \<noteq> uname
      in if condChanged \<or> nameChanged then do {
           u \<leftarrow> res_statusUpdate (k_releases e)
                  (x\<lparr>status := (status x)\<lparr>rel_conditions := conds, rel_effectiveUniqueName := uname\<rparr>\<rparr>);
           (case u of Inl err \<Rightarrow> failR e err ''failed to update status'' | Inr _ \<Rightarrow> ret (Inr ()))
         } else ret (Inr ())) Q s1"
    unfolding set prod.case Let_def using s1 c assms
    by (auto intro!: rel.statusUpdate_wp assms(7) simp: releaseSettled_def releaseReports_def)
qed

lemma releaseResolve_wp:
  assumes "cl_releases (abs s) (objectKey x) = Some y" "status y = status x" "\<not> k_testMode e"
    and "cl_componentversions (abs s) t = Some v"
    and "t = \<lparr>nn_namespace = releaseCVNamespace x, nn_name = rel_componentVersionRef (spec x)\<rparr>"
    and "\<And>err s'. Q (Inl (Inl err)) s'" and "\<And>s'. releaseSettled s' x v t \<Longrightarrow> Q (Inr ()) s'"
  shows "wp (releaseResolve e x) Q s"
proof -
  have resolved: "wp (releaseResolved e x v) Q s1"
    if "cl_releases (abs s1) = cl_releases (abs s)"
      "\<exists>v'. cl_componentversions (abs s1) t = Some v' \<and> hasFinalizer componentVersionRefFinalizer v'" for s1
    using that(2) by (elim exE conjE, intro releaseResolved_wp [of s1 x y t]) (use assms that(1) in auto)
  show ?thesis
    unfolding releaseResolve_def addProtection_def failR_def assms(5) [symmetric]
    using assms(3,4,6) by (auto intro!: cv.get_wp cv.patch_wp resolved)
qed

lemma releaseGrantCheck_wp:
  assumes "\<not> k_testMode e" "\<And>err s'. Q (Inl (Inl err)) s'"
    and "releaseCVNamespace x = om_namespace (metadata x) \<or> (\<exists>k g. cl_referencegrants (abs s) k = Some g \<and>
      om_namespace (metadata g) = releaseCVNamespace x \<and> grantPermitsComponentVersionAccess g (om_namespace (metadata x)))"
    and "\<And>s'. abs s' = abs s \<Longrightarrow> Q (Inr True) s'"
  shows "wp (releaseGrantCheck e x) Q s"
proof -
  have "Q (Inr (list_ex (\<lambda>g. grantPermitsComponentVersionAccess g (om_namespace (metadata x))) gs)) s'"
    if "releaseCVNamespace x \<noteq> om_namespace (metadata x)" "abs s' = abs s"
      "set gs = {g. cl_referencegrants (abs s) (objectKey g) = Some g \<and> om_namespace (metadata g) = releaseCVNamespace x}" for gs s'
  proof -
    obtain k g where "cl_referencegrants (abs s) k = Some g" "om_namespace (metadata g) = releaseCVNamespace x"
        "grantPermitsComponentVersionAccess g (om_namespace (metadata x))"
      using assms(3) \<open>releaseCVNamespace x \<noteq> _\<close> by blast
    moreover from this have "objectKey g = k" using grant.key by blast
    ultimately have "list_ex (\<lambda>g. grantPermitsComponentVersionAccess g (om_namespace (metadata x))) gs"
      unfolding list_ex_iff that(3) by blast
    then show ?thesis using assms(4) [OF that(2)] by simp
  qed
  then show ?thesis
    using assms(1,2,4) unfolding releaseGrantCheck_def componentVersionGranted_def Let_def failR_def
    by (auto intro!: grant.list_wp)
qed

lemma releaseReconcile_resolves:
  assumes x: "cl_releases (abs s) k = Some x" "\<not> deleting x" and tm: "\<not> k_testMode e" "watched e k"
    and cv: "releaseRef x = Some t" "cl_componentversions (abs s) t = Some v"
    and grant: "releaseCVNamespace x = om_namespace (metadata x) \<or> (\<exists>k g. cl_referencegrants (abs s) k = Some g \<and>
      om_namespace (metadata g) = releaseCVNamespace x \<and> grantPermitsComponentVersionAccess g (om_namespace (metadata x)))"
  shows "wp (releaseReconcile e k) (succeeds (\<lambda>_ s'. objectKey x = k \<and> releaseSettled s' x v t)) s"
  unfolding releaseReconcile_def
proof (rule rel.withObject_wp [OF x(1) tm(2,1)])
  fix s1 assume s1: "abs s1 = abs s" and k: "objectKey x = k"
  have t: "t = \<lparr>nn_namespace = releaseCVNamespace x, nn_name = rel_componentVersionRef (spec x)\<rparr>"
    using cv(1) by (auto simp: releaseRef_def releaseCVNamespace_def split: if_splits)
  have resolve: "wp (releaseGrantCheck e x) (case_sum F (\<lambda>a. wp (if \<not> a then m else releaseResolve e x) (case_sum F G))) s2"
    if "cl_releases (abs s2) k = Some y" "status y = status x" "cl_componentversions (abs s2) = cl_componentversions (abs s)"
      "cl_referencegrants (abs s2) = cl_referencegrants (abs s)"
      "\<And>err s'. F (Inl err) s'" "\<And>s'. releaseSettled s' x v t \<Longrightarrow> G () s'" for s2 y m F G
    by (rule releaseGrantCheck_wp)
      (use that grant tm k cv t in \<open>auto intro!: releaseResolve_wp [where t = t and v = v and y = y]\<close>)
  show "wp (finish (if deleting x then releaseDelete e k x
       else andThen (ensureSelfFinalizer e (k_releases e) releaseFinalizer ''Release'' k x) (\<lambda>_.
         andThen (releaseGrantCheck e x) (\<lambda>granted. if \<not> granted
           then releaseUnresolved e x ''NotGranted''
                  (''no ReferenceGrant permits access to ComponentVersion in namespace '' @ releaseCVNamespace x)
           else releaseResolve e x)))) (succeeds (\<lambda>_ s'. objectKey x = k \<and> releaseSettled s' x v t)) s1"
    unfolding wp_finish if_not_P [OF x(2)] wp_andThen
    by (rule rel.ensureSelf_prod) (use x tm s1 k in \<open>auto intro!: resolve\<close>)
qed simp

end

text \<open>A successful reconcile of an active Release whose ComponentVersion exists, in its own namespace or
  in one whose ReferenceGrant permits the access, reports it as resolved, records the effective unique
  name (the Release's own, or the Component's) and protects the ComponentVersion.\<close>

theorem release_reconcile_resolves:
  assumes "kube_laws e view" "\<not> k_testMode e" "watched e k"
    and "cl_releases (view s) k = Some rel" "\<not> deleting rel" "releaseRef rel = Some t"
    and "cl_componentversions (view s) t = Some cv"
    and "releaseCVNamespace rel = om_namespace (metadata rel) \<or> (\<exists>j g. cl_referencegrants (view s) j = Some g \<and>
      om_namespace (metadata g) = releaseCVNamespace rel \<and> grantPermitsComponentVersionAccess g (om_namespace (metadata rel)))"
    and "run_state (releaseReconcile e k) s = (Inr n, s')"
  shows "releaseReports e (view s') k ConditionTrue ''Resolved'' \<and>
    (\<exists>rel'. cl_releases (view s') k = Some rel' \<and> rel_effectiveUniqueName (status rel') = effectiveUniqueName rel cv) \<and>
    (\<exists>cv'. cl_componentversions (view s') t = Some cv' \<and> hasFinalizer componentVersionRefFinalizer cv')"
proof -
  have "objectKey rel = k \<and> kube_laws.releaseSettled e view s' rel cv t"
    using wp_succeeds [OF kube_laws.releaseReconcile_resolves [OF assms(1,4,5,2,3,6,7,8)] assms(9)] .
  then show ?thesis by (auto simp: kube_laws.releaseSettled_def [OF assms(1)])
qed

end
