(* ===== verification/ReleaseBindingController.thy ===== *)
theory ReleaseBindingController
  imports Protocol
begin

text \<open>
  \<open>pkg/controller/releasebinding_controller.go\<close>: a ReleaseBinding protects its Release. Bindings
  that a Profile owns defer the removal of the finalizer to the Profile while the Profile
  still manages its cleanup, and do not count as references once the Profile is gone.
  A reconcile that returns inside a nested block yields \<open>Inl\<close>; the last loop of
  \<open>removeReleaseRefFinalizer\<close> returns \<open>Inl\<close> of the result with which the function returns.
\<close>

text \<open>\<open>ownerRef := metav1.GetControllerOf(rb)\<close> when it is a Profile of this API version.\<close>

definition profileOwner :: "'s kube \<Rightarrow> release_binding \<Rightarrow> owner_reference option" where
  "profileOwner e rb =
     (case k_getControllerOf e (metadata rb) of
        None \<Rightarrow> None
      | Some o' \<Rightarrow> if own_kind o' = ''Profile'' \<and> own_apiVersion o' = schemeGroupVersion then Some o' else None)"

definition ownerProfileKey :: "release_binding \<Rightarrow> owner_reference \<Rightarrow> namespaced_name" where
  "ownerProfileKey rb o' = \<lparr>nn_namespace = om_namespace (metadata rb), nn_name = own_name o'\<rparr>"

text \<open>The loop over the bindings with its cache of owner lookups (\<open>None\<close> for a Profile that is gone
  or deleting).\<close>

fun activeBindingLoop ::
  "'s kube \<Rightarrow> release_binding \<Rightarrow> profile option gomap \<Rightarrow> release_binding list \<Rightarrow>
   ('s, (go_error + unit) + unit) state" where
  "activeBindingLoop e deletingRB cache [] = ret (Inr ())"
| "activeBindingLoop e deletingRB cache (rb # rbs) =
     (if om_name (metadata rb) = om_name (metadata deletingRB) \<or> deleting rb
      then activeBindingLoop e deletingRB cache rbs
      else case profileOwner e rb of
        None \<Rightarrow> ret (Inl (Inr ()))
      | Some ownerRef \<Rightarrow>
          let cacheKey = om_namespace (metadata rb) @ ''/'' @ own_name ownerRef in
          (case map_of cache cacheKey of
             Some cached \<Rightarrow>
               if cached \<noteq> None then ret (Inl (Inr ())) else activeBindingLoop e deletingRB cache rbs
           | None \<Rightarrow> do {
               r \<leftarrow> res_get (k_profiles e) (ownerProfileKey rb ownerRef);
               (case r of
                  Inl err \<Rightarrow>
                    if isNotFound err
                    then activeBindingLoop e deletingRB (gomap_put cacheKey None cache) rbs
                    else ret (Inl (wrapErr (k_testMode e) (Api err)
                           ''failed to check owner Profile for Release finalizer check'' ()))
                | Inr op \<Rightarrow>
                    if deleting op then activeBindingLoop e deletingRB (gomap_put cacheKey None cache) rbs
                    else ret (Inl (Inr ())))
             }))"

definition removeReleaseRefFinalizer ::
  "'s kube \<Rightarrow> release_binding \<Rightarrow> release \<Rightarrow> ('s, go_error + unit) state" where
  "removeReleaseRefFinalizer e deletingRB rel =
     (if \<not> hasFinalizer releaseRefFinalizer rel then ret (Inr ())
      else do {
        r \<leftarrow> res_list (k_profiles e)
               (inNamespaceMatching (om_namespace (metadata rel)) indexProfileByReleaseName (om_name (metadata rel)));
        (case r of
           Inl err \<Rightarrow> ret (wrapErr (k_testMode e) (Api err) ''failed to list Profiles for Release finalizer check'' ())
         | Inr profiles \<Rightarrow>
             if list_ex (\<lambda>p. \<not> deleting p \<or> hasFinalizer profileFinalizer p) profiles then ret (Inr ())
             else do {
               b \<leftarrow> res_list (k_releasebindings e)
                      (inNamespaceMatching (om_namespace (metadata rel)) indexReleaseBindingReleaseName
                         (om_name (metadata rel)));
               (case b of
                  Inl err \<Rightarrow> ret (wrapErr (k_testMode e) (Api err)
                    ''failed to list ReleaseBindings for Release finalizer check'' ())
                | Inr bindings \<Rightarrow> do {
                    l \<leftarrow> activeBindingLoop e deletingRB [] bindings;
                    (case l of
                       Inl result \<Rightarrow> ret result
                     | Inr _ \<Rightarrow> dropProtection e (k_releases e) True releaseRefFinalizer ''Release'' (objectKey rel))
                  })
             })
      })"

text \<open>Whether the binding is owned by a Profile that still manages its cleanup.\<close>

definition profileOwnerManaging :: "'s kube \<Rightarrow> release_binding \<Rightarrow> ('s, outcome + bool) state" where
  "profileOwnerManaging e rb =
     (case profileOwner e rb of
        None \<Rightarrow> ret (Inr False)
      | Some ownerRef \<Rightarrow> do {
          r \<leftarrow> res_get (k_profiles e) (ownerProfileKey rb ownerRef);
          (case r of
             Inl err \<Rightarrow> if isNotFound err then ret (Inr False)
                        else failR e err ''failed to check owner Profile during ReleaseBinding deletion''
           | Inr p \<Rightarrow> ret (Inr (hasFinalizer profileFinalizer p)))
        })"

definition releaseBindingDelete ::
  "'s kube \<Rightarrow> namespaced_name \<Rightarrow> release_binding \<Rightarrow> ('s, outcome + unit) state" where
  "releaseBindingDelete e req rb =
     andThen
       (if rlb_releaseRef (spec rb) \<noteq> '''' then
          andThen (profileOwnerManaging e rb) (\<lambda>managing.
            if managing then ret (Inr ())
            else do {
              r \<leftarrow> res_get (k_releases e)
                     \<lparr>nn_namespace = om_namespace (metadata rb), nn_name = rlb_releaseRef (spec rb)\<rparr>;
              (case r of
                 Inl err \<Rightarrow> if isNotFound err then ret (Inr ())
                            else failR e err ''failed to get Release for finalizer cleanup''
               | Inr rel \<Rightarrow> orReturn (removeReleaseRefFinalizer e rb rel))
            })
        else ret (Inr ()))
       (\<lambda>_. removeSelfFinalizer e (k_releasebindings e) releaseBindingFinalizer ''ReleaseBinding'' req rb)"

text \<open>Returns from the reconcile when the binding is owned by a Profile that is gone or deleting.\<close>

definition ownerProfileActive :: "'s kube \<Rightarrow> release_binding \<Rightarrow> ('s, outcome + unit) state" where
  "ownerProfileActive e rb =
     (case profileOwner e rb of
        None \<Rightarrow> ret (Inr ())
      | Some ownerRef \<Rightarrow> do {
          p \<leftarrow> res_get (k_profiles e) (ownerProfileKey rb ownerRef);
          (case p of
             Inl err \<Rightarrow> if isNotFound err then returnR 0
                        else failR e err ''failed to check owner Profile for deletion status''
           | Inr ownerProfile \<Rightarrow> if deleting ownerProfile then returnR 0 else ret (Inr ()))
        })"

definition releaseBindingProtect :: "'s kube \<Rightarrow> release_binding \<Rightarrow> ('s, outcome + unit) state" where
  "releaseBindingProtect e rb =
     (let relKey = \<lparr>nn_namespace = om_namespace (metadata rb), nn_name = rlb_releaseRef (spec rb)\<rparr> in
      if rlb_releaseRef (spec rb) \<noteq> '''' then do {
        r \<leftarrow> res_get (k_releases e) relKey;
        (case r of
           Inl err \<Rightarrow> if isNotFound err then ret (Inr ())
                      else failR e err ''failed to get Release for protection finalizer''
         | Inr rel \<Rightarrow>
             if hasFinalizer releaseRefFinalizer rel then ret (Inr ())
             else andThen (ownerProfileActive e rb) (\<lambda>_. do {
                f \<leftarrow> res_get (k_releases e) relKey;
                (case f of
                   Inl err \<Rightarrow> if isNotFound err then returnR 0
                              else failR e err ''failed to get latest Release for finalizer addition''
                 | Inr freshRelease \<Rightarrow>
                     addProtection e (k_releases e) True releaseRefFinalizer ''Release'' freshRelease)
              }))
      } else ret (Inr ()))"

definition releaseBindingReconcile :: "'s kube \<Rightarrow> namespaced_name \<Rightarrow> ('s, outcome) state" where
  "releaseBindingReconcile e req =
     withObject e (k_releasebindings e) req ''failed to get ReleaseBinding'' (\<lambda>rb. finish (
       if deleting rb then releaseBindingDelete e req rb
       else andThen (ensureSelfFinalizer e (k_releasebindings e) releaseBindingFinalizer ''ReleaseBinding'' req rb)
              (\<lambda>_. releaseBindingProtect e rb)))"

section \<open>The controller follows the protocol\<close>

lemma profileOwner_orphaned:
  assumes "profileOwner e rb = Some o'" and "\<And>p. cl_profiles c (ownerProfileKey rb o') = Some p \<Longrightarrow> deleting p"
  shows "orphaned (k_getControllerOf e) c rb"
  using assms by (auto simp: profileOwner_def orphaned_def ownerProfileKey_def split: option.splits if_splits)

context kube_laws begin

lemma profile_unreferenced:
  assumes xs: "set xs = {x. cl_profiles (abs s) (objectKey x) = Some x \<and>
      om_namespace (metadata x) = om_namespace (metadata reg) \<and>
      om_name (metadata reg) \<in> set (index_profile indexProfileByReleaseName x)}"
    and none: "\<not> list_ex bad xs"
    and bad: "\<And>t. cl_profiles (abs s) (objectKey t) = Some t \<Longrightarrow>
      om_namespace (metadata t) = om_namespace (metadata reg) \<Longrightarrow> \<not> deleting t \<Longrightarrow> bad t"
  shows "unreferenced (cl_profiles (abs s)) profileRef (objectKey reg)"
  unfolding unreferenced_def
proof (intro allI impI)
  fix k a assume a: "cl_profiles (abs s) k = Some a" "profileRef a = Some (objectKey reg)"
  then have k: "cl_profiles (abs s) (objectKey a) = Some a" by (simp add: pro.key)
  have ns: "om_namespace (metadata a) = om_namespace (metadata reg)"
      "om_name (metadata reg) \<in> set (index_profile indexProfileByReleaseName a)"
    using a(2) by (auto simp: profileRef_def index_profile_def objectKey_def nonEmpty_def split: if_splits)
  then have "a \<in> set xs" using k by (simp add: xs)
  then show "deleting a" using none bad [OF k ns(1)] by (auto simp: list_ex_iff)
qed

lemma binding_listed:
  assumes xs: "set xs = {x. cl_releasebindings (abs s) (objectKey x) = Some x \<and>
      om_namespace (metadata x) = om_namespace (metadata reg) \<and>
      om_name (metadata reg) \<in> set (index_release_binding indexReleaseBindingReleaseName x)}"
    and a: "cl_releasebindings (abs s) k = Some a" "releaseBindingRef a = Some (objectKey reg)"
  shows "a \<in> set xs" and "om_namespace (metadata a) = om_namespace (metadata reg)"
    and "cl_releasebindings (abs s) (objectKey a) = Some a"
proof -
  show k: "cl_releasebindings (abs s) (objectKey a) = Some a" using a by (simp add: relb.key)
  show ns: "om_namespace (metadata a) = om_namespace (metadata reg)"
    using a(2) by (auto simp: releaseBindingRef_def objectKey_def split: if_splits)
  have "om_name (metadata reg) \<in> set (index_release_binding indexReleaseBindingReleaseName a)"
    using a(2) by (auto simp: releaseBindingRef_def index_release_binding_def objectKey_def nonEmpty_def
        index_defs split: if_splits)
  then show "a \<in> set xs" using k ns by (simp add: xs)
qed

text \<open>When the loop finishes, every other active binding was found to be orphaned: the cache holds
  \<open>None\<close> only for owners that are gone or deleting.\<close>

lemma activeBindingLoop_wp:
  assumes "\<And>rb. rb \<in> set rbs \<Longrightarrow> om_namespace (metadata rb) = ns"
    and "\<And>n p. map_of cache (ns @ ''/'' @ n) = Some None \<Longrightarrow>
      cl_profiles (abs s) \<lparr>nn_namespace = ns, nn_name = n\<rparr> = Some p \<Longrightarrow> deleting p"
  shows "wp (activeBindingLoop e d cache rbs) (\<lambda>r s'. abs s' = abs s \<and>
    (r = Inr () \<longrightarrow> (\<forall>rb \<in> set rbs. om_name (metadata rb) = om_name (metadata d) \<or> deleting rb \<or>
       orphaned (k_getControllerOf e) (abs s) rb))) s"
  using assms
proof (induction rbs arbitrary: cache s)
  case (Cons rb rbs)
  have IH: "wp (activeBindingLoop e d cache' rbs) Q s1"
    if "abs s1 = abs s"
      "\<And>n p. map_of cache' (ns @ ''/'' @ n) = Some None \<Longrightarrow>
        cl_profiles (abs s) \<lparr>nn_namespace = ns, nn_name = n\<rparr> = Some p \<Longrightarrow> deleting p"
      "\<And>r s'. abs s' = abs s \<Longrightarrow> (r = Inr () \<Longrightarrow> \<forall>rb \<in> set rbs. om_name (metadata rb) = om_name (metadata d) \<or>
        deleting rb \<or> orphaned (k_getControllerOf e) (abs s) rb) \<Longrightarrow> Q r s'" for cache' s1 Q
    by (rule wp_mono [OF Cons.IH [of cache' s1]]) (use that Cons.prems(1) in auto)
  have ns: "om_namespace (metadata rb) = ns" using Cons.prems(1) by simp
  show ?case
  proof (cases "om_name (metadata rb) = om_name (metadata d) \<or> deleting rb")
    case True
    then show ?thesis using IH [of s cache] Cons.prems(2) by (auto elim!: wp_mono)
  next
    case False
    show ?thesis
    proof (cases "profileOwner e rb")
      case (Some o')
      let ?key = "om_namespace (metadata rb) @ ''/'' @ own_name o'"
      have key: "ownerProfileKey rb o' = \<lparr>nn_namespace = ns, nn_name = own_name o'\<rparr>"
        by (simp add: ownerProfileKey_def ns)
      show ?thesis
      proof (cases "map_of cache ?key")
        case None
        then show ?thesis
          using False Some ns Cons.prems(2)
          by (auto simp: key Let_def intro!: pro.get_wp wp_if IH profileOwner_orphaned [OF Some] split: if_splits)
      next
        case (Some v)
        then show ?thesis
          using False \<open>profileOwner e rb = Some o'\<close> ns Cons.prems(2)
          by (auto simp: key Let_def intro!: wp_if IH profileOwner_orphaned [OF \<open>profileOwner e rb = Some o'\<close>])
      qed
    qed (use False in auto)
  qed
qed simp

lemma removeReleaseRefFinalizer_advances:
  assumes d: "cl_releasebindings (abs s) (objectKey d) = Some d" "deleting d" "om_namespace (metadata d) = om_namespace (metadata r)"
  shows "advances e abs (removeReleaseRefFinalizer e d r) s"
proof -
  have self: "deleting rb" if "cl_releasebindings (abs s) (objectKey rb) = Some rb"
    "om_namespace (metadata rb) = om_namespace (metadata r)" "om_name (metadata rb) = om_name (metadata d)" for rb
  proof -
    have "objectKey rb = objectKey d" using that d by (simp add: objectKey_def)
    from that(1) [unfolded this] show ?thesis using d by simp
  qed
  have loop: "advances e abs (bindM (activeBindingLoop e d [] bs) g) s1"
    if s1: "abs s1 = abs s" and bs: "set bs = {x. cl_releasebindings (abs s) (objectKey x) = Some x \<and>
      om_namespace (metadata x) = om_namespace (metadata r) \<and>
      om_name (metadata r) \<in> set (index_release_binding indexReleaseBindingReleaseName x)}"
    and g: "\<And>x s2. abs s2 = abs s \<Longrightarrow> advances e abs (g (Inl x)) s2"
      "\<And>s2. abs s2 = abs s \<Longrightarrow> unbound (k_getControllerOf e) (abs s) (objectKey r) \<Longrightarrow> advances e abs (g (Inr ())) s2"
    for bs s1 and g :: "((go_error + unit) + unit) \<Rightarrow> (_, go_error + unit) state"
  proof (rule advances_read, rule wp_mono [OF activeBindingLoop_wp [where ns = "om_namespace (metadata r)"]])
    fix x :: "(go_error + unit) + unit" and s2
    assume x: "abs s2 = abs s1 \<and> (x = Inr () \<longrightarrow> (\<forall>rb \<in> set bs. om_name (metadata rb) = om_name (metadata d) \<or>
      deleting rb \<or> orphaned (k_getControllerOf e) (abs s1) rb))"
    show "abs s2 = abs s1 \<and> advances e abs (g x) s2"
    proof (cases x)
      case (Inr u)
      have "deleting rb \<or> orphaned (k_getControllerOf e) (abs s) rb"
        if "cl_releasebindings (abs s) k = Some rb" "releaseBindingRef rb = Some (objectKey r)" for k rb
        using binding_listed [OF bs that] x Inr self s1 by auto
      then have "unbound (k_getControllerOf e) (abs s) (objectKey r)" unfolding unbound_def by blast
      then show ?thesis using g(2) x Inr s1 by auto
    qed (use g x s1 in auto)
  qed (use bs in auto)
  show ?thesis
    unfolding removeReleaseRefFinalizer_def
    by (auto intro!: proT.list_advances relbT.list_advances advances_rules loop drop_release
        elim!: profile_unreferenced [where bad = "\<lambda>p. deleting p \<longrightarrow> hasFinalizer profileFinalizer p"])
qed

lemma owner_quiet [simp, intro!]: "quiet abs (profileOwnerManaging e x)" "quiet abs (ownerProfileActive e x)"
  unfolding profileOwnerManaging_def ownerProfileActive_def by auto

lemma releaseBindingDelete_advances:
  assumes "cl_releasebindings (abs s) (objectKey x) = Some x" "deleting x"
  shows "advances e abs (releaseBindingDelete e req x) s"
proof -
  have remove: "advances e abs (removeReleaseRefFinalizer e x r) s1"
    if "abs s1 = abs s" "objectKey r = \<lparr>nn_namespace = om_namespace (metadata x), nn_name = n\<rparr>" for s1 r n
    by (rule removeReleaseRefFinalizer_advances) (use assms that in \<open>auto simp: objectKey_iff\<close>)
  show ?thesis
    unfolding releaseBindingDelete_def
  proof (rule advances_andThen)
    show "follows e abs (removeSelfFinalizer e (k_releasebindings e) releaseBindingFinalizer ''ReleaseBinding'' req x)"
      by (rule relbT.removeSelf_follows) simp
  qed (auto intro!: advances_if advances_quiet advances_orReturn relT.get_advances advancesI [OF follows_ret]
        advancesI [OF follows_early(1)] remove)
qed

lemma releaseBindingProtect_follows [intro!]: "follows e abs (releaseBindingProtect e x)"
  unfolding releaseBindingProtect_def follows_advances Let_def
  by (auto intro!: advances_if advances_quiet relT.get_advances relT.add_advances advancesI [OF follows_ret]
      advancesI [OF follows_early(1)] advancesI [OF follows_early(2)])

lemma releaseBindingReconcile_follows: "follows e abs (releaseBindingReconcile e req)"
  unfolding releaseBindingReconcile_def
  by (rule relbT.withObject_advances) (auto intro!: advances_finish advances_if releaseBindingDelete_advances
      advancesI [OF follows_andThen])

end

end
