(* ===== verification/ProfileController.thy ===== *)
theory ProfileController
  imports ReleaseBindingController Grants
begin

text \<open>
  \<open>pkg/controller/profile_controller.go\<close>: a Profile binds its Release to every Target that its
  label selector matches, in its own namespace and in the namespaces that grant it access,
  by creating and deleting ReleaseBindings that it owns; it protects its Release, and when
  it is deleted it removes its bindings before it gives the protection up.
\<close>

section \<open>Deletion\<close>

fun profileBindingLoop ::
  "'s kube \<Rightarrow> profile \<Rightarrow> release_binding list \<Rightarrow> ('s, (go_error + unit) + unit) state" where
  "profileBindingLoop e deletingProfile [] = ret (Inr ())"
| "profileBindingLoop e deletingProfile (rb # rbs) =
     (if k_isControlledBy e (metadata rb) (metadata deletingProfile) \<or> deleting rb
      then profileBindingLoop e deletingProfile rbs
      else case profileOwner e rb of
        None \<Rightarrow> ret (Inl (Inr ()))
      | Some ownerRef \<Rightarrow> do {
          r \<leftarrow> res_get (k_profiles e) (ownerProfileKey rb ownerRef);
          (case r of
             Inl err \<Rightarrow>
               if isNotFound err then profileBindingLoop e deletingProfile rbs
               else ret (Inl (wrapErr (k_testMode e) (Api err) ''failed to check owner Profile for concurrent deletion'' ()))
           | Inr ownerProfile \<Rightarrow>
               if deleting ownerProfile then profileBindingLoop e deletingProfile rbs else ret (Inl (Inr ())))
        })"

definition removeReleaseRefFinalizerIfUnreferenced ::
  "'s kube \<Rightarrow> profile \<Rightarrow> release \<Rightarrow> ('s, go_error + unit) state" where
  "removeReleaseRefFinalizerIfUnreferenced e deletingProfile rel =
     (if \<not> hasFinalizer releaseRefFinalizer rel then ret (Inr ())
      else do {
        r \<leftarrow> res_list (k_profiles e)
               (inNamespaceMatching (om_namespace (metadata rel)) indexProfileByReleaseName (om_name (metadata rel)));
        (case r of
           Inl err \<Rightarrow> ret (wrapErr (k_testMode e) (Api err) ''failed to list Profiles for Release finalizer check'' ())
         | Inr profiles \<Rightarrow>
             if list_ex (\<lambda>p. om_name (metadata p) \<noteq> om_name (metadata deletingProfile) \<and> \<not> deleting p) profiles
             then ret (Inr ())
             else do {
               b \<leftarrow> res_list (k_releasebindings e)
                      (inNamespaceMatching (om_namespace (metadata rel)) indexReleaseBindingReleaseName
                         (om_name (metadata rel)));
               (case b of
                  Inl err \<Rightarrow> ret (wrapErr (k_testMode e) (Api err)
                    ''failed to list ReleaseBindings for Release finalizer check'' ())
                | Inr bindings \<Rightarrow> do {
                    l \<leftarrow> profileBindingLoop e deletingProfile bindings;
                    (case l of
                       Inl result \<Rightarrow> ret result
                     | Inr _ \<Rightarrow> dropProtection e (k_releases e) True releaseRefFinalizer ''Release'' (objectKey rel))
                  })
             })
      })"

definition ownedBindings :: "'s kube \<Rightarrow> profile \<Rightarrow> release_binding list \<Rightarrow> release_binding list" where
  "ownedBindings e p bs = filter (\<lambda>rb. k_isControlledBy e (metadata rb) (metadata p)) bs"

text \<open>\<open>if err := r.Delete(ctx, rb); err != nil \<and> \<not> IsNotFound(err)\<close> returns the wrapped error.\<close>

definition deleteBinding :: "'s kube \<Rightarrow> string \<Rightarrow> release_binding \<Rightarrow> ('s, outcome + unit) state" where
  "deleteBinding e text rb = do {
     d \<leftarrow> res_delete (k_releasebindings e) rb;
     (case d of
        Inl err \<Rightarrow> if isNotFound err then ret (Inr ()) else failR e err text
      | Inr _ \<Rightarrow> ret (Inr ()))
   }"

definition profileUnprotect :: "'s kube \<Rightarrow> namespaced_name \<Rightarrow> profile \<Rightarrow> ('s, outcome + unit) state" where
  "profileUnprotect e req p =
     andThen
       (if prf_releaseRef (spec p) \<noteq> '''' then do {
          r \<leftarrow> res_get (k_releases e)
                 \<lparr>nn_namespace = om_namespace (metadata p), nn_name = prf_releaseRef (spec p)\<rparr>;
          (case r of
             Inl err \<Rightarrow> if isNotFound err then ret (Inr ())
                        else failR e err ''failed to get Release for finalizer cleanup''
           | Inr rel \<Rightarrow> orReturn (removeReleaseRefFinalizerIfUnreferenced e p rel))
        } else ret (Inr ()))
       (\<lambda>_. removeSelfFinalizer e (k_profiles e) profileFinalizer ''Profile'' req p)"

definition profileDelete :: "'s kube \<Rightarrow> namespaced_name \<Rightarrow> profile \<Rightarrow> ('s, outcome + unit) state" where
  "profileDelete e req p = do {
     l \<leftarrow> res_list (k_releasebindings e) (inNamespace (om_namespace (metadata p)));
     (case l of
        Inl err \<Rightarrow> failR e err ''failed to list owned ReleaseBindings for deletion''
      | Inr allBindings \<Rightarrow>
          let owned = ownedBindings e p allBindings in
          andThen
            (forEach (\<lambda>rb. if deleting rb then ret (Inr ())
               else deleteBinding e ''failed to delete owned ReleaseBinding during Profile deletion'' rb) owned)
            (\<lambda>_. if owned \<noteq> [] then returnR 0 else profileUnprotect e req p))
   }"

section \<open>Matching targets\<close>

fun crossNamespaceTargets ::
  "'s kube \<Rightarrow> profile \<Rightarrow> (labels \<Rightarrow> bool) \<Rightarrow> reference_grant list \<Rightarrow> ('s, outcome + target list) state" where
  "crossNamespaceTargets e p selector [] = ret (Inr [])"
| "crossNamespaceTargets e p selector (grant # grants) =
     (if om_namespace (metadata grant) = om_namespace (metadata p) \<or>
         \<not> grantPermitsTargetAccess grant (om_namespace (metadata p))
      then crossNamespaceTargets e p selector grants
      else do {
        r \<leftarrow> res_list (k_targets e) (inNamespaceLabels (om_namespace (metadata grant)) selector);
        (case r of
           Inl err \<Rightarrow> failR e err (''failed to list cross-namespace Targets in '' @ om_namespace (metadata grant))
         | Inr ts \<Rightarrow> andThen (crossNamespaceTargets e p selector grants) (\<lambda>rest. ret (Inr (ts @ rest))))
      })"

text \<open>\<open>desiredTargets[targetKey(&t)] = t\<close> for each target.\<close>

definition desiredTargets :: "target list \<Rightarrow> target gomap" where
  "desiredTargets ts = fold (\<lambda>t m. gomap_put (targetKey t) t m) ts []"

text \<open>The loop over the existing bindings: the map of keys, and the deletion of the bindings of
  targets that no longer match.\<close>

fun pruneBindings ::
  "'s kube \<Rightarrow> target gomap \<Rightarrow> release_binding gomap \<Rightarrow> release_binding list \<Rightarrow>
   ('s, outcome + release_binding gomap) state" where
  "pruneBindings e desired existingByKey [] = ret (Inr existingByKey)"
| "pruneBindings e desired existingByKey (rb # rbs) =
     (let key = bindingTargetKey rb; existing = gomap_put key rb existingByKey in
      if map_of desired key = None
      then andThen (deleteBinding e ''failed to delete ReleaseBinding'' rb)
             (\<lambda>_. do {
                k_eventf e ''Normal'' ''Deleted'' (''Deleted ReleaseBinding for target '' @ key);
                pruneBindings e desired existing rbs
              })
      else pruneBindings e desired existing rbs)"

definition newReleaseBinding :: "profile \<Rightarrow> target \<Rightarrow> release_binding" where
  "newReleaseBinding p t =
     \<lparr>metadata = (newMeta '''' (om_namespace (metadata p)))
        \<lparr>om_generateName := truncateName (om_name (metadata p) @ ''-'' @ om_name (metadata t)) 57 @ ''-''\<rparr>,
      spec = \<lparr>rlb_targetRef = om_name (metadata t),
              rlb_targetNamespace =
                (if om_namespace (metadata t) \<noteq> om_namespace (metadata p) then om_namespace (metadata t) else ''''),
              rlb_releaseRef = prf_releaseRef (spec p)\<rparr>,
      status = []\<rparr>"

text \<open>\<open>ctrl.SetControllerReference\<close> may fail; its error is wrapped like an API error.\<close>

definition createBinding ::
  "'s kube \<Rightarrow> profile \<Rightarrow> release_binding gomap \<Rightarrow> string \<times> target \<Rightarrow> ('s, outcome + unit) state" where
  "createBinding e p existingByKey kt =
     (case kt of (key, t) \<Rightarrow>
        if map_of existingByKey key \<noteq> None then ret (Inr ())
        else
          let rb = newReleaseBinding p t in
          (case k_setControllerReference e (metadata p) (metadata rb) of
             Inl err \<Rightarrow> ret (Inl (wrapErr (k_testMode e) err ''failed to set controller reference on ReleaseBinding'' 0))
           | Inr meta \<Rightarrow> do {
               c \<leftarrow> res_create (k_releasebindings e) (rb\<lparr>metadata := meta\<rparr>);
               (case c of
                  Inl err \<Rightarrow> if isAlreadyExists err then ret (Inr ()) else failR e err ''failed to create ReleaseBinding''
                | Inr _ \<Rightarrow> do {
                    k_eventf e ''Normal'' ''Created'' (''Created ReleaseBinding for target '' @ key);
                    ret (Inr ())
                  })
             }))"

definition profileTargets ::
  "'s kube \<Rightarrow> profile \<Rightarrow> (labels \<Rightarrow> bool) \<Rightarrow> ('s, outcome + target gomap) state" where
  "profileTargets e p selector = do {
     s \<leftarrow> res_list (k_targets e) (inNamespaceLabels (om_namespace (metadata p)) selector);
     (case s of
        Inl err \<Rightarrow> failR e err ''failed to list Targets''
      | Inr sameNs \<Rightarrow> do {
          g \<leftarrow> res_list (k_referencegrants e) anyNamespace;
          (case g of
             Inl err \<Rightarrow> failR e err ''failed to list ReferenceGrants''
           | Inr grants \<Rightarrow>
               andThen (crossNamespaceTargets e p selector grants)
                 (\<lambda>crossNs. ret (Inr (desiredTargets (sameNs @ crossNs)))))
        })
   }"

definition profileBind :: "'s kube \<Rightarrow> profile \<Rightarrow> target gomap \<Rightarrow> ('s, outcome + unit) state" where
  "profileBind e p desired = do {
     l \<leftarrow> res_list (k_releasebindings e) (inNamespace (om_namespace (metadata p)));
     (case l of
        Inl err \<Rightarrow> failR e err ''failed to list ReleaseBindings''
      | Inr allBindings \<Rightarrow>
          andThen (pruneBindings e desired [] (ownedBindings e p allBindings)) (\<lambda>existingByKey.
          andThen (forEach (createBinding e p existingByKey) desired) (\<lambda>_.
            if int (length desired) \<noteq> prf_matchedTargets (status p) then do {
              u \<leftarrow> res_statusUpdate (k_profiles e)
                     (p\<lparr>status := (status p)\<lparr>prf_matchedTargets := int (length desired)\<rparr>\<rparr>);
              (case u of Inl err \<Rightarrow> failR e err ''failed to update Profile status'' | Inr _ \<Rightarrow> ret (Inr ()))
            } else ret (Inr ()))))
   }"

definition profileProtect :: "'s kube \<Rightarrow> profile \<Rightarrow> ('s, outcome + unit) state" where
  "profileProtect e p =
     (if prf_releaseRef (spec p) \<noteq> '''' then do {
        r \<leftarrow> res_get (k_releases e)
               \<lparr>nn_namespace = om_namespace (metadata p), nn_name = prf_releaseRef (spec p)\<rparr>;
        (case r of
           Inl err \<Rightarrow> if isNotFound err then ret (Inr ())
                      else failR e err ''failed to get Release for protection finalizer''
         | Inr rel \<Rightarrow> addProtection e (k_releases e) True releaseRefFinalizer ''Release'' rel)
      } else ret (Inr ()))"

definition profileReconcile :: "'s kube \<Rightarrow> namespaced_name \<Rightarrow> ('s, outcome) state" where
  "profileReconcile e req =
     withObject e (k_profiles e) req ''failed to get Profile'' (\<lambda>p. finish (
       if deleting p then profileDelete e req p
       else
         andThen (ensureSelfFinalizer e (k_profiles e) profileFinalizer ''Profile'' req p) (\<lambda>_.
         andThen (profileProtect e p) (\<lambda>_.
           case k_asSelector e (prf_targetSelector (spec p)) of
             Inl err \<Rightarrow> returnR 0
           | Inr selector \<Rightarrow> andThen (profileTargets e p selector) (profileBind e p)))))"

section \<open>Watches\<close>

definition matchingProfiles :: "'s kube \<Rightarrow> target \<Rightarrow> profile list \<Rightarrow> namespaced_name list" where
  "matchingProfiles e t ps =
     map objectKey (filter (\<lambda>p. case k_asSelector e (prf_targetSelector (spec p)) of
       Inl err \<Rightarrow> False | Inr selector \<Rightarrow> selector (om_labels (metadata t))) ps)"

fun profilesOfGrantFrom ::
  "'s kube \<Rightarrow> target \<Rightarrow> reference_grant_from list \<Rightarrow> ('s, namespaced_name list) state" where
  "profilesOfGrantFrom e t [] = ret []"
| "profilesOfGrantFrom e t (from' # froms) =
     (if from_namespace from' = om_namespace (metadata t) \<or> from_kind from' \<noteq> ''Profile''
      then profilesOfGrantFrom e t froms
      else do {
        r \<leftarrow> res_list (k_profiles e) (inNamespace (from_namespace from'));
        rest \<leftarrow> profilesOfGrantFrom e t froms;
        ret ((case r of Inl err \<Rightarrow> [] | Inr ps \<Rightarrow> matchingProfiles e t ps) @ rest)
      })"

fun profilesOfGrants :: "'s kube \<Rightarrow> target \<Rightarrow> reference_grant list \<Rightarrow> ('s, namespaced_name list) state" where
  "profilesOfGrants e t [] = ret []"
| "profilesOfGrants e t (grant # grants) =
     (if \<not> grantsTargetResource grant then profilesOfGrants e t grants
      else do {
        a \<leftarrow> profilesOfGrantFrom e t (rg_from (spec grant));
        b \<leftarrow> profilesOfGrants e t grants;
        ret (a @ b)
      })"

definition mapTargetToProfiles :: "'s kube \<Rightarrow> target \<Rightarrow> ('s, namespaced_name list) state" where
  "mapTargetToProfiles e t = do {
     r \<leftarrow> res_list (k_profiles e) (inNamespace (om_namespace (metadata t)));
     (case r of
        Inl err \<Rightarrow> ret []
      | Inr ps \<Rightarrow> do {
          g \<leftarrow> res_list (k_referencegrants e) (inNamespace (om_namespace (metadata t)));
          (case g of
             Inl err \<Rightarrow> ret (matchingProfiles e t ps)
           | Inr grants \<Rightarrow> do {
               rest \<leftarrow> profilesOfGrants e t grants;
               ret (matchingProfiles e t ps @ rest)
             })
        })
   }"

fun profilesOfFroms :: "'s kube \<Rightarrow> reference_grant_from list \<Rightarrow> ('s, namespaced_name list) state" where
  "profilesOfFroms e [] = ret []"
| "profilesOfFroms e (from' # froms) =
     (if from_kind from' \<noteq> ''Profile'' \<or> from_group from' \<noteq> solarGroup then profilesOfFroms e froms
      else do {
        r \<leftarrow> res_list (k_profiles e) (inNamespace (from_namespace from'));
        rest \<leftarrow> profilesOfFroms e froms;
        ret ((case r of Inl err \<Rightarrow> [] | Inr ps \<Rightarrow> map objectKey ps) @ rest)
      })"

definition mapReferenceGrantToProfiles :: "'s kube \<Rightarrow> reference_grant \<Rightarrow> ('s, namespaced_name list) state" where
  "mapReferenceGrantToProfiles e grant =
     (if \<not> grantsTargetResource grant then ret [] else profilesOfFroms e (rg_from (spec grant)))"

section \<open>The controller follows the protocol\<close>

text \<open>The Release of the Profile is gone or protected: what lets the controller create bindings.\<close>

definition releaseGuarded :: "profile \<Rightarrow> (namespaced_name \<Rightarrow> release option) \<Rightarrow> bool" where
  "releaseGuarded p m \<longleftrightarrow> prf_releaseRef (spec p) = '''' \<or>
     (\<forall>b. m \<lparr>nn_namespace = om_namespace (metadata p), nn_name = prf_releaseRef (spec p)\<rparr> = Some b \<longrightarrow>
        hasFinalizer releaseRefFinalizer b)"

context kube_laws begin

lemma profileBindingLoop_wp:
  "wp (profileBindingLoop e d rbs) (\<lambda>r s'. abs s' = abs s \<and>
    (r = Inr () \<longrightarrow> (\<forall>rb \<in> set rbs. k_isControlledBy e (metadata rb) (metadata d) \<or> deleting rb \<or>
       orphaned (k_getControllerOf e) (abs s) rb))) s"
proof (induction rbs arbitrary: s)
  case (Cons rb rbs)
  have IH: "wp (profileBindingLoop e d rbs) Q s1"
    if "abs s1 = abs s" "\<And>r s'. abs s' = abs s \<Longrightarrow> (r = Inr () \<Longrightarrow> \<forall>rb \<in> set rbs.
        k_isControlledBy e (metadata rb) (metadata d) \<or> deleting rb \<or> orphaned (k_getControllerOf e) (abs s) rb) \<Longrightarrow> Q r s'"
    for s1 Q
    by (rule wp_mono [OF Cons.IH [of s1]]) (use that in auto)
  show ?case
    by (auto split: option.split intro!: IH pro.get_wp wp_if profileOwner_orphaned)
qed simp

lemma removeReleaseRefFinalizerIfUnreferenced_advances:
  assumes d: "cl_profiles (abs s) (objectKey d) = Some d" "deleting d" "om_namespace (metadata d) = om_namespace (metadata r)"
    and owned: "\<And>rb. cl_releasebindings (abs s) (objectKey rb) = Some rb \<Longrightarrow>
      om_namespace (metadata rb) = om_namespace (metadata d) \<Longrightarrow> \<not> k_isControlledBy e (metadata rb) (metadata d)"
  shows "advances e abs (removeReleaseRefFinalizerIfUnreferenced e d r) s"
proof -
  have self: "deleting p" if "cl_profiles (abs s) (objectKey p) = Some p"
    "om_namespace (metadata p) = om_namespace (metadata r)" "om_name (metadata p) = om_name (metadata d)" for p
  proof -
    have "objectKey p = objectKey d" using that d by (simp add: objectKey_def)
    from that(1) [unfolded this] show ?thesis using d by simp
  qed
  have loop: "advances e abs (bindM (profileBindingLoop e d bs) g) s1"
    if s1: "abs s1 = abs s" and bs: "set bs = {x. cl_releasebindings (abs s) (objectKey x) = Some x \<and>
      om_namespace (metadata x) = om_namespace (metadata r) \<and>
      om_name (metadata r) \<in> set (index_release_binding indexReleaseBindingReleaseName x)}"
    and g: "\<And>x s2. abs s2 = abs s \<Longrightarrow> advances e abs (g (Inl x)) s2"
      "\<And>s2. abs s2 = abs s \<Longrightarrow> unbound (k_getControllerOf e) (abs s) (objectKey r) \<Longrightarrow> advances e abs (g (Inr ())) s2"
    for bs s1 and g :: "((go_error + unit) + unit) \<Rightarrow> (_, go_error + unit) state"
  proof (rule advances_read, rule wp_mono [OF profileBindingLoop_wp])
    fix x :: "(go_error + unit) + unit" and s2
    assume x: "abs s2 = abs s1 \<and> (x = Inr () \<longrightarrow> (\<forall>rb \<in> set bs. k_isControlledBy e (metadata rb) (metadata d) \<or>
      deleting rb \<or> orphaned (k_getControllerOf e) (abs s1) rb))"
    show "abs s2 = abs s1 \<and> advances e abs (g x) s2"
    proof (cases x)
      case (Inr u)
      have "deleting rb \<or> orphaned (k_getControllerOf e) (abs s) rb"
        if "cl_releasebindings (abs s) k = Some rb" "releaseBindingRef rb = Some (objectKey r)" for k rb
        using binding_listed [OF bs that] x Inr owned d(3) s1 by auto
      then have "unbound (k_getControllerOf e) (abs s) (objectKey r)" unfolding unbound_def by blast
      then show ?thesis using g(2) x Inr s1 by auto
    qed (use g x s1 in auto)
  qed
  have none: "unreferenced (cl_profiles (abs s)) profileRef (objectKey r)"
    if "set xs = {x. cl_profiles (abs s) (objectKey x) = Some x \<and>
      om_namespace (metadata x) = om_namespace (metadata r) \<and>
      om_name (metadata r) \<in> set (index_profile indexProfileByReleaseName x)}"
      "\<not> list_ex (\<lambda>p. om_name (metadata p) \<noteq> om_name (metadata d) \<and> \<not> deleting p) xs" for xs
    using that by (rule profile_unreferenced) (use self in blast)
  show ?thesis
    unfolding removeReleaseRefFinalizerIfUnreferenced_def
    by (auto intro!: proT.list_advances relbT.list_advances advances_rules loop drop_release elim!: none)
qed

lemma deleteBinding_follows [intro!]: "follows e abs (deleteBinding e text rb)"
  unfolding deleteBinding_def by auto

lemma profileUnprotect_advances:
  assumes "cl_profiles (abs s) (objectKey x) = Some x" "deleting x" and "ownedBindings e x bs = []"
    and "set bs = {b. cl_releasebindings (abs s) (objectKey b) = Some b \<and> om_namespace (metadata b) = om_namespace (metadata x)}"
  shows "advances e abs (profileUnprotect e req x) s"
proof -
  have remove: "advances e abs (removeReleaseRefFinalizerIfUnreferenced e x r) s2"
    if "abs s2 = abs s" "objectKey r = \<lparr>nn_namespace = om_namespace (metadata x), nn_name = n\<rparr>" for s2 r n
    by (rule removeReleaseRefFinalizerIfUnreferenced_advances)
       (use assms that in \<open>auto simp: objectKey_iff ownedBindings_def filter_empty_conv\<close>)
  show ?thesis
    unfolding profileUnprotect_def
  proof (rule advances_andThen)
    show "follows e abs (removeSelfFinalizer e (k_profiles e) profileFinalizer ''Profile'' req x)"
      by (rule proT.removeSelf_follows) simp
  qed (auto intro!: advances_if advances_orReturn relT.get_advances advancesI [OF follows_ret]
        advancesI [OF follows_early(1)] remove)
qed

lemma profileDelete_advances:
  assumes x: "cl_profiles (abs s) (objectKey x) = Some x" "deleting x"
  shows "advances e abs (profileDelete e req x) s"
proof -
  have loop: "follows e abs (forEach (\<lambda>rb. if deleting rb then ret (Inr ()) else deleteBinding e msg rb) bs)" for bs msg
    by auto
  show ?thesis
    unfolding profileDelete_def Let_def
  proof (rule relbT.list_advances)
    fix bs s' assume s': "abs s' = abs s"
      and bs: "set bs = {b. cl_releasebindings (abs s) (objectKey b) = Some b \<and>
        selected index_release_binding (inNamespace (om_namespace (metadata x))) b}"
    show "advances e abs (case Inr bs of Inl err \<Rightarrow> failR e err ''failed to list owned ReleaseBindings for deletion''
      | Inr allBindings \<Rightarrow> andThen (forEach (\<lambda>rb. if deleting rb then ret (Inr ())
               else deleteBinding e ''failed to delete owned ReleaseBinding during Profile deletion'' rb)
               (ownedBindings e x allBindings))
            (\<lambda>_. if ownedBindings e x allBindings \<noteq> [] then returnR 0 else profileUnprotect e req x)) s'"
    proof (cases "ownedBindings e x bs = []")
      case True
      then show ?thesis using profileUnprotect_advances [of s' x bs] x s' bs by simp
    qed (auto intro!: advancesI [OF follows_andThen [OF loop]])
  qed (simp add: advancesI)
qed

lemma crossNamespaceTargets_quiet [simp, intro!]: "quiet abs (crossNamespaceTargets e p selector grants)"
  by (induction grants) auto

lemma profileTargets_quiet [simp, intro!]: "quiet abs (profileTargets e p selector)"
  unfolding profileTargets_def by auto

lemma pruneBindings_follows [intro!]: "follows e abs (pruneBindings e desired existing rbs)"
  by (induction rbs arbitrary: existing) (auto simp: Let_def)

lemma deleteBinding_releases: "quiet (\<lambda>s. cl_releases (abs s)) (deleteBinding e text rb)"
  unfolding deleteBinding_def by (auto intro!: relb.delete_wp simp: quiet_def)

lemma releases_quiet: "quiet abs m \<Longrightarrow> quiet (\<lambda>s. cl_releases (abs s)) m"
  by (rule quiet_view)

lemma pruneBindings_releases: "quiet (\<lambda>s. cl_releases (abs s)) (pruneBindings e desired existing rbs)"
  by (induction rbs arbitrary: existing)
    (auto simp: Let_def intro!: deleteBinding_releases releases_quiet [OF quiet_event])

lemma createBinding_releases: "quiet (\<lambda>s. cl_releases (abs s)) (createBinding e p existing kt)"
  unfolding createBinding_def Let_def
  by (auto intro!: releases_quiet [OF quiet_event] quiet_bind split: sum.splits prod.splits)
     (auto simp: quiet_def intro!: relb.create_wp)

lemma createBinding_advances:
  assumes "releaseGuarded p (cl_releases (abs s))"
  shows "advances e abs (createBinding e p existing kt) s"
proof -
  have "advances e abs (res_create (k_releasebindings e) ((newReleaseBinding p t)\<lparr>metadata := meta\<rparr>)) s"
    if m: "k_setControllerReference e (metadata p) (metadata (newReleaseBinding p t)) = Inr meta" for t meta
  proof (rule create_binding_advances)
    obtain os where "meta = (metadata (newReleaseBinding p t))\<lparr>om_ownerReferences := os\<rparr>"
      using setControllerRef [OF m] by blast
    then have "om_namespace meta = om_namespace (metadata p)"
      by (simp add: newReleaseBinding_def newMeta_def)
    then show "hasFinalizer releaseRefFinalizer b"
      if "releaseBindingRef ((newReleaseBinding p t)\<lparr>metadata := meta\<rparr>) = Some k" "cl_releases (abs s) k = Some b" for k b
      using that assms by (auto simp: releaseBindingRef_def newReleaseBinding_def releaseGuarded_def split: if_splits)
  qed
  then show ?thesis
    unfolding createBinding_def Let_def
    by (auto intro!: advances_rules advances_bind split: sum.splits prod.splits)
qed

lemma profileBind_advances:
  assumes "releaseGuarded p (cl_releases (abs s))"
  shows "advances e abs (profileBind e p desired) s"
proof -
  have create: "advances e abs (andThen (forEach (createBinding e p ex) desired) k) s2"
    if "cl_releases (abs s2) = cl_releases (abs s)" "\<And>x. follows e abs (k x)" for ex s2 and k :: "unit \<Rightarrow> (_, outcome + unit) state"
    using that assms
    by (auto intro!: advances_andThen advances_forEach [where f = cl_releases] createBinding_advances createBinding_releases)
  show ?thesis
    unfolding profileBind_def
    by (auto intro!: relbT.list_advances advancesI [OF follows_early(1)]
        advances_framed_andThen [where f = cl_releases] pruneBindings_releases create)
qed

lemma profileProtect_wp:
  "wp (profileProtect e p) (\<lambda>r s'. (evolve (k_getControllerOf e))\<^sup>*\<^sup>* (abs s) (abs s') \<and>
     (r = Inr () \<longrightarrow> releaseGuarded p (cl_releases (abs s')))) s"
  unfolding profileProtect_def
  by (auto intro!: rel.get_wp rel.addProtection_wp evolve_once [OF ev_releases] tame_append simp: releaseGuarded_def)

lemma profileReconcile_follows: "follows e abs (profileReconcile e req)"
proof -
  have bind: "advances e abs (case k_asSelector e sel of Inl err \<Rightarrow> returnR 0
      | Inr selector \<Rightarrow> andThen (profileTargets e p selector) (profileBind e p)) s"
    if "releaseGuarded p (cl_releases (abs s))" for p sel s
    using that by (auto intro!: advances_rules advances_quiet profileBind_advances split: sum.splits)
  have "follows e abs (andThen (profileProtect e p) (\<lambda>_. case k_asSelector e sel of Inl err \<Rightarrow> returnR 0
      | Inr selector \<Rightarrow> andThen (profileTargets e p selector) (profileBind e p)))" for p sel
    unfolding follows_advances
    by (intro allI advances_step_andThen wp_mono [OF profileProtect_wp]) (simp add: bind)
  then show ?thesis
    unfolding profileReconcile_def
    by (intro proT.withObject_advances advances_finish advances_if profileDelete_advances
        advancesI [OF follows_andThen]) auto
qed

end

end
