(* ===== verification/RenderTaskController.thy ===== *)
theory RenderTaskController
  imports Protocol
begin

text \<open>
  \<open>pkg/controller/rendertask_controller.go\<close>: a RenderTask gets a config Secret and a renderer
  Job, its status follows the Job, and Secret and Job are cleaned up when the Job succeeded, or
  the Secret alone when a failed Job's TTL has passed. \<open>Status().Update\<close> overwrites the local
  object with the stored one. In test mode a swallowed error makes \<open>createConfigSecret\<close> return
  a nil Secret; the later use of it is a nil dereference, modelled as the error that the
  controller runtime reports for a recovered panic.
\<close>

definition annotationJobName :: string where "annotationJobName = ''solar.opendefense.cloud/job-name''"
definition annotationSecretName :: string where "annotationSecretName = ''solar.opendefense.cloud/secret-name''"
definition ConditionTypeJobScheduled :: string where "ConditionTypeJobScheduled = ''JobScheduled''"
definition ConditionTypeJobSucceeded :: string where "ConditionTypeJobSucceeded = ''JobSucceeded''"
definition ConditionTypeJobFailed :: string where "ConditionTypeJobFailed = ''JobFailed''"

lemmas render_condition_defs = ConditionTypeJobScheduled_def ConditionTypeJobSucceeded_def ConditionTypeJobFailed_def

text \<open>The settings of \<open>RenderTaskReconciler\<close>.\<close>

record renderer_settings =
  rs_image :: string
  rs_command :: string
  rs_args :: "string list"
  rs_caConfigMap :: string
  rs_imagePullSecrets :: "string list"

section \<open>Names and times\<close>

definition taskNamespace :: "render_task \<Rightarrow> string" where
  "taskNamespace res = om_namespace (metadata res)"

definition configSecretKey :: "render_task \<Rightarrow> string \<Rightarrow> namespaced_name" where
  "configSecretKey res jobNS =
     \<lparr>nn_namespace = jobNS, nn_name = truncateName (''render-'' @ om_name (metadata res)) maxK8sLabelValueLen\<rparr>"

definition renderJobKey :: "render_task \<Rightarrow> string \<Rightarrow> namespaced_name" where
  "renderJobKey res jobNS =
     \<lparr>nn_namespace = jobNS, nn_name = truncateName (''render-'' @ om_name (metadata res)) maxK8sLabelValueLen\<rparr>"

definition reference :: "string \<Rightarrow> string \<Rightarrow> string \<Rightarrow> string" where
  "reference baseURL repo tag =
     (let base = (if hasPrefix baseURL ''oci://'' then baseURL else ''oci://'' @ baseURL);
          base' = trimSuffix base ''/''
      in base' @ ''/'' @ repo @ '':'' @ tag)"

definition ttlSeconds :: "int option \<Rightarrow> int" where
  "ttlSeconds ttl = (case ttl of None \<Rightarrow> 3600 | Some t \<Rightarrow> t)"

text \<open>\<open>time.Since(t)\<close>; a zero time is centuries ago.\<close>

definition timeSince :: "int \<Rightarrow> int option \<Rightarrow> int" where
  "timeSince now t = (case t of None \<Rightarrow> 2 ^ 63 - 1 | Some t' \<Rightarrow> timeSub now t')"

definition shouldCleanupSecrets :: "'s kube \<Rightarrow> int \<Rightarrow> render_task \<Rightarrow> int \<Rightarrow> bool" where
  "shouldCleanupSecrets e now res ttl =
     (case k_findStatusCondition e (rt_conditions (status res)) ConditionTypeJobFailed of
        None \<Rightarrow> False
      | Some cond \<Rightarrow> timeSince now (cond_lastTransitionTime cond) \<ge> ttl)"

definition remainingTTL :: "'s kube \<Rightarrow> int \<Rightarrow> render_task \<Rightarrow> int \<Rightarrow> int" where
  "remainingTTL e now res ttl =
     (case k_findStatusCondition e (rt_conditions (status res)) ConditionTypeJobFailed of
        None \<Rightarrow> ttl
      | Some cond \<Rightarrow>
          (let remaining = int64_wrap (ttl - timeSince now (cond_lastTransitionTime cond))
           in if remaining < 0 then 0 else remaining))"

section \<open>Status\<close>

definition jobCondition :: "render_task \<Rightarrow> string \<Rightarrow> condition_status \<Rightarrow> string \<Rightarrow> string \<Rightarrow> condition" where
  "jobCondition res ty st reason msg =
     \<lparr>cond_type = ty, cond_status = st, cond_observedGeneration = om_generation (metadata res),
      cond_lastTransitionTime = None, cond_reason = reason, cond_message = msg\<rparr>"

definition setTaskConditions :: "render_task \<Rightarrow> condition list \<Rightarrow> render_task" where
  "setTaskConditions res conds = res\<lparr>status := (status res)\<lparr>rt_conditions := conds\<rparr>\<rparr>"

definition updateResourceStatusFromJob ::
  "'s kube \<Rightarrow> render_task \<Rightarrow> job option \<Rightarrow> ('s, render_task \<times> bool) state" where
  "updateResourceStatusFromJob e res job =
     (case job of
        None \<Rightarrow> do {
          t \<leftarrow> k_now e;
          (case k_setStatusCondition e t (rt_conditions (status res))
             (jobCondition res ConditionTypeJobScheduled ConditionFalse ''DoesNotExist'' ''Renderer job does not exist'')
           of (conds, changed) \<Rightarrow> ret (setTaskConditions res conds, changed))
        }
      | Some j \<Rightarrow>
          if js_succeeded (status j) > 0 then do {
            t \<leftarrow> k_now e;
            (case k_setStatusCondition e t (rt_conditions (status res))
               (jobCondition res ConditionTypeJobSucceeded ConditionTrue ''JobSucceeded''
                 (''Renderer job completed successfully at '' @ js_completionTime (status j)))
             of (conds, changed) \<Rightarrow>
               let res1 = setTaskConditions res conds;
                   chartURL = reference (rt_baseURL (spec res)) (rt_repository (spec res)) (rt_tag (spec res));
                   urlChanged = rt_chartURL (status res1) \<noteq> chartURL;
                   res2 = (if urlChanged then res1\<lparr>status := (status res1)\<lparr>rt_chartURL := chartURL\<rparr>\<rparr> else res1)
               in do {
                 k_eventf e ''Normal'' ''JobSucceeded'' ''Renderer job completed successfully'';
                 ret (res2, changed \<or> urlChanged)
               })
          }
          else if js_failed (status j) > 0 then do {
            t \<leftarrow> k_now e;
            (case k_setStatusCondition e t (rt_conditions (status res))
               (jobCondition res ConditionTypeJobFailed ConditionTrue ''JobFailed'' ''Renderer job failed'')
             of (conds, changed) \<Rightarrow> do {
               k_eventf e ''Warning'' ''JobFailed'' ''Renderer job failed'';
               ret (setTaskConditions res conds, changed)
             })
          }
          else do {
            t \<leftarrow> k_now e;
            (case k_setStatusCondition e t (rt_conditions (status res))
               (jobCondition res ConditionTypeJobScheduled ConditionTrue ''JobScheduled''
                 (''Renderer job is running (active: '' @ itoa (js_active (status j)) @ '', succeeded: ''
                  @ itoa (js_succeeded (status j)) @ '', failed: '' @ itoa (js_failed (status j)) @ '')''))
             of (conds, changed) \<Rightarrow> ret (setTaskConditions res conds, changed))
          })"

section \<open>The renderer job\<close>

definition baseVolumes :: "renderer_settings \<Rightarrow> secret \<Rightarrow> volume list" where
  "baseVolumes cfg configSecret =
     [\<lparr>vol_name = ''config'',
       vol_source = SecretVolume (om_name (metadata configSecret)) [(''config.json'', ''config.json'')]\<rparr>]
     @ (if rs_caConfigMap cfg \<noteq> ''''
        then [\<lparr>vol_name = ''ca-bundle'',
               vol_source = ConfigMapVolume (rs_caConfigMap cfg) [(''trust-bundle.pem'', ''ca-bundle.pem'')]\<rparr>]
        else [])"

definition baseVolumeMounts :: "renderer_settings \<Rightarrow> volume_mount list" where
  "baseVolumeMounts cfg =
     [\<lparr>vm_name = ''config'', vm_mountPath = ''/etc/renderer/config.json'', vm_subPath = ''config.json'', vm_readOnly = True\<rparr>]
     @ (if rs_caConfigMap cfg \<noteq> ''''
        then [\<lparr>vm_name = ''ca-bundle'', vm_mountPath = ''/etc/ssl/certs'', vm_subPath = '''', vm_readOnly = True\<rparr>]
        else [])"

definition baseEnv :: "renderer_settings \<Rightarrow> env_var list" where
  "baseEnv cfg =
     [\<lparr>env_name = ''POD_NAMESPACE'', env_value = EnvField ''metadata.namespace''\<rparr>,
      \<lparr>env_name = ''POD_NAME'', env_value = EnvField ''metadata.name''\<rparr>]
     @ (if rs_caConfigMap cfg \<noteq> ''''
        then [\<lparr>env_name = ''SSL_CERT_FILE'', env_value = EnvValue ''/etc/ssl/certs/ca-bundle.pem''\<rparr>] else [])"

definition rendererArgs :: "renderer_settings \<Rightarrow> render_task \<Rightarrow> string list" where
  "rendererArgs cfg res =
     rs_args cfg
     @ [''/etc/renderer/config.json'',
        ''--url='' @ reference (rt_baseURL (spec res)) (rt_repository (spec res)) (rt_tag (spec res))]
     @ (if rt_plainHTTP (spec res) then [''--plain-http=true''] else [])"

text \<open>The environment, mounts and volumes that the push secret adds.\<close>

definition pushSecretEnv :: "secret option \<Rightarrow> env_var list" where
  "pushSecretEnv pushSecret =
     (case pushSecret of
        None \<Rightarrow> []
      | Some s \<Rightarrow> (case sec_type (spec s) of
          SecretBasicAuth \<Rightarrow>
            [\<lparr>env_name = ''REGISTRY_USERNAME'', env_value = EnvSecretKey (om_name (metadata s)) ''username''\<rparr>,
             \<lparr>env_name = ''REGISTRY_PASSWORD'', env_value = EnvSecretKey (om_name (metadata s)) ''password''\<rparr>]
        | SecretDockerConfigJson \<Rightarrow>
            [\<lparr>env_name = ''DOCKER_CONFIG'', env_value = EnvValue ''/etc/renderer/dockerconfig.json''\<rparr>]
        | _ \<Rightarrow> []))"

definition pushSecretMounts :: "secret option \<Rightarrow> volume_mount list" where
  "pushSecretMounts pushSecret =
     (case pushSecret of
        None \<Rightarrow> []
      | Some s \<Rightarrow> (case sec_type (spec s) of
          SecretDockerConfigJson \<Rightarrow>
            [\<lparr>vm_name = ''dockerconfig'', vm_mountPath = ''/etc/renderer/dockerconfig.json'',
              vm_subPath = ''dockerconfig.json'', vm_readOnly = True\<rparr>]
        | _ \<Rightarrow> []))"

definition pushSecretVolumes :: "secret option \<Rightarrow> volume list" where
  "pushSecretVolumes pushSecret =
     (case pushSecret of
        None \<Rightarrow> []
      | Some s \<Rightarrow> (case sec_type (spec s) of
          SecretDockerConfigJson \<Rightarrow>
            [\<lparr>vol_name = ''dockerconfig'',
              vol_source = SecretVolume (om_name (metadata s)) [(''.dockerconfigjson'', ''dockerconfig.json'')]\<rparr>]
        | _ \<Rightarrow> []))"

definition emptyJobStatus :: job_status where
  "emptyJobStatus = \<lparr>js_active = 0, js_succeeded = 0, js_failed = 0, js_completionTime = ''<nil>''\<rparr>"

definition renderJob ::
  "renderer_settings \<Rightarrow> render_task \<Rightarrow> secret \<Rightarrow> secret option \<Rightarrow> string \<Rightarrow> job" where
  "renderJob cfg res configSecret pushSecret jobNS =
     (let jobKey = renderJobKey res jobNS in
      \<lparr>metadata = (newMeta (nn_name jobKey) (nn_namespace jobKey))
         \<lparr>om_annotations := [(annotationJobName, nn_name jobKey)]\<rparr>,
       spec =
         \<lparr>job_backoffLimit = 3,
          job_ttlSecondsAfterFinished = (case rt_failedJobTTL (spec res) of None \<Rightarrow> 3600 | Some t \<Rightarrow> t),
          job_restartPolicy = ''Never'',
          job_container =
            \<lparr>ctr_name = ''renderer'', ctr_image = rs_image cfg, ctr_command = [rs_command cfg],
             ctr_args = rendererArgs cfg res,
             ctr_env = baseEnv cfg @ pushSecretEnv pushSecret,
             ctr_volumeMounts = baseVolumeMounts cfg @ pushSecretMounts pushSecret\<rparr>,
          job_volumes = baseVolumes cfg configSecret @ pushSecretVolumes pushSecret,
          job_imagePullSecrets = rs_imagePullSecrets cfg\<rparr>,
       status = emptyJobStatus\<rparr>)"

text \<open>\<open>return errLogAndWrap(log, err, text)\<close> of a helper.\<close>

definition helperFail :: "'s kube \<Rightarrow> go_error \<Rightarrow> string \<Rightarrow> 'a \<Rightarrow> ('s, go_error + 'a) state" where
  "helperFail e err text x = ret (wrapErr (k_testMode e) err text x)"

definition createRenderJob ::
  "'s kube \<Rightarrow> renderer_settings \<Rightarrow> render_task \<Rightarrow> secret \<Rightarrow> secret option \<Rightarrow> string \<Rightarrow>
   ('s, go_error + render_task) state" where
  "createRenderJob e cfg res configSecret pushSecret jobNS =
     (let job = renderJob cfg res configSecret pushSecret jobNS in
      case k_setControllerReference e (metadata res) (metadata job) of
        Inl err \<Rightarrow> helperFail e err ''failed to set controller reference'' res
      | Inr meta \<Rightarrow> do {
          c \<leftarrow> res_create (k_jobs e) (job\<lparr>metadata := meta\<rparr>);
          (case c of
             Inl err \<Rightarrow> do {
               k_eventf e ''Warning'' ''CreationFailed'' (''Failed to create job: '' @ error_text (Api err));
               helperFail e (Api err) ''job creation failed'' res
             }
           | Inr created \<Rightarrow>
               let res1 = res\<lparr>status := (status res)\<lparr>rt_jobRef := Some
                     \<lparr>oref_apiVersion = ''batch/v1'', oref_kind = ''Job'',
                      oref_namespace = om_namespace (metadata created), oref_name = om_name (metadata created)\<rparr>\<rparr>\<rparr>
               in do {
               u \<leftarrow> res_statusUpdate (k_rendertasks e) res1;
               (case u of
                  Inl err \<Rightarrow> helperFail e (Api err) ''failed to update status'' res1
                | Inr res' \<Rightarrow> ret (Inr res'))
             })
        })"

definition createConfigSecret ::
  "'s kube \<Rightarrow> render_task \<Rightarrow> string \<Rightarrow> ('s, go_error + secret option \<times> render_task) state" where
  "createConfigSecret e res jobNS =
     (case k_marshalConfig e (rt_rendererConfig (spec res)) of
        Inl err \<Rightarrow> ret (Inl err)
      | Inr cfgJson \<Rightarrow>
          let secretKey = configSecretKey res jobNS;
              sec = \<lparr>metadata = (newMeta (nn_name secretKey) (nn_namespace secretKey))
                       \<lparr>om_annotations := [(annotationSecretName, nn_name secretKey)]\<rparr>,
                     spec = \<lparr>sec_type = SecretOpaque, sec_data = [(''config.json'', cfgJson)]\<rparr>,
                     status = ()\<rparr>
          in case k_setControllerReference e (metadata res) (metadata sec) of
               Inl err \<Rightarrow> helperFail e err ''failed to set controller reference'' (None, res)
             | Inr meta \<Rightarrow> do {
                 c \<leftarrow> res_create (k_secrets e) (sec\<lparr>metadata := meta\<rparr>);
                 (case c of
                    Inl err \<Rightarrow> do {
                      k_eventf e ''Warning'' ''CreationFailed'' (''Failed to create secret: '' @ error_text (Api err));
                      helperFail e (Api err) ''secret creation failed'' (None, res)
                    }
                  | Inr created \<Rightarrow>
                      let res1 = res\<lparr>status := (status res)\<lparr>rt_configSecretRef := Some
                            \<lparr>oref_apiVersion = ''v1'', oref_kind = ''Secret'',
                             oref_namespace = om_namespace (metadata created), oref_name = om_name (metadata created)\<rparr>\<rparr>\<rparr>
                      in do {
                      u \<leftarrow> res_statusUpdate (k_rendertasks e) res1;
                      (case u of
                         Inl err \<Rightarrow> helperFail e (Api err) ''failed to update status'' (None, res1)
                       | Inr res' \<Rightarrow> ret (Inr (Some created, res')))
                    })
               })"

section \<open>Cleanup\<close>

definition deleteRenderJob :: "'s kube \<Rightarrow> render_task \<Rightarrow> string \<Rightarrow> ('s, api_error + unit) state" where
  "deleteRenderJob e res jobNS = do {
     r \<leftarrow> res_get (k_jobs e) (renderJobKey res jobNS);
     (case r of Inl err \<Rightarrow> ret (Inl err) | Inr job \<Rightarrow> res_delete (k_jobs e) job)
   }"

definition deleteConfigSecret :: "'s kube \<Rightarrow> render_task \<Rightarrow> string \<Rightarrow> ('s, api_error + unit) state" where
  "deleteConfigSecret e res jobNS = do {
     r \<leftarrow> res_get (k_secrets e) (configSecretKey res jobNS);
     (case r of Inl err \<Rightarrow> ret (Inl err) | Inr sec \<Rightarrow> res_delete (k_secrets e) sec)
   }"

definition cleanupSecrets :: "'s kube \<Rightarrow> render_task \<Rightarrow> string \<Rightarrow> ('s, unit) state" where
  "cleanupSecrets e res jobNS = do {
     r \<leftarrow> deleteConfigSecret e res jobNS;
     (case r of
        Inl err \<Rightarrow> if isNotFound err then ret ()
                   else k_eventf e ''Warning'' ''DeletionFailed'' (''Failed to delete config secret: '' @ error_text (Api err))
      | Inr _ \<Rightarrow> ret ())
   }"

definition cleanupRenderResources :: "'s kube \<Rightarrow> render_task \<Rightarrow> string \<Rightarrow> ('s, unit) state" where
  "cleanupRenderResources e res jobNS = do {
     cleanupSecrets e res jobNS;
     r \<leftarrow> deleteRenderJob e res jobNS;
     (case r of
        Inl err \<Rightarrow> if isNotFound err then ret ()
                   else k_eventf e ''Warning'' ''DeletionFailed'' (''Failed to delete job: '' @ error_text (Api err))
      | Inr _ \<Rightarrow> ret ())
   }"

section \<open>Reconcile\<close>

definition alreadySucceeded :: "'s kube \<Rightarrow> render_task \<Rightarrow> bool" where
  "alreadySucceeded e res =
     (case k_findStatusCondition e (rt_conditions (status res)) ConditionTypeJobSucceeded of
        None \<Rightarrow> False
      | Some sc \<Rightarrow> cond_observedGeneration sc \<ge> om_generation (metadata res) \<and> cond_status sc = ConditionTrue)"

text \<open>The config Secret, read or created.\<close>

definition reconcileConfigSecret ::
  "'s kube \<Rightarrow> render_task \<Rightarrow> string \<Rightarrow> ('s, outcome + secret option \<times> render_task) state" where
  "reconcileConfigSecret e res jobNS = do {
     r \<leftarrow> res_get (k_secrets e) (configSecretKey res jobNS);
     (case r of
        Inr sec \<Rightarrow> ret (Inr (Some sec, res))
      | Inl err \<Rightarrow>
          if isNotFound err then do {
            c \<leftarrow> createConfigSecret e res jobNS;
            (case c of
               Inl cerr \<Rightarrow> do {
                 k_eventf e ''Warning'' ''CreateSecretFailed'' (''Failed to create config secret: '' @ error_text cerr);
                 ret (Inl (wrapErr (k_testMode e) cerr ''failed to create secret'' 0))
               }
             | Inr sr \<Rightarrow> ret (Inr sr))
          }
          else failR e err ''could not get secret'')
   }"

definition resolvePushSecret :: "'s kube \<Rightarrow> render_task \<Rightarrow> string \<Rightarrow> ('s, outcome + secret option) state" where
  "resolvePushSecret e res jobNS =
     (case rt_pushSecretRef (spec res) of
        None \<Rightarrow> ret (Inr None)
      | Some n \<Rightarrow> do {
          r \<leftarrow> res_get (k_secrets e) \<lparr>nn_namespace = jobNS, nn_name = n\<rparr>;
          (case r of Inl err \<Rightarrow> failR e err ''failed to get push secret'' | Inr sec \<Rightarrow> ret (Inr (Some sec)))
        })"

definition emptyJob :: job where
  "emptyJob =
     \<lparr>metadata = newMeta '''' '''',
      spec = \<lparr>job_backoffLimit = 0, job_ttlSecondsAfterFinished = 0, job_restartPolicy = '''',
              job_container = \<lparr>ctr_name = '''', ctr_image = '''', ctr_command = [], ctr_args = [], ctr_env = [],
                               ctr_volumeMounts = []\<rparr>,
              job_volumes = [], job_imagePullSecrets = []\<rparr>,
      status = emptyJobStatus\<rparr>"

text \<open>The Job, read or created; a Job that was just created leaves the local variable empty.\<close>

definition reconcileJob ::
  "'s kube \<Rightarrow> renderer_settings \<Rightarrow> render_task \<Rightarrow> secret option \<Rightarrow> secret option \<Rightarrow> string \<Rightarrow>
   ('s, outcome + job \<times> render_task) state" where
  "reconcileJob e cfg res configSecret pushSecret jobNS = do {
     r \<leftarrow> res_get (k_jobs e) (renderJobKey res jobNS);
     (case r of
        Inr job \<Rightarrow> ret (Inr (job, res))
      | Inl err \<Rightarrow>
          if isNotFound err then
            (case configSecret of
               None \<Rightarrow> ret (Inl (Inl (ErrorText ''panic: nil pointer dereference'')))
             | Some sec \<Rightarrow> do {
                 c \<leftarrow> createRenderJob e cfg res sec pushSecret jobNS;
                 (case c of
                    Inl cerr \<Rightarrow> do {
                      k_eventf e ''Warning'' ''CreateJobFailed'' (''Failed to create job: '' @ error_text cerr);
                      ret (Inl (wrapErr (k_testMode e) cerr ''failed to create job'' 0))
                    }
                  | Inr res' \<Rightarrow> ret (Inr (emptyJob, res')))
               })
          else failR e err ''could not get job'')
   }"

text \<open>The end of a reconcile: clean up after a Job that succeeded, or after a failed one whose TTL
  has passed, and come back when the TTL ends otherwise.\<close>

definition reconcileCleanup :: "'s kube \<Rightarrow> render_task \<Rightarrow> job \<Rightarrow> string \<Rightarrow> ('s, outcome + unit) state" where
  "reconcileCleanup e res job jobNS =
     (let ttlDuration = ttlSeconds (rt_failedJobTTL (spec res)) * second in
      if js_succeeded (status job) > 0 then do {
        cleanupRenderResources e res jobNS;
        ret (Inr ())
      }
      else if js_failed (status job) > 0 then do {
        t \<leftarrow> k_now e;
        (if shouldCleanupSecrets e t res ttlDuration then do {
           cleanupSecrets e res jobNS;
           ret (Inr ())
         }
         else do {
           t' \<leftarrow> k_now e;
           returnR (int64_wrap (remainingTTL e t' res ttlDuration + second))
         })
      }
      else ret (Inr ()))"

definition renderTaskReconcile :: "'s kube \<Rightarrow> renderer_settings \<Rightarrow> namespaced_name \<Rightarrow> ('s, outcome) state" where
  "renderTaskReconcile e cfg req =
     withObject e (k_rendertasks e) req ''failed to get object'' (\<lambda>res. finish (
       if deleting res then do {
         k_eventf e ''Warning'' ''Deleting'' ''RenderTask is being deleted, cleaning up secret and job'';
         ret (Inr ())
       }
       else if alreadySucceeded e res then ret (Inr ())
       else
         let jobNS = taskNamespace res in
         andThen (reconcileConfigSecret e res jobNS) (\<lambda>sr. case sr of (configSecret, res1) \<Rightarrow>
         andThen (resolvePushSecret e res1 jobNS) (\<lambda>pushSecret.
         andThen (reconcileJob e cfg res1 configSecret pushSecret jobNS) (\<lambda>jr. case jr of (job, res2) \<Rightarrow> do {
           u \<leftarrow> updateResourceStatusFromJob e res2 (Some job);
           (case u of (res3, changed) \<Rightarrow>
              andThen
                (if changed then do {
                   w \<leftarrow> res_statusUpdate (k_rendertasks e) res3;
                   (case w of Inl err \<Rightarrow> failR e err ''failed to update status'' | Inr res4 \<Rightarrow> ret (Inr res4))
                 } else ret (Inr res3))
                (\<lambda>res4. reconcileCleanup e res4 job jobNS))
         })))))"

section \<open>The controller follows the protocol\<close>

context kube_laws begin

lemma updateResourceStatusFromJob_follows [intro!]: "follows e abs (updateResourceStatusFromJob e res job)"
  unfolding updateResourceStatusFromJob_def Let_def by (auto split: option.splits prod.splits)

lemma helperFail_follows [simp, intro!]: "follows e abs (helperFail e err txt' x)"
  by (simp add: helperFail_def)

lemma createRenderJob_follows [intro!]: "follows e abs (createRenderJob e cfg res cs ps ns)"
  unfolding createRenderJob_def Let_def by (auto split: sum.splits)

lemma createConfigSecret_follows [intro!]: "follows e abs (createConfigSecret e res ns)"
  unfolding createConfigSecret_def Let_def by (auto split: sum.splits)

lemma cleanup_follows [intro!]: "follows e abs (cleanupSecrets e res ns)" "follows e abs (cleanupRenderResources e res ns)"
  unfolding cleanupSecrets_def cleanupRenderResources_def deleteRenderJob_def deleteConfigSecret_def by auto

lemma reconcileParts_follows [intro!]:
  "follows e abs (reconcileConfigSecret e res ns)" "follows e abs (resolvePushSecret e res ns)"
  "follows e abs (reconcileJob e cfg res cs ps ns)" "follows e abs (reconcileCleanup e res job ns)"
  unfolding reconcileConfigSecret_def resolvePushSecret_def reconcileJob_def reconcileCleanup_def Let_def
  by (auto split: option.splits)

lemma renderTaskReconcile_follows: "follows e abs (renderTaskReconcile e cfg req)"
  unfolding renderTaskReconcile_def Let_def by auto

end

section \<open>Conditions and the TTL of a failed job\<close>

context kube_laws begin

lemma conditionTrue_set:
  assumes "k_setStatusCondition e tm conds c = (conds', ch)" "cond_status c = ConditionTrue"
    and "k_isStatusConditionTrue e conds ty \<or> ty = cond_type c"
  shows "k_isStatusConditionTrue e conds' ty"
proof (cases "ty = cond_type c")
  case True
  obtain c' where c': "k_findStatusCondition e conds' (cond_type c) = Some c'"
    using setCondition_some [OF assms(1)] by blast
  then show ?thesis using setCondition_find [OF assms(1) c'] assms(2) True by (simp add: conditionTrue)
next
  case False
  then show ?thesis using setCondition_other [OF assms(1)] assms(3) by (simp add: conditionTrue)
qed

lemma conditionTrue_other:
  assumes "k_setStatusCondition e tm conds c = (conds', ch)" "ty \<noteq> cond_type c" "k_isStatusConditionTrue e conds ty"
  shows "k_isStatusConditionTrue e conds' ty"
  using setCondition_other [OF assms(1,2)] assms(3) by (simp add: conditionTrue)

lemma now_set_wp:
  assumes "\<And>tm cs ch s'. abs s' = abs s \<Longrightarrow> k_setStatusCondition e tm conds c = (cs, ch) \<Longrightarrow> wp (f cs ch) Q s'"
  shows "wp (k_now e) (\<lambda>t. wp (case k_setStatusCondition e t conds c of (cs, ch) \<Rightarrow> f cs ch) Q) s"
  by (rule wp_mono [OF now]) (auto split: prod.split intro: assms)

lemma jobCondition_simps [simp]:
  "cond_type (jobCondition rt ty st reason msg) = ty" "cond_status (jobCondition rt ty st reason msg) = st"
  by (simp_all add: jobCondition_def)

lemma setTaskConditions_simps [simp]:
  "rt_conditions (status (setTaskConditions rt conds)) = conds" "spec (setTaskConditions rt conds) = spec rt"
  "rt_chartURL (status (setTaskConditions rt conds)) = rt_chartURL (status rt)"
  by (simp_all add: setTaskConditions_def)

lemma updateResourceStatusFromJob_wp:
  assumes "k_isStatusConditionTrue e (rt_conditions (status rt)) ConditionTypeJobFailed"
  shows "wp (updateResourceStatusFromJob e rt job) (\<lambda>(rt', ch) s'.
    k_isStatusConditionTrue e (rt_conditions (status rt')) ConditionTypeJobFailed \<and> spec rt' = spec rt \<and>
    (\<forall>j. job = Some j \<longrightarrow> js_succeeded (status j) > 0 \<longrightarrow>
       k_isStatusConditionTrue e (rt_conditions (status rt')) ConditionTypeJobSucceeded \<and>
       rt_chartURL (status rt') = reference (rt_baseURL (spec rt)) (rt_repository (spec rt)) (rt_tag (spec rt)))) s"
proof -
  have types: "ConditionTypeJobFailed \<noteq> ConditionTypeJobScheduled" "ConditionTypeJobFailed \<noteq> ConditionTypeJobSucceeded"
    by (simp_all add: render_condition_defs)
  have keep: "k_isStatusConditionTrue e cs ConditionTypeJobFailed"
    if "k_setStatusCondition e tm (rt_conditions (status rt)) (jobCondition rt ty st reason msg) = (cs, ch)"
      "ty \<noteq> ConditionTypeJobFailed" for tm ty st reason msg cs ch
    using conditionTrue_other [OF that(1)] that(2) assms by auto
  note keeps = keep [OF _ types(1) [symmetric]] keep [OF _ types(2) [symmetric]]
  have new: "k_isStatusConditionTrue e cs ty"
    if "k_setStatusCondition e tm (rt_conditions (status rt)) (jobCondition rt ty ConditionTrue reason msg) = (cs, ch)"
    for tm ty reason msg cs ch
    using conditionTrue_set [OF that] by simp
  show ?thesis
    unfolding updateResourceStatusFromJob_def Let_def
    by (auto split: option.split intro!: wp_if now_set_wp wp_mono [OF event]) (erule keeps new)+
qed

end

text \<open>(C30) A RenderTask whose job failed once reports the failure for good: no later state of the job, not even
  a retry that succeeds, takes the \<open>JobFailed\<close> condition back, so after such a retry the task reports both
  failure and success.\<close>

theorem job_failure_is_final:
  assumes "kube_laws e view"
    and "k_isStatusConditionTrue e (rt_conditions (status rt)) ConditionTypeJobFailed"
    and "run_state (updateResourceStatusFromJob e rt job) s = ((rt', changed), s')"
  shows "k_isStatusConditionTrue e (rt_conditions (status rt')) ConditionTypeJobFailed \<and>
    (\<forall>j. job = Some j \<longrightarrow> js_succeeded (status j) > 0 \<longrightarrow>
       k_isStatusConditionTrue e (rt_conditions (status rt')) ConditionTypeJobSucceeded \<and>
       rt_chartURL (status rt') = reference (rt_baseURL (spec rt)) (rt_repository (spec rt)) (rt_tag (spec rt)))"
  using wp_run [OF kube_laws.updateResourceStatusFromJob_wp [OF assms(1,2)] assms(3)] by simp

text \<open>The TTL of a failed job: the secrets are kept until the TTL has passed since the failure was
  recorded; until then the controller asks to come back after a positive delay of at most the TTL, and
  at that time the TTL has passed.\<close>

theorem failed_job_ttl:
  assumes "k_findStatusCondition e (rt_conditions (status rt)) ConditionTypeJobFailed = Some c"
    and "cond_lastTransitionTime c = Some t" "0 \<le> t" "t \<le> now" "0 \<le> ttl" "now + ttl < 2 ^ 62"
  shows "(shouldCleanupSecrets e now rt ttl \<longleftrightarrow> t + ttl \<le> now) \<and>
    (\<not> shouldCleanupSecrets e now rt ttl \<longrightarrow>
       0 < remainingTTL e now rt ttl \<and> remainingTTL e now rt ttl \<le> ttl \<and>
       shouldCleanupSecrets e (now + remainingTTL e now rt ttl) rt ttl)"
proof -
  have since: "timeSince n (Some t) = n - t" if "t \<le> n" "n < 2 ^ 63" for n
    using that assms(3) by (simp add: timeSince_def timeSub_def)
  have should: "shouldCleanupSecrets e n rt ttl \<longleftrightarrow> t + ttl \<le> n" if "t \<le> n" "n < 2 ^ 63" for n
    using since [OF that] assms(1,2) by (auto simp: shouldCleanupSecrets_def)
  have "remainingTTL e now rt ttl = (if ttl - (now - t) < 0 then 0 else ttl - (now - t))"
    using since [of now] assms by (simp add: remainingTTL_def Let_def)
  then show ?thesis
    using should [of now] should [of "now + (ttl - (now - t))"] assms by auto
qed

end
