(* ===== verification/RenderArtifactController.thy ===== *)
theory RenderArtifactController
  imports Protocol
begin

text \<open>
  \<open>pkg/controller/renderartifact_controller.go\<close>: garbage collection of pushed charts. A
  RenderArtifact whose last RenderBinding is gone is deleted, and its finalizer holds it until
  the OCI tag is deleted from the registry (or is found to be absent already).
\<close>

definition renderArtifactFinalizer :: string where
  "renderArtifactFinalizer = ''solar.opendefense.cloud/render-artifact-finalizer''"

definition ConditionTypeOCICleanup :: string where "ConditionTypeOCICleanup = ''OCICleanup''"

section \<open>Credentials\<close>

text \<open>The function always returns an authenticator, with an error beside it when the docker
  configuration does not parse.\<close>

definition ociAuthFromSecret :: "'s kube \<Rightarrow> secret \<Rightarrow> string \<Rightarrow> authenticator \<times> go_error option" where
  "ociAuthFromSecret e sec host =
     (let lookup = (\<lambda>k. case map_of (sec_data (spec sec)) k of None \<Rightarrow> '''' | Some v \<Rightarrow> v) in
      if sec_type (spec sec) = SecretBasicAuth then
        (let user = lookup ''username''; pass = lookup ''password'' in
         if user \<noteq> '''' \<or> pass \<noteq> ''''
         then (FromConfig \<lparr>auth_username = user, auth_password = pass, auth_auth = '''', auth_identityToken = '''',
                           auth_registryToken = ''''\<rparr>, None)
         else (Anonymous, None))
      else
        let data = lookup ''.dockerconfigjson'' in
        if length data = 0 then (Anonymous, None)
        else case k_parseDockerConfig e data of
          Inl err \<Rightarrow> (Anonymous, Some (Wrapped (''failed to parse dockerconfigjson in secret '' @
                        om_namespace (metadata sec) @ ''/'' @ om_name (metadata sec)) err))
        | Inr auths \<Rightarrow>
            (case map_of auths host of
               Some ac \<Rightarrow> (FromConfig ac, None)
             | None \<Rightarrow> (case map_of auths (''https://'' @ host) of
                 Some ac \<Rightarrow> (FromConfig ac, None)
               | None \<Rightarrow> (Anonymous, None))))"

definition resolveAuth :: "'s kube \<Rightarrow> render_artifact \<Rightarrow> string \<Rightarrow> ('s, go_error + authenticator) state" where
  "resolveAuth e artifact host =
     (case art_pushSecretRef (spec artifact) of
        None \<Rightarrow> ret (Inr Anonymous)
      | Some n \<Rightarrow>
          let secretNs = (if art_pushSecretNamespace (spec artifact) \<noteq> '''' then art_pushSecretNamespace (spec artifact)
                          else om_namespace (metadata artifact))
          in do {
            r \<leftarrow> res_get (k_secrets e) \<lparr>nn_namespace = secretNs, nn_name = n\<rparr>;
            (case r of
               Inl err \<Rightarrow> ret (Inl (Wrapped (''failed to get push secret '' @ secretNs @ ''/'' @ n) (Api err)))
             | Inr sec \<Rightarrow> ret (Inr (fst (ociAuthFromSecret e sec host))))
          })"

section \<open>Deleting the tag\<close>

definition artifactHost :: "render_artifact \<Rightarrow> string" where
  "artifactHost artifact = trimPrefix (trimSuffix (art_baseURL (spec artifact)) ''/'') ''oci://''"

definition artifactRef :: "render_artifact \<Rightarrow> string" where
  "artifactRef artifact =
     artifactHost artifact @ ''/'' @ trimPrefix (art_repository (spec artifact)) ''/'' @ '':'' @ art_tag (spec artifact)"

text \<open>The condition and the event with which a failed cleanup is reported; a failed status write is
  only logged.\<close>

definition reportCleanupFailure ::
  "'s kube \<Rightarrow> render_artifact \<Rightarrow> string \<Rightarrow> string \<Rightarrow> string \<Rightarrow> ('s, unit) state" where
  "reportCleanupFailure e artifact event reason msg = do {
     k_eventf e ''Warning'' ''OCICleanupFailed'' event;
     t \<leftarrow> k_now e;
     (case k_setStatusCondition e t (art_conditions (status artifact))
        \<lparr>cond_type = ConditionTypeOCICleanup, cond_status = ConditionFalse,
         cond_observedGeneration = om_generation (metadata artifact), cond_lastTransitionTime = None,
         cond_reason = reason, cond_message = msg\<rparr> of (conds, changed) \<Rightarrow> do {
        _ \<leftarrow> res_statusPatch (k_renderartifacts e) artifact
               (artifact\<lparr>status := (status artifact)\<lparr>art_conditions := conds\<rparr>\<rparr>);
        ret ()
      })
   }"

definition ociGoError :: "oci_error \<Rightarrow> go_error" where
  "ociGoError err = ErrorText (oci_text err)"

text \<open>\<open>ociregistry.DeleteTag\<close> (\<open>pkg/ociregistry/standard.go\<close>): \<open>%w\<close> keeps the transport error visible to
  \<open>errors.As\<close>.\<close>

fun wrapOciError :: "string \<Rightarrow> oci_error \<Rightarrow> oci_error" where
  "wrapOciError text (TransportError code m) = TransportError code (text @ '': '' @ m)"
| "wrapOciError text (OciError m) = OciError (text @ '': '' @ m)"

definition deleteTag :: "'s kube \<Rightarrow> string \<Rightarrow> authenticator \<Rightarrow> bool \<Rightarrow> ('s, oci_error + unit) state" where
  "deleteTag e rawRef auth insecure =
     (case k_parseTag e rawRef insecure of
        Inl err \<Rightarrow> ret (Inl (OciError (''invalid OCI reference '' @ goQuote rawRef @ '': '' @ error_text err)))
      | Inr ref \<Rightarrow> do {
          d \<leftarrow> k_remoteDelete e rawRef insecure (if auth = Anonymous then None else Some auth);
          (case d of
             Inl err \<Rightarrow> ret (Inl (wrapOciError (''DELETE '' @ ref) err))
           | Inr _ \<Rightarrow> ret (Inr ()))
        })"

definition cleanupOCIArtifact :: "'s kube \<Rightarrow> render_artifact \<Rightarrow> ('s, go_error + unit) state" where
  "cleanupOCIArtifact e artifact = do {
     auth \<leftarrow> resolveAuth e artifact (artifactHost artifact);
     (case auth of
        Inl err \<Rightarrow> do {
          reportCleanupFailure e artifact
            (''Failed to resolve OCI auth for '' @ artifactRef artifact @ '': '' @ error_text err)
            ''AuthFailed'' (error_text err);
          ret (Inl err)
        }
      | Inr a \<Rightarrow> do {
          d \<leftarrow> deleteTag e (artifactRef artifact) a (art_plainHTTP (spec artifact));
          (case d of
             Inl err \<Rightarrow>
               if (case err of TransportError code _ \<Rightarrow> code = 404 | OciError _ \<Rightarrow> False) then ret (Inr ())
               else do {
                 reportCleanupFailure e artifact
                   (''Failed to delete OCI tag '' @ artifactRef artifact @ '': '' @ oci_text err)
                   ''DeleteFailed'' (oci_text err);
                 ret (Inl (ociGoError err))
               }
           | Inr _ \<Rightarrow> do {
               k_eventf e ''Normal'' ''OCICleanupSucceeded'' (''Successfully deleted OCI tag '' @ artifactRef artifact);
               ret (Inr ())
             })
        })
   }"

section \<open>Reconcile\<close>

text \<open>The deletion branch removes the finalizer with a patch from the object as it was first read.\<close>

definition artifactDelete :: "'s kube \<Rightarrow> render_artifact \<Rightarrow> ('s, outcome + unit) state" where
  "artifactDelete e artifact =
     (if hasFinalizer renderArtifactFinalizer artifact then
        andThen (orReturn (cleanupOCIArtifact e artifact)) (\<lambda>_. do {
          p \<leftarrow> res_patch (k_renderartifacts e) False artifact (deleteFinalizer renderArtifactFinalizer artifact);
          (case p of Inl err \<Rightarrow> failR e err ''failed to remove finalizer from RenderArtifact'' | Inr _ \<Rightarrow> ret (Inr ()))
        })
      else ret (Inr ()))"

definition artifactStatus :: "'s kube \<Rightarrow> render_artifact \<Rightarrow> ('s, outcome + render_artifact) state" where
  "artifactStatus e artifact =
     (let chartURL = renderChartURL (art_baseURL (spec artifact)) (art_repository (spec artifact)) (art_tag (spec artifact)) in
      if art_chartURL (status artifact) \<noteq> chartURL then do {
        p \<leftarrow> res_statusPatch (k_renderartifacts e) artifact
               (artifact\<lparr>status := (status artifact)\<lparr>art_chartURL := chartURL\<rparr>\<rparr>);
        (case p of Inl err \<Rightarrow> failR e err ''failed to update RenderArtifact status'' | Inr x \<Rightarrow> ret (Inr x))
      } else ret (Inr artifact))"

text \<open>The collection of an artifact without bindings, confirmed by an uncached list.\<close>

definition artifactCollect :: "'s kube \<Rightarrow> render_artifact \<Rightarrow> ('s, outcome + unit) state" where
  "artifactCollect e artifact = do {
     l \<leftarrow> res_list (k_renderbindings e)
            (inNamespaceMatching (om_namespace (metadata artifact)) indexRenderBindingArtifactName (om_name (metadata artifact)));
     (case l of
        Inl err \<Rightarrow> failR e err ''failed to list RenderBindings for RenderArtifact''
      | Inr bindings \<Rightarrow>
          if bindings = [] then do {
            c \<leftarrow> res_apiList (k_renderbindings e) (inNamespace (om_namespace (metadata artifact)));
            (case c of
               Inl err \<Rightarrow> failR e err ''failed to confirm RenderBinding absence via API''
             | Inr confirmed \<Rightarrow>
                 if list_ex (\<lambda>b. rb_renderArtifactRef (spec b) = om_name (metadata artifact)) confirmed then ret (Inr ())
                 else do {
                   d \<leftarrow> res_delete (k_renderartifacts e) artifact;
                   (case d of
                      Inl err \<Rightarrow> if isNotFound err then ret (Inr ())
                                 else failR e err ''failed to delete orphaned RenderArtifact''
                    | Inr _ \<Rightarrow> ret (Inr ()))
                 })
          }
          else ret (Inr ()))
   }"

definition renderArtifactReconcile :: "'s kube \<Rightarrow> namespaced_name \<Rightarrow> ('s, outcome) state" where
  "renderArtifactReconcile e req =
     withObject e (k_renderartifacts e) req ''failed to get RenderArtifact'' (\<lambda>artifact. finish (
       if deleting artifact then artifactDelete e artifact
       else if \<not> hasFinalizer renderArtifactFinalizer artifact then do {
         p \<leftarrow> res_patch (k_renderartifacts e) False artifact (appendFinalizer renderArtifactFinalizer artifact);
         (case p of Inl err \<Rightarrow> failR e err ''failed to add finalizer to RenderArtifact'' | Inr _ \<Rightarrow> ret (Inr ()))
       }
       else andThen (artifactStatus e artifact) (artifactCollect e)))"

definition mapRenderBindingToArtifact :: "render_binding \<Rightarrow> namespaced_name list" where
  "mapRenderBindingToArtifact rb =
     (if rb_renderArtifactRef (spec rb) = '''' then []
      else [\<lparr>nn_namespace = om_namespace (metadata rb), nn_name = rb_renderArtifactRef (spec rb)\<rparr>])"

section \<open>The controller follows the protocol\<close>

context kube_laws begin

lemma reportCleanupFailure_follows [intro!]: "follows e abs (reportCleanupFailure e a ev reason msg)"
  unfolding reportCleanupFailure_def by (auto split: prod.splits)

lemma resolveAuth_quiet [simp, intro!]: "quiet abs (resolveAuth e a host)"
  unfolding resolveAuth_def Let_def by auto

text \<open>A cleanup that succeeds leaves the tag absent and the stored objects as they were.\<close>

lemma deleteTag_wp:
  assumes "\<And>err s'. abs s' = abs s \<Longrightarrow> (\<And>msg. err = TransportError 404 msg \<Longrightarrow> \<not> cl_ociTags (abs s) ref) \<Longrightarrow> Q (Inl err) s'"
    and "\<And>s'. abs s' = cl_ociTags_update (\<lambda>m. m(ref := False)) (abs s) \<Longrightarrow> Q (Inr ()) s'"
  shows "wp (deleteTag e ref auth insecure) Q s"
proof (cases "k_parseTag e ref insecure")
  case (Inr r)
  have "wp (k_remoteDelete e ref insecure credentials) (\<lambda>d. wp (case d of
      Inl err \<Rightarrow> ret (Inl (wrapOciError w err)) | Inr _ \<Rightarrow> ret (Inr ())) Q) s" for credentials w
    by (rule wp_mono [OF remoteDelete]) (auto intro!: assms split: sum.splits oci_error.splits)
  then show ?thesis unfolding deleteTag_def Inr sum.case wp_bind .
qed (auto simp: deleteTag_def intro!: assms)

lemma cleanupOCIArtifact_wp:
  "wp (cleanupOCIArtifact e a) (\<lambda>r s'. r = Inr () \<longrightarrow>
     cl_renderartifacts (abs s') = cl_renderartifacts (abs s) \<and> \<not> cl_ociTags (abs s') (artifactRef a)) s"
  unfolding cleanupOCIArtifact_def
  by (auto intro!: quietD [OF resolveAuth_quiet] wp_if wp_case_sum deleteTag_wp wp_mono [OF event]
      wp_follows [OF reportCleanupFailure_follows]
      split: oci_error.splits)

lemma deleteTag_follows [intro!]: "follows e abs (deleteTag e ref auth insecure)"
  unfolding follows_wp by (auto intro!: deleteTag_wp evolve_once [OF ev_ociTags])

lemma cleanupOCIArtifact_follows [intro!]: "follows e abs (cleanupOCIArtifact e a)"
  unfolding cleanupOCIArtifact_def by (auto intro!: quiet_follows [OF resolveAuth_quiet] split: oci_error.splits)

lemma patchArtifact_wp:
  assumes "cl_renderartifacts (abs s) (objectKey new) = Some base"
  shows "wp (res_patch (k_renderartifacts e) lock base new) (\<lambda>_ s'. (evolve (k_getControllerOf e))\<^sup>*\<^sup>* (abs s) (abs s')) s"
  using assms by (auto intro!: art.patch_wp evolve_once [OF ev_renderartifacts])

lemma artifactDelete_wp:
  assumes "cl_renderartifacts (abs s) (objectKey a) = Some a"
  shows "wp (artifactDelete e a) (\<lambda>_ s'. (evolve (k_getControllerOf e))\<^sup>*\<^sup>* (abs s) (abs s')) s"
proof -
  have "wp (cleanupOCIArtifact e a) (\<lambda>r s'. (evolve (k_getControllerOf e))\<^sup>*\<^sup>* (abs s) (abs s') \<and>
      (r = Inr () \<longrightarrow> cl_renderartifacts (abs s') (objectKey a) = Some a)) s"
    by (rule wp_mono [OF wp_conj [OF cleanupOCIArtifact_wp [of a s]
          cleanupOCIArtifact_follows [unfolded follows_wp, rule_format, of a s]]])
       (use assms in auto)
  moreover have "wp (res_patch (k_renderartifacts e) False a (deleteFinalizer renderArtifactFinalizer a))
      (\<lambda>r. wp (f r) (\<lambda>_ s2. (evolve (k_getControllerOf e))\<^sup>*\<^sup>* (abs s) (abs s2))) s1"
    if "(evolve (k_getControllerOf e))\<^sup>*\<^sup>* (abs s) (abs s1)" "cl_renderartifacts (abs s1) (objectKey a) = Some a"
      "\<And>r. quiet abs (f r)" for s1 and f :: "_ \<Rightarrow> (_, outcome + unit) state"
    by (rule wp_mono [OF patchArtifact_wp]) (use that in \<open>auto intro!: quietD [OF that(3)]\<close>)
  ultimately show ?thesis
    unfolding artifactDelete_def by (auto elim!: wp_mono split: sum.splits)
qed

lemma artifactCollect_follows [intro!]: "follows e abs (artifactCollect e a)"
  unfolding artifactCollect_def by auto

lemma artifactStatus_follows [intro!]: "follows e abs (artifactStatus e a)"
  unfolding artifactStatus_def Let_def by auto

lemma renderArtifactReconcile_follows: "follows e abs (renderArtifactReconcile e req)"
  unfolding renderArtifactReconcile_def
proof (rule artT.withObject_advances, intro advances_finish advances_if)
  fix x s assume x: "cl_renderartifacts (abs s) req = Some x" "objectKey x = req"
  show "advances e abs (artifactDelete e x) s"
    unfolding advances_def using x by (simp add: artifactDelete_wp)
  show "advances e abs (bindM (res_patch (k_renderartifacts e) False x (appendFinalizer renderArtifactFinalizer x))
      (\<lambda>p. case p of Inl err \<Rightarrow> failR e err ''failed to add finalizer to RenderArtifact'' | Inr _ \<Rightarrow> ret (Inr ()))) s"
    by (rule advances_bind) (use x in \<open>auto simp: advances_def patchArtifact_wp\<close>)
  show "advances e abs (andThen (artifactStatus e x) (artifactCollect e)) s"
    by (auto intro!: advancesI)
qed

end

section \<open>Garbage collection\<close>

text \<open>A RenderBinding of the artifact's namespace that names the artifact.\<close>

definition artifactBound :: "cluster \<Rightarrow> namespaced_name \<Rightarrow> bool" where
  "artifactBound c k \<longleftrightarrow> (\<exists>j b. cl_renderbindings c j = Some b \<and> om_namespace (metadata b) = nn_namespace k \<and>
     rb_renderArtifactRef (spec b) = nn_name k)"

context kube_laws begin

lemma artifactCollect_bound:
  assumes "artifactBound (abs s) (objectKey a)" "om_name (metadata a) \<noteq> ''''" and "\<And>r s'. abs s' = abs s \<Longrightarrow> Q r s'"
  shows "wp (artifactCollect e a) Q s"
proof -
  obtain b where b: "cl_renderbindings (abs s) (objectKey b) = Some b" "om_namespace (metadata b) = om_namespace (metadata a)"
      "rb_renderArtifactRef (spec b) = om_name (metadata a)"
    using assms(1) rb.key unfolding artifactBound_def objectKey_def by fastforce
  then have "om_name (metadata a) \<in> set (index_render_binding indexRenderBindingArtifactName b)"
    using assms(2) by (simp add: index_render_binding_def nonEmpty_def index_defs)
  then have "xs \<noteq> []" if "set xs = {x. cl_renderbindings (abs s) (objectKey x) = Some x \<and>
      om_namespace (metadata x) = om_namespace (metadata a) \<and>
      om_name (metadata a) \<in> set (index_render_binding indexRenderBindingArtifactName x)}" for xs
    using b that by force
  then show ?thesis
    unfolding artifactCollect_def using assms(3) by (auto intro!: rb.list_wp)
qed

lemma renderArtifactReconcile_bound:
  assumes "cl_renderartifacts (abs s) k = Some a" "\<not> deleting a" "artifactBound (abs s) k" "nn_name k \<noteq> ''''"
  shows "wp (renderArtifactReconcile e k) (\<lambda>r s'. cl_ociTags (abs s') = cl_ociTags (abs s) \<and>
    (\<exists>a'. cl_renderartifacts (abs s') k = Some a' \<and> \<not> deleting a' \<and> spec a' = spec a)) s"
proof -
  have collect: "wp (artifactCollect e x) Q s1"
    if "cl_renderbindings (abs s1) = cl_renderbindings (abs s)" "objectKey x = k" "\<And>r s'. abs s' = abs s1 \<Longrightarrow> Q r s'" for s1 x Q
    by (rule artifactCollect_bound) (use that assms in \<open>auto simp: artifactBound_def objectKey_def\<close>)
  show ?thesis
    unfolding renderArtifactReconcile_def artifactStatus_def Let_def
    using assms by (auto intro!: art.withObject_any wp_if art.patch_wp art.statusPatch_wp collect)
qed

end

text \<open>The RenderArtifact at \<open>k\<close> exists and carries the finalizer.\<close>

definition artifactHeld :: "namespaced_name \<Rightarrow> cluster \<Rightarrow> bool" where
  "artifactHeld k c \<longleftrightarrow> (\<exists>a. cl_renderartifacts c k = Some a \<and> hasFinalizer renderArtifactFinalizer a)"

context kube_laws begin

lemma quiet_keeps: "quiet abs m \<Longrightarrow> keeps (\<lambda>s. P (abs s)) m"
  unfolding keeps_wp by (auto elim!: quietD)

lemmas read_keeps [intro!] = quiet_keeps [OF quiet_event] quiet_keeps [OF quiet_now] quiet_keeps [OF resolveAuth_quiet]
  quiet_keeps [OF rbT.quiet_reads(2)] quiet_keeps [OF rbT.quiet_reads(3)]

lemma statusPatch_held [intro!]: "keeps (\<lambda>s. artifactHeld k (abs s)) (res_statusPatch (k_renderartifacts e) x y)"
  unfolding keeps_wp artifactHeld_def by (auto intro!: art.statusPatch_wp)

lemma delete_held [intro!]: "keeps (\<lambda>s. artifactHeld k (abs s)) (res_delete (k_renderartifacts e) x)"
  unfolding keeps_wp artifactHeld_def by (auto intro!: art.delete_wp simp: settle_hasFinalizer)

lemma deleteTag_held [intro!]: "keeps (\<lambda>s. artifactHeld k (abs s)) (deleteTag e ref auth insecure)"
  unfolding keeps_wp artifactHeld_def by (auto intro!: deleteTag_wp)

lemma report_held [intro!]: "keeps (\<lambda>s. artifactHeld k (abs s)) (reportCleanupFailure e a ev reason msg)"
  unfolding reportCleanupFailure_def by (auto split: prod.splits)

lemma cleanup_held [intro!]: "keeps (\<lambda>s. artifactHeld k (abs s)) (cleanupOCIArtifact e a)"
  unfolding cleanupOCIArtifact_def by (auto split: oci_error.splits)

lemma collect_held [intro!]: "keeps (\<lambda>s. artifactHeld k (abs s)) (artifactCollect e a)"
  unfolding artifactCollect_def failR_def by auto

lemma status_held [intro!]: "keeps (\<lambda>s. artifactHeld k (abs s)) (artifactStatus e a)"
  unfolding artifactStatus_def Let_def failR_def by auto

lemma artifactDelete_held:
  assumes "cl_renderartifacts (abs s) k = Some a" "objectKey a = k" "hasFinalizer renderArtifactFinalizer a"
  shows "wp (artifactDelete e a) (\<lambda>_ s'. artifactHeld k (abs s') \<or> \<not> cl_ociTags (abs s') (artifactRef a)) s"
proof -
  have held: "artifactHeld k (abs s)" using assms by (auto simp: artifactHeld_def)
  have "wp (cleanupOCIArtifact e a) (\<lambda>r s'. artifactHeld k (abs s') \<and> (r = Inr () \<longrightarrow>
     cl_renderartifacts (abs s') k = Some a \<and> \<not> cl_ociTags (abs s') (artifactRef a))) s"
    by (rule wp_mono [OF wp_conj [OF cleanup_held [unfolded keeps_wp, rule_format, OF held] cleanupOCIArtifact_wp [of a]]])
       (use assms in auto)
  then show ?thesis
    unfolding artifactDelete_def failR_def using assms
    by (auto elim!: wp_mono intro!: art.patch_wp split: sum.splits)
qed

lemma renderArtifactReconcile_held:
  assumes "cl_renderartifacts (abs s) k = Some a" "hasFinalizer renderArtifactFinalizer a"
  shows "wp (renderArtifactReconcile e k) (\<lambda>_ s'. artifactHeld k (abs s') \<or> \<not> cl_ociTags (abs s') (artifactRef a)) s"
  unfolding renderArtifactReconcile_def
proof (rule art.withObject_any)
  have held: "artifactHeld k (abs s)" using assms by (auto simp: artifactHeld_def)
  then show "artifactHeld k (abs s') \<or> \<not> cl_ociTags (abs s') (artifactRef a)" if "abs s' = abs s" for s'
    using that by simp
  fix x s' assume x: "abs s' = abs s" "cl_renderartifacts (abs s) k = Some x" "objectKey x = k"
  have "wp (andThen (artifactStatus e x) (artifactCollect e)) (\<lambda>_ s'. artifactHeld k (abs s')) s'"
    using keeps_andThen [OF status_held collect_held] held x by (auto simp: keeps_wp)
  then show "wp (finish (if deleting x then artifactDelete e x
       else if \<not> hasFinalizer renderArtifactFinalizer x then do {
         p \<leftarrow> res_patch (k_renderartifacts e) False x (appendFinalizer renderArtifactFinalizer x);
         (case p of Inl err \<Rightarrow> failR e err ''failed to add finalizer to RenderArtifact'' | Inr _ \<Rightarrow> ret (Inr ()))
       }
       else andThen (artifactStatus e x) (artifactCollect e)))
      (\<lambda>_ s'. artifactHeld k (abs s') \<or> \<not> cl_ociTags (abs s') (artifactRef a)) s'"
    using assms x artifactDelete_held [of s' k x] unfolding wp_finish
    by (auto elim!: wp_mono split: sum.splits)
qed

lemma renderArtifactReconcile_collects:
  assumes "cl_renderartifacts (abs s) k = Some a" "hasFinalizer renderArtifactFinalizer a" "\<not> artifactBound (abs s) k"
    and "\<not> k_testMode e" "watched e k" "\<not> deleting a"
  shows "wp (renderArtifactReconcile e k) (succeeds (\<lambda>_ s'. \<exists>a'. cl_renderartifacts (abs s') k = Some a' \<and> deleting a')) s"
  unfolding renderArtifactReconcile_def
proof (rule art.withObject_wp [OF assms(1,5,4)])
  fix s1 assume s1: "abs s1 = abs s" "objectKey a = k"
  have collect: "wp (artifactCollect e x) (case_sum F G) s2"
    if x: "objectKey x = k" "cl_renderbindings (abs s2) = cl_renderbindings (abs s)" "cl_renderartifacts (abs s2) k = Some x"
      "hasFinalizer renderArtifactFinalizer x" "\<And>err s'. F (Inl err) s'"
      "\<And>s'. \<exists>a'. cl_renderartifacts (abs s') k = Some a' \<and> deleting a' \<Longrightarrow> G () s'" for x s2 F G
  proof -
    have none: "rb_renderArtifactRef (spec b) \<noteq> om_name (metadata x)"
      if "cl_renderbindings (abs s) (objectKey b) = Some b" "om_namespace (metadata b) = om_namespace (metadata x)" for b
      using assms(3) that x(1) unfolding artifactBound_def objectKey_iff by metis
    have "xs = []" if "set xs = {b. cl_renderbindings (abs s) (objectKey b) = Some b \<and> om_namespace (metadata b) = om_namespace (metadata x) \<and>
        om_name (metadata x) \<in> set (index_render_binding indexRenderBindingArtifactName b)}" for xs
    proof -
      have "b \<notin> set xs" for b
        using none [of b] unfolding that by (auto simp: index_render_binding_def nonEmpty_def index_defs)
      then show ?thesis by (cases xs) auto
    qed
    moreover have "\<not> list_ex (\<lambda>b. rb_renderArtifactRef (spec b) = om_name (metadata x)) xs"
      if "set xs = {b. cl_renderbindings (abs s) (objectKey b) = Some b \<and> om_namespace (metadata b) = om_namespace (metadata x)}" for xs
      using none by (simp add: list_ex_iff that)
    ultimately show ?thesis
      unfolding artifactCollect_def failR_def using x assms(4)
      by (auto intro!: rb.list_wp rb.apiList_wp art.delete_wp x(5,6) simp: settle_hasFinalizer)
  qed
  show "wp (finish (if deleting a then artifactDelete e a
       else if \<not> hasFinalizer renderArtifactFinalizer a then do {
         p \<leftarrow> res_patch (k_renderartifacts e) False a (appendFinalizer renderArtifactFinalizer a);
         (case p of Inl err \<Rightarrow> failR e err ''failed to add finalizer to RenderArtifact'' | Inr _ \<Rightarrow> ret (Inr ()))
       }
       else andThen (artifactStatus e a) (artifactCollect e)))
     (succeeds (\<lambda>_ s'. \<exists>a'. cl_renderartifacts (abs s') k = Some a' \<and> deleting a')) s1"
    using assms s1 unfolding wp_finish artifactStatus_def Let_def failR_def
    by (auto intro!: collect art.statusPatch_wp)
qed simp

end


text \<open>(C14) No chart is left behind: an artifact that carries the finalizer keeps it through every reconcile,
  also one that fails, until its tag is absent from the registry.\<close>

theorem artifact_released_after_cleanup:
  assumes "kube_laws e view" and "cl_renderartifacts (view s) k = Some a" "hasFinalizer renderArtifactFinalizer a"
    and "run_state (renderArtifactReconcile e k) s = (out, s')"
  shows "artifactHeld k (view s') \<or> \<not> cl_ociTags (view s') (artifactRef a)"
  using wp_run [OF kube_laws.renderArtifactReconcile_held [OF assms(1-3)] assms(4)] .

text \<open>Progress of the garbage collection: a successful reconcile of an artifact that no RenderBinding
  references marks it as deleted.\<close>

theorem unbound_artifact_collected:
  assumes "kube_laws e view" "\<not> k_testMode e" "watched e k"
    and "cl_renderartifacts (view s) k = Some a" "\<not> deleting a" "hasFinalizer renderArtifactFinalizer a"
    and "\<not> artifactBound (view s) k" and "run_state (renderArtifactReconcile e k) s = (Inr n, s')"
  shows "\<exists>a'. cl_renderartifacts (view s') k = Some a' \<and> deleting a'"
  using wp_succeeds [OF kube_laws.renderArtifactReconcile_collects [OF assms(1,4,6,7,2,3,5)] assms(8)] .

end
