(* ===== verification/TargetSpecs.thy ===== *)
theory TargetSpecs
  imports Kube Conflicts
begin

text \<open>
  What the Target controller (\<open>pkg/controller/target_controller.go\<close>) renders: the spec of the
  RenderTask of a release, the input of the bootstrap chart and the spec of its RenderTask,
  and the lookup of pull secrets by registry host.
\<close>

section \<open>Release render tasks\<close>

definition releaseChartName :: "release \<Rightarrow> string" where
  "releaseChartName rel = ''release-'' @ om_name (metadata rel)"

definition computeReleaseRenderTaskSpec ::
  "bool \<Rightarrow> release \<Rightarrow> component_version \<Rightarrow> registry \<Rightarrow> target \<Rightarrow> string gomap \<Rightarrow> go_error + render_task_spec" where
  "computeReleaseRenderTaskSpec strict rel cv reg tgt pullSecretsByHost =
     (let chartName = releaseChartName rel;
          repo = om_namespace (metadata tgt) @ ''/'' @ om_namespace (metadata rel) @ ''/'' @ chartName;
          targetNamespace = (case rel_targetNamespace (spec rel) of None \<Rightarrow> '''' | Some n \<Rightarrow> n)
      in case resolveResources (cv_resources (spec cv)) pullSecretsByHost strict of
           Inl err \<Rightarrow> Inl (Wrapped (''release '' @ om_name (metadata rel)) err)
         | Inr resolved \<Rightarrow>
             let tag = ''v0.0.'' @ itoa (om_generation (metadata rel)) @ ''-'' @ pullSecretsTag resolved in
             Inr \<lparr>rt_rendererConfig =
                    \<lparr>cfg_type = TypeRelease,
                     cfg_release =
                       \<lparr>rc_chart = \<lparr>chart_name = chartName,
                                    chart_description = ''Release of '' @ rel_componentVersionRef (spec rel),
                                    chart_version = tag, chart_appVersion = tag\<rparr>,
                        rc_input = \<lparr>ri_component = cv_componentRef (spec cv), ri_resources = resolved,
                                    ri_entrypoint = cv_entrypoint (spec cv)\<rparr>,
                        rc_targetNamespace = targetNamespace, rc_values = rel_values (spec rel)\<rparr>,
                     cfg_bootstrap = emptyBootstrapConfig\<rparr>,
                  rt_repository = repo, rt_tag = tag, rt_baseURL = reg_hostname (spec reg),
                  rt_pushSecretRef = reg_solarSecretRef (spec reg), rt_plainHTTP = reg_plainHTTP (spec reg),
                  rt_failedJobTTL = rel_failedJobTTL (spec rel), rt_ownerName = om_name (metadata tgt),
                  rt_ownerNamespace = om_namespace (metadata tgt), rt_ownerKind = ''Target''\<rparr>)"

section \<open>The bootstrap chart\<close>

fun bootstrapReleases ::
  "(string \<Rightarrow> go_error + string \<times> string) \<Rightarrow> string \<Rightarrow> bool \<Rightarrow> resolved_resource_access gomap \<Rightarrow> release_info list \<Rightarrow>
   go_error + resolved_resource_access gomap" where
  "bootstrapReleases parseReference pullSecret insecure resolved [] = Inr resolved"
| "bootstrapReleases parseReference pullSecret insecure resolved (ri # releases) =
     (if inf_uniqueName ri = '''' then
        Inl (ErrorText (''release '' @ goQuote (inf_name ri)
          @ '' has empty uniqueName; resolveReleaseConflicts must run before buildBootstrapInput''))
      else case parseReference (trimPrefix (inf_chartURL ri) ''oci://'') of
             Inl err \<Rightarrow> Inl (Wrapped (''failed to parse chartURL '' @ inf_chartURL ri) err)
           | Inr (context', identifier) \<Rightarrow>
               bootstrapReleases parseReference pullSecret insecure
                 (gomap_put (inf_uniqueName ri)
                    \<lparr>rra_repository = context', rra_insecure = insecure, rra_tag = identifier, rra_helm = None,
                     rra_pullSecretName = pullSecret\<rparr> resolved) releases)"

definition buildBootstrapInput ::
  "(string \<Rightarrow> go_error + string \<times> string) \<Rightarrow> target \<Rightarrow> release_info list \<Rightarrow> string \<Rightarrow> bool \<Rightarrow> go_error + bootstrap_input" where
  "buildBootstrapInput parseReference tgt releases renderRegistryPullSecret insecure =
     (case bootstrapReleases parseReference renderRegistryPullSecret insecure [] releases of
        Inl err \<Rightarrow> Inl err
      | Inr resolved \<Rightarrow> Inr \<lparr>bi_releases = resolved, bi_userdata = tgt_userdata (spec tgt)\<rparr>)"

text \<open>Go's \<open>%v\<close> of a slice of strings.\<close>

definition goSlice :: "string list \<Rightarrow> string" where
  "goSlice xs = ''['' @ joinStr '' '' xs @ '']''"

definition computeBootstrapRenderTaskSpec ::
  "(string \<Rightarrow> go_error + string \<times> string) \<Rightarrow> target \<Rightarrow> release_info list \<Rightarrow> registry \<Rightarrow> int \<Rightarrow> go_error + render_task_spec" where
  "computeBootstrapRenderTaskSpec parseReference tgt releases reg bootstrapVersion =
     (case buildBootstrapInput parseReference tgt releases (reg_targetPullSecretName (spec reg)) (reg_plainHTTP (spec reg)) of
        Inl err \<Rightarrow> Inl err
      | Inr input \<Rightarrow>
          let chartName = ''bootstrap-'' @ om_name (metadata tgt);
              repo = om_namespace (metadata tgt) @ ''/'' @ chartName;
              tag = ''v0.0.'' @ itoa bootstrapVersion
          in Inr \<lparr>rt_rendererConfig =
                    \<lparr>cfg_type = TypeBootstrap, cfg_release = emptyReleaseConfig,
                     cfg_bootstrap =
                       \<lparr>bc_chart = \<lparr>chart_name = chartName,
                                    chart_description = ''Bootstrap of '' @ goSlice (sort (map inf_name releases)),
                                    chart_version = tag, chart_appVersion = tag\<rparr>,
                        bc_input = input\<rparr>\<rparr>,
                  rt_repository = repo, rt_tag = tag, rt_baseURL = reg_hostname (spec reg),
                  rt_pushSecretRef = reg_solarSecretRef (spec reg), rt_plainHTTP = reg_plainHTTP (spec reg),
                  rt_failedJobTTL = None, rt_ownerName = om_name (metadata tgt),
                  rt_ownerNamespace = om_namespace (metadata tgt), rt_ownerKind = ''Target''\<rparr>)"

section \<open>Pull secrets\<close>

text \<open>The loop of \<open>buildPullSecretsLookup\<close>: \<open>lookup\<close> maps a host to its pull secret and the binding
  that brought it; two bindings of one host with different pull secrets are an error.\<close>

fun pullSecretsLoop ::
  "'s kube \<Rightarrow> (string \<times> string) gomap \<Rightarrow> registry_binding list \<Rightarrow> ('s, go_error + (string \<times> string) gomap) state" where
  "pullSecretsLoop e lookup [] = ret (Inr lookup)"
| "pullSecretsLoop e lookup (rb # rbs) = do {
     r \<leftarrow> res_get (k_registries e) \<lparr>nn_namespace = om_namespace (metadata rb), nn_name = rgb_registryRef (spec rb)\<rparr>;
     (case r of
        Inl err \<Rightarrow> ret (Inl (Wrapped (''failed to get Registry '' @ rgb_registryRef (spec rb)
                     @ '' referenced by RegistryBinding '' @ om_name (metadata rb)) (Api err)))
      | Inr reg \<Rightarrow>
          let host = toLower (reg_hostname (spec reg)); secret = reg_targetPullSecretName (spec reg) in
          (case map_of lookup host of
             Some (prevSecret, prevBinding) \<Rightarrow>
               if prevSecret \<noteq> secret then
                 ret (Inl (ErrorText (''conflicting RegistryBindings for host '' @ goQuote host @ '': RegistryBinding ''
                   @ prevBinding @ '' (pull secret '' @ goQuote prevSecret @ '') vs RegistryBinding '' @ om_name (metadata rb)
                   @ '' (pull secret '' @ goQuote secret @ '')'')))
               else pullSecretsLoop e (gomap_put host (secret, om_name (metadata rb)) lookup) rbs
           | None \<Rightarrow> pullSecretsLoop e (gomap_put host (secret, om_name (metadata rb)) lookup) rbs))
   }"

definition buildPullSecretsLookup :: "'s kube \<Rightarrow> target \<Rightarrow> ('s, go_error + string gomap) state" where
  "buildPullSecretsLookup e tgt = do {
     r \<leftarrow> res_list (k_registrybindings e)
            (inNamespaceMatching (om_namespace (metadata tgt)) indexRegistryBindingTargetName (om_name (metadata tgt)));
     (case r of
        Inl err \<Rightarrow> ret (Inl (Api err))
      | Inr rbs \<Rightarrow> do {
          l \<leftarrow> pullSecretsLoop e [] rbs;
          (case l of
             Inl err \<Rightarrow> ret (Inl err)
           | Inr lookup \<Rightarrow> ret (Inr (map (\<lambda>(host, secret, _). (host, secret)) lookup)))
        })
   }"

end
