(* ===== verification/TargetController.thy ===== *)
theory TargetController
  imports TargetSpecs RegistryBindingController RenderTaskController RenderArtifactController Grants
begin

text \<open>
  \<open>pkg/controller/target_controller.go\<close>: the reconciler that renders a Target. It resolves the
  render registry, collects the ReleaseBindings of the target from its own namespace and from
  the namespaces that ReferenceGrants admit, resolves conflicts, keeps one RenderTask per
  release and one for the bootstrap chart, links the pushed charts by RenderArtifacts and
  RenderBindings, and removes what it no longer needs. The long \<open>Reconcile\<close> is cut into its
  consecutive blocks; the \<open>target\<close> variable, which the status writes update, is passed along.
\<close>

definition targetFinalizer :: string where "targetFinalizer = ''solar.opendefense.cloud/target-finalizer''"
definition ConditionTypeRegistryResolved :: string where "ConditionTypeRegistryResolved = ''RegistryResolved''"
definition ConditionTypeReleasesResolved :: string where "ConditionTypeReleasesResolved = ''ReleasesResolved''"
definition ConditionTypeReleasesRendered :: string where "ConditionTypeReleasesRendered = ''ReleasesRendered''"
definition ConditionTypeBootstrapReady :: string where "ConditionTypeBootstrapReady = ''BootstrapReady''"

lemmas target_condition_defs = ConditionTypeRegistryResolved_def ConditionTypeReleasesResolved_def
  ConditionTypeReleasesRendered_def ConditionTypeBootstrapReady_def

section \<open>Conditions\<close>

definition setCondition ::
  "'s kube \<Rightarrow> target \<Rightarrow> string \<Rightarrow> condition_status \<Rightarrow> string \<Rightarrow> string \<Rightarrow> ('s, go_error + target) state" where
  "setCondition e tgt condType st reason msg = do {
     t \<leftarrow> k_now e;
     (case k_setStatusCondition e t (tgt_conditions (status tgt))
        \<lparr>cond_type = condType, cond_status = st, cond_observedGeneration = om_generation (metadata tgt),
         cond_lastTransitionTime = None, cond_reason = reason, cond_message = msg\<rparr> of (conds, changed) \<Rightarrow>
        let tgt' = tgt\<lparr>status := (status tgt)\<lparr>tgt_conditions := conds\<rparr>\<rparr> in
        if changed then do {
          u \<leftarrow> res_statusUpdate (k_targets e) tgt';
          (case u of
             Inl err \<Rightarrow> ret (Inl (Wrapped (''failed to update Target status condition '' @ condType) (Api err)))
           | Inr stored \<Rightarrow> ret (Inr stored))
        } else ret (Inr tgt'))
   }"

definition setResolvedCondition :: "'s kube \<Rightarrow> target \<Rightarrow> string list \<Rightarrow> ('s, go_error + target) state" where
  "setResolvedCondition e tgt skipped =
     (if length skipped = 0
      then setCondition e tgt ConditionTypeReleasesResolved ConditionTrue ''NoConflicts'' ''''
      else setCondition e tgt ConditionTypeReleasesResolved ConditionTrue ''Resolved'' (joinStr ''; '' skipped))"

text \<open>\<open>return ctrl.Result\{RequeueAfter: requeueAfterForCondition(\dots, time.Now())\}, nil\<close>.\<close>

definition requeueFor :: "'s kube \<Rightarrow> target \<Rightarrow> string \<Rightarrow> ('s, outcome + 'a) state" where
  "requeueFor e tgt condType = do {
     t \<leftarrow> k_now e;
     b \<leftarrow> k_backoff e;
     returnR (requeueAfterForCondition b (k_findStatusCondition e (tgt_conditions (status tgt)) condType) t)
   }"

section \<open>Owned objects\<close>

text \<open>\<open>if err := r.Delete(ctx, x); client.IgnoreNotFound(err) != nil \{ return err \}\<close>.\<close>

definition deleteIgnoringNotFound ::
  "('s, 'spec, 'status) resource \<Rightarrow> ('spec, 'status) object \<Rightarrow> ('s, api_error + unit) state" where
  "deleteIgnoringNotFound R x = do {
     d \<leftarrow> res_delete R x;
     (case d of
        Inl err \<Rightarrow> if isNotFound err then ret (Inr ()) else ret (Inl err)
      | Inr _ \<Rightarrow> ret (Inr ()))
   }"

definition deleteStaleRenderTasks ::
  "'s kube \<Rightarrow> target \<Rightarrow> string set \<Rightarrow> ('s, api_error + unit) state" where
  "deleteStaleRenderTasks e tgt currentRTNames = do {
     l \<leftarrow> res_list (k_rendertasks e)
            (inNamespaceMatching (om_namespace (metadata tgt)) indexOwnerKind ''Target'');
     (case l of
        Inl err \<Rightarrow> ret (Inl err)
      | Inr rts \<Rightarrow>
          forEach (\<lambda>rt.
            if rt_ownerName (spec rt) \<noteq> om_name (metadata tgt) \<or> rt_ownerNamespace (spec rt) \<noteq> om_namespace (metadata tgt)
            then ret (Inr ())
            else if om_name (metadata rt) \<in> currentRTNames then ret (Inr ())
            else andThen (deleteIgnoringNotFound (k_rendertasks e) rt) (\<lambda>_. do {
                   k_eventf e ''Normal'' ''Deleted'' (''Deleted stale RenderTask '' @ om_name (metadata rt));
                   ret (Inr ())
                 })) rts)
   }"

definition deleteOwnedRenderTasks :: "'s kube \<Rightarrow> target \<Rightarrow> ('s, api_error + unit) state" where
  "deleteOwnedRenderTasks e tgt = do {
     l \<leftarrow> res_list (k_rendertasks e)
            (inNamespaceMatching (om_namespace (metadata tgt)) indexOwnerKind ''Target'');
     (case l of
        Inl err \<Rightarrow> ret (Inl err)
      | Inr rts \<Rightarrow>
          forEach (\<lambda>rt.
            if rt_ownerName (spec rt) = om_name (metadata tgt) \<and> rt_ownerNamespace (spec rt) = om_namespace (metadata tgt)
            then deleteIgnoringNotFound (k_rendertasks e) rt
            else ret (Inr ())) rts)
   }"

definition ownsBinding :: "target \<Rightarrow> render_binding \<Rightarrow> bool" where
  "ownsBinding tgt b \<longleftrightarrow>
     rb_ownerKind (spec b) = ''Target'' \<and> rb_ownerName (spec b) = om_name (metadata tgt) \<and>
     rb_ownerNamespace (spec b) = om_namespace (metadata tgt)"

definition deleteStaleRenderBindings ::
  "'s kube \<Rightarrow> target \<Rightarrow> string set \<Rightarrow> ('s, api_error + unit) state" where
  "deleteStaleRenderBindings e tgt currentBindingNames = do {
     l \<leftarrow> res_apiList (k_renderbindings e) (inNamespace (om_namespace (metadata tgt)));
     (case l of
        Inl err \<Rightarrow> ret (Inl err)
      | Inr bs \<Rightarrow>
          forEach (\<lambda>b.
            if \<not> ownsBinding tgt b then ret (Inr ())
            else if om_name (metadata b) \<in> currentBindingNames then ret (Inr ())
            else deleteIgnoringNotFound (k_renderbindings e) b) bs)
   }"

definition deleteOwnedRenderBindings :: "'s kube \<Rightarrow> target \<Rightarrow> ('s, api_error + unit) state" where
  "deleteOwnedRenderBindings e tgt = do {
     l \<leftarrow> res_apiList (k_renderbindings e) (inNamespace (om_namespace (metadata tgt)));
     (case l of
        Inl err \<Rightarrow> ret (Inl err)
      | Inr bs \<Rightarrow>
          forEach (\<lambda>b. if ownsBinding tgt b then deleteIgnoringNotFound (k_renderbindings e) b else ret (Inr ())) bs)
   }"

definition ensureRenderArtifact ::
  "'s kube \<Rightarrow> string \<Rightarrow> render_task \<Rightarrow> string \<Rightarrow> string \<Rightarrow> ('s, go_error + unit) state" where
  "ensureRenderArtifact e name rt flavor pushSecretNamespace = do {
     r \<leftarrow> res_get (k_renderartifacts e) \<lparr>nn_namespace = om_namespace (metadata rt), nn_name = name\<rparr>;
     (case r of
        Inr artifact \<Rightarrow>
          if deleting artifact
          then ret (Inl (ErrorText (''RenderArtifact '' @ om_namespace (metadata rt) @ ''/'' @ name
                                    @ '' is terminating; requeuing'')))
          else ret (Inr ())
      | Inl err \<Rightarrow>
          if \<not> isNotFound err then ret (Inl (Api err))
          else do {
            c \<leftarrow> res_create (k_renderartifacts e)
                   \<lparr>metadata = newMeta name (om_namespace (metadata rt)),
                    spec = \<lparr>art_baseURL = rt_baseURL (spec rt), art_repository = rt_repository (spec rt),
                            art_tag = rt_tag (spec rt), art_renderTaskRef = om_name (metadata rt),
                            art_pushSecretRef = rt_pushSecretRef (spec rt),
                            art_pushSecretNamespace = pushSecretNamespace, art_registryFlavor = flavor,
                            art_plainHTTP = rt_plainHTTP (spec rt)\<rparr>,
                    status = \<lparr>art_chartURL = '''', art_conditions = []\<rparr>\<rparr>;
            (case c of
               Inl cerr \<Rightarrow> if isAlreadyExists cerr then ret (Inr ()) else ret (Inl (Api cerr))
             | Inr _ \<Rightarrow> ret (Inr ()))
          })
   }"

definition ensureRenderBinding :: "'s kube \<Rightarrow> target \<Rightarrow> string \<Rightarrow> string \<Rightarrow> ('s, go_error + unit) state" where
  "ensureRenderBinding e tgt artifactName bindingName = do {
     r \<leftarrow> res_get (k_renderbindings e) \<lparr>nn_namespace = om_namespace (metadata tgt), nn_name = bindingName\<rparr>;
     (case r of
        Inr _ \<Rightarrow> ret (Inr ())
      | Inl err \<Rightarrow>
          if \<not> isNotFound err then ret (Inl (Api err))
          else do {
            c \<leftarrow> res_create (k_renderbindings e)
                   \<lparr>metadata = newMeta bindingName (om_namespace (metadata tgt)),
                    spec = \<lparr>rb_renderArtifactRef = artifactName, rb_ownerKind = ''Target'',
                            rb_ownerName = om_name (metadata tgt), rb_ownerNamespace = om_namespace (metadata tgt)\<rparr>,
                    status = ()\<rparr>;
            (case c of
               Inl cerr \<Rightarrow> if isAlreadyExists cerr then ret (Inr ()) else ret (Inl (Api cerr))
             | Inr _ \<Rightarrow> ret (Inr ()))
          })
   }"

text \<open>\<open>return ctrl.Result\{\}, errLogAndWrap(log, err, text)\<close> on the error of a helper.\<close>

definition wrapReturn :: "'s kube \<Rightarrow> string \<Rightarrow> ('s, go_error + 'a) state \<Rightarrow> ('s, outcome + 'a) state" where
  "wrapReturn e text m = bindM m (\<lambda>r. case r of
     Inl err \<Rightarrow> ret (Inl (wrapErr (k_testMode e) err text 0)) | Inr a \<Rightarrow> ret (Inr a))"

definition apiErr :: "('s, api_error + 'a) state \<Rightarrow> ('s, go_error + 'a) state" where
  "apiErr m = bindM m (\<lambda>r. case r of Inl err \<Rightarrow> ret (Inl (Api err)) | Inr a \<Rightarrow> ret (Inr a))"

section \<open>Deletion of a target\<close>

definition targetRegistryNamespace :: "target \<Rightarrow> string" where
  "targetRegistryNamespace tgt =
     (if tgt_renderRegistryNamespace (spec tgt) \<noteq> '''' then tgt_renderRegistryNamespace (spec tgt)
      else om_namespace (metadata tgt))"

definition targetRegistryKey :: "target \<Rightarrow> namespaced_name" where
  "targetRegistryKey tgt = \<lparr>nn_namespace = targetRegistryNamespace tgt, nn_name = tgt_renderRegistryRef (spec tgt)\<rparr>"

definition targetUnprotect :: "'s kube \<Rightarrow> target \<Rightarrow> ('s, outcome + unit) state" where
  "targetUnprotect e tgt =
     (if tgt_renderRegistryRef (spec tgt) \<noteq> '''' then do {
        r \<leftarrow> res_get (k_registries e) (targetRegistryKey tgt);
        (case r of
           Inl err \<Rightarrow> if isNotFound err then ret (Inr ())
                      else failR e err ''failed to get Registry for finalizer cleanup''
         | Inr reg \<Rightarrow> orReturn (removeRegistryRefFinalizer e (Some tgt) None reg))
      } else ret (Inr ()))"

definition targetDelete :: "'s kube \<Rightarrow> namespaced_name \<Rightarrow> target \<Rightarrow> ('s, outcome + unit) state" where
  "targetDelete e req tgt = do {
     k_eventf e ''Warning'' ''Deleting'' ''Target is being deleted, cleaning up RenderTasks'';
     andThen (wrapReturn e ''failed to delete owned RenderTasks'' (apiErr (deleteOwnedRenderTasks e tgt))) (\<lambda>_.
     andThen (wrapReturn e ''failed to delete owned RenderBindings'' (apiErr (deleteOwnedRenderBindings e tgt))) (\<lambda>_.
     andThen (targetUnprotect e tgt) (\<lambda>_.
       removeSelfFinalizer e (k_targets e) targetFinalizer ''Target'' req tgt)))
   }"

section \<open>The render registry\<close>

definition registryGranted :: "'s kube \<Rightarrow> string \<Rightarrow> string \<Rightarrow> ('s, api_error + bool) state" where
  "registryGranted e registryNamespace fromNamespace = do {
     r \<leftarrow> res_list (k_referencegrants e) (inNamespace registryNamespace);
     (case r of
        Inl err \<Rightarrow> ret (Inl err)
      | Inr grants \<Rightarrow> ret (Inr (list_ex (\<lambda>g. grantPermitsRegistryAccess g fromNamespace) grants)))
   }"

definition targetGrantCheck :: "'s kube \<Rightarrow> target \<Rightarrow> ('s, outcome + unit) state" where
  "targetGrantCheck e tgt =
     (let registryNamespace = targetRegistryNamespace tgt in
      if registryNamespace \<noteq> om_namespace (metadata tgt) then
        andThen (wrapReturn e ''failed to check ReferenceGrant for Registry''
                   (apiErr (registryGranted e registryNamespace (om_namespace (metadata tgt)))))
          (\<lambda>granted.
             if granted then ret (Inr ())
             else andThen (orReturn (setCondition e tgt ConditionTypeRegistryResolved ConditionFalse ''NotGranted''
                     (''No ReferenceGrant allows access to Registry '' @ tgt_renderRegistryRef (spec tgt)
                      @ '' in namespace '' @ registryNamespace)))
                    (\<lambda>tgt'. requeueFor e tgt' ConditionTypeRegistryResolved))
      else ret (Inr ()))"

definition resolveRegistry :: "'s kube \<Rightarrow> target \<Rightarrow> ('s, outcome + target \<times> registry) state" where
  "resolveRegistry e tgt =
     andThen (targetGrantCheck e tgt) (\<lambda>_. do {
       r \<leftarrow> res_get (k_registries e) (targetRegistryKey tgt);
       (case r of
          Inl err \<Rightarrow>
            if isNotFound err then
              andThen (orReturn (setCondition e tgt ConditionTypeRegistryResolved ConditionFalse ''NotFound''
                         (''Registry not found: '' @ tgt_renderRegistryRef (spec tgt))))
                (\<lambda>tgt'. requeueFor e tgt' ConditionTypeRegistryResolved)
            else failR e err ''failed to get Registry''
        | Inr reg \<Rightarrow>
            andThen (addProtection e (k_registries e) True registryRefFinalizer ''Registry'' reg) (\<lambda>_.
              if reg_solarSecretRef (spec reg) = None then
                andThen (orReturn (setCondition e tgt ConditionTypeRegistryResolved ConditionFalse ''MissingSolarSecretRef''
                           ''Registry does not have SolarSecretRef set, required for rendering''))
                  (\<lambda>_. returnR 0)
              else
                andThen (orReturn (setCondition e tgt ConditionTypeRegistryResolved ConditionTrue ''Resolved''
                           (''Registry resolved: '' @ om_name (metadata reg))))
                  (\<lambda>tgt'. ret (Inr (tgt', reg)))))
     })"

text \<open>The pull secrets; a failure is reported in a condition first.\<close>

definition targetPullSecrets :: "'s kube \<Rightarrow> target \<Rightarrow> ('s, outcome + string gomap) state" where
  "targetPullSecrets e tgt = do {
     r \<leftarrow> buildPullSecretsLookup e tgt;
     (case r of
        Inr lookup \<Rightarrow> ret (Inr lookup)
      | Inl err \<Rightarrow>
          andThen (orReturn (setCondition e tgt ConditionTypeReleasesRendered ConditionFalse ''RegistryBindingConflict''
                     (error_text err)))
            (\<lambda>_. ret (Inl (wrapErr (k_testMode e) err ''failed to build pull secrets lookup from RegistryBindings'' 0))))
   }"

section \<open>Bindings of a target\<close>

text \<open>The inner loops of \<open>collectCrossNamespaceReleaseBindings\<close>, with the set of keys already seen.\<close>

fun addUnseen ::
  "target \<Rightarrow> string set \<times> release_binding list \<Rightarrow> release_binding list \<Rightarrow> string set \<times> release_binding list" where
  "addUnseen tgt acc [] = acc"
| "addUnseen tgt (seen, result) (rb # rbs) =
     (let key = om_namespace (metadata rb) @ ''/'' @ om_name (metadata rb) in
      if rlb_targetNamespace (spec rb) \<noteq> om_namespace (metadata tgt) then addUnseen tgt (seen, result) rbs
      else if key \<in> seen then addUnseen tgt (seen, result) rbs
      else addUnseen tgt (insert key seen, result @ [rb]) rbs)"

fun crossBindingsFrom ::
  "'s kube \<Rightarrow> target \<Rightarrow> string set \<times> release_binding list \<Rightarrow> reference_grant_from list \<Rightarrow>
   ('s, api_error + string set \<times> release_binding list) state" where
  "crossBindingsFrom e tgt acc [] = ret (Inr acc)"
| "crossBindingsFrom e tgt acc (from' # froms) =
     (if from_kind from' \<noteq> ''ReleaseBinding'' \<or> from_group from' \<noteq> solarGroup then crossBindingsFrom e tgt acc froms
      else do {
        r \<leftarrow> res_list (k_releasebindings e)
               (inNamespaceMatching (from_namespace from') indexReleaseBindingTargetName (om_name (metadata tgt)));
        (case r of
           Inl err \<Rightarrow> ret (Inl err)
         | Inr rbs \<Rightarrow> crossBindingsFrom e tgt (addUnseen tgt acc rbs) froms)
      })"

fun crossBindingsGrants ::
  "'s kube \<Rightarrow> target \<Rightarrow> string set \<times> release_binding list \<Rightarrow> reference_grant list \<Rightarrow>
   ('s, api_error + string set \<times> release_binding list) state" where
  "crossBindingsGrants e tgt acc [] = ret (Inr acc)"
| "crossBindingsGrants e tgt acc (grant # grants) =
     (if \<not> grantsReleaseBindingToTargetResource grant then crossBindingsGrants e tgt acc grants
      else andThen (crossBindingsFrom e tgt acc (rg_from (spec grant))) (\<lambda>acc'. crossBindingsGrants e tgt acc' grants))"

definition collectCrossNamespaceReleaseBindings ::
  "'s kube \<Rightarrow> target \<Rightarrow> ('s, api_error + release_binding list) state" where
  "collectCrossNamespaceReleaseBindings e tgt = do {
     r \<leftarrow> res_list (k_referencegrants e) (inNamespace (om_namespace (metadata tgt)));
     (case r of
        Inl err \<Rightarrow> ret (Inl err)
      | Inr grants \<Rightarrow>
          andThen (crossBindingsGrants e tgt ({}, []) grants) (\<lambda>(seen, result). ret (Inr result)))
   }"

definition collectBindings :: "'s kube \<Rightarrow> target \<Rightarrow> ('s, outcome + release_binding list) state" where
  "collectBindings e tgt = do {
     r \<leftarrow> res_apiList (k_releasebindings e) (inNamespace (om_namespace (metadata tgt)));
     (case r of
        Inl err \<Rightarrow> failR e err ''failed to list ReleaseBindings''
      | Inr allBindings \<Rightarrow>
          andThen (wrapReturn e ''failed to collect cross-namespace ReleaseBindings''
                     (apiErr (collectCrossNamespaceReleaseBindings e tgt)))
            (\<lambda>crossNs. ret (Inr (filter (\<lambda>rb. rlb_targetRef (spec rb) = om_name (metadata tgt) \<and>
                                           rlb_targetNamespace (spec rb) = '''') allBindings @ crossNs))))
   }"

definition noBindings :: "'s kube \<Rightarrow> target \<Rightarrow> ('s, outcome + 'a) state" where
  "noBindings e tgt =
     andThen (orReturn (setCondition e tgt ConditionTypeReleasesRendered ConditionFalse ''NoReleaseBindings''
                ''No ReleaseBindings found for this target'')) (\<lambda>tgt1.
     andThen (orReturn (setCondition e tgt1 ConditionTypeReleasesResolved ConditionFalse ''NoReleaseBindings''
                ''No ReleaseBindings found for this target'')) (\<lambda>tgt2.
     andThen (wrapReturn e ''failed to clean up stale RenderTasks after all bindings removed''
                (apiErr (deleteStaleRenderTasks e tgt2 {}))) (\<lambda>_.
     andThen (wrapReturn e ''failed to clean up stale RenderBindings after all bindings removed''
                (apiErr (deleteStaleRenderBindings e tgt2 {}))) (\<lambda>_.
       returnR 0))))"

section \<open>Bound releases\<close>

text \<open>The body of the loop over the bindings; \<open>None\<close> is the \<open>continue\<close> with \<open>pendingDeps = true\<close>.\<close>

definition boundCVNamespace :: "release \<Rightarrow> string" where
  "boundCVNamespace rel =
     (if rel_componentVersionNamespace (spec rel) \<noteq> '''' then rel_componentVersionNamespace (spec rel)
      else om_namespace (metadata rel))"

definition cvAccessGranted :: "'s kube \<Rightarrow> release \<Rightarrow> ('s, outcome + bool) state" where
  "cvAccessGranted e rel =
     (if boundCVNamespace rel \<noteq> om_namespace (metadata rel) then do {
        g \<leftarrow> res_list (k_referencegrants e) (inNamespace (boundCVNamespace rel));
        (case g of
           Inl err \<Rightarrow> failR e err ''failed to check ReferenceGrant for cross-namespace ComponentVersion''
         | Inr grants \<Rightarrow>
             ret (Inr (list_ex (\<lambda>g. grantPermitsComponentVersionAccess g (om_namespace (metadata rel))) grants)))
      } else ret (Inr True))"

definition newReleaseInfo :: "target \<Rightarrow> release_binding \<Rightarrow> release \<Rightarrow> component_version \<Rightarrow> release_info" where
  "newReleaseInfo tgt binding rel cv =
     \<lparr>inf_bindingKey = om_namespace (metadata binding) @ ''/'' @ om_name (metadata binding),
      inf_name = om_name (metadata rel), inf_uniqueName = '''', inf_release = rel, inf_cv = cv,
      inf_rtName = releaseRenderTaskName (om_namespace (metadata rel)) (om_name (metadata rel))
                     (om_name (metadata tgt)) (om_generation (metadata rel)),
      inf_chartURL = '''', inf_artifactName = '''', inf_artifactBindingName = ''''\<rparr>"

definition boundRelease :: "'s kube \<Rightarrow> target \<Rightarrow> release_binding \<Rightarrow> ('s, outcome + release_info option) state" where
  "boundRelease e tgt binding = do {
     r \<leftarrow> res_get (k_releases e)
            \<lparr>nn_namespace = om_namespace (metadata binding), nn_name = rlb_releaseRef (spec binding)\<rparr>;
     (case r of
        Inl err \<Rightarrow> if isNotFound err then ret (Inr None) else failR e err ''failed to get Release''
      | Inr rel \<Rightarrow>
          andThen (cvAccessGranted e rel) (\<lambda>granted.
            if \<not> granted then ret (Inr None)
            else do {
              c \<leftarrow> res_get (k_componentversions e)
                     \<lparr>nn_namespace = boundCVNamespace rel, nn_name = rel_componentVersionRef (spec rel)\<rparr>;
              (case c of
                 Inl err \<Rightarrow> if isNotFound err then ret (Inr None) else failR e err ''failed to get ComponentVersion''
               | Inr cv \<Rightarrow> ret (Inr (Some (newReleaseInfo tgt binding rel cv))))
            }))
   }"

fun boundReleases ::
  "'s kube \<Rightarrow> target \<Rightarrow> release_binding list \<Rightarrow> ('s, outcome + release_info list \<times> bool) state" where
  "boundReleases e tgt [] = ret (Inr ([], False))"
| "boundReleases e tgt (binding # bindings) =
     andThen (boundRelease e tgt binding) (\<lambda>ri.
     andThen (boundReleases e tgt bindings) (\<lambda>(releases, pendingDeps).
       case ri of
         None \<Rightarrow> ret (Inr (releases, True))
       | Some r \<Rightarrow> ret (Inr (r # releases, pendingDeps))))"

section \<open>Release render tasks\<close>

definition newRenderTask :: "string \<Rightarrow> string \<Rightarrow> render_task_spec \<Rightarrow> render_task" where
  "newRenderTask name ns sp = \<lparr>metadata = newMeta name ns, spec = sp, status = emptyRenderTaskStatus\<rparr>"

text \<open>The spec of a release's RenderTask; a failure is reported in a condition first.\<close>

definition releaseTaskSpec ::
  "'s kube \<Rightarrow> target \<Rightarrow> registry \<Rightarrow> string gomap \<Rightarrow> release_info \<Rightarrow> string \<Rightarrow> ('s, outcome + render_task_spec) state" where
  "releaseTaskSpec e tgt reg pullSecrets ri text =
     (case computeReleaseRenderTaskSpec (k_registryBindingStrict e) (inf_release ri) (inf_cv ri) reg tgt pullSecrets of
        Inr sp \<Rightarrow> ret (Inr sp)
      | Inl err \<Rightarrow>
          andThen (orReturn (setCondition e tgt ConditionTypeReleasesRendered ConditionFalse ''MissingRegistryBinding''
                     (error_text err)))
            (\<lambda>_. ret (Inl (wrapErr (k_testMode e) err text 0))))"

definition releaseTask ::
  "'s kube \<Rightarrow> target \<Rightarrow> registry \<Rightarrow> string gomap \<Rightarrow> release_info \<Rightarrow> ('s, outcome + render_task) state" where
  "releaseTask e tgt reg pullSecrets ri = do {
     r \<leftarrow> res_get (k_rendertasks e) \<lparr>nn_namespace = om_namespace (metadata tgt), nn_name = inf_rtName ri\<rparr>;
     (case r of
        Inl err \<Rightarrow>
          if isNotFound err then
            andThen (releaseTaskSpec e tgt reg pullSecrets ri ''failed to compute release RenderTask spec'') (\<lambda>sp. do {
              c \<leftarrow> res_create (k_rendertasks e) (newRenderTask (inf_rtName ri) (om_namespace (metadata tgt)) sp);
              (case c of
                 Inl cerr \<Rightarrow> failR e cerr ''failed to create release RenderTask''
               | Inr rt \<Rightarrow> do {
                   k_eventf e ''Normal'' ''Created'' (''Created release RenderTask '' @ inf_rtName ri @ '' for release '' @ inf_name ri);
                   ret (Inr rt)
                 })
            })
          else failR e err ''failed to get release RenderTask''
      | Inr rt \<Rightarrow>
          andThen (releaseTaskSpec e tgt reg pullSecrets ri ''failed to compute release RenderTask spec for comparison'') (\<lambda>sp.
            if k_renderTaskSpecEqual e (spec rt) sp then ret (Inr rt)
            else do {
              d \<leftarrow> res_delete (k_rendertasks e) rt;
              (case d of
                 Inl derr \<Rightarrow> failR e derr ''failed to delete stale release RenderTask''
               | Inr _ \<Rightarrow> do {
                   c \<leftarrow> res_create (k_rendertasks e) (newRenderTask (inf_rtName ri) (om_namespace (metadata tgt)) sp);
                   (case c of
                      Inl cerr \<Rightarrow> failR e cerr ''failed to recreate release RenderTask''
                    | Inr rt' \<Rightarrow> do {
                        k_eventf e ''Normal'' ''Updated''
                          (''Recreated release RenderTask '' @ inf_rtName ri @ '' for release '' @ inf_name ri @ '' (spec drift)'');
                        ret (Inr rt')
                      })
                 })
            }))
   }"

text \<open>RenderBinding first, then RenderArtifact, for the chart that a RenderTask pushed.\<close>

definition linkArtifact ::
  "'s kube \<Rightarrow> target \<Rightarrow> registry \<Rightarrow> render_task \<Rightarrow> string \<Rightarrow> ('s, outcome + string \<times> string) state" where
  "linkArtifact e tgt reg rt what =
     (let aName = renderArtifactName (om_namespace (metadata tgt)) (rt_baseURL (spec rt)) (rt_repository (spec rt)) (rt_tag (spec rt));
          bName = renderBindingName aName (om_name (metadata tgt))
      in andThen (wrapReturn e (''failed to ensure RenderBinding for '' @ what) (ensureRenderBinding e tgt aName bName)) (\<lambda>_.
         andThen (wrapReturn e (''failed to ensure RenderArtifact for '' @ what)
                    (ensureRenderArtifact e aName rt (reg_flavor (spec reg)) (targetRegistryNamespace tgt))) (\<lambda>_.
           ret (Inr (aName, bName)))))"

text \<open>The body of the loop over the releases: the updated release and whether it is rendered.\<close>

definition renderRelease ::
  "'s kube \<Rightarrow> target \<Rightarrow> registry \<Rightarrow> string gomap \<Rightarrow> release_info \<Rightarrow> ('s, outcome + release_info \<times> bool) state" where
  "renderRelease e tgt reg pullSecrets ri =
     andThen (releaseTask e tgt reg pullSecrets ri) (\<lambda>rt.
       if k_isStatusConditionTrue e (rt_conditions (status rt)) ConditionTypeJobFailed then
         andThen (orReturn (setCondition e tgt ConditionTypeReleasesRendered ConditionFalse ''ReleaseFailed''
                    (''Release '' @ inf_name ri @ '' rendering failed'')))
           (\<lambda>_. returnR 0)
       else if k_isStatusConditionTrue e (rt_conditions (status rt)) ConditionTypeJobSucceeded \<and> rt_chartURL (status rt) \<noteq> '''' then
         andThen (linkArtifact e tgt reg rt ''release'') (\<lambda>(aName, bName).
           ret (Inr (ri\<lparr>inf_chartURL := rt_chartURL (status rt), inf_artifactName := aName, inf_artifactBindingName := bName\<rparr>,
                     True)))
       else ret (Inr (ri, False)))"

fun renderReleases ::
  "'s kube \<Rightarrow> target \<Rightarrow> registry \<Rightarrow> string gomap \<Rightarrow> release_info list \<Rightarrow> ('s, outcome + release_info list \<times> bool) state" where
  "renderReleases e tgt reg pullSecrets [] = ret (Inr ([], True))"
| "renderReleases e tgt reg pullSecrets (ri # ris) =
     andThen (renderRelease e tgt reg pullSecrets ri) (\<lambda>(ri', rendered).
     andThen (renderReleases e tgt reg pullSecrets ris) (\<lambda>(ris', allRendered).
       ret (Inr (ri' # ris', rendered \<and> allRendered))))"

text \<open>The verdict after the loop; it goes on only when every release is rendered.\<close>

definition renderVerdict :: "'s kube \<Rightarrow> target \<Rightarrow> bool \<Rightarrow> bool \<Rightarrow> ('s, outcome + target) state" where
  "renderVerdict e tgt pendingDeps allRendered =
     (if pendingDeps then
        andThen (orReturn (setCondition e tgt ConditionTypeReleasesRendered ConditionFalse ''MissingDependencies''
                   ''One or more bound Releases or ComponentVersions not found''))
          (\<lambda>tgt'. requeueFor e tgt' ConditionTypeReleasesRendered)
      else if \<not> allRendered then
        andThen (orReturn (setCondition e tgt ConditionTypeReleasesRendered ConditionFalse ''Pending''
                   ''Waiting for release RenderTasks to complete''))
          (\<lambda>tgt'. requeueFor e tgt' ConditionTypeReleasesRendered)
      else orReturn (setCondition e tgt ConditionTypeReleasesRendered ConditionTrue ''AllRendered''
             ''All releases rendered successfully''))"

section \<open>The bootstrap render task\<close>

text \<open>Whether a new bootstrap render is needed, at which version, and the current RenderTask.\<close>

definition bootstrapNeeded ::
  "'s kube \<Rightarrow> target \<Rightarrow> registry \<Rightarrow> release_info list \<Rightarrow> ('s, outcome + int \<times> render_task option) state" where
  "bootstrapNeeded e tgt reg releases =
     (let version = tgt_bootstrapVersion (status tgt) in do {
        r \<leftarrow> res_get (k_rendertasks e)
               \<lparr>nn_namespace = om_namespace (metadata tgt), nn_name = targetRenderTaskName (om_name (metadata tgt)) version\<rparr>;
        (case r of
           Inl err \<Rightarrow> if isNotFound err then ret (Inr (version, None)) else failR e err ''failed to get bootstrap RenderTask''
         | Inr rt \<Rightarrow>
             (case buildBootstrapInput (k_parseReference e) tgt releases (reg_targetPullSecretName (spec reg)) (reg_plainHTTP (spec reg)) of
                Inl err \<Rightarrow> ret (Inl (wrapErr (k_testMode e) err ''failed to build desired bootstrap input for comparison'' 0))
              | Inr desired \<Rightarrow>
                  if k_bootstrapInputEqual e desired (bc_input (cfg_bootstrap (rt_rendererConfig (spec rt))))
                  then ret (Inr (version, Some rt))
                  else ret (Inr (int64_wrap (version + 1), None))))
      })"

definition createBootstrapTask ::
  "'s kube \<Rightarrow> target \<Rightarrow> registry \<Rightarrow> release_info list \<Rightarrow> int \<Rightarrow> ('s, outcome + render_task) state" where
  "createBootstrapTask e tgt reg releases version =
     (case computeBootstrapRenderTaskSpec (k_parseReference e) tgt releases reg version of
        Inl err \<Rightarrow> ret (Inl (wrapErr (k_testMode e) err ''failed to compute bootstrap RenderTask spec'' 0))
      | Inr sp \<Rightarrow>
          let name = targetRenderTaskName (om_name (metadata tgt)) version in do {
            c \<leftarrow> res_create (k_rendertasks e) (newRenderTask name (om_namespace (metadata tgt)) sp);
            (case c of
               Inl err \<Rightarrow>
                 if \<not> isAlreadyExists err then failR e err ''failed to create bootstrap RenderTask''
                 else do {
                   g \<leftarrow> res_get (k_rendertasks e) \<lparr>nn_namespace = om_namespace (metadata tgt), nn_name = name\<rparr>;
                   (case g of
                      Inl gerr \<Rightarrow> failR e gerr ''failed to get existing bootstrap RenderTask''
                    | Inr rt \<Rightarrow> ret (Inr rt))
                 }
             | Inr rt \<Rightarrow> do {
                 k_eventf e ''Normal'' ''Created''
                   (''Created bootstrap RenderTask '' @ name @ '' (version '' @ itoa version @ '')'');
                 ret (Inr rt)
               })
          })"

text \<open>The bootstrap RenderTask of the target, with the version persisted in the status.\<close>

definition bootstrapTask ::
  "'s kube \<Rightarrow> target \<Rightarrow> registry \<Rightarrow> release_info list \<Rightarrow> ('s, outcome + target \<times> string \<times> render_task) state" where
  "bootstrapTask e tgt reg releases =
     andThen (bootstrapNeeded e tgt reg releases) (\<lambda>(version, current).
       let name = targetRenderTaskName (om_name (metadata tgt)) version in
       case current of
         Some rt \<Rightarrow> ret (Inr (tgt, name, rt))
       | None \<Rightarrow>
           andThen (createBootstrapTask e tgt reg releases version) (\<lambda>rt.
             if version \<noteq> tgt_bootstrapVersion (status tgt) then do {
               u \<leftarrow> res_statusUpdate (k_targets e) (tgt\<lparr>status := (status tgt)\<lparr>tgt_bootstrapVersion := version\<rparr>\<rparr>);
               (case u of
                  Inl err \<Rightarrow> failR e err ''failed to update Target bootstrapVersion''
                | Inr tgt' \<Rightarrow> ret (Inr (tgt', name, rt)))
             } else ret (Inr (tgt, name, rt))))"

text \<open>The last block: the status of the bootstrap and the removal of stale objects, whose failures
  are only logged.\<close>

definition currentRTNames :: "string \<Rightarrow> release_info list \<Rightarrow> string set" where
  "currentRTNames bootstrapRTName releases = insert bootstrapRTName (set (map inf_rtName releases))"

definition currentBindingNames :: "string \<Rightarrow> release_info list \<Rightarrow> string set" where
  "currentBindingNames bootstrapBindingName releases =
     insert bootstrapBindingName (set (map inf_artifactBindingName (filter (\<lambda>ri. inf_artifactBindingName ri \<noteq> '''') releases)))"

definition bootstrapStatus ::
  "'s kube \<Rightarrow> target \<Rightarrow> registry \<Rightarrow> release_info list \<Rightarrow> string \<Rightarrow> render_task \<Rightarrow> ('s, outcome + unit) state" where
  "bootstrapStatus e tgt reg releases rtName rt =
     (if k_isStatusConditionTrue e (rt_conditions (status rt)) ConditionTypeJobFailed then
        andThen (orReturn (setCondition e tgt ConditionTypeBootstrapReady ConditionFalse ''Failed'' ''Bootstrap rendering failed''))
          (\<lambda>_. returnR 0)
      else if k_isStatusConditionTrue e (rt_conditions (status rt)) ConditionTypeJobSucceeded then
        andThen (orReturn (setCondition e tgt ConditionTypeBootstrapReady ConditionTrue ''Ready''
                   (''Bootstrap rendered successfully: '' @ rt_chartURL (status rt)))) (\<lambda>tgt'.
        andThen (linkArtifact e tgt' reg rt ''bootstrap'') (\<lambda>(aName, bName). do {
          _ \<leftarrow> deleteStaleRenderTasks e tgt' (currentRTNames rtName releases);
          _ \<leftarrow> deleteStaleRenderBindings e tgt' (currentBindingNames bName releases);
          returnR (30 * second)
        }))
      else returnR (30 * second))"

section \<open>Reconcile\<close>

definition targetRender ::
  "'s kube \<Rightarrow> target \<Rightarrow> registry \<Rightarrow> string gomap \<Rightarrow> release_binding list \<Rightarrow> ('s, outcome + unit) state" where
  "targetRender e tgt reg pullSecrets bindings =
     andThen (boundReleases e tgt bindings) (\<lambda>(bound, pendingDeps).
       case resolveReleaseConflicts (k_asSelector e) bound of (releases, skipped) \<Rightarrow>
       andThen (orReturn (setResolvedCondition e tgt skipped)) (\<lambda>tgt1.
         if releases = [] \<and> \<not> pendingDeps then
           andThen (orReturn (setCondition e tgt1 ConditionTypeReleasesRendered ConditionFalse ''AllReleaseBindingsFiltered''
              ''All ReleaseBindings were filtered out by the release resolver (uniqueName conflicts or anti-affinity rules)''))
             (\<lambda>_. returnR 0)
         else
           andThen (renderReleases e tgt1 reg pullSecrets releases) (\<lambda>(rendered, allRendered).
           andThen (renderVerdict e tgt1 pendingDeps allRendered) (\<lambda>tgt2.
           andThen (bootstrapTask e tgt2 reg rendered) (\<lambda>(tgt3, rtName, rt).
             bootstrapStatus e tgt3 reg rendered rtName rt)))))"

definition targetActive :: "'s kube \<Rightarrow> target \<Rightarrow> ('s, outcome + unit) state" where
  "targetActive e tgt =
     andThen (resolveRegistry e tgt) (\<lambda>(tgt1, reg).
     andThen (targetPullSecrets e tgt1) (\<lambda>pullSecrets.
     andThen (collectBindings e tgt1) (\<lambda>bindings.
       if bindings = [] then noBindings e tgt1 else targetRender e tgt1 reg pullSecrets bindings)))"

definition targetReconcile :: "'s kube \<Rightarrow> namespaced_name \<Rightarrow> ('s, outcome) state" where
  "targetReconcile e req =
     withObject e (k_targets e) req ''failed to get object'' (\<lambda>tgt. finish (
       if deleting tgt then targetDelete e req tgt
       else if \<not> hasFinalizer targetFinalizer tgt then
         ensureSelfFinalizer e (k_targets e) targetFinalizer ''Target'' req tgt
       else targetActive e tgt))"

section \<open>The controller follows the protocol\<close>

lemma follows_wrapReturn [intro!]: "follows e view m \<Longrightarrow> follows e view (wrapReturn e' msg m)"
  unfolding wrapReturn_def by auto

lemma follows_apiErr [intro!]: "follows e view m \<Longrightarrow> follows e view (apiErr m)"
  unfolding apiErr_def by auto

lemma quiet_wrapReturn [intro!]: "quiet view m \<Longrightarrow> quiet view (wrapReturn e' msg m)"
  unfolding wrapReturn_def by auto

lemma quiet_apiErr [intro!]: "quiet view m \<Longrightarrow> quiet view (apiErr m)"
  unfolding apiErr_def by auto

context kube_laws begin

lemma setCondition_follows [intro!]: "follows e abs (setCondition e tgt' ty st reason msg)"
  unfolding setCondition_def Let_def by (auto split: prod.splits)

lemma setResolvedCondition_follows [intro!]: "follows e abs (setResolvedCondition e tgt' skipped)"
  unfolding setResolvedCondition_def by auto

lemma backoff_follows [intro!]: "follows e abs (k_backoff e)"
  unfolding follows_wp by (auto intro!: wp_mono [OF backoff])

lemma requeueFor_follows [intro!]: "follows e abs (requeueFor e tgt' ty)"
  unfolding requeueFor_def by auto

lemma deleteIgnoringNotFound_follows [intro!]:
  "follows e abs (res_delete R x) \<Longrightarrow> follows e abs (deleteIgnoringNotFound R x)"
  unfolding deleteIgnoringNotFound_def by auto

lemma deleteStale_follows [intro!]:
  "follows e abs (deleteStaleRenderTasks e tgt' nms)" "follows e abs (deleteOwnedRenderTasks e tgt')"
  "follows e abs (deleteStaleRenderBindings e tgt' nms)" "follows e abs (deleteOwnedRenderBindings e tgt')"
  unfolding deleteStaleRenderTasks_def deleteOwnedRenderTasks_def deleteStaleRenderBindings_def deleteOwnedRenderBindings_def
  by auto

lemma ensure_follows [intro!]:
  "follows e abs (ensureRenderArtifact e name rt' flavor ns)" "follows e abs (ensureRenderBinding e tgt' a b)"
  unfolding ensureRenderArtifact_def ensureRenderBinding_def by auto

lemma targetUnprotect_advances:
  assumes x: "cl_targets (abs s) (objectKey x) = Some x" "deleting x"
  shows "advances e abs (targetUnprotect e x) s"
proof -
  have "deleting t" if "cl_targets (abs s) (objectKey t) = Some t" "skippedTarget (Some x) t" for t
  proof -
    have "objectKey t = objectKey x" using that by (simp add: skippedTarget_def objectKey_def)
    from that(1) [unfolded this] show ?thesis using x by simp
  qed
  then show ?thesis
    unfolding targetUnprotect_def
    by (auto intro!: advances_if regT.get_advances advances_orReturn advancesI [OF follows_ret]
        advancesI [OF follows_early(1)] removeRegistryRefFinalizer_advances simp: skippedBinding_def)
qed

text \<open>Deleting RenderTasks and RenderBindings leaves the targets alone.\<close>

lemma deleteOwned_targets:
  "quiet (\<lambda>s. cl_targets (abs s)) (deleteOwnedRenderTasks e tgt')"
  "quiet (\<lambda>s. cl_targets (abs s)) (deleteOwnedRenderBindings e tgt')"
proof -
  have "quiet (\<lambda>s. cl_targets (abs s)) (deleteIgnoringNotFound (k_rendertasks e) x)"
    "quiet (\<lambda>s. cl_targets (abs s)) (deleteIgnoringNotFound (k_renderbindings e) y)" for x y
    unfolding deleteIgnoringNotFound_def by (auto simp: quiet_def intro!: rt.delete_wp rb.delete_wp)
  moreover have "quiet (\<lambda>s. cl_targets (abs s)) (res_list (k_rendertasks e) opts)"
    "quiet (\<lambda>s. cl_targets (abs s)) (res_apiList (k_renderbindings e) opts)" for opts
    by (auto intro: quiet_view)
  ultimately show "quiet (\<lambda>s. cl_targets (abs s)) (deleteOwnedRenderTasks e tgt')"
    "quiet (\<lambda>s. cl_targets (abs s)) (deleteOwnedRenderBindings e tgt')"
    unfolding deleteOwnedRenderTasks_def deleteOwnedRenderBindings_def by auto
qed

lemma targetDelete_advances:
  assumes x: "cl_targets (abs s) (objectKey x) = Some x" "deleting x"
  shows "advances e abs (targetDelete e req x) s"
proof -
  have last: "advances e abs (andThen (targetUnprotect e x) (\<lambda>_. removeSelfFinalizer e (k_targets e) targetFinalizer ''Target'' req x)) s'"
    if "cl_targets (abs s') = cl_targets (abs s)" for s'
    by (intro advances_andThen targetUnprotect_advances tgtT.removeSelf_follows) (use that x in simp_all)
  have bindings: "advances e abs (andThen (wrapReturn e ''failed to delete owned RenderBindings'' (apiErr (deleteOwnedRenderBindings e x)))
      (\<lambda>_. andThen (targetUnprotect e x) (\<lambda>_. removeSelfFinalizer e (k_targets e) targetFinalizer ''Target'' req x))) s'"
    if "cl_targets (abs s') = cl_targets (abs s)" for s'
  proof (rule advances_framed_andThen [where f = cl_targets])
    show "quiet (\<lambda>s. cl_targets (abs s)) (wrapReturn e ''failed to delete owned RenderBindings'' (apiErr (deleteOwnedRenderBindings e x)))"
      by (intro quiet_wrapReturn quiet_apiErr deleteOwned_targets)
  qed (use last that in auto)
  have tasks: "advances e abs (andThen (wrapReturn e ''failed to delete owned RenderTasks'' (apiErr (deleteOwnedRenderTasks e x))) (\<lambda>_.
      andThen (wrapReturn e ''failed to delete owned RenderBindings'' (apiErr (deleteOwnedRenderBindings e x)))
      (\<lambda>_. andThen (targetUnprotect e x) (\<lambda>_. removeSelfFinalizer e (k_targets e) targetFinalizer ''Target'' req x)))) s'"
    if "cl_targets (abs s') = cl_targets (abs s)" for s'
  proof (rule advances_framed_andThen [where f = cl_targets])
    show "quiet (\<lambda>s. cl_targets (abs s)) (wrapReturn e ''failed to delete owned RenderTasks'' (apiErr (deleteOwnedRenderTasks e x)))"
      by (intro quiet_wrapReturn quiet_apiErr deleteOwned_targets)
  qed (use bindings that in auto)
  show ?thesis
    unfolding targetDelete_def
  proof (rule advances_framed [where f = cl_targets])
    show "quiet (\<lambda>s. cl_targets (abs s)) (k_eventf e ''Warning'' ''Deleting'' ''Target is being deleted, cleaning up RenderTasks'')"
      by (rule quiet_view [where view = abs and f = cl_targets, OF quiet_event])
  qed (use tasks in auto)
qed

lemma targetGrantCheck_follows [intro!]: "follows e abs (targetGrantCheck e x)"
  unfolding targetGrantCheck_def registryGranted_def Let_def by auto

lemma pullSecretsLoop_quiet [intro!]: "quiet abs (pullSecretsLoop e lookup rbs)"
  by (induction rbs arbitrary: lookup) (auto simp: Let_def split: option.splits)

lemma targetPullSecrets_follows [intro!]: "follows e abs (targetPullSecrets e x)"
  unfolding targetPullSecrets_def buildPullSecretsLookup_def by (auto intro!: quiet_follows [OF pullSecretsLoop_quiet])

lemma crossBindings_quiet [intro!]:
  "quiet abs (crossBindingsFrom e x acc froms)" "quiet abs (crossBindingsGrants e x acc grants)"
proof -
  show from': "quiet abs (crossBindingsFrom e x acc froms)" for acc froms
  proof (induction froms arbitrary: acc)
    case (Cons f froms)
    show ?case unfolding crossBindingsFrom.simps by (intro quiet_branches quiet_bind Cons.IH relbT.quiet_reads quiet_ret)
  qed simp
  show "quiet abs (crossBindingsGrants e x acc grants)"
    by (induction grants arbitrary: acc) (auto intro!: from')
qed

lemma collectBindings_follows [intro!]: "follows e abs (collectBindings e x)"
  unfolding collectBindings_def collectCrossNamespaceReleaseBindings_def
  by (auto intro!: quiet_follows [OF crossBindings_quiet(2)])

lemma noBindings_follows [intro!]: "follows e abs (noBindings e x)"
  unfolding noBindings_def by auto

lemma boundReleases_follows [intro!]: "follows e abs (boundReleases e x bs)"
  by (induction bs) (auto simp: boundRelease_def cvAccessGranted_def split: option.splits)

lemma releaseTask_follows [intro!]: "follows e abs (releaseTask e x r ps ri)"
proof -
  have "follows e abs (releaseTaskSpec e x r ps ri msg)" for msg
    unfolding releaseTaskSpec_def by (auto split: sum.splits)
  then show ?thesis unfolding releaseTask_def by auto
qed

lemma linkArtifact_follows [intro!]: "follows e abs (linkArtifact e x r t what)"
  unfolding linkArtifact_def Let_def by auto

lemma renderReleases_follows [intro!]: "follows e abs (renderReleases e x r ps ris)"
  by (induction ris) (auto simp: renderRelease_def)

lemma renderVerdict_follows [intro!]: "follows e abs (renderVerdict e x p a)"
  unfolding renderVerdict_def by auto

lemma bootstrapTask_follows [intro!]: "follows e abs (bootstrapTask e x r ris)"
  unfolding bootstrapTask_def bootstrapNeeded_def createBootstrapTask_def Let_def
  by (auto split: sum.splits option.splits)

lemma bootstrapStatus_follows [intro!]: "follows e abs (bootstrapStatus e x r ris n t)"
  unfolding bootstrapStatus_def by auto

lemma targetRender_follows [intro!]: "follows e abs (targetRender e x r ps bs)"
  unfolding targetRender_def by auto

lemma resolveRegistry_follows [intro!]: "follows e abs (resolveRegistry e x)"
proof -
  have "follows e abs (bindM (res_get (k_registries e) (targetRegistryKey x)) g)"
    if "\<And>err. follows e abs (g (Inl err))"
      "\<And>reg. g (Inr reg) = andThen (addProtection e (k_registries e) True registryRefFinalizer ''Registry'' reg) (h reg)"
      "\<And>reg u. follows e abs (h reg u)" for g and h :: "registry \<Rightarrow> unit \<Rightarrow> (_, outcome + target \<times> registry) state"
    unfolding follows_advances using that
    by (auto intro!: regT.get_advances advances_andThen [OF regT.add_advances] advancesI [OF that(1)])
  note get = this
  show ?thesis
    unfolding resolveRegistry_def by (intro follows_andThen targetGrantCheck_follows, rule get) auto
qed

lemma targetActive_follows [intro!]: "follows e abs (targetActive e x)"
  unfolding targetActive_def by auto

lemma targetReconcile_follows: "follows e abs (targetReconcile e req)"
  unfolding targetReconcile_def
  by (rule tgtT.withObject_advances) (auto intro!: advances_finish advances_if targetDelete_advances
      advancesI [OF targetActive_follows] advancesI [OF tgtT.ensureSelf_follows])

end

end
