(* ===== verification/TargetWatches.thy ===== *)
theory TargetWatches
  imports TargetController
begin

text \<open>
  The event mappings of the Target controller: which Targets are reconciled when a Registry, a
  RegistryBinding, a ReferenceGrant, a Release, a ReleaseBinding or a RenderTask changes. A
  failed list is logged and its part of the requests is empty.
\<close>

definition listOrNone :: "('s, api_error + 'a list) state \<Rightarrow> ('s, 'a list) state" where
  "listOrNone m = bindM m (\<lambda>r. case r of Inl err \<Rightarrow> ret [] | Inr xs \<Rightarrow> ret xs)"

section \<open>Registries\<close>

fun registryTargetsFrom :: "'s kube \<Rightarrow> registry \<Rightarrow> reference_grant_from list \<Rightarrow> ('s, namespaced_name list) state" where
  "registryTargetsFrom e reg [] = ret []"
| "registryTargetsFrom e reg (from' # froms) =
     (if from_kind from' \<noteq> ''Target'' \<or> from_group from' \<noteq> solarGroup then registryTargetsFrom e reg froms
      else do {
        ts \<leftarrow> listOrNone (res_list (k_targets e) (inNamespace (from_namespace from')));
        rest \<leftarrow> registryTargetsFrom e reg froms;
        ret (map objectKey (filter (\<lambda>t. tgt_renderRegistryRef (spec t) = om_name (metadata reg) \<and>
               tgt_renderRegistryNamespace (spec t) = om_namespace (metadata reg)) ts) @ rest)
      })"

fun registryTargetsGrants :: "'s kube \<Rightarrow> registry \<Rightarrow> reference_grant list \<Rightarrow> ('s, namespaced_name list) state" where
  "registryTargetsGrants e reg [] = ret []"
| "registryTargetsGrants e reg (grant # grants) =
     (if \<not> grantsRegistryResource grant then registryTargetsGrants e reg grants
      else do {
        a \<leftarrow> registryTargetsFrom e reg (rg_from (spec grant));
        b \<leftarrow> registryTargetsGrants e reg grants;
        ret (a @ b)
      })"

definition mapRegistryToTargets :: "'s kube \<Rightarrow> registry \<Rightarrow> ('s, namespaced_name list) state" where
  "mapRegistryToTargets e reg = do {
     l \<leftarrow> res_list (k_targets e) (inNamespace (om_namespace (metadata reg)));
     (case l of
        Inl err \<Rightarrow> ret []
      | Inr ts \<Rightarrow>
          let own = map objectKey (filter (\<lambda>t. tgt_renderRegistryRef (spec t) = om_name (metadata reg) \<and>
                (tgt_renderRegistryNamespace (spec t) = '''' \<or>
                 tgt_renderRegistryNamespace (spec t) = om_namespace (metadata reg))) ts)
          in do {
            g \<leftarrow> res_list (k_referencegrants e) (inNamespace (om_namespace (metadata reg)));
            (case g of
               Inl err \<Rightarrow> ret own
             | Inr grants \<Rightarrow> do {
                 rest \<leftarrow> registryTargetsGrants e reg grants;
                 ret (own @ rest)
               })
          })
   }"

definition mapRegistryBindingToTarget :: "registry_binding \<Rightarrow> namespaced_name list" where
  "mapRegistryBindingToTarget rb =
     (if rgb_targetRef (spec rb) = '''' then []
      else [\<lparr>nn_namespace = om_namespace (metadata rb), nn_name = rgb_targetRef (spec rb)\<rparr>])"

section \<open>Bindings and releases\<close>

definition bindingTarget :: "release_binding \<Rightarrow> namespaced_name" where
  "bindingTarget rb =
     \<lparr>nn_namespace = (if rlb_targetNamespace (spec rb) \<noteq> '''' then rlb_targetNamespace (spec rb)
                      else om_namespace (metadata rb)),
      nn_name = rlb_targetRef (spec rb)\<rparr>"

definition mapReleaseBindingToTarget :: "release_binding \<Rightarrow> namespaced_name list" where
  "mapReleaseBindingToTarget rb = (if rlb_targetRef (spec rb) = '''' then [] else [bindingTarget rb])"

text \<open>Requests for the targets of bindings, one per key \<open>namespace/name\<close>.\<close>

definition requestKey :: "namespaced_name \<Rightarrow> string" where
  "requestKey k = nn_namespace k @ ''/'' @ nn_name k"

fun unseenRequests :: "string set \<Rightarrow> namespaced_name list \<Rightarrow> string set \<times> namespaced_name list" where
  "unseenRequests seen [] = (seen, [])"
| "unseenRequests seen (k # ks) =
     (if requestKey k \<in> seen then unseenRequests seen ks
      else case unseenRequests (insert (requestKey k) seen) ks of (seen', rs) \<Rightarrow> (seen', k # rs))"

definition mapReleaseToTargets :: "'s kube \<Rightarrow> release \<Rightarrow> ('s, namespaced_name list) state" where
  "mapReleaseToTargets e rel = do {
     l \<leftarrow> res_list (k_releasebindings e)
            (inNamespaceMatching (om_namespace (metadata rel)) indexReleaseBindingReleaseName (om_name (metadata rel)));
     (case l of
        Inl err \<Rightarrow> ret []
      | Inr rbs \<Rightarrow> ret (snd (unseenRequests {} (map bindingTarget rbs))))
   }"

section \<open>Grants\<close>

fun grantTargetsFrom :: "'s kube \<Rightarrow> reference_grant \<Rightarrow> reference_grant_from list \<Rightarrow> ('s, namespaced_name list) state" where
  "grantTargetsFrom e grant [] = ret []"
| "grantTargetsFrom e grant (from' # froms) =
     (if from_kind from' \<noteq> ''Target'' \<or> from_group from' \<noteq> solarGroup then grantTargetsFrom e grant froms
      else do {
        ts \<leftarrow> listOrNone (res_list (k_targets e) (inNamespace (from_namespace from')));
        rest \<leftarrow> grantTargetsFrom e grant froms;
        ret (map objectKey (filter (\<lambda>t. tgt_renderRegistryNamespace (spec t) = om_namespace (metadata grant)) ts) @ rest)
      })"

fun grantReleaseTargets :: "'s kube \<Rightarrow> string set \<Rightarrow> reference_grant_from list \<Rightarrow> ('s, namespaced_name list) state" where
  "grantReleaseTargets e seen [] = ret []"
| "grantReleaseTargets e seen (from' # froms) =
     (if from_kind from' \<noteq> ''Release'' \<or> from_group from' \<noteq> solarGroup then grantReleaseTargets e seen froms
      else do {
        rbs \<leftarrow> listOrNone (res_list (k_releasebindings e) (inNamespace (from_namespace from')));
        (case unseenRequests seen (map bindingTarget (filter (\<lambda>rb. rlb_targetRef (spec rb) \<noteq> '''') rbs)) of (seen', rs) \<Rightarrow> do {
          rest \<leftarrow> grantReleaseTargets e seen' froms;
          ret (rs @ rest)
        })
      })"

definition mapReferenceGrantToTargets :: "'s kube \<Rightarrow> reference_grant \<Rightarrow> ('s, namespaced_name list) state" where
  "mapReferenceGrantToTargets e grant = do {
     a \<leftarrow> (if grantsRegistryResource grant then grantTargetsFrom e grant (rg_from (spec grant)) else ret []);
     b \<leftarrow> (if grantsComponentVersionResource grant then grantReleaseTargets e {} (rg_from (spec grant)) else ret []);
     c \<leftarrow> (if grantsReleaseBindingToTargetResource grant
          then bindM (listOrNone (res_list (k_targets e) (inNamespace (om_namespace (metadata grant)))))
                 (\<lambda>ts. ret (map objectKey ts))
          else ret []);
     ret (a @ b @ c)
   }"

section \<open>Render tasks\<close>

text \<open>\<open>renderTaskStatusChangePredicate\<close> of \<open>pkg/controller/predicates.go\<close>, on the events of
  RenderTasks; \<open>statusEqual\<close> is \<open>Semantic.DeepEqual\<close>.\<close>

datatype render_task_event =
    CreateEvent render_task
  | UpdateEvent render_task render_task
  | DeleteEvent render_task
  | GenericEvent render_task

fun renderTaskStatusChangePredicate ::
  "(render_task_status \<Rightarrow> render_task_status \<Rightarrow> bool) \<Rightarrow> render_task_event \<Rightarrow> bool" where
  "renderTaskStatusChangePredicate statusEqual (CreateEvent _) = True"
| "renderTaskStatusChangePredicate statusEqual (UpdateEvent oldRT newRT) = (\<not> statusEqual (status oldRT) (status newRT))"
| "renderTaskStatusChangePredicate statusEqual (DeleteEvent _) = True"
| "renderTaskStatusChangePredicate statusEqual (GenericEvent _) = True"

end
