(* ===== verification/Manager.thy ===== *)
theory Manager
  imports ComponentVersionController RegistryBindingController ReleaseController ProfileController
    RenderTaskController RenderArtifactController TargetWatches
begin

text \<open>
  The controller manager (\<open>cmd/solar-controller-manager/main.go\<close> registers the eight reconcilers):
  the controllers run in any order, each on any request, interleaved with other clients of the
  API server. \<open>reconcile\<close> dispatches a request to its controller; every run of it is a sequence of
  steps of the protection protocol (\<open>reconcile_follows\<close>, the refinement of \<open>Protocol.evolve\<close>), and
  the guarantees that hold along every interleaving follow from that.
\<close>

section \<open>Requests\<close>

datatype reconcile_request =
    ComponentVersionRequest namespaced_name
  | ProfileRequest namespaced_name
  | RegistryBindingRequest namespaced_name
  | ReleaseRequest namespaced_name
  | ReleaseBindingRequest namespaced_name
  | RenderArtifactRequest namespaced_name
  | RenderTaskRequest namespaced_name
  | TargetRequest namespaced_name

fun reconcile :: "'s kube \<Rightarrow> renderer_settings \<Rightarrow> reconcile_request \<Rightarrow> ('s, outcome) state" where
  "reconcile e cfg (ComponentVersionRequest k) = componentVersionReconcile e k"
| "reconcile e cfg (ProfileRequest k) = profileReconcile e k"
| "reconcile e cfg (RegistryBindingRequest k) = registryBindingReconcile e k"
| "reconcile e cfg (ReleaseRequest k) = releaseReconcile e k"
| "reconcile e cfg (ReleaseBindingRequest k) = releaseBindingReconcile e k"
| "reconcile e cfg (RenderArtifactRequest k) = renderArtifactReconcile e k"
| "reconcile e cfg (RenderTaskRequest k) = renderTaskReconcile e cfg k"
| "reconcile e cfg (TargetRequest k) = targetReconcile e k"

section \<open>Other clients\<close>

text \<open>Users and other controllers create and edit objects (\<open>client\<close>), and every step of the protocol
  (finalizers, status, deletion requests) is open to them as well.\<close>

inductive external :: "(object_meta \<Rightarrow> owner_reference option) \<Rightarrow> cluster \<Rightarrow> cluster \<Rightarrow> bool" for ctrlOf c where
  ext_protocol: "evolve ctrlOf c c' \<Longrightarrow> external ctrlOf c c'"
| ext_components: "client {componentRefFinalizer} (\<lambda>_. ()) (cl_components c) m1 \<Longrightarrow>
    external ctrlOf c (cl_components_update (\<lambda>_. m1) c)"
| ext_componentversions: "client {componentVersionRefFinalizer} cvRef (cl_componentversions c) m2 \<Longrightarrow>
    external ctrlOf c (cl_componentversions_update (\<lambda>_. m2) c)"
| ext_releases: "client {releaseRefFinalizer} releaseRef (cl_releases c) m3 \<Longrightarrow>
    external ctrlOf c (cl_releases_update (\<lambda>_. m3) c)"
| ext_registries: "client {registryRefFinalizer} (\<lambda>_. ()) (cl_registries c) m4 \<Longrightarrow>
    external ctrlOf c (cl_registries_update (\<lambda>_. m4) c)"
| ext_registrybindings: "client {} registryBindingRef (cl_registrybindings c) m5 \<Longrightarrow>
    external ctrlOf c (cl_registrybindings_update (\<lambda>_. m5) c)"
| ext_targets: "client {} targetRef (cl_targets c) m6 \<Longrightarrow> external ctrlOf c (cl_targets_update (\<lambda>_. m6) c)"
| ext_profiles: "client {} profileRef (cl_profiles c) m7 \<Longrightarrow> external ctrlOf c (cl_profiles_update (\<lambda>_. m7) c)"
| ext_releasebindings: "client {} releaseBindingRef (cl_releasebindings c) m8 \<Longrightarrow>
    external ctrlOf c (cl_releasebindings_update (\<lambda>_. m8) c)"

section \<open>Interleavings\<close>

text \<open>\<open>journey e cfg view ext P s s'\<close>: reconciles of any controllers, in any order, interleaved with steps
  \<open>ext\<close> of other clients, lead from \<open>s\<close> to \<open>s'\<close>, with \<open>P\<close> observed after every step.\<close>

inductive journey ::
  "'s kube \<Rightarrow> renderer_settings \<Rightarrow> ('s \<Rightarrow> cluster) \<Rightarrow> (cluster \<Rightarrow> cluster \<Rightarrow> bool) \<Rightarrow> (cluster \<Rightarrow> bool) \<Rightarrow> 's \<Rightarrow> 's \<Rightarrow> bool"
  for e cfg view ext P s where
  journey_start: "journey e cfg view ext P s s"
| journey_reconcile: "journey e cfg view ext P s s1 \<Longrightarrow> snd (run_state (reconcile e cfg r) s1) = s2 \<Longrightarrow> P (view s2) \<Longrightarrow>
    journey e cfg view ext P s s2"
| journey_client: "journey e cfg view ext P s s1 \<Longrightarrow> ext (view s1) (view s2) \<Longrightarrow> P (view s2) \<Longrightarrow>
    journey e cfg view ext P s s2"

context kube_laws begin

lemma reconcile_follows: "follows e abs (reconcile e cfg r)"
  by (cases r) (simp_all add: componentVersionReconcile_follows profileReconcile_follows
      registryBindingReconcile_follows releaseReconcile_follows releaseBindingReconcile_follows
      renderArtifactReconcile_follows renderTaskReconcile_follows targetReconcile_follows)

lemma reconcile_steps: "snd (run_state (reconcile e cfg r) s) = s' \<Longrightarrow> (evolve (k_getControllerOf e))\<^sup>*\<^sup>* (abs s) (abs s')"
  using reconcile_follows by (auto simp: follows_def)

end

text \<open>What one step of the protocol and one step of a client keep, given a condition \<open>A\<close> that no step of
  the protocol restores, is kept along every journey on which \<open>A\<close> is observed.\<close>

locale journey_invariant = kube_laws e abs
  for e :: "'s kube" and abs +
  fixes ext :: "cluster \<Rightarrow> cluster \<Rightarrow> bool" and A I :: "cluster \<Rightarrow> bool"
  assumes unrevived: "evolve (k_getControllerOf e) c c' \<Longrightarrow> A c' \<Longrightarrow> A c"
    and keep: "evolve (k_getControllerOf e) c c' \<Longrightarrow> A c' \<Longrightarrow> I c \<Longrightarrow> I c'"
    and keep_ext: "ext c c' \<Longrightarrow> A c' \<Longrightarrow> I c \<Longrightarrow> I c'"
begin

lemma steps: "(evolve (k_getControllerOf e))\<^sup>*\<^sup>* c c' \<Longrightarrow> A c' \<Longrightarrow> I c \<Longrightarrow> I c'"
proof (induction rule: rtranclp_induct)
  case (step y z)
  then show ?case using unrevived keep by blast
qed

theorem along: "journey e cfg abs ext A s s' \<Longrightarrow> I (abs s) \<Longrightarrow> I (abs s')"
proof (induction rule: journey.induct)
  case (journey_reconcile s1 r s2)
  then show ?case using steps reconcile_steps by blast
qed (use keep_ext in blast)+

end

section \<open>Protection is kept by other clients\<close>

lemmas external_frames = cvp.keep_frame relp.keep_frame regp.keep_frame tgtp.keep_frame prfp.keep_frame

lemma cvp_external:
  assumes "external ctrlOf c c'" and "cvp.active c' k" and "cvp.protects c k t"
  shows "cvp.protects c' k t"
  using assms by cases (auto intro: cvp_evolve cvp.keep_client_A cvp.keep_client_B external_frames simp: cvp.active_def)

lemma relp_external:
  assumes "external ctrlOf c c'" and "relp.active c' k" and "relp.protects c k t"
  shows "relp.protects c' k t"
  using assms by cases (auto intro: relp_evolve relp.keep_client_A relp.keep_client_B external_frames simp: relp.active_def)

lemma regp_external:
  assumes "external ctrlOf c c'" and "regp.active c' k" and "regp.protects c k t"
  shows "regp.protects c' k t"
  using assms by cases (auto intro: regp_evolve regp.keep_client_A regp.keep_client_B external_frames simp: regp.active_def)

lemma tgtp_external:
  assumes "external ctrlOf c c'" and "tgtp.active c' k" and "tgtp.protects c k t"
  shows "tgtp.protects c' k t"
  using assms by cases (auto intro: tgtp_evolve tgtp.keep_client_A tgtp.keep_client_B external_frames simp: tgtp.active_def)

lemma prfp_external:
  assumes "external ctrlOf c c'" and "prfp.active c' k" and "prfp.protects c k t"
  shows "prfp.protects c' k t"
  using assms by cases (auto intro: prfp_evolve prfp.keep_client_A prfp.keep_client_B external_frames simp: prfp.active_def)

lemma journey_invariantI:
  assumes "kube_laws e view"
    and "\<And>c c'. evolve (k_getControllerOf e) c c' \<Longrightarrow> A c' \<Longrightarrow> A c"
    and "\<And>c c'. evolve (k_getControllerOf e) c c' \<Longrightarrow> A c' \<Longrightarrow> I c \<Longrightarrow> I c'"
    and "\<And>c c'. ext c c' \<Longrightarrow> A c' \<Longrightarrow> I c \<Longrightarrow> I c'"
  shows "journey_invariant e view ext A I"
  by (intro journey_invariant.intro journey_invariant_axioms.intro) (use assms in blast)+

lemma journeys:
  assumes "kube_laws e view"
  shows "journey_invariant e view (external (k_getControllerOf e)) (\<lambda>c. cvp.active c k) (\<lambda>c. cvp.protects c k t)"
    and "journey_invariant e view (external (k_getControllerOf e)) (\<lambda>c. relp.active c k) (\<lambda>c. relp.protects c k t)"
    and "journey_invariant e view (external (k_getControllerOf e)) (\<lambda>c. regp.active c k) (\<lambda>c. regp.protects c k t)"
    and "journey_invariant e view (external (k_getControllerOf e)) (\<lambda>c. tgtp.active c k) (\<lambda>c. tgtp.protects c k t)"
    and "journey_invariant e view (external (k_getControllerOf e)) (\<lambda>c. prfp.active c k) (\<lambda>c. prfp.protects c k t)"
    and "journey_invariant e view (evolve (k_getControllerOf e)) (\<lambda>_. True) (\<lambda>c. bindingGuarded (k_getControllerOf e) c k t)"
proof -
  show "journey_invariant e view (external (k_getControllerOf e)) (\<lambda>c. cvp.active c k) (\<lambda>c. cvp.protects c k t)"
    by (rule journey_invariantI [OF assms])
      (blast intro: cvp_active, metis cvp_evolve cvp.active_def, blast intro: cvp_external)
  show "journey_invariant e view (external (k_getControllerOf e)) (\<lambda>c. relp.active c k) (\<lambda>c. relp.protects c k t)"
    by (rule journey_invariantI [OF assms])
      (blast intro: relp_active, metis relp_evolve relp.active_def, blast intro: relp_external)
  show "journey_invariant e view (external (k_getControllerOf e)) (\<lambda>c. regp.active c k) (\<lambda>c. regp.protects c k t)"
    by (rule journey_invariantI [OF assms])
      (blast intro: regp_active, metis regp_evolve regp.active_def, blast intro: regp_external)
  show "journey_invariant e view (external (k_getControllerOf e)) (\<lambda>c. tgtp.active c k) (\<lambda>c. tgtp.protects c k t)"
    by (rule journey_invariantI [OF assms])
      (blast intro: tgtp_active, metis tgtp_evolve tgtp.active_def, blast intro: tgtp_external)
  show "journey_invariant e view (external (k_getControllerOf e)) (\<lambda>c. prfp.active c k) (\<lambda>c. prfp.protects c k t)"
    by (rule journey_invariantI [OF assms])
      (blast intro: prfp_active, metis prfp_evolve prfp.active_def, blast intro: prfp_external)
  show "journey_invariant e view (evolve (k_getControllerOf e)) (\<lambda>_. True) (\<lambda>c. bindingGuarded (k_getControllerOf e) c k t)"
    using bindingGuarded_evolve [OF kube_laws.controllerOf [OF assms]]
    by (intro journey_invariantI [OF assms]) blast+
qed

section \<open>The guarantees\<close>

text \<open>(C1) Refinement: every reconcile of every controller, on every request, in every state of the API
  server, changes the cluster by a sequence of steps of the protection protocol.\<close>

theorem reconcile_refines_protocol:
  assumes "kube_laws e view"
  shows "(evolve (k_getControllerOf e))\<^sup>*\<^sup>* (view s) (view (snd (run_state (reconcile e cfg r) s)))"
  using kube_laws.reconcile_steps [OF assms] by blast


text \<open>Deletion protection of ComponentVersions by the Releases that reference them, in the same
  namespace or in another one.\<close>

theorem componentversion_protected:
  assumes "kube_laws e view"
    and "cl_releases (view s) k = Some rel" "\<not> deleting rel" "releaseRef rel = Some t"
    and "cl_componentversions (view s) t = Some b" "hasFinalizer componentVersionRefFinalizer b"
    and "journey e cfg view (external (k_getControllerOf e))
           (\<lambda>c. \<exists>a. cl_releases c k = Some a \<and> \<not> deleting a) s s'"
  shows "\<exists>b'. cl_componentversions (view s') t = Some b' \<and> hasFinalizer componentVersionRefFinalizer b'"
proof -
  have "relp.protects (view s) k t" using assms by (auto simp: relp.protects_def)
  then have "relp.protects (view s') k t"
    using journey_invariant.along [OF journeys(2) [OF assms(1)]] assms(7) unfolding relp.active_def by blast
  then show ?thesis by (auto simp: relp.protects_def)
qed

text \<open>Deletion protection of Registries by RegistryBindings: the Target controller and the
  RegistryBinding controller share one finalizer, and neither removes it while the other's
  objects still reference the Registry.\<close>

theorem registry_protected_by_binding:
  assumes "kube_laws e view"
    and "cl_registrybindings (view s) k = Some rgb" "\<not> deleting rgb" "registryBindingRef rgb = Some t"
    and "cl_registries (view s) t = Some b" "hasFinalizer registryRefFinalizer b"
    and "journey e cfg view (external (k_getControllerOf e))
           (\<lambda>c. \<exists>a. cl_registrybindings c k = Some a \<and> \<not> deleting a) s s'"
  shows "\<exists>b'. cl_registries (view s') t = Some b' \<and> hasFinalizer registryRefFinalizer b'"
proof -
  have "regp.protects (view s) k t" using assms by (auto simp: regp.protects_def)
  then have "regp.protects (view s') k t"
    using journey_invariant.along [OF journeys(3) [OF assms(1)]] assms(7) unfolding regp.active_def by blast
  then show ?thesis by (auto simp: regp.protects_def)
qed

text \<open>Deletion protection of Registries by the Targets that render into them.\<close>

theorem registry_protected_by_target:
  assumes "kube_laws e view"
    and "cl_targets (view s) k = Some tgt" "\<not> deleting tgt" "targetRef tgt = Some t"
    and "cl_registries (view s) t = Some b" "hasFinalizer registryRefFinalizer b"
    and "journey e cfg view (external (k_getControllerOf e))
           (\<lambda>c. \<exists>a. cl_targets c k = Some a \<and> \<not> deleting a) s s'"
  shows "\<exists>b'. cl_registries (view s') t = Some b' \<and> hasFinalizer registryRefFinalizer b'"
proof -
  have "tgtp.protects (view s) k t" using assms by (auto simp: tgtp.protects_def)
  then have "tgtp.protects (view s') k t"
    using journey_invariant.along [OF journeys(4) [OF assms(1)]] assms(7) unfolding tgtp.active_def by blast
  then show ?thesis by (auto simp: tgtp.protects_def)
qed

text \<open>Deletion protection of Releases by the Profiles that reference them, also against the
  ReleaseBinding controller, which removes the same finalizer.\<close>

theorem release_protected_by_profile:
  assumes "kube_laws e view"
    and "cl_profiles (view s) k = Some p" "\<not> deleting p" "profileRef p = Some t"
    and "cl_releases (view s) t = Some b" "hasFinalizer releaseRefFinalizer b"
    and "journey e cfg view (external (k_getControllerOf e))
           (\<lambda>c. \<exists>a. cl_profiles c k = Some a \<and> \<not> deleting a) s s'"
  shows "\<exists>b'. cl_releases (view s') t = Some b' \<and> hasFinalizer releaseRefFinalizer b'"
proof -
  have "prfp.protects (view s) k t" using assms by (auto simp: prfp.protects_def)
  then have "prfp.protects (view s') k t"
    using journey_invariant.along [OF journeys(5) [OF assms(1)]] assms(7) unfolding prfp.active_def by blast
  then show ?thesis by (auto simp: prfp.protects_def)
qed


end
