(* ===== verification/Mem_Server.thy ===== *)
theory Mem_Server
  imports Manager
begin

text \<open>
  An API server that keeps its objects in memory, in the manner of controller-runtime's fake client
  that the repository's tests use: a list of objects per kind, a clock, the recorded events, a
  counter for generated names and the tags of the OCI registry. It satisfies the contract
  \<open>kube_laws\<close> that the controllers rely on, so the guarantees stated under that contract apply to
  it; the concrete runs of the controllers are evaluated on it.
\<close>

section \<open>One kind of objects\<close>

fun lookup :: "('spec, 'status) object list \<Rightarrow> namespaced_name \<Rightarrow> ('spec, 'status) object option" where
  "lookup [] k = None"
| "lookup (x # xs) k = (if objectKey x = k then Some x else lookup xs k)"

definition discard :: "namespaced_name \<Rightarrow> ('spec, 'status) object list \<Rightarrow> ('spec, 'status) object list" where
  "discard k xs = filter (\<lambda>x. objectKey x \<noteq> k) xs"

fun store :: "namespaced_name \<Rightarrow> ('spec, 'status) object option \<Rightarrow> ('spec, 'status) object list \<Rightarrow> ('spec, 'status) object list" where
  "store k None xs = discard k xs"
| "store k (Some x) [] = [x]"
| "store k (Some x) (y # ys) = (if objectKey y = k then x # ys else y # store k (Some x) ys)"

lemma length_discard [termination_simp]: "length (discard k xs) < Suc (length xs)"
  by (simp add: discard_def le_imp_less_Suc)

text \<open>The objects that a read returns: the first of each key.\<close>

fun current :: "('spec, 'status) object list \<Rightarrow> ('spec, 'status) object list" where
  "current [] = []"
| "current (x # xs) = x # current (discard (objectKey x) xs)"

lemma lookup_key: "lookup xs k = Some x \<Longrightarrow> objectKey x = k"
  by (induction xs) (auto split: if_splits)

lemma lookup_discard: "lookup (discard k xs) = (lookup xs)(k := None)"
  by (induction xs) (auto simp: discard_def fun_eq_iff)

lemma lookup_store: "(\<And>x. v = Some x \<Longrightarrow> objectKey x = k) \<Longrightarrow> lookup (store k v xs) = (lookup xs)(k := v)"
proof (induction k v xs rule: store.induct)
  case (3 k x y ys)
  then show ?case by (auto simp: fun_eq_iff)
qed (auto simp: lookup_discard fun_eq_iff)

lemma set_current: "set (current xs) = {x. lookup xs (objectKey x) = Some x}"
proof (induction xs rule: current.induct)
  case (2 x xs)
  then show ?case by (auto simp: lookup_discard)
qed simp

section \<open>The server\<close>

record mem =
  mem_components :: "component list"
  mem_componentversions :: "component_version list"
  mem_profiles :: "profile list"
  mem_referencegrants :: "reference_grant list"
  mem_registries :: "registry list"
  mem_registrybindings :: "registry_binding list"
  mem_releases :: "release list"
  mem_releasebindings :: "release_binding list"
  mem_renderartifacts :: "render_artifact list"
  mem_renderbindings :: "render_binding list"
  mem_rendertasks :: "render_task list"
  mem_targets :: "target list"
  mem_secrets :: "secret list"
  mem_jobs :: "job list"
  mem_tags :: "string list"
  mem_clock :: int
  mem_events :: "(string \<times> string \<times> string) list"
  mem_fresh :: nat

definition memView :: "mem \<Rightarrow> cluster" where
  "memView s =
     \<lparr>cl_components = lookup (mem_components s), cl_componentversions = lookup (mem_componentversions s),
      cl_profiles = lookup (mem_profiles s), cl_referencegrants = lookup (mem_referencegrants s),
      cl_registries = lookup (mem_registries s), cl_registrybindings = lookup (mem_registrybindings s),
      cl_releases = lookup (mem_releases s), cl_releasebindings = lookup (mem_releasebindings s),
      cl_renderartifacts = lookup (mem_renderartifacts s), cl_renderbindings = lookup (mem_renderbindings s),
      cl_rendertasks = lookup (mem_rendertasks s), cl_targets = lookup (mem_targets s),
      cl_secrets = lookup (mem_secrets s), cl_jobs = lookup (mem_jobs s),
      cl_ociTags = (\<lambda>r. r \<in> set (mem_tags s))\<rparr>"

definition emptyMem :: mem where
  "emptyMem =
     \<lparr>mem_components = [], mem_componentversions = [], mem_profiles = [], mem_referencegrants = [],
      mem_registries = [], mem_registrybindings = [], mem_releases = [], mem_releasebindings = [],
      mem_renderartifacts = [], mem_renderbindings = [], mem_rendertasks = [], mem_targets = [],
      mem_secrets = [], mem_jobs = [], mem_tags = [], mem_clock = 0, mem_events = [], mem_fresh = 0\<rparr>"

text \<open>The name of a created object: the requested one, or the prefix with a fresh suffix.\<close>

definition named :: "nat \<Rightarrow> ('spec, 'status) object \<Rightarrow> ('spec, 'status) object" where
  "named n x =
     x\<lparr>metadata := (metadata x)
        \<lparr>om_name := (if om_name (metadata x) = '''' then om_generateName (metadata x) @ replicate n (CHR ''x'')
                     else om_name (metadata x)),
         om_uid := replicate n (CHR ''u''), om_generation := 1, om_deletionTimestamp := None\<rparr>\<rparr>"

definition memWrite ::
  "(mem \<Rightarrow> ('spec, 'status) object list) \<Rightarrow>
   ((('spec, 'status) object list \<Rightarrow> ('spec, 'status) object list) \<Rightarrow> mem \<Rightarrow> mem) \<Rightarrow>
   namespaced_name \<Rightarrow> (('spec, 'status) object \<Rightarrow> ('spec, 'status) object option \<times> 'r) \<Rightarrow> (mem, api_error + 'r) state" where
  "memWrite get put k f =
     State (\<lambda>s. case lookup (get s) k of
       None \<Rightarrow> (Inl (NotFound ''not found''), s)
     | Some old \<Rightarrow> (case f old of (v, r) \<Rightarrow> (Inr r, put (store k v) s)))"

definition memResource ::
  "(mem \<Rightarrow> ('spec, 'status) object list) \<Rightarrow>
   ((('spec, 'status) object list \<Rightarrow> ('spec, 'status) object list) \<Rightarrow> mem \<Rightarrow> mem) \<Rightarrow>
   (string \<Rightarrow> ('spec, 'status) object \<Rightarrow> string list) \<Rightarrow> (mem, 'spec, 'status) resource" where
  "memResource get put idx =
     (let list = (\<lambda>opts. State (\<lambda>s. (Inr (filter (selected idx opts) (current (get s))), s)));
          statusWrite = (\<lambda>new. memWrite get put (objectKey new)
            (\<lambda>old. (Some (old\<lparr>status := status new\<rparr>), old\<lparr>status := status new\<rparr>)))
      in
      \<lparr>res_get = (\<lambda>k. State (\<lambda>s. (case lookup (get s) k of None \<Rightarrow> Inl (NotFound ''not found'') | Some x \<Rightarrow> Inr x, s))),
       res_list = list, res_apiList = list,
       res_create = (\<lambda>new. State (\<lambda>s.
         let x = named (mem_fresh s) new in
         if lookup (get s) (objectKey x) \<noteq> None
         then (Inl (if om_name (metadata new) = '''' then OtherApi ''name in use'' else AlreadyExists ''already exists''), s)
         else (Inr x, put (store (objectKey x) (Some x)) (s\<lparr>mem_fresh := Suc (mem_fresh s)\<rparr>)))),
       res_delete = (\<lambda>x. State (\<lambda>s.
         run_state (memWrite get put (objectKey x) (\<lambda>old. (settle (markDeleted (mem_clock s) old), ()))) s)),
       res_patch = (\<lambda>lock base new. memWrite get put (objectKey new) (\<lambda>old. (settle new, new))),
       res_statusUpdate = statusWrite, res_statusPatch = (\<lambda>base. statusWrite)\<rparr>)"

lemma settle_key: "settle x = Some y \<Longrightarrow> objectKey y = objectKey x"
  by (auto simp: settle_def split: if_splits)

lemma memWrite_wp:
  assumes "\<And>s. sel (view s) = lookup (get s)"
    and "\<And>s k v. (\<And>x. v = Some x \<Longrightarrow> objectKey x = k) \<Longrightarrow> view (put (store k v) s) = upd (\<lambda>m. m(k := v)) (view s)"
    and "\<And>old v r. objectKey old = k \<Longrightarrow> f old = (Some v, r) \<Longrightarrow> objectKey v = k"
    and "sel (view s) k = None \<Longrightarrow> Q (Inl (NotFound ''not found'')) s"
    and "\<And>old v r s'. sel (view s) k = Some old \<Longrightarrow> f old = (v, r) \<Longrightarrow> view s' = upd (\<lambda>m. m(k := v)) (view s) \<Longrightarrow> Q (Inr r) s'"
  shows "wp (memWrite get put k f) Q s"
proof (cases "lookup (get s) k")
  case (Some old)
  obtain v r where f: "f old = (v, r)" by force
  then have "view (put (store k v) s) = upd (\<lambda>m. m(k := v)) (view s)"
    by (intro assms(2)) (use assms(3) lookup_key [OF Some] in blast)
  then show ?thesis using assms(1,5) Some f by (simp add: wp_def memWrite_def)
qed (use assms(1,4) in \<open>simp add: wp_def memWrite_def\<close>)

lemma memResource_laws:
  assumes sel: "\<And>s. sel (view s) = lookup (get s)"
    and upd: "\<And>s k v. (\<And>x. v = Some x \<Longrightarrow> objectKey x = k) \<Longrightarrow> view (put (store k v) s) = upd (\<lambda>m. m(k := v)) (view s)"
    and fresh: "\<And>s n. view (s\<lparr>mem_fresh := n\<rparr>) = view s"
  shows "resource_laws (memResource get put idx) sel upd idx view"
proof
  note writes = memWrite_wp [of sel view get put upd, OF sel upd]
  show "wp (res_create (memResource get put idx) new) (\<lambda>r s'. case r of
        Inl err \<Rightarrow> view s' = view s \<and> (isAlreadyExists err \<longrightarrow> om_name (metadata new) \<noteq> [] \<longrightarrow> sel (view s) (objectKey new) \<noteq> None)
      | Inr x \<Rightarrow> createdFrom new x \<and> sel (view s) (objectKey x) = None \<and>
                view s' = upd (\<lambda>m. m(objectKey x := Some x)) (view s)) s" for new s
    using upd [of "Some (named (mem_fresh s) new)" "objectKey (named (mem_fresh s) new)" "s\<lparr>mem_fresh := Suc (mem_fresh s)\<rparr>"]
    by (auto simp: memResource_def wp_def Let_def sel fresh createdFrom_def named_def objectKey_def deleting_def)
  show "wp (res_delete (memResource get put idx) x) (\<lambda>r s'. case r of
        Inl err \<Rightarrow> view s' = view s \<and> (isNotFound err \<longrightarrow> sel (view s) (objectKey x) = None)
      | Inr _ \<Rightarrow> (\<exists>old t. sel (view s) (objectKey x) = Some old \<and>
                view s' = upd (\<lambda>m. m(objectKey x := settle (markDeleted t old))) (view s))) s" for x s
  proof -
    have "wp (memWrite get put (objectKey x) (\<lambda>old. (settle (markDeleted (mem_clock s) old), ()))) (\<lambda>r s'. case r of
        Inl err \<Rightarrow> view s' = view s \<and> (isNotFound err \<longrightarrow> sel (view s) (objectKey x) = None)
      | Inr _ \<Rightarrow> (\<exists>old t. sel (view s) (objectKey x) = Some old \<and>
                view s' = upd (\<lambda>m. m(objectKey x := settle (markDeleted t old))) (view s))) s"
      by (rule writes) (auto dest: settle_key)
    then show ?thesis by (simp add: memResource_def Let_def wp_def)
  qed
  show "wp (res_patch (memResource get put idx) lock base new) (\<lambda>r s'. case r of
        Inl err \<Rightarrow> view s' = view s
      | Inr x \<Rightarrow> x = new \<and> view s' = upd (\<lambda>m. m(objectKey new := settle new)) (view s)) s"
    if "sel (view s) (objectKey new) = Some base" for new base lock s
    unfolding memResource_def Let_def resource.simps by (rule writes) (use that in \<open>auto dest: settle_key\<close>)
  have status: "wp (memWrite get put (objectKey new) (\<lambda>old. (Some (old\<lparr>status := status new\<rparr>), old\<lparr>status := status new\<rparr>)))
    (\<lambda>r s'. case r of Inl err \<Rightarrow> view s' = view s
      | Inr x \<Rightarrow> (\<exists>old. sel (view s) (objectKey new) = Some old \<and> x = old\<lparr>status := status new\<rparr> \<and>
                view s' = upd (\<lambda>m. m(objectKey new := Some x)) (view s))) s" for new s
    by (rule writes) auto
  show "wp (res_statusUpdate (memResource get put idx) new) (\<lambda>r s'. case r of Inl err \<Rightarrow> view s' = view s
      | Inr x \<Rightarrow> (\<exists>old. sel (view s) (objectKey new) = Some old \<and> x = old\<lparr>status := status new\<rparr> \<and>
                view s' = upd (\<lambda>m. m(objectKey new := Some x)) (view s))) s" for new s
    using status by (simp add: memResource_def Let_def)
  show "wp (res_statusPatch (memResource get put idx) base new) (\<lambda>r s'. case r of Inl err \<Rightarrow> view s' = view s
      | Inr x \<Rightarrow> (\<exists>old. sel (view s) (objectKey new) = Some old \<and> x = old\<lparr>status := status new\<rparr> \<and>
                view s' = upd (\<lambda>m. m(objectKey new := Some x)) (view s))) s" for base new s
    using status by (simp add: memResource_def Let_def)
qed (auto simp: memResource_def Let_def sel lookup_key set_current wp_def split: option.splits)

section \<open>The libraries\<close>

fun memFindCondition :: "condition list \<Rightarrow> string \<Rightarrow> condition option" where
  "memFindCondition [] ty = None"
| "memFindCondition (c # cs) ty = (if cond_type c = ty then Some c else memFindCondition cs ty)"

text \<open>\<open>SetStatusCondition\<close> replaces the condition of the same type, with a new transition time when the
  status changes, or appends one.\<close>

definition mergeCondition :: "int \<Rightarrow> condition \<Rightarrow> condition \<Rightarrow> condition" where
  "mergeCondition tm old c =
     c\<lparr>cond_lastTransitionTime :=
         (if cond_status old = cond_status c then cond_lastTransitionTime old
          else if cond_lastTransitionTime c = None then Some tm else cond_lastTransitionTime c)\<rparr>"

fun memSetCondition :: "int \<Rightarrow> condition list \<Rightarrow> condition \<Rightarrow> condition list \<times> bool" where
  "memSetCondition tm [] c =
     ([c\<lparr>cond_lastTransitionTime := (if cond_lastTransitionTime c = None then Some tm else cond_lastTransitionTime c)\<rparr>], True)"
| "memSetCondition tm (o' # cs) c =
     (if cond_type o' = cond_type c then (mergeCondition tm o' c # cs, mergeCondition tm o' c \<noteq> o')
      else case memSetCondition tm cs c of (cs', changed) \<Rightarrow> (o' # cs', changed))"

fun matchExpression :: "labels \<Rightarrow> string \<times> string \<times> string list \<Rightarrow> bool" where
  "matchExpression ls (key, op, vals) =
     (if op = ''In'' then (case map_of ls key of None \<Rightarrow> False | Some v \<Rightarrow> v \<in> set vals)
      else if op = ''NotIn'' then (case map_of ls key of None \<Rightarrow> True | Some v \<Rightarrow> v \<notin> set vals)
      else if op = ''Exists'' then map_of ls key \<noteq> None
      else map_of ls key = None)"

definition memAsSelector :: "label_selector \<Rightarrow> go_error + (labels \<Rightarrow> bool)" where
  "memAsSelector sel =
     (if list_ex (\<lambda>(key, op, vals). op \<notin> {''In'', ''NotIn'', ''Exists'', ''DoesNotExist''}) (ls_matchExpressions sel)
      then Inl (ErrorText ''not a valid label selector operator'')
      else Inr (\<lambda>ls. list_all (\<lambda>(key, v). map_of ls key = Some v) (ls_matchLabels sel) \<and>
                     list_all (matchExpression ls) (ls_matchExpressions sel)))"

definition memControllerOf :: "object_meta \<Rightarrow> owner_reference option" where
  "memControllerOf m = find own_controller (om_ownerReferences m)"

definition memIsControlledBy :: "object_meta \<Rightarrow> object_meta \<Rightarrow> bool" where
  "memIsControlledBy m owner =
     (case memControllerOf m of None \<Rightarrow> False | Some r \<Rightarrow> own_uid r = om_uid owner)"

text \<open>Owners are registered as Profiles, the one kind whose ownership the controllers look at.\<close>

definition memSetControllerReference :: "object_meta \<Rightarrow> object_meta \<Rightarrow> go_error + object_meta" where
  "memSetControllerReference owner m =
     (case memControllerOf m of
        Some r \<Rightarrow> if own_uid r = om_uid owner then Inr m else Inl (ErrorText ''already owned by another controller'')
      | None \<Rightarrow> Inr (m\<lparr>om_ownerReferences := om_ownerReferences m @
          [\<lparr>own_apiVersion = schemeGroupVersion, own_kind = ''Profile'', own_name = om_name owner,
            own_uid = om_uid owner, own_controller = True\<rparr>]\<rparr>))"

definition memDeleteTag :: "string \<Rightarrow> bool \<Rightarrow> authenticator option \<Rightarrow> (mem, oci_error + unit) state" where
  "memDeleteTag ref insecure credentials =
     State (\<lambda>s. if ref \<in> set (mem_tags s) then (Inr (), s\<lparr>mem_tags := filter (\<lambda>r. r \<noteq> ref) (mem_tags s)\<rparr>)
                else (Inl (TransportError 404 ''not found''), s))"

text \<open>The JSON and reference codecs have no laws; here every reference has the tag \<open>latest\<close>.\<close>

definition memKube :: "mem kube" where
  "memKube =
     \<lparr>k_components = memResource mem_components mem_components_update (\<lambda>_ _. []),
      k_componentversions = memResource mem_componentversions mem_componentversions_update index_component_version,
      k_profiles = memResource mem_profiles mem_profiles_update index_profile,
      k_referencegrants = memResource mem_referencegrants mem_referencegrants_update (\<lambda>_ _. []),
      k_registries = memResource mem_registries mem_registries_update (\<lambda>_ _. []),
      k_registrybindings = memResource mem_registrybindings mem_registrybindings_update index_registry_binding,
      k_releases = memResource mem_releases mem_releases_update index_release,
      k_releasebindings = memResource mem_releasebindings mem_releasebindings_update index_release_binding,
      k_renderartifacts = memResource mem_renderartifacts mem_renderartifacts_update (\<lambda>_ _. []),
      k_renderbindings = memResource mem_renderbindings mem_renderbindings_update index_render_binding,
      k_rendertasks = memResource mem_rendertasks mem_rendertasks_update index_render_task,
      k_targets = memResource mem_targets mem_targets_update index_target,
      k_secrets = memResource mem_secrets mem_secrets_update (\<lambda>_ _. []),
      k_jobs = memResource mem_jobs mem_jobs_update (\<lambda>_ _. []),
      k_eventf = (\<lambda>t reason msg. State (\<lambda>s. ((), s\<lparr>mem_events := (t, reason, msg) # mem_events s\<rparr>))),
      k_now = State (\<lambda>s. (mem_clock s, s)),
      k_setStatusCondition = memSetCondition, k_findStatusCondition = memFindCondition,
      k_isStatusConditionTrue = (\<lambda>cs ty. case memFindCondition cs ty of None \<Rightarrow> False | Some c \<Rightarrow> cond_status c = ConditionTrue),
      k_asSelector = memAsSelector, k_getControllerOf = memControllerOf, k_isControlledBy = memIsControlledBy,
      k_setControllerReference = memSetControllerReference,
      k_renderTaskSpecEqual = (=), k_bootstrapInputEqual = (=),
      k_marshalConfig = (\<lambda>cfg. Inr ''config''), k_parseDockerConfig = (\<lambda>data. Inr []),
      k_parseReference = (\<lambda>ref. Inr (ref, ''latest'')), k_parseTag = (\<lambda>ref insecure. Inr ref), k_remoteDelete = memDeleteTag,
      k_backoff = State (\<lambda>s. (interval, s)), k_registryBindingStrict = True, k_testMode = False,
      k_watchNamespace = ''''\<rparr>"

lemma memView_sel [simp]:
  "cl_components (memView s) = lookup (mem_components s)"
  "cl_componentversions (memView s) = lookup (mem_componentversions s)"
  "cl_profiles (memView s) = lookup (mem_profiles s)"
  "cl_referencegrants (memView s) = lookup (mem_referencegrants s)"
  "cl_registries (memView s) = lookup (mem_registries s)"
  "cl_registrybindings (memView s) = lookup (mem_registrybindings s)"
  "cl_releases (memView s) = lookup (mem_releases s)"
  "cl_releasebindings (memView s) = lookup (mem_releasebindings s)"
  "cl_renderartifacts (memView s) = lookup (mem_renderartifacts s)"
  "cl_renderbindings (memView s) = lookup (mem_renderbindings s)"
  "cl_rendertasks (memView s) = lookup (mem_rendertasks s)"
  "cl_targets (memView s) = lookup (mem_targets s)"
  "cl_secrets (memView s) = lookup (mem_secrets s)"
  "cl_jobs (memView s) = lookup (mem_jobs s)"
  "cl_ociTags (memView s) r \<longleftrightarrow> r \<in> set (mem_tags s)"
  by (simp_all add: memView_def)

lemma memSetCondition_find:
  "memSetCondition tm cs c = (cs', ch) \<Longrightarrow> \<exists>c'. memFindCondition cs' (cond_type c) = Some c' \<and>
     cond_status c' = cond_status c \<and> cond_reason c' = cond_reason c \<and> cond_message c' = cond_message c"
  by (induction tm cs c arbitrary: cs' ch rule: memSetCondition.induct)
     (auto simp: mergeCondition_def split: if_splits prod.splits)

lemma memSetCondition_other:
  "memSetCondition tm cs c = (cs', ch) \<Longrightarrow> ty \<noteq> cond_type c \<Longrightarrow> memFindCondition cs' ty = memFindCondition cs ty"
  by (induction tm cs c arbitrary: cs' ch rule: memSetCondition.induct)
     (auto simp: mergeCondition_def split: if_splits prod.splits)

lemma memSetCondition_same: "memSetCondition tm cs c = (cs', False) \<Longrightarrow> cs' = cs"
  by (induction tm cs c arbitrary: cs' rule: memSetCondition.induct) (auto split: if_splits prod.splits)

lemma memSetControllerReference_laws:
  assumes "memSetControllerReference owner m = Inr m'"
  shows "m' = m\<lparr>om_ownerReferences := om_ownerReferences m'\<rparr> \<and> memIsControlledBy m' owner"
proof -
  have "find P (xs @ [x]) = (case find P xs of None \<Rightarrow> if P x then Some x else None | Some y \<Rightarrow> Some y)" for P xs and x :: owner_reference
    by (induction xs) auto
  then show ?thesis using assms
    by (auto simp: memSetControllerReference_def memIsControlledBy_def memControllerOf_def split: option.splits if_splits)
qed

lemma memKube_resources:
  "resource_laws (k_components memKube) cl_components cl_components_update (\<lambda>_ _. []) memView"
  "resource_laws (k_componentversions memKube) cl_componentversions cl_componentversions_update index_component_version memView"
  "resource_laws (k_profiles memKube) cl_profiles cl_profiles_update index_profile memView"
  "resource_laws (k_referencegrants memKube) cl_referencegrants cl_referencegrants_update (\<lambda>_ _. []) memView"
  "resource_laws (k_registries memKube) cl_registries cl_registries_update (\<lambda>_ _. []) memView"
  "resource_laws (k_registrybindings memKube) cl_registrybindings cl_registrybindings_update index_registry_binding memView"
  "resource_laws (k_releases memKube) cl_releases cl_releases_update index_release memView"
  "resource_laws (k_releasebindings memKube) cl_releasebindings cl_releasebindings_update index_release_binding memView"
  "resource_laws (k_renderartifacts memKube) cl_renderartifacts cl_renderartifacts_update (\<lambda>_ _. []) memView"
  "resource_laws (k_renderbindings memKube) cl_renderbindings cl_renderbindings_update index_render_binding memView"
  "resource_laws (k_rendertasks memKube) cl_rendertasks cl_rendertasks_update index_render_task memView"
  "resource_laws (k_targets memKube) cl_targets cl_targets_update index_target memView"
  "resource_laws (k_secrets memKube) cl_secrets cl_secrets_update (\<lambda>_ _. []) memView"
  "resource_laws (k_jobs memKube) cl_jobs cl_jobs_update (\<lambda>_ _. []) memView"
  unfolding memKube_def kube.simps
  by (rule memResource_laws; simp add: memView_def lookup_store)+

interpretation mem: kube_laws memKube memView
proof (intro kube_laws.intro memKube_resources kube_laws_axioms.intro)
  show "k_setStatusCondition memKube tm conds c = (conds', changed) \<Longrightarrow> k_findStatusCondition memKube conds' (cond_type c) \<noteq> None"
    "k_setStatusCondition memKube tm conds c = (conds', changed) \<Longrightarrow>
      k_findStatusCondition memKube conds' (cond_type c) = Some c' \<Longrightarrow>
      cond_status c' = cond_status c \<and> cond_reason c' = cond_reason c \<and> cond_message c' = cond_message c"
    for tm conds c conds' changed c'
    using memSetCondition_find [of tm conds c] by (fastforce simp: memKube_def)+
qed (auto simp: memKube_def wp_def memDeleteTag_def memView_def interval_jittered memControllerOf_def memIsControlledBy_def fun_eq_iff
      memSetCondition_other dest: memSetCondition_same memSetControllerReference_laws split: option.splits)

text \<open>The protection guarantees on this server.\<close>

interpretation memcv: journey_invariant memKube memView "external memControllerOf" "\<lambda>c. cvp.active c k" "\<lambda>c. cvp.protects c k t" for k t
  using journeys(1) [OF mem.kube_laws_axioms] by (simp add: memKube_def)

interpretation membind: journey_invariant memKube memView "evolve memControllerOf" "\<lambda>_. True" "\<lambda>c. bindingGuarded memControllerOf c k t" for k t
  using journeys(6) [OF mem.kube_laws_axioms] by (simp add: memKube_def)

end
