(* ===== verification/Scenarios.thy ===== *)
theory Scenarios
  imports Mem_Server
begin

text \<open>
  Concrete runs of the controllers on the in-memory API server: a small cluster with one object of
  most kinds, its variations, and the guarantees of the other theories applied to them. Each
  \<open>_witness\<close> shows that the hypotheses of a guarantee hold together on a state in which the
  controllers have work to do; the runs are evaluated in the logic.
\<close>

section \<open>A cluster\<close>

definition metaIn :: "string \<Rightarrow> string \<Rightarrow> string list \<Rightarrow> object_meta" where
  "metaIn ns n fins = (newMeta n ns)\<lparr>om_uid := ns @ ''.'' @ n, om_generation := 1, om_finalizers := fins\<rparr>"

definition inApps :: "string \<Rightarrow> namespaced_name" where
  "inApps n = \<lparr>nn_namespace = ''apps'', nn_name = n\<rparr>"

definition nginx :: component where
  "nginx =
     \<lparr>metadata = metaIn ''apps'' ''nginx'' [componentRefFinalizer],
      spec = \<lparr>comp_scheme = ''https'', comp_registry = ''ghcr.io'', comp_repository = ''acme/nginx''\<rparr>, status = ()\<rparr>"

definition nginxV1 :: component_version where
  "nginxV1 =
     \<lparr>metadata = metaIn ''apps'' ''nginx-v1'' [componentVersionRefFinalizer],
      spec = \<lparr>cv_componentRef = ''nginx'', cv_tag = ''v1'',
              cv_resources = [(''chart'', \<lparr>ra_repository = ''ghcr.io/acme/nginx'', ra_insecure = False, ra_tag = ''v1'', ra_helm = None\<rparr>)],
              cv_entrypoint = \<lparr>ep_resourceName = ''chart'', ep_type = ''helm''\<rparr>\<rparr>, status = ()\<rparr>"

definition web :: release where
  "web =
     \<lparr>metadata = metaIn ''apps'' ''web'' [releaseRefFinalizer],
      spec = \<lparr>rel_componentVersionRef = ''nginx-v1'', rel_componentVersionNamespace = '''', rel_targetNamespace = None,
              rel_uniqueName = '''', rel_antiAffinity = None, rel_values = '''', rel_failedJobTTL = None, rel_priority = 0\<rparr>,
      status = \<lparr>rel_conditions = [], rel_renderTaskRef = None, rel_effectiveUniqueName = ''''\<rparr>\<rparr>"

definition webOnEdge :: release_binding where
  "webOnEdge =
     \<lparr>metadata = metaIn ''apps'' ''web-edge'' [],
      spec = \<lparr>rlb_targetRef = ''edge'', rlb_targetNamespace = '''', rlb_releaseRef = ''web''\<rparr>, status = []\<rparr>"

definition rollout :: profile where
  "rollout =
     \<lparr>metadata = metaIn ''apps'' ''rollout'' [],
      spec = \<lparr>prf_releaseRef = ''web'', prf_targetSelector = \<lparr>ls_matchLabels = [(''tier'', ''edge'')], ls_matchExpressions = []\<rparr>,
              prf_userdata = ''''\<rparr>,
      status = \<lparr>prf_matchedTargets = 0, prf_conditions = []\<rparr>\<rparr>"

definition harbor :: registry where
  "harbor =
     \<lparr>metadata = metaIn ''apps'' ''harbor'' [registryRefFinalizer],
      spec = \<lparr>reg_hostname = ''ghcr.io'', reg_plainHTTP = False, reg_solarSecretRef = Some ''push'',
              reg_targetPullSecretName = ''pull'', reg_flavor = ''oci'', reg_webhookPath = '''', reg_scanInterval = None\<rparr>,
      status = \<lparr>reg_conditions = []\<rparr>\<rparr>"

definition harborOnEdge :: registry_binding where
  "harborOnEdge =
     \<lparr>metadata = metaIn ''apps'' ''harbor-edge'' [],
      spec = \<lparr>rgb_targetRef = ''edge'', rgb_targetNamespace = '''', rgb_registryRef = ''harbor''\<rparr>, status = []\<rparr>"

definition edge :: target where
  "edge =
     \<lparr>metadata = (metaIn ''apps'' ''edge'' [targetFinalizer])\<lparr>om_labels := [(''tier'', ''edge'')]\<rparr>,
      spec = \<lparr>tgt_renderRegistryRef = ''harbor'', tgt_renderRegistryNamespace = '''', tgt_userdata = ''''\<rparr>,
      status = \<lparr>tgt_bootstrapVersion = 0, tgt_conditions = []\<rparr>\<rparr>"

definition demo :: mem where
  "demo = emptyMem
     \<lparr>mem_components := [nginx], mem_componentversions := [nginxV1], mem_releases := [web],
      mem_releasebindings := [webOnEdge], mem_profiles := [rollout], mem_registries := [harbor],
      mem_registrybindings := [harborOnEdge], mem_targets := [edge]\<rparr>"

definition settings :: renderer_settings where
  "settings = \<lparr>rs_image = ''renderer'', rs_command = ''solar-renderer'', rs_args = [], rs_caConfigMap = '''', rs_imagePullSecrets = []\<rparr>"

text \<open>The state after an operation.\<close>

definition after :: "('s, 'a) state \<Rightarrow> 's \<Rightarrow> 's" where
  "after m s = snd (run_state m s)"

lemma run_after: "fst (run_state m s) = r \<Longrightarrow> run_state m s = (r, after m s)"
  by (auto simp: after_def)

lemma exSome: "(case m of None \<Rightarrow> False | Some a \<Rightarrow> P a) \<Longrightarrow> \<exists>a. m = Some a \<and> P a"
  by (cases m) auto

lemma memKube_settings [simp]:
  "k_getControllerOf memKube = memControllerOf" "\<not> k_testMode memKube" "watched memKube k"
  by (simp_all add: memKube_def watched_def)

text \<open>A user deletes an object: one step of the protocol, whether the server accepts it or not.\<close>

lemma evolve_refl: "evolve ctrlOf c c"
proof -
  have "evolve ctrlOf c (cl_rendertasks_update (\<lambda>m. m) c)" by (rule ev_rendertasks)
  then show ?thesis by (cases c) simp
qed

lemma user_delete:
  "external memControllerOf (memView s) (memView (after (res_delete (k_components memKube) x1) s))"
  "external memControllerOf (memView s) (memView (after (res_delete (k_componentversions memKube) x2) s))"
  "external memControllerOf (memView s) (memView (after (res_delete (k_registries memKube) x3) s))"
  "external memControllerOf (memView s) (memView (after (res_delete (k_releases memKube) x4) s))"
  "evolve memControllerOf (memView s) (memView (after (res_delete (k_releases memKube) x4) s))"
proof -
  have wpI: "wp m (\<lambda>_ s'. ext (memView s) (memView s')) s \<Longrightarrow> ext (memView s) (memView (after m s))" for ext and m :: "(mem, 'a) state"
    by (simp add: wp_def after_def split: prod.splits)
  show "external memControllerOf (memView s) (memView (after (res_delete (k_components memKube) x1) s))"
    by (rule wpI, rule mem.comp.delete_wp) (auto intro!: ext_protocol evolve_refl ev_components tame_delete)
  show "external memControllerOf (memView s) (memView (after (res_delete (k_componentversions memKube) x2) s))"
    by (rule wpI, rule mem.cv.delete_wp) (auto intro!: ext_protocol evolve_refl ev_componentversions tame_delete)
  show "external memControllerOf (memView s) (memView (after (res_delete (k_registries memKube) x3) s))"
    by (rule wpI, rule mem.reg.delete_wp) (auto intro!: ext_protocol evolve_refl ev_registries tame_delete)
  show release: "evolve memControllerOf (memView s) (memView (after (res_delete (k_releases memKube) x4) s))"
    by (rule wpI, rule mem.rel.delete_wp) (auto intro!: evolve_refl ev_releases tame_delete)
  then show "external memControllerOf (memView s) (memView (after (res_delete (k_releases memKube) x4) s))"
    by (rule ext_protocol)
qed

section \<open>Deletion protection\<close>

text \<open>A user deletes the protected object, then two reconciles run: it is still there.\<close>

definition thenRun :: "reconcile_request \<Rightarrow> reconcile_request \<Rightarrow> mem \<Rightarrow> mem" where
  "thenRun r1 r2 s = after (reconcile memKube settings r2) (after (reconcile memKube settings r1) s)"

lemma journey_thenRun:
  assumes "ext (memView s) (memView s1)"
    and "case sel (memView s1) k of None \<Rightarrow> False | Some a \<Rightarrow> P a"
    and "case sel (memView (after (reconcile memKube settings r1) s1)) k of None \<Rightarrow> False | Some a \<Rightarrow> P a"
    and "case sel (memView (thenRun r1 r2 s1)) k of None \<Rightarrow> False | Some a \<Rightarrow> P a"
  shows "journey memKube settings memView ext (\<lambda>c. \<exists>a. sel c k = Some a \<and> P a) s (thenRun r1 r2 s1)"
proof -
  have "journey memKube settings memView ext (\<lambda>c. \<exists>a. sel c k = Some a \<and> P a) s s1"
    by (rule journey_client [OF journey_start]) (use assms(1) exSome [OF assms(2)] in auto)
  then have "journey memKube settings memView ext (\<lambda>c. \<exists>a. sel c k = Some a \<and> P a) s (after (reconcile memKube settings r1) s1)"
    by (rule journey_reconcile [OF _ after_def [symmetric]]) (rule exSome [OF assms(3)])
  then show ?thesis unfolding thenRun_def
    by (rule journey_reconcile [OF _ after_def [symmetric]]) (rule exSome [OF assms(4) [unfolded thenRun_def]])
qed


theorem componentversion_protected_witness:
  "\<exists>b'. cl_componentversions (memView (thenRun (ReleaseRequest (inApps ''web'')) (ComponentVersionRequest (inApps ''nginx-v1''))
      (after (res_delete (k_componentversions memKube) nginxV1) demo))) (inApps ''nginx-v1'') = Some b' \<and>
    hasFinalizer componentVersionRefFinalizer b'"
proof (rule componentversion_protected [where e = memKube and view = memView and s = demo and k = "inApps ''web''"
      and rel = web and b = nginxV1 and cfg = settings])
  show "journey memKube settings memView (external (k_getControllerOf memKube))
     (\<lambda>c. \<exists>a. cl_releases c (inApps ''web'') = Some a \<and> \<not> deleting a) demo
     (thenRun (ReleaseRequest (inApps ''web'')) (ComponentVersionRequest (inApps ''nginx-v1''))
        (after (res_delete (k_componentversions memKube) nginxV1) demo))"
    by (rule journey_thenRun, simp add: user_delete) code_simp+
qed (rule mem.kube_laws_axioms | code_simp)+

theorem registry_protected_by_binding_witness:
  "\<exists>b'. cl_registries (memView (thenRun (RegistryBindingRequest (inApps ''harbor-edge'')) (RegistryBindingRequest (inApps ''harbor-edge''))
      (after (res_delete (k_registries memKube) harbor) demo))) (inApps ''harbor'') = Some b' \<and> hasFinalizer registryRefFinalizer b'"
proof (rule registry_protected_by_binding [where e = memKube and view = memView and s = demo and k = "inApps ''harbor-edge''"
      and rgb = harborOnEdge and b = harbor and cfg = settings])
  show "journey memKube settings memView (external (k_getControllerOf memKube))
     (\<lambda>c. \<exists>a. cl_registrybindings c (inApps ''harbor-edge'') = Some a \<and> \<not> deleting a) demo
     (thenRun (RegistryBindingRequest (inApps ''harbor-edge'')) (RegistryBindingRequest (inApps ''harbor-edge''))
        (after (res_delete (k_registries memKube) harbor) demo))"
    by (rule journey_thenRun, simp add: user_delete) code_simp+
qed (rule mem.kube_laws_axioms | code_simp)+

text \<open>Here the binding of the registry goes away as well; the target alone keeps it.\<close>

definition edgeOnly :: mem where
  "edgeOnly = demo\<lparr>mem_registrybindings :=
     [harborOnEdge\<lparr>metadata := metaIn ''apps'' ''harbor-edge'' [registryBindingFinalizer]\<lparr>om_deletionTimestamp := Some 1\<rparr>\<rparr>]\<rparr>"

theorem registry_protected_by_target_witness:
  "\<exists>b'. cl_registries (memView (thenRun (RegistryBindingRequest (inApps ''harbor-edge'')) (RegistryBindingRequest (inApps ''harbor-edge''))
      (after (res_delete (k_registries memKube) harbor) edgeOnly))) (inApps ''harbor'') = Some b' \<and> hasFinalizer registryRefFinalizer b'"
proof (rule registry_protected_by_target [where e = memKube and view = memView and s = edgeOnly and k = "inApps ''edge''"
      and tgt = edge and b = harbor and cfg = settings])
  show "journey memKube settings memView (external (k_getControllerOf memKube))
     (\<lambda>c. \<exists>a. cl_targets c (inApps ''edge'') = Some a \<and> \<not> deleting a) edgeOnly
     (thenRun (RegistryBindingRequest (inApps ''harbor-edge'')) (RegistryBindingRequest (inApps ''harbor-edge''))
        (after (res_delete (k_registries memKube) harbor) edgeOnly))"
    by (rule journey_thenRun, simp add: user_delete) code_simp+
qed (rule mem.kube_laws_axioms | code_simp)+

text \<open>The binding of the release is being deleted; the profile keeps the release.\<close>

definition profileOnly :: mem where
  "profileOnly = demo\<lparr>mem_releasebindings :=
     [webOnEdge\<lparr>metadata := metaIn ''apps'' ''web-edge'' [releaseBindingFinalizer]\<lparr>om_deletionTimestamp := Some 1\<rparr>\<rparr>]\<rparr>"

theorem release_protected_by_profile_witness:
  "\<exists>b'. cl_releases (memView (thenRun (ReleaseBindingRequest (inApps ''web-edge'')) (ProfileRequest (inApps ''rollout''))
      (after (res_delete (k_releases memKube) web) profileOnly))) (inApps ''web'') = Some b' \<and> hasFinalizer releaseRefFinalizer b'"
proof (rule release_protected_by_profile [where e = memKube and view = memView and s = profileOnly and k = "inApps ''rollout''"
      and p = rollout and b = web and cfg = settings])
  show "journey memKube settings memView (external (k_getControllerOf memKube))
     (\<lambda>c. \<exists>a. cl_profiles c (inApps ''rollout'') = Some a \<and> \<not> deleting a) profileOnly
     (thenRun (ReleaseBindingRequest (inApps ''web-edge'')) (ProfileRequest (inApps ''rollout''))
        (after (res_delete (k_releases memKube) web) profileOnly))"
    by (rule journey_thenRun, simp add: user_delete) code_simp+
qed (rule mem.kube_laws_axioms | code_simp)+

theorem reconcile_refines_protocol_witness:
  "(evolve memControllerOf)\<^sup>*\<^sup>* (memView demo) (memView (snd (run_state (reconcile memKube settings (ProfileRequest (inApps ''rollout''))) demo)))"
  using reconcile_refines_protocol [OF mem.kube_laws_axioms, of demo settings "ProfileRequest (inApps ''rollout'')"] by simp

text \<open>The profile has not run yet; it creates the binding of the edge target on the way.\<close>

definition unrolled :: mem where
  "unrolled = demo\<lparr>mem_releasebindings := [], mem_profiles := [rollout\<lparr>metadata := metaIn ''apps'' ''rollout'' [profileFinalizer]\<rparr>]\<rparr>"

definition rolledOut :: mem where
  "rolledOut = after (reconcile memKube settings (ProfileRequest (inApps ''rollout''))) unrolled"

definition newBinding :: release_binding where
  "newBinding = hd (mem_releasebindings rolledOut)"

definition rolledOutWeb :: release where
  "rolledOutWeb = hd (mem_releases rolledOut)"


section \<open>Component versions and releases\<close>

theorem componentVersion_reconcile_protects_witness:
  "(\<exists>cv'. cl_componentversions (memView (after (componentVersionReconcile memKube (inApps ''nginx-v1'')) demo)) (inApps ''nginx-v1'') = Some cv' \<and>
      hasFinalizer componentVersionFinalizer cv') \<and>
   (\<exists>b'. cl_components (memView (after (componentVersionReconcile memKube (inApps ''nginx-v1'')) demo)) (inApps ''nginx'') = Some b' \<and>
      hasFinalizer componentRefFinalizer b')"
proof (rule componentVersion_reconcile_protects [where e = memKube and view = memView and s = demo and cv = nginxV1 and b = nginx and n = 0])
  show "run_state (componentVersionReconcile memKube (inApps ''nginx-v1'')) demo =
    (Inr 0, after (componentVersionReconcile memKube (inApps ''nginx-v1'')) demo)"
    by (rule run_after) code_simp
qed (rule mem.kube_laws_axioms memKube_settings | code_simp)+

definition retired :: mem where
  "retired = demo\<lparr>mem_componentversions :=
     [nginxV1\<lparr>metadata := metaIn ''apps'' ''nginx-v1'' [componentVersionFinalizer]\<lparr>om_deletionTimestamp := Some 1\<rparr>\<rparr>]\<rparr>"

theorem componentVersion_last_reference_released_witness:
  "\<exists>b'. cl_components (memView (after (componentVersionReconcile memKube (inApps ''nginx-v1'')) retired)) (inApps ''nginx'') = Some b' \<and>
     \<not> hasFinalizer componentRefFinalizer b'"
proof -
  let ?s = "after (componentVersionReconcile memKube (inApps ''nginx-v1'')) retired"
  have "(\<forall>b'. cl_components (memView ?s) (inApps ''nginx'') = Some b' \<longrightarrow> \<not> hasFinalizer componentRefFinalizer b') \<and>
    (\<forall>cv'. cl_componentversions (memView ?s) (inApps ''nginx-v1'') = Some cv' \<longrightarrow> \<not> hasFinalizer componentVersionFinalizer cv')"
  proof (rule componentVersion_last_reference_released [where e = memKube and view = memView and s = retired
        and cv = "hd (mem_componentversions retired)" and b = nginx and n = 0])
    show "run_state (componentVersionReconcile memKube (inApps ''nginx-v1'')) retired = (Inr 0, ?s)"
      by (rule run_after) code_simp
    show "\<forall>k' a. k' \<noteq> inApps ''nginx-v1'' \<longrightarrow> cl_componentversions (memView retired) k' = Some a \<longrightarrow>
        cvRef a = Some (inApps ''nginx'') \<longrightarrow> deleting a"
      by (simp add: retired_def deleting_def)
  qed (rule mem.kube_laws_axioms memKube_settings | code_simp)+
  moreover have "case cl_components (memView ?s) (inApps ''nginx'') of None \<Rightarrow> False | Some _ \<Rightarrow> True" by code_simp
  ultimately show ?thesis by (auto split: option.splits)
qed

text \<open>A release whose ComponentVersion is in another namespace, without and with a ReferenceGrant.\<close>

definition foreignWeb :: release where
  "foreignWeb = web\<lparr>spec := (spec web)\<lparr>rel_componentVersionNamespace := ''catalog''\<rparr>\<rparr>"

definition catalogV1 :: component_version where
  "catalogV1 = nginxV1\<lparr>metadata := metaIn ''catalog'' ''nginx-v1'' []\<rparr>"

definition catalogKey :: namespaced_name where
  "catalogKey = \<lparr>nn_namespace = ''catalog'', nn_name = ''nginx-v1''\<rparr>"

definition ungranted :: mem where
  "ungranted = demo\<lparr>mem_releases := [foreignWeb], mem_componentversions := [catalogV1]\<rparr>"

definition catalogGrant :: reference_grant where
  "catalogGrant =
     \<lparr>metadata = metaIn ''catalog'' ''to-apps'' [],
      spec = \<lparr>rg_from = [\<lparr>from_group = solarGroup, from_kind = ''Release'', from_namespace = ''apps''\<rparr>],
              rg_to = [\<lparr>to_group = solarGroup, to_kind = ''ComponentVersion''\<rparr>]\<rparr>, status = ()\<rparr>"

definition granted :: mem where
  "granted = ungranted\<lparr>mem_referencegrants := [catalogGrant]\<rparr>"

theorem release_without_grant_isolated_witness:
  "cl_componentversions (memView (after (releaseReconcile memKube (inApps ''web'')) ungranted)) = cl_componentversions (memView ungranted) \<and>
   releaseReports memKube (memView (after (releaseReconcile memKube (inApps ''web'')) ungranted)) (inApps ''web'') ConditionFalse ''NotGranted''"
proof -
  define out where "out = fst (run_state (releaseReconcile memKube (inApps ''web'')) ungranted)"
  have "cl_componentversions (memView (after (releaseReconcile memKube (inApps ''web'')) ungranted)) = cl_componentversions (memView ungranted) \<and>
   (\<forall>n. out = Inr n \<longrightarrow> releaseReports memKube (memView (after (releaseReconcile memKube (inApps ''web'')) ungranted)) (inApps ''web'')
      ConditionFalse ''NotGranted'')"
  proof (rule release_without_grant_isolated [where e = memKube and view = memView and s = ungranted and rel = foreignWeb])
    show "run_state (releaseReconcile memKube (inApps ''web'')) ungranted =
      (out, after (releaseReconcile memKube (inApps ''web'')) ungranted)"
      by (simp add: out_def after_def)
    show "\<forall>j g. cl_referencegrants (memView ungranted) j = Some g \<longrightarrow> om_namespace (metadata g) = releaseCVNamespace foreignWeb \<longrightarrow>
      \<not> grantPermitsComponentVersionAccess g (om_namespace (metadata foreignWeb))"
      by (simp add: ungranted_def demo_def emptyMem_def)
  qed (rule mem.kube_laws_axioms memKube_settings | code_simp)+
  moreover have "case out of Inl _ \<Rightarrow> False | Inr n \<Rightarrow> True" unfolding out_def by code_simp
  ultimately show ?thesis by (auto split: sum.splits)
qed

theorem release_reconcile_resolves_witness:
  "releaseReports memKube (memView (after (releaseReconcile memKube (inApps ''web'')) granted)) (inApps ''web'') ConditionTrue ''Resolved'' \<and>
   (\<exists>rel'. cl_releases (memView (after (releaseReconcile memKube (inApps ''web'')) granted)) (inApps ''web'') = Some rel' \<and>
      rel_effectiveUniqueName (status rel') = effectiveUniqueName foreignWeb catalogV1) \<and>
   (\<exists>cv'. cl_componentversions (memView (after (releaseReconcile memKube (inApps ''web'')) granted)) catalogKey = Some cv' \<and>
      hasFinalizer componentVersionRefFinalizer cv')"
proof (rule release_reconcile_resolves [where e = memKube and view = memView and s = granted and rel = foreignWeb and cv = catalogV1 and n = 0])
  show "run_state (releaseReconcile memKube (inApps ''web'')) granted = (Inr 0, after (releaseReconcile memKube (inApps ''web'')) granted)"
    by (rule run_after) code_simp
  have "cl_referencegrants (memView granted) (objectKey catalogGrant) = Some catalogGrant \<and> om_namespace (metadata catalogGrant) = releaseCVNamespace foreignWeb \<and>
    grantPermitsComponentVersionAccess catalogGrant (om_namespace (metadata foreignWeb))"
    by code_simp
  then show "releaseCVNamespace foreignWeb = om_namespace (metadata foreignWeb) \<or> (\<exists>j g. cl_referencegrants (memView granted) j = Some g \<and>
      om_namespace (metadata g) = releaseCVNamespace foreignWeb \<and> grantPermitsComponentVersionAccess g (om_namespace (metadata foreignWeb)))"
    by blast
qed (rule mem.kube_laws_axioms memKube_settings | code_simp)+

end
