(* ===== verification/RenderScenarios.thy ===== *)
theory RenderScenarios
  imports Scenarios Conflicts Naming
begin

text \<open>
  Concrete runs of conflict resolution, naming and the rendering pipeline, with the guarantees of
  those components applied to them.
\<close>

section \<open>Conflict resolution\<close>

definition bound :: "string \<Rightarrow> string \<Rightarrow> int \<Rightarrow> labels \<Rightarrow> label_selector option \<Rightarrow> release_info" where
  "bound name unique priority ls aa =
     \<lparr>inf_bindingKey = ''apps/'' @ name, inf_name = name, inf_uniqueName = '''',
      inf_release = \<lparr>metadata = (metaIn ''apps'' name [])\<lparr>om_labels := ls\<rparr>,
                     spec = (spec web)\<lparr>rel_uniqueName := unique, rel_priority := priority, rel_antiAffinity := aa\<rparr>,
                     status = status web\<rparr>,
      inf_cv = nginxV1, inf_rtName = '''', inf_chartURL = '''', inf_artifactName = '''', inf_artifactBindingName = ''''\<rparr>"

text \<open>Two releases share the unique name of their component; the cache repels web servers.\<close>

definition cache :: release_info where
  "cache = bound ''cache'' ''cache'' 1 [(''app'', ''cache'')]
     (Some \<lparr>ls_matchLabels = [(''app'', ''web'')], ls_matchExpressions = []\<rparr>)"

definition bindings :: "release_info list" where
  "bindings =
     [cache, bound ''web-old'' '''' 5 [(''app'', ''web'')] None, bound ''web'' '''' 10 [(''app'', ''web'')] None,
      bound ''db'' ''db'' 0 [(''app'', ''db'')] None]"

definition survivors :: "release_info list" where
  "survivors = fst (resolveReleaseConflicts memAsSelector bindings)"

lemma survivors_are: "map inf_name survivors = [''web'', ''db'']"
  by code_simp

theorem resolve_highest_priority_witness:
  "hd survivors \<in> setUniqueName ` set bindings \<and>
   inf_uniqueName (hd survivors) = effectiveUniqueName (inf_release (hd survivors)) (inf_cv (hd survivors)) \<and>
   \<not> byPriority (bindings ! 1) (hd survivors)"
proof -
  have "survivors \<noteq> []" using survivors_are by auto
  then have "hd survivors \<in> set (fst (resolveReleaseConflicts memAsSelector bindings))" by (simp add: survivors_def)
  note highest = resolve_highest_priority [OF this]
  have "effectiveUniqueName (inf_release (bindings ! 1)) (inf_cv (bindings ! 1)) = inf_uniqueName (hd survivors)" by code_simp
  moreover have "bindings ! 1 \<in> set bindings" by (simp add: bindings_def)
  ultimately show ?thesis using highest by blast
qed

lemma keyed_bindings: "\<forall>x \<in> set bindings. inf_bindingKey x \<noteq> ''''" "distinct (map inf_bindingKey bindings)"
  by code_simp+

theorem resolve_anti_affinity_witness:
  "\<not> clash memAsSelector (fst (resolveReleaseConflicts memAsSelector bindings) ! 0)
    (fst (resolveReleaseConflicts memAsSelector bindings) ! 1)"
  by (rule resolve_anti_affinity) (use keyed_bindings survivors_are [THEN arg_cong, of length] in \<open>simp_all add: survivors_def\<close>)

theorem resolve_dropped_justified_witness:
  "(\<exists>w \<in> set bindings. effectiveUniqueName (inf_release w) (inf_cv w) = effectiveUniqueName (inf_release cache) (inf_cv cache) \<and>
      byPriority w cache) \<or>
   ownSelector memAsSelector cache = None \<or>
   (\<exists>r \<in> set (fst (resolveReleaseConflicts memAsSelector bindings)). clash memAsSelector cache r \<and> \<not> byPriority cache r)"
proof (rule resolve_dropped_justified [OF keyed_bindings])
  show "cache \<in> set bindings" by (simp add: bindings_def)
  have "''cache'' \<notin> set (map inf_name survivors)" "inf_name (setUniqueName cache) = ''cache''"
    unfolding survivors_are by (simp, code_simp)
  then show "setUniqueName cache \<notin> set (fst (resolveReleaseConflicts memAsSelector bindings))"
    unfolding survivors_def [symmetric] by (metis image_eqI list.set_map)
qed

theorem resolve_order_independent_witness:
  "fst (resolveReleaseConflicts memAsSelector bindings) = fst (resolveReleaseConflicts memAsSelector (rev bindings))"
  by (rule resolve_order_independent [OF _ keyed_bindings(2,1)]) simp

theorem resolve_nonempty_witness: "fst (resolveReleaseConflicts memAsSelector bindings) \<noteq> []"
proof (rule resolve_nonempty [OF _ keyed_bindings(1)])
  show "\<forall>x \<in> set bindings. ownSelector memAsSelector x \<noteq> None"
    by (simp add: bindings_def bound_def cache_def ownSelector_def memAsSelector_def)
qed (simp add: bindings_def)

section \<open>Names\<close>

theorem releaseRenderTaskName_distinct_witness:
  "releaseRenderTaskName ''apps'' ''web'' ''edge'' 1 = releaseRenderTaskName ''apps'' ''web'' ''edge'' 1 \<and>
   ((''apps'' = ''apps'' \<and> ''web'' = ''web'' \<and> ''edge'' = ''edge'' \<and> (1::int) = 1) \<or>
    (\<exists>x y. x \<noteq> y \<and> hash8 x = hash8 y \<and> x = ''apps'' @ ''/'' @ ''web'' @ ''-'' @ ''edge'' @ ''-'' @ itoa 1 \<and>
       y = ''apps'' @ ''/'' @ ''web'' @ ''-'' @ ''edge'' @ ''-'' @ itoa 1))"
  by (intro conjI refl releaseRenderTaskName_distinct) simp_all

theorem targetRenderTaskName_inj_witness: "(''edge'' :: string) = ''edge'' \<and> (7 :: int) = 7"
  by (rule targetRenderTaskName_inj [of "''edge''" 7 "''edge''" 7]) simp_all

theorem renderChartURL_roundtrip_witness:
  "renderChartURL ''oci://Ghcr.io/'' ''apps/web'' ''v1'' = renderChartURL ''Ghcr.io'' ''apps/web'' ''v1'' \<and>
   registryHost (renderChartURL ''oci://Ghcr.io/'' ''apps/web'' ''v1'') = toLower ''Ghcr.io''"
  by (rule renderChartURL_roundtrip) simp_all

theorem resolveResources_correct_witness:
  "(\<exists>resolved. resolveResources (cv_resources (spec nginxV1)) [(''ghcr.io'', ''pull'')] True = Inr resolved)"
  using resolveResources_correct [of "cv_resources (spec nginxV1)" "[(''ghcr.io'', ''pull'')]" True]
  by (rule conjunct1 [THEN iffD2]) code_simp

section \<open>Artifacts\<close>

definition chart :: render_artifact where
  "chart =
     \<lparr>metadata = metaIn ''apps'' ''chart'' [renderArtifactFinalizer],
      spec = \<lparr>art_baseURL = ''ghcr.io'', art_repository = ''apps/web'', art_tag = ''v1'', art_renderTaskRef = ''task'',
              art_pushSecretRef = None, art_pushSecretNamespace = '''', art_registryFlavor = ''oci'', art_plainHTTP = False\<rparr>,
      status = \<lparr>art_chartURL = '''', art_conditions = []\<rparr>\<rparr>"

definition chartOnEdge :: render_binding where
  "chartOnEdge =
     \<lparr>metadata = metaIn ''apps'' ''chart-edge'' [],
      spec = \<lparr>rb_renderArtifactRef = ''chart'', rb_ownerKind = ''Target'', rb_ownerName = ''edge'', rb_ownerNamespace = ''apps''\<rparr>,
      status = ()\<rparr>"

definition bindingLess :: mem where
  "bindingLess = emptyMem\<lparr>mem_renderartifacts := [chart], mem_tags := [artifactRef chart]\<rparr>"

definition pushed :: mem where
  "pushed = bindingLess\<lparr>mem_renderbindings := [chartOnEdge]\<rparr>"

definition expiring :: mem where
  "expiring = bindingLess\<lparr>mem_renderartifacts := [chart\<lparr>metadata := (metadata chart)\<lparr>om_deletionTimestamp := Some 1\<rparr>\<rparr>]\<rparr>"

abbreviation collect :: "(mem, outcome) state" where
  "collect \<equiv> renderArtifactReconcile memKube (inApps ''chart'')"


theorem unbound_artifact_collected_witness:
  "\<exists>a'. cl_renderartifacts (memView (after collect bindingLess)) (inApps ''chart'') = Some a' \<and> deleting a'"
proof (rule unbound_artifact_collected [where e = memKube and view = memView and s = bindingLess and a = chart and n = 0])
  show "run_state collect bindingLess = (Inr 0, after collect bindingLess)" by (rule run_after) code_simp
  show "\<not> artifactBound (memView bindingLess) (inApps ''chart'')"
    by (simp add: artifactBound_def bindingLess_def emptyMem_def)
qed (rule mem.kube_laws_axioms memKube_settings | code_simp)+

theorem artifact_released_after_cleanup_witness:
  "\<not> cl_ociTags (memView (after collect expiring)) (artifactRef (hd (mem_renderartifacts expiring)))"
proof -
  have "artifactHeld (inApps ''chart'') (memView (after collect expiring)) \<or>
    \<not> cl_ociTags (memView (after collect expiring)) (artifactRef (hd (mem_renderartifacts expiring)))"
  proof (rule artifact_released_after_cleanup [where e = memKube and view = memView and s = expiring])
    show "run_state collect expiring = (fst (run_state collect expiring), after collect expiring)" by (simp add: after_def)
  qed (rule mem.kube_laws_axioms | code_simp)+
  moreover have "cl_renderartifacts (memView (after collect expiring)) (inApps ''chart'') = None" by code_simp
  ultimately show ?thesis by (simp add: artifactHeld_def)
qed

section \<open>Render tasks\<close>

definition failedAt :: condition where
  "failedAt = \<lparr>cond_type = ConditionTypeJobFailed, cond_status = ConditionTrue, cond_observedGeneration = 1,
     cond_lastTransitionTime = Some 100, cond_reason = ''JobFailed'', cond_message = ''''\<rparr>"

definition task :: render_task where
  "task =
     \<lparr>metadata = metaIn ''apps'' ''task'' [],
      spec = \<lparr>rt_rendererConfig = \<lparr>cfg_type = TypeRelease, cfg_release = emptyReleaseConfig, cfg_bootstrap = emptyBootstrapConfig\<rparr>,
              rt_repository = ''apps/web'', rt_tag = ''v1'', rt_baseURL = ''ghcr.io'', rt_pushSecretRef = None, rt_plainHTTP = False,
              rt_failedJobTTL = None, rt_ownerName = ''edge'', rt_ownerNamespace = ''apps'', rt_ownerKind = ''Target''\<rparr>,
      status = emptyRenderTaskStatus\<lparr>rt_conditions := [failedAt]\<rparr>\<rparr>"

definition retried :: job where
  "retried =
     \<lparr>metadata = metaIn ''apps'' ''render-task'' [],
      spec = \<lparr>job_backoffLimit = 3, job_ttlSecondsAfterFinished = 0, job_restartPolicy = ''Never'',
              job_container = \<lparr>ctr_name = '''', ctr_image = '''', ctr_command = [], ctr_args = [], ctr_env = [], ctr_volumeMounts = []\<rparr>,
              job_volumes = [], job_imagePullSecrets = []\<rparr>,
      status = \<lparr>js_active = 0, js_succeeded = 1, js_failed = 1, js_completionTime = ''''\<rparr>\<rparr>"

abbreviation observe :: "(mem, render_task \<times> bool) state" where
  "observe \<equiv> updateResourceStatusFromJob memKube task (Some retried)"

theorem job_failure_is_final_witness:
  "k_isStatusConditionTrue memKube (rt_conditions (status (fst (fst (run_state observe demo))))) ConditionTypeJobFailed \<and>
   k_isStatusConditionTrue memKube (rt_conditions (status (fst (fst (run_state observe demo))))) ConditionTypeJobSucceeded"
proof -
  have "run_state observe demo = ((fst (fst (run_state observe demo)), snd (fst (run_state observe demo))), after observe demo)"
    by (simp add: after_def)
  note final = job_failure_is_final [OF mem.kube_laws_axioms _ this]
  have "k_isStatusConditionTrue memKube (rt_conditions (status task)) ConditionTypeJobFailed" "js_succeeded (status retried) > 0"
    by code_simp+
  then show ?thesis using final by blast
qed

theorem failed_job_ttl_witness:
  "\<not> shouldCleanupSecrets memKube 150 task 60 \<and> 0 < remainingTTL memKube 150 task 60 \<and> remainingTTL memKube 150 task 60 \<le> 60 \<and>
   shouldCleanupSecrets memKube (150 + remainingTTL memKube 150 task 60) task 60"
proof -
  have "k_findStatusCondition memKube (rt_conditions (status task)) ConditionTypeJobFailed = Some failedAt" by code_simp
  from failed_job_ttl [OF this, of 100 150 60] show ?thesis by (simp add: failedAt_def)
qed

end
