(* ===== verification/TargetProperties.thy ===== *)
theory TargetProperties
  imports TargetWatches ReleaseController
begin

text \<open>
  What the Target controller guarantees: namespace isolation of the render registry, which bindings it
  collects, that stale objects are removed and nothing else, that rendered charts are linked before
  they are reported, and how the bootstrap version advances.
\<close>

section \<open>Conditions\<close>

definition targetReports :: "'s kube \<Rightarrow> cluster \<Rightarrow> namespaced_name \<Rightarrow> string \<Rightarrow> condition_status \<Rightarrow> string \<Rightarrow> bool" where
  "targetReports e c k ty st reason \<longleftrightarrow>
     (\<exists>t cond. cl_targets c k = Some t \<and> k_findStatusCondition e (tgt_conditions (status t)) ty = Some cond \<and>
       cond_status cond = st \<and> cond_reason cond = reason)"

context kube_laws begin

lemma setCondition_wp:
  assumes x: "cl_targets (abs s) (objectKey x) = Some x"
    and err: "\<And>err s'. abs s' = abs s \<Longrightarrow> Q (Inl err) s'"
    and ok: "\<And>conds c s'. k_findStatusCondition e conds ty = Some c \<Longrightarrow> cond_status c = st \<Longrightarrow> cond_reason c = reason \<Longrightarrow>
      abs s' = cl_targets_update (\<lambda>m. m(objectKey x := Some (x\<lparr>status := (status x)\<lparr>tgt_conditions := conds\<rparr>\<rparr>))) (abs s) \<Longrightarrow>
      Q (Inr (x\<lparr>status := (status x)\<lparr>tgt_conditions := conds\<rparr>\<rparr>)) s'"
  shows "wp (setCondition e x ty st reason msg) Q s"
  unfolding setCondition_def Let_def wp_bind
proof (rule now_set_wp)
  fix tm cs ch s1
  assume s1: "abs s1 = abs s"
    and set: "k_setStatusCondition e tm (tgt_conditions (status x))
      \<lparr>cond_type = ty, cond_status = st, cond_observedGeneration = om_generation (metadata x),
       cond_lastTransitionTime = None, cond_reason = reason, cond_message = msg\<rparr> = (cs, ch)"
  obtain c where c: "k_findStatusCondition e cs ty = Some c" "cond_status c = st" "cond_reason c = reason"
    "\<not> ch \<Longrightarrow> cs = tgt_conditions (status x)"
    by (rule setCondition_result [OF set]) auto
  have same: "abs s1 = cl_targets_update (\<lambda>m. m(objectKey x := Some (x\<lparr>status := (status x)\<lparr>tgt_conditions := cs\<rparr>\<rparr>))) (abs s)" if "\<not> ch"
    using c(4) [OF that] x s1 by (simp add: fun_upd_idem)
  show "wp (if ch then do {
          u \<leftarrow> res_statusUpdate (k_targets e) (x\<lparr>status := (status x)\<lparr>tgt_conditions := cs\<rparr>\<rparr>);
          (case u of
             Inl err \<Rightarrow> ret (Inl (Wrapped (''failed to update Target status condition '' @ ty) (Api err)))
           | Inr stored \<Rightarrow> ret (Inr stored))
        } else ret (Inr (x\<lparr>status := (status x)\<lparr>tgt_conditions := cs\<rparr>\<rparr>))) Q s1"
  proof (cases ch)
    case True
    then show ?thesis using s1 x c(1-3) by (auto intro!: tgt.statusUpdate_wp err ok)
  next
    case False
    then show ?thesis using ok [OF c(1-3) same [OF False]] by simp
  qed
qed

lemma requeueFor_wp:
  assumes "\<And>n s'. abs s' = abs s \<Longrightarrow> 2500000000 \<le> n \<Longrightarrow> Q (Inl (Inr n)) s'"
  shows "wp (requeueFor e x ty) Q s"
  unfolding requeueFor_def wp_bind
proof (rule wp_mono [OF now], rule wp_mono [OF backoff])
  fix t b and s1 s2 assume "abs s1 = abs s" "abs s2 = abs s1 \<and> jittered_backoff b"
  then show "wp (returnR (requeueAfterForCondition b (k_findStatusCondition e (tgt_conditions (status x)) ty) t)) Q s2"
    using requeueAfter_range(1) by (auto intro!: assms)
qed

text \<open>Without a grant the check reports \<open>NotGranted\<close> and ends the reconcile.\<close>

lemma targetGrantCheck_denied:
  assumes x: "cl_targets (abs s) (objectKey x) = Some x" and tm: "\<not> k_testMode e"
    and ns: "targetRegistryNamespace x \<noteq> om_namespace (metadata x)"
    and grants: "\<And>j g. cl_referencegrants (abs s) j = Some g \<Longrightarrow> om_namespace (metadata g) = targetRegistryNamespace x \<Longrightarrow>
      \<not> grantPermitsRegistryAccess g (om_namespace (metadata x))"
    and err: "\<And>err s'. abs s' = abs s \<Longrightarrow> Q (Inl (Inl err)) s'"
    and denied: "\<And>n m s'. abs s' = cl_targets_update m (abs s) \<Longrightarrow> 2500000000 \<le> n \<Longrightarrow>
      targetReports e (abs s') (objectKey x) ConditionTypeRegistryResolved ConditionFalse ''NotGranted'' \<Longrightarrow> Q (Inl (Inr n)) s'"
  shows "wp (targetGrantCheck e x) Q s"
  unfolding targetGrantCheck_def registryGranted_def wrapReturn_def apiErr_def Let_def if_P [OF ns] wp_andThen wp_bind
  by (rule grant.list_wp)
    (use x tm grants err in \<open>auto simp: list_ex_iff wrapErr_def errLogAndWrap_def
      intro!: setCondition_wp requeueFor_wp denied simp: targetReports_def\<close>)

lemma targetActive_denied:
  assumes "cl_targets (abs s) (objectKey x) = Some x" "\<not> k_testMode e" "targetRegistryNamespace x \<noteq> om_namespace (metadata x)"
    and "\<And>j g. cl_referencegrants (abs s) j = Some g \<Longrightarrow> om_namespace (metadata g) = targetRegistryNamespace x \<Longrightarrow>
      \<not> grantPermitsRegistryAccess g (om_namespace (metadata x))"
    and "\<And>err s'. abs s' = abs s \<Longrightarrow> Q (Inl (Inl err)) s'"
    and "\<And>n m s'. abs s' = cl_targets_update m (abs s) \<Longrightarrow> 2500000000 \<le> n \<Longrightarrow>
      targetReports e (abs s') (objectKey x) ConditionTypeRegistryResolved ConditionFalse ''NotGranted'' \<Longrightarrow> Q (Inl (Inr n)) s'"
  shows "wp (targetActive e x) Q s"
  unfolding targetActive_def resolveRegistry_def wp_andThen
  by (rule targetGrantCheck_denied) (use assms in auto)

lemma targetReconcile_denied:
  assumes x: "cl_targets (abs s) k = Some x" "\<not> deleting x" "hasFinalizer targetFinalizer x" "\<not> k_testMode e" "watched e k"
    and "targetRegistryNamespace x \<noteq> om_namespace (metadata x)"
    and "\<forall>j g. cl_referencegrants (abs s) j = Some g \<longrightarrow> om_namespace (metadata g) = targetRegistryNamespace x \<longrightarrow>
      \<not> grantPermitsRegistryAccess g (om_namespace (metadata x))"
  shows "wp (targetReconcile e k) (\<lambda>out s'.
    cl_registries (abs s') = cl_registries (abs s) \<and> cl_rendertasks (abs s') = cl_rendertasks (abs s) \<and>
    cl_renderbindings (abs s') = cl_renderbindings (abs s) \<and> cl_renderartifacts (abs s') = cl_renderartifacts (abs s) \<and>
    (\<forall>n. out = Inr n \<longrightarrow> 2500000000 \<le> n \<and>
       targetReports e (abs s') k ConditionTypeRegistryResolved ConditionFalse ''NotGranted'')) s"
  unfolding targetReconcile_def
  by (rule tgt.withObject_case [OF x(1,4)])
    (use assms in \<open>auto intro!: targetActive_denied\<close>)

end


section \<open>Stale objects\<close>

text \<open>\<open>swept P m m'\<close>: of the objects \<open>m\<close>, exactly those that satisfy \<open>P\<close> are gone or being deleted in \<open>m'\<close>.\<close>

definition swept ::
  "(('spec, 'status) object \<Rightarrow> bool) \<Rightarrow> (namespaced_name \<Rightarrow> ('spec, 'status) object option) \<Rightarrow>
   (namespaced_name \<Rightarrow> ('spec, 'status) object option) \<Rightarrow> bool" where
  "swept P m m' \<longleftrightarrow>
     (\<forall>k. (\<exists>x. m k = Some x \<and> P x) \<and> goneOrDeleting (m' k) \<or> (\<forall>x. m k = Some x \<longrightarrow> \<not> P x) \<and> m' k = m k)"

locale sweeping = resource_laws R sel upd idx abs
  for R :: "('s, 'spec, 'status) resource" and sel upd idx and abs :: "'s \<Rightarrow> 'c" +
  assumes sel_upd: "sel (upd f c) = f (sel c)"
    and upd_upd: "upd g (upd f c) = upd (\<lambda>m. g (f m)) c"
    and upd_id: "upd (\<lambda>m. m) c = c"
begin

text \<open>A loop that deletes the listed objects that satisfy \<open>P\<close>.\<close>

lemma sweep_wp:
  assumes listed: "set xs = {x. sel (abs s) (objectKey x) = Some x \<and> L x}" and PL: "\<And>x. P x \<Longrightarrow> L x"
    and skip: "\<And>x. L x \<Longrightarrow> \<not> P x \<Longrightarrow> f x = ret (Inr ())"
    and deletes: "\<And>x s Q. P x \<Longrightarrow> (\<And>err s'. abs s' = abs s \<Longrightarrow> Q (Inl err) s') \<Longrightarrow>
      (\<And>s'. abs s' = abs s \<Longrightarrow> sel (abs s) (objectKey x) = None \<Longrightarrow> Q (Inr ()) s') \<Longrightarrow>
      (\<And>old t s'. abs s' = upd (\<lambda>m. m(objectKey x := settle (markDeleted t old))) (abs s) \<Longrightarrow> Q (Inr ()) s') \<Longrightarrow> wp (f x) Q s"
    and err: "\<And>err m s'. abs s' = upd m (abs s) \<Longrightarrow> Q (Inl err) s'"
    and ok: "\<And>m s'. abs s' = upd m (abs s) \<Longrightarrow> swept P (sel (abs s)) (sel (abs s')) \<Longrightarrow> Q (Inr ()) s'"
  shows "wp (forEach f xs) Q s"
proof -
  define I where "I ys s' \<longleftrightarrow> (\<exists>m. abs s' = upd m (abs s)) \<and>
    (\<forall>k. sel (abs s') k = sel (abs s) k \<or> goneOrDeleting (sel (abs s') k) \<and> (\<exists>x. sel (abs s) k = Some x \<and> P x)) \<and>
    (\<forall>y \<in> set ys. P y \<longrightarrow> goneOrDeleting (sel (abs s') (objectKey y)))" for ys s'
  show ?thesis
  proof (rule wp_forEach [where I = I])
    show "I [] s" using upd_id [of "abs s", symmetric] by (auto simp: I_def)
  next
    fix ys y s1 assume y: "y \<in> set xs" and s1: "I ys s1"
    show "wp (f y) (\<lambda>r. case r of Inl err \<Rightarrow> Q (Inl err) | Inr _ \<Rightarrow> I (ys @ [y])) s1"
    proof (cases "P y")
      case True
      have stored: "sel (abs s) (objectKey y) = Some y" using y listed by simp
      show ?thesis
      proof (rule deletes [OF True])
        fix old t s2 assume s2: "abs s2 = upd (\<lambda>m. m(objectKey y := settle (markDeleted t old))) (abs s1)"
        have "\<exists>m. abs s2 = upd m (abs s)" using s1 s2 by (auto simp: I_def upd_upd)
        then show "(case Inr () of Inl err \<Rightarrow> Q (Inl err) | Inr _ \<Rightarrow> I (ys @ [y])) s2"
          using s1 s2 stored True by (auto simp: I_def sel_upd)
      qed (use s1 err in \<open>auto simp: I_def goneOrDeleting_def\<close>)
    qed (use s1 skip [of y] y listed in \<open>auto simp: I_def\<close>)
  next
    fix s1 assume s1: "I xs s1"
    have "swept P (sel (abs s)) (sel (abs s1))"
      unfolding swept_def
    proof (intro allI)
      fix k
      show "(\<exists>x. sel (abs s) k = Some x \<and> P x) \<and> goneOrDeleting (sel (abs s1) k) \<or>
        (\<forall>x. sel (abs s) k = Some x \<longrightarrow> \<not> P x) \<and> sel (abs s1) k = sel (abs s) k"
      proof (cases "\<exists>x. sel (abs s) k = Some x \<and> P x")
        case True
        then obtain x where x: "sel (abs s) k = Some x" "P x" by blast
        then have "x \<in> set xs" "objectKey x = k" using listed PL key by auto
        then show ?thesis using s1 x by (auto simp: I_def)
      qed (use s1 in \<open>auto simp: I_def\<close>)
    qed
    then show "Q (Inr ()) s1" using s1 ok by (auto simp: I_def)
  qed
qed

end

sublocale kube_laws \<subseteq> rtS: sweeping "k_rendertasks e" cl_rendertasks cl_rendertasks_update index_render_task abs
  by unfold_locales simp_all

sublocale kube_laws \<subseteq> rbS: sweeping "k_renderbindings e" cl_renderbindings cl_renderbindings_update index_render_binding abs
  by unfold_locales simp_all

text \<open>The RenderTasks of a target: in its namespace, with the target as the owner.\<close>

definition ownsTask :: "target \<Rightarrow> render_task \<Rightarrow> bool" where
  "ownsTask tgt rt \<longleftrightarrow> om_namespace (metadata rt) = om_namespace (metadata tgt) \<and> rt_ownerKind (spec rt) = ''Target'' \<and>
     rt_ownerName (spec rt) = om_name (metadata tgt) \<and> rt_ownerNamespace (spec rt) = om_namespace (metadata tgt)"

definition bindingOf :: "target \<Rightarrow> render_binding \<Rightarrow> bool" where
  "bindingOf tgt b \<longleftrightarrow> om_namespace (metadata b) = om_namespace (metadata tgt) \<and> ownsBinding tgt b"

context kube_laws begin

lemma deleteIgnoringNotFound_wp:
  "(\<And>err s'. abs s' = abs s \<Longrightarrow> Q (Inl err) s') \<Longrightarrow>
   (\<And>s'. abs s' = abs s \<Longrightarrow> cl_rendertasks (abs s) (objectKey x) = None \<Longrightarrow> Q (Inr ()) s') \<Longrightarrow>
   (\<And>old t s'. abs s' = cl_rendertasks_update (\<lambda>m. m(objectKey x := settle (markDeleted t old))) (abs s) \<Longrightarrow> Q (Inr ()) s') \<Longrightarrow>
   wp (deleteIgnoringNotFound (k_rendertasks e) x) Q s"
  "(\<And>err s'. abs s' = abs s \<Longrightarrow> Q (Inl err) s') \<Longrightarrow>
   (\<And>s'. abs s' = abs s \<Longrightarrow> cl_renderbindings (abs s) (objectKey y) = None \<Longrightarrow> Q (Inr ()) s') \<Longrightarrow>
   (\<And>old t s'. abs s' = cl_renderbindings_update (\<lambda>m. m(objectKey y := settle (markDeleted t old))) (abs s) \<Longrightarrow> Q (Inr ()) s') \<Longrightarrow>
   wp (deleteIgnoringNotFound (k_renderbindings e) y) Q s"
  unfolding deleteIgnoringNotFound_def by (auto intro!: rt.delete_wp rb.delete_wp)

lemma indexOwnerKind_task: "''Target'' \<in> set (index_render_task indexOwnerKind rt') \<longleftrightarrow> rt_ownerKind (spec rt') = ''Target''"
  by (auto simp: index_render_task_def nonEmpty_def)

lemma deleteStaleRenderTasks_wp:
  assumes "\<And>err m s'. abs s' = cl_rendertasks_update m (abs s) \<Longrightarrow> Q (Inl err) s'"
    and "\<And>m s'. abs s' = cl_rendertasks_update m (abs s) \<Longrightarrow>
      swept (\<lambda>rt. ownsTask x rt \<and> om_name (metadata rt) \<notin> nms) (cl_rendertasks (abs s)) (cl_rendertasks (abs s')) \<Longrightarrow> Q (Inr ()) s'"
  shows "wp (deleteStaleRenderTasks e x nms) Q s"
  unfolding deleteStaleRenderTasks_def wp_bind
proof (rule rt.list_wp)
  fix rts s1 assume s1: "abs s1 = abs s"
    "set rts = {y. cl_rendertasks (abs s) (objectKey y) = Some y \<and>
       selected index_render_task (inNamespaceMatching (om_namespace (metadata x)) indexOwnerKind ''Target'') y}"
  show "wp (case Inr rts of Inl err \<Rightarrow> ret (Inl err) | Inr rts \<Rightarrow> forEach (\<lambda>rt.
            if rt_ownerName (spec rt) \<noteq> om_name (metadata x) \<or> rt_ownerNamespace (spec rt) \<noteq> om_namespace (metadata x)
            then ret (Inr ())
            else if om_name (metadata rt) \<in> nms then ret (Inr ())
            else andThen (deleteIgnoringNotFound (k_rendertasks e) rt) (\<lambda>_. do {
                   k_eventf e ''Normal'' ''Deleted'' (''Deleted stale RenderTask '' @ om_name (metadata rt));
                   ret (Inr ())
                 })) rts) Q s1"
    unfolding sum.case
    by (rule rtS.sweep_wp [where P = "\<lambda>rt. ownsTask x rt \<and> om_name (metadata rt) \<notin> nms"
        and L = "selected index_render_task (inNamespaceMatching (om_namespace (metadata x)) indexOwnerKind ''Target'')"])
      (use s1 assms in \<open>auto simp: ownsTask_def indexOwnerKind_task intro!: deleteIgnoringNotFound_wp wp_mono [OF event]\<close>)
qed (use assms(1) [where m = "\<lambda>m. m"] in auto)

lemma deleteOwnedRenderTasks_wp:
  assumes "\<And>err m s'. abs s' = cl_rendertasks_update m (abs s) \<Longrightarrow> Q (Inl err) s'"
    and "\<And>m s'. abs s' = cl_rendertasks_update m (abs s) \<Longrightarrow>
      swept (ownsTask x) (cl_rendertasks (abs s)) (cl_rendertasks (abs s')) \<Longrightarrow> Q (Inr ()) s'"
  shows "wp (deleteOwnedRenderTasks e x) Q s"
  unfolding deleteOwnedRenderTasks_def wp_bind
proof (rule rt.list_wp)
  fix rts s1 assume s1: "abs s1 = abs s"
    "set rts = {y. cl_rendertasks (abs s) (objectKey y) = Some y \<and>
       selected index_render_task (inNamespaceMatching (om_namespace (metadata x)) indexOwnerKind ''Target'') y}"
  show "wp (case Inr rts of Inl err \<Rightarrow> ret (Inl err) | Inr rts \<Rightarrow> forEach (\<lambda>rt.
            if rt_ownerName (spec rt) = om_name (metadata x) \<and> rt_ownerNamespace (spec rt) = om_namespace (metadata x)
            then deleteIgnoringNotFound (k_rendertasks e) rt
            else ret (Inr ())) rts) Q s1"
    unfolding sum.case
    by (rule rtS.sweep_wp [where P = "ownsTask x"
        and L = "selected index_render_task (inNamespaceMatching (om_namespace (metadata x)) indexOwnerKind ''Target'')"])
      (use s1 assms in \<open>auto simp: ownsTask_def indexOwnerKind_task intro!: deleteIgnoringNotFound_wp\<close>)
qed (use assms(1) [where m = "\<lambda>m. m"] in auto)

text \<open>The RenderBindings, listed without the cache; \<open>nms\<close> are the names to keep.\<close>

lemma sweepBindings_wp:
  assumes skip: "\<And>b. om_namespace (metadata b) = om_namespace (metadata x) \<Longrightarrow> \<not> P b \<Longrightarrow> f b = ret (Inr ())"
    and del: "\<And>b. P b \<Longrightarrow> om_namespace (metadata b) = om_namespace (metadata x) \<and> f b = deleteIgnoringNotFound (k_renderbindings e) b"
    and "\<And>err m s'. abs s' = cl_renderbindings_update m (abs s) \<Longrightarrow> Q (Inl err) s'"
    and "\<And>m s'. abs s' = cl_renderbindings_update m (abs s) \<Longrightarrow>
      swept P (cl_renderbindings (abs s)) (cl_renderbindings (abs s')) \<Longrightarrow> Q (Inr ()) s'"
  shows "wp (res_apiList (k_renderbindings e) (inNamespace (om_namespace (metadata x))))
    (\<lambda>l. wp (case l of Inl err \<Rightarrow> ret (Inl err) | Inr bs \<Rightarrow> forEach f bs) Q) s"
proof (rule rb.apiList_wp)
  fix bs s1 assume s1: "abs s1 = abs s"
    "set bs = {y. cl_renderbindings (abs s) (objectKey y) = Some y \<and>
       selected index_render_binding (inNamespace (om_namespace (metadata x))) y}"
  show "wp (case Inr bs of Inl err \<Rightarrow> ret (Inl err) | Inr bs \<Rightarrow> forEach f bs) Q s1"
    unfolding sum.case
    by (rule rbS.sweep_wp [where P = P and L = "selected index_render_binding (inNamespace (om_namespace (metadata x)))"])
      (use s1 assms in \<open>auto intro!: deleteIgnoringNotFound_wp\<close>)
qed (use assms(3) [where m = "\<lambda>m. m"] in auto)

lemma deleteRenderBindings_wp:
  assumes "\<And>err m s'. abs s' = cl_renderbindings_update m (abs s) \<Longrightarrow> Q (Inl err) s'"
  shows "(\<And>m s'. abs s' = cl_renderbindings_update m (abs s) \<Longrightarrow>
      swept (\<lambda>b. bindingOf x b \<and> om_name (metadata b) \<notin> nms) (cl_renderbindings (abs s)) (cl_renderbindings (abs s')) \<Longrightarrow>
      Q (Inr ()) s') \<Longrightarrow> wp (deleteStaleRenderBindings e x nms) Q s"
    and "(\<And>m s'. abs s' = cl_renderbindings_update m (abs s) \<Longrightarrow>
      swept (bindingOf x) (cl_renderbindings (abs s)) (cl_renderbindings (abs s')) \<Longrightarrow> Q (Inr ()) s') \<Longrightarrow>
      wp (deleteOwnedRenderBindings e x) Q s"
  unfolding deleteStaleRenderBindings_def deleteOwnedRenderBindings_def wp_bind
  by (rule sweepBindings_wp; use assms in \<open>auto simp: bindingOf_def\<close>)+

end

text \<open>(C15) Stale objects: the cleanup of a Target removes exactly the RenderTasks and RenderBindings that the
  Target owns and that it no longer needs, and touches nothing else.\<close>

theorem stale_objects_removed:
  assumes "kube_laws e view"
    and "run_state (deleteStaleRenderTasks e tgt rts) s = (Inr (), s1)"
    and "run_state (deleteStaleRenderBindings e tgt rbs) s1 = (Inr (), s2)"
  shows "swept (\<lambda>rt. ownsTask tgt rt \<and> om_name (metadata rt) \<notin> rts) (cl_rendertasks (view s)) (cl_rendertasks (view s2)) \<and>
    swept (\<lambda>b. bindingOf tgt b \<and> om_name (metadata b) \<notin> rbs) (cl_renderbindings (view s)) (cl_renderbindings (view s2)) \<and>
    (\<exists>m m'. view s2 = cl_renderbindings_update m' (cl_rendertasks_update m (view s)))"
proof -
  have "wp (deleteStaleRenderTasks e tgt rts) (succeeds (\<lambda>_ s'. (\<exists>m. view s' = cl_rendertasks_update m (view s)) \<and>
      swept (\<lambda>rt. ownsTask tgt rt \<and> om_name (metadata rt) \<notin> rts) (cl_rendertasks (view s)) (cl_rendertasks (view s')))) s"
    by (rule kube_laws.deleteStaleRenderTasks_wp [OF assms(1)], simp, simp only: succeeds_simps, blast)
  note tasks = wp_succeeds [OF this assms(2)]
  have "wp (deleteStaleRenderBindings e tgt rbs) (succeeds (\<lambda>_ s'. (\<exists>m. view s' = cl_renderbindings_update m (view s1)) \<and>
      swept (\<lambda>b. bindingOf tgt b \<and> om_name (metadata b) \<notin> rbs) (cl_renderbindings (view s1)) (cl_renderbindings (view s')))) s1"
    by (rule kube_laws.deleteRenderBindings_wp(1) [OF assms(1)], simp, simp only: succeeds_simps, blast)
  note bindings = wp_succeeds [OF this assms(3)]
  have "cl_renderbindings (view s1) = cl_renderbindings (view s)" "cl_rendertasks (view s2) = cl_rendertasks (view s1)"
    using tasks bindings by auto
  moreover have "\<exists>m m'. view s2 = cl_renderbindings_update m' (cl_rendertasks_update m (view s))"
    using tasks bindings by metis
  ultimately show ?thesis using tasks bindings by simp
qed

section \<open>Deletion\<close>

lemma quiet_orReturn: "quiet view m \<Longrightarrow> quiet view (orReturn m)"
  unfolding orReturn_def by auto

context kube_laws begin

text \<open>Giving up the Registry changes at most Registries, and removing the own finalizer at most Targets.\<close>

lemma targetUnprotect_frame:
  "quiet (\<lambda>s. (cl_rendertasks (abs s), cl_renderbindings (abs s), cl_targets (abs s))) (targetUnprotect e x)"
proof -
  let ?v = "\<lambda>s. (cl_rendertasks (abs s), cl_renderbindings (abs s), cl_targets (abs s))"
  have "quiet ?v (dropProtection e (k_registries e) lock fin kind k)" for lock fin kind k
    unfolding quiet_def by (auto intro!: reg.dropProtection_wp)
  moreover have "quiet ?v (res_get (k_registries e) k)" "quiet ?v (res_list (k_targets e) opts)"
    "quiet ?v (res_list (k_registrybindings e) opts)" for k opts
    by (rule quiet_view [where f = "\<lambda>c. (cl_rendertasks c, cl_renderbindings c, cl_targets c)"], blast)+
  ultimately show ?thesis
    unfolding targetUnprotect_def removeRegistryRefFinalizer_def by (auto intro!: quiet_orReturn)
qed

lemma targetUnprotect_outcome:
  assumes "\<not> k_testMode e"
  shows "wp (targetUnprotect e x) (\<lambda>r s'. \<forall>n. r \<noteq> Inl (Inr n)) s"
proof -
  have any: "(\<And>r s2. P r s2) \<Longrightarrow> wp m P s1" for P s1 and m :: "('a, go_error + unit) state"
    by (auto simp: wp_def split: prod.splits)
  show ?thesis
    unfolding targetUnprotect_def by (auto intro!: reg.get_wp any simp: failR_def assms split: sum.splits)
qed

lemma targetDelete_wp:
  assumes x: "cl_targets (abs s) k = Some x" "objectKey x = k" "hasFinalizer targetFinalizer x" and tm: "\<not> k_testMode e"
    and err: "\<And>err s'. Q (Inl (Inl err)) s'"
    and ok: "\<And>s'. swept (ownsTask x) (cl_rendertasks (abs s)) (cl_rendertasks (abs s')) \<Longrightarrow>
      swept (bindingOf x) (cl_renderbindings (abs s)) (cl_renderbindings (abs s')) \<Longrightarrow>
      cl_targets (abs s') k = settle (deleteFinalizer targetFinalizer x) \<Longrightarrow> Q (Inr ()) s'"
  shows "wp (targetDelete e k x) Q s"
proof -
  have early: "Q (Inl out) s'" if "\<forall>n. out \<noteq> Inr n" for out s' using that err by (cases out) auto
  have last: "wp (removeSelfFinalizer e (k_targets e) targetFinalizer ''Target'' k x) Q s4"
    if "cl_targets (abs s4) = cl_targets (abs s)" "swept (ownsTask x) (cl_rendertasks (abs s)) (cl_rendertasks (abs s4))"
      "swept (bindingOf x) (cl_renderbindings (abs s)) (cl_renderbindings (abs s4))" for s4
    unfolding removeSelfFinalizer_def failR_def
    using that x tm by (auto intro!: tgt.get_wp tgt.patch_wp err ok)
  have unprotect: "wp (andThen (targetUnprotect e x) (\<lambda>_. removeSelfFinalizer e (k_targets e) targetFinalizer ''Target'' k x)) Q s3"
    if "cl_targets (abs s3) = cl_targets (abs s)" "swept (ownsTask x) (cl_rendertasks (abs s)) (cl_rendertasks (abs s3))"
      "swept (bindingOf x) (cl_renderbindings (abs s)) (cl_renderbindings (abs s3))" for s3
    unfolding wp_andThen
    by (rule wp_mono [OF wp_conj [OF targetUnprotect_frame [of x, unfolded quiet_def, rule_format] targetUnprotect_outcome [OF tm]]])
      (use that early in \<open>auto split: sum.splits intro!: last\<close>)
  show ?thesis
    unfolding targetDelete_def wrapReturn_def apiErr_def
    by (auto intro!: wp_mono [OF event] deleteOwnedRenderTasks_wp deleteRenderBindings_wp(2) unprotect [unfolded wp_andThen] err simp: tm)
qed

end

text \<open>(C16) A successful reconcile of a Target that is being deleted leaves none of its RenderTasks and RenderBindings
  active, touches no other RenderTask or RenderBinding, and releases the Target.\<close>

theorem target_deletion_cleans_up:
  assumes "kube_laws e view" "\<not> k_testMode e" "watched e k"
    and "cl_targets (view s) k = Some tgt" "deleting tgt" "hasFinalizer targetFinalizer tgt"
    and "run_state (targetReconcile e k) s = (Inr n, s')"
  shows "swept (ownsTask tgt) (cl_rendertasks (view s)) (cl_rendertasks (view s')) \<and>
    swept (bindingOf tgt) (cl_renderbindings (view s)) (cl_renderbindings (view s')) \<and>
    (\<forall>tgt'. cl_targets (view s') k = Some tgt' \<longrightarrow> \<not> hasFinalizer targetFinalizer tgt')"
proof -
  have "wp (targetReconcile e k) (succeeds (\<lambda>_ s'.
    swept (ownsTask tgt) (cl_rendertasks (view s)) (cl_rendertasks (view s')) \<and>
    swept (bindingOf tgt) (cl_renderbindings (view s)) (cl_renderbindings (view s')) \<and>
    (\<forall>tgt'. cl_targets (view s') k = Some tgt' \<longrightarrow> \<not> hasFinalizer targetFinalizer tgt'))) s"
    unfolding targetReconcile_def
  proof (rule resource_laws.withObject_wp [OF kube_laws.axioms(12) [OF assms(1)] assms(4,3,2)])
    fix s1 assume s1: "view s1 = view s" "objectKey tgt = k"
    show "wp (finish (if deleting tgt then targetDelete e k tgt
       else if \<not> hasFinalizer targetFinalizer tgt then ensureSelfFinalizer e (k_targets e) targetFinalizer ''Target'' k tgt
       else targetActive e tgt)) (succeeds (\<lambda>_ s'. swept (ownsTask tgt) (cl_rendertasks (view s)) (cl_rendertasks (view s')) \<and>
    swept (bindingOf tgt) (cl_renderbindings (view s)) (cl_renderbindings (view s')) \<and>
    (\<forall>tgt'. cl_targets (view s') k = Some tgt' \<longrightarrow> \<not> hasFinalizer targetFinalizer tgt'))) s1"
      unfolding if_P [OF assms(5)] wp_finish
      by (rule kube_laws.targetDelete_wp [OF assms(1)])
        (use assms s1 in \<open>auto simp: settle_def split: if_splits\<close>)
  qed simp
  then show ?thesis using assms(7) by (rule wp_succeeds)
qed

section \<open>Linking pushed charts\<close>

definition artifactFor :: "render_task \<Rightarrow> string \<Rightarrow> string \<Rightarrow> render_artifact_spec" where
  "artifactFor rt flavor ns =
     \<lparr>art_baseURL = rt_baseURL (spec rt), art_repository = rt_repository (spec rt), art_tag = rt_tag (spec rt),
      art_renderTaskRef = om_name (metadata rt), art_pushSecretRef = rt_pushSecretRef (spec rt),
      art_pushSecretNamespace = ns, art_registryFlavor = flavor, art_plainHTTP = rt_plainHTTP (spec rt)\<rparr>"

text \<open>Get the object, or create it when there is none.\<close>

context resource_laws begin

lemma ensure_wp:
  assumes new: "om_name (metadata new) \<noteq> ''''" "objectKey new = k"
    and err: "\<And>err s'. abs s' = abs s \<Longrightarrow> Q (Inl err) s'"
    and found: "\<And>x s'. abs s' = abs s \<Longrightarrow> sel (abs s) k = Some x \<Longrightarrow> wp (found x) Q s'"
    and created: "\<And>x s'. sel (abs s) k = None \<Longrightarrow> createdFrom new x \<Longrightarrow> objectKey x = k \<Longrightarrow>
      abs s' = upd (\<lambda>m. m(k := Some x)) (abs s) \<Longrightarrow> Q (Inr ()) s'"
  shows "wp (bindM (res_get R k) (\<lambda>r. case r of
       Inl err \<Rightarrow> if \<not> isNotFound err then ret (Inl (Api err))
         else bindM (res_create R new) (\<lambda>c. case c of
           Inl cerr \<Rightarrow> if isAlreadyExists cerr then ret (Inr ()) else ret (Inl (Api cerr))
         | Inr _ \<Rightarrow> ret (Inr ()))
     | Inr x \<Rightarrow> found x)) Q s"
  unfolding wp_bind
proof (rule get_wp)
  fix ge s1 assume s1: "abs s1 = abs s" "isNotFound ge \<longrightarrow> sel (abs s) k = None"
  have "wp (res_create R new) (\<lambda>c. wp (case c of
           Inl cerr \<Rightarrow> if isAlreadyExists cerr then ret (Inr ()) else ret (Inl (Api cerr)) | Inr _ \<Rightarrow> ret (Inr ())) Q) s1" if "isNotFound ge"
  proof (rule create_wp)
    fix x s2 assume x: "createdFrom new x" "abs s2 = upd (\<lambda>m. m(objectKey x := Some x)) (abs s1)"
    then have "objectKey x = k" using new by (simp add: createdFrom_def objectKey_def)
    then show "wp (case Inr x of Inl cerr \<Rightarrow> if isAlreadyExists cerr then ret (Inr ()) else ret (Inl (Api cerr)) | Inr _ \<Rightarrow> ret (Inr ())) Q s2"
      using x s1 that by (simp add: created)
  qed (use new s1 that err in auto)
  then show "wp (case Inl ge of
       Inl err \<Rightarrow> if \<not> isNotFound err then ret (Inl (Api err))
         else bindM (res_create R new) (\<lambda>c. case c of
           Inl cerr \<Rightarrow> if isAlreadyExists cerr then ret (Inr ()) else ret (Inl (Api cerr))
         | Inr _ \<Rightarrow> ret (Inr ()))
     | Inr x \<Rightarrow> found x) Q s1" using s1 err by auto
qed (use found in auto)

end

context kube_laws begin

lemma ensureRenderBinding_wp:
  assumes "bName \<noteq> ''''" and "\<And>err s'. abs s' = abs s \<Longrightarrow> Q (Inl err) s'"
    and "\<And>b s'. abs s' = abs s \<Longrightarrow>
      cl_renderbindings (abs s) \<lparr>nn_namespace = om_namespace (metadata x), nn_name = bName\<rparr> = Some b \<Longrightarrow> Q (Inr ()) s'"
    and "\<And>b s'. cl_renderbindings (abs s) \<lparr>nn_namespace = om_namespace (metadata x), nn_name = bName\<rparr> = None \<Longrightarrow>
      spec b = \<lparr>rb_renderArtifactRef = aName, rb_ownerKind = ''Target'', rb_ownerName = om_name (metadata x),
                rb_ownerNamespace = om_namespace (metadata x)\<rparr> \<Longrightarrow>
      abs s' = cl_renderbindings_update (\<lambda>m. m(\<lparr>nn_namespace = om_namespace (metadata x), nn_name = bName\<rparr> := Some b)) (abs s) \<Longrightarrow>
      Q (Inr ()) s'"
  shows "wp (ensureRenderBinding e x aName bName) Q s"
  unfolding ensureRenderBinding_def
  by (rule rb.ensure_wp) (use assms in \<open>auto simp: objectKey_def newMeta_def createdFrom_def\<close>)

lemma ensureRenderArtifact_wp:
  assumes "name \<noteq> ''''" and "\<And>err s'. Q (Inl err) s'"
    and "\<And>a s'. abs s' = abs s \<Longrightarrow>
      cl_renderartifacts (abs s) \<lparr>nn_namespace = om_namespace (metadata t), nn_name = name\<rparr> = Some a \<Longrightarrow> \<not> deleting a \<Longrightarrow> Q (Inr ()) s'"
    and "\<And>a s'. cl_renderartifacts (abs s) \<lparr>nn_namespace = om_namespace (metadata t), nn_name = name\<rparr> = None \<Longrightarrow>
      spec a = artifactFor t flavor ns \<Longrightarrow> \<not> deleting a \<Longrightarrow>
      abs s' = cl_renderartifacts_update (\<lambda>m. m(\<lparr>nn_namespace = om_namespace (metadata t), nn_name = name\<rparr> := Some a)) (abs s) \<Longrightarrow>
      Q (Inr ()) s'"
  shows "wp (ensureRenderArtifact e name t flavor ns) Q s"
  unfolding ensureRenderArtifact_def
  by (rule art.ensure_wp) (use assms in \<open>auto simp: objectKey_def newMeta_def createdFrom_def artifactFor_def\<close>)

lemma generated_name_nonempty: "renderArtifactName ns base repo tag \<noteq> ''''" "renderBindingName art owner \<noteq> ''''"
  by (simp_all add: renderArtifactName_def renderBindingName_def)

lemma wp_wrapReturn:
  assumes "\<not> k_testMode e" "msg \<noteq> ''''" and "wp m (\<lambda>r. case r of Inl err \<Rightarrow> (\<lambda>s'. \<forall>err. Q (Inl (Inl err)) s') | Inr a \<Rightarrow> Q (Inr a)) s"
  shows "wp (wrapReturn e msg m) Q s"
  using assms unfolding wrapReturn_def by (auto elim!: wp_mono split: sum.splits)

lemma linkArtifact_wp:
  fixes x :: target and r :: registry and t :: render_task
  defines "aName \<equiv> renderArtifactName (om_namespace (metadata x)) (rt_baseURL (spec t)) (rt_repository (spec t)) (rt_tag (spec t))"
  defines "bKey \<equiv> \<lparr>nn_namespace = om_namespace (metadata x), nn_name = renderBindingName aName (om_name (metadata x))\<rparr>"
  defines "aKey \<equiv> \<lparr>nn_namespace = om_namespace (metadata t), nn_name = aName\<rparr>"
  assumes tm: "\<not> k_testMode e" and err: "\<And>err s'. Q (Inl (Inl err)) s'"
    and ok: "\<And>a b s'. cl_renderbindings (abs s') bKey = Some b \<Longrightarrow> cl_renderartifacts (abs s') aKey = Some a \<Longrightarrow> \<not> deleting a \<Longrightarrow>
      (cl_renderbindings (abs s) bKey = None \<Longrightarrow> spec b =
        \<lparr>rb_renderArtifactRef = aName, rb_ownerKind = ''Target'', rb_ownerName = om_name (metadata x),
         rb_ownerNamespace = om_namespace (metadata x)\<rparr>) \<Longrightarrow>
      (cl_renderbindings (abs s) bKey \<noteq> None \<Longrightarrow> cl_renderbindings (abs s) bKey = Some b) \<Longrightarrow>
      (cl_renderartifacts (abs s) aKey = None \<Longrightarrow> spec a = artifactFor t (reg_flavor (spec r)) (targetRegistryNamespace x)) \<Longrightarrow>
      (cl_renderartifacts (abs s) aKey \<noteq> None \<Longrightarrow> cl_renderartifacts (abs s) aKey = Some a) \<Longrightarrow>
      Q (Inr (aName, nn_name bKey)) s'"
  shows "wp (linkArtifact e x r t what) Q s"
proof -
  have artifact: "wp (wrapReturn e (''failed to ensure RenderArtifact for '' @ what)
      (ensureRenderArtifact e aName t (reg_flavor (spec r)) (targetRegistryNamespace x)))
      (\<lambda>v. case v of Inl out \<Rightarrow> Q (Inl out) | Inr _ \<Rightarrow> wp (ret (Inr (aName, nn_name bKey))) Q) s1"
    if b: "cl_renderbindings (abs s1) bKey = Some b" "cl_renderartifacts (abs s1) = cl_renderartifacts (abs s)"
      "cl_renderbindings (abs s) bKey = None \<Longrightarrow> spec b =
        \<lparr>rb_renderArtifactRef = aName, rb_ownerKind = ''Target'', rb_ownerName = om_name (metadata x),
         rb_ownerNamespace = om_namespace (metadata x)\<rparr>"
      "cl_renderbindings (abs s) bKey \<noteq> None \<Longrightarrow> cl_renderbindings (abs s) bKey = Some b" for b s1
    by (rule wp_wrapReturn [OF tm], simp, rule ensureRenderArtifact_wp)
      (use b err in \<open>auto simp: aName_def aKey_def generated_name_nonempty intro!: ok [where b = b, unfolded aName_def aKey_def]\<close>)
  show ?thesis
    unfolding linkArtifact_def Let_def aName_def [symmetric] wp_andThen
    apply (rule wp_wrapReturn [OF tm], simp, rule ensureRenderBinding_wp)
    apply (rule generated_name_nonempty)
    using err apply simp
    using artifact apply (simp add: bKey_def)
    using artifact apply (simp add: bKey_def)
    done
qed

end

text \<open>A pushed chart is linked before it is reported: when the Target controller has linked the chart of a
  RenderTask, there is a RenderBinding and an active RenderArtifact under the names derived from the chart's
  coordinates; when the binding is new it keeps the artifact from being collected, and when the artifact is new it has the
  coordinates of the RenderTask.\<close>

theorem pushed_chart_linked:
  assumes "kube_laws e view" "\<not> k_testMode e"
    and "om_namespace (metadata rt) = om_namespace (metadata tgt)"
    and "run_state (linkArtifact e tgt reg rt what) s = (Inr (aName, bName), s')"
  shows "aName = renderArtifactName (om_namespace (metadata tgt)) (rt_baseURL (spec rt)) (rt_repository (spec rt)) (rt_tag (spec rt)) \<and>
    bName = renderBindingName aName (om_name (metadata tgt)) \<and>
    (let ns = om_namespace (metadata tgt) in \<exists>a b. cl_renderartifacts (view s') \<lparr>nn_namespace = ns, nn_name = aName\<rparr> = Some a \<and> \<not> deleting a \<and>
       cl_renderbindings (view s') \<lparr>nn_namespace = ns, nn_name = bName\<rparr> = Some b \<and>
       (cl_renderbindings (view s) \<lparr>nn_namespace = ns, nn_name = bName\<rparr> = None \<longrightarrow>
          bindingOf tgt b \<and> artifactBound (view s') \<lparr>nn_namespace = ns, nn_name = aName\<rparr>) \<and>
       (cl_renderartifacts (view s) \<lparr>nn_namespace = ns, nn_name = aName\<rparr> = None \<longrightarrow>
          spec a = artifactFor rt (reg_flavor (spec reg)) (targetRegistryNamespace tgt)))"
proof -
  define Post where "Post = (\<lambda>(aName, bName) s'.
    aName = renderArtifactName (om_namespace (metadata tgt)) (rt_baseURL (spec rt)) (rt_repository (spec rt)) (rt_tag (spec rt)) \<and>
    bName = renderBindingName aName (om_name (metadata tgt)) \<and>
    (let ns = om_namespace (metadata tgt) in \<exists>a b. cl_renderartifacts (view s') \<lparr>nn_namespace = ns, nn_name = aName\<rparr> = Some a \<and> \<not> deleting a \<and>
       cl_renderbindings (view s') \<lparr>nn_namespace = ns, nn_name = bName\<rparr> = Some b \<and>
       (cl_renderbindings (view s) \<lparr>nn_namespace = ns, nn_name = bName\<rparr> = None \<longrightarrow>
          bindingOf tgt b \<and> artifactBound (view s') \<lparr>nn_namespace = ns, nn_name = aName\<rparr>) \<and>
       (cl_renderartifacts (view s) \<lparr>nn_namespace = ns, nn_name = aName\<rparr> = None \<longrightarrow>
          spec a = artifactFor rt (reg_flavor (spec reg)) (targetRegistryNamespace tgt))))"
  have "wp (linkArtifact e tgt reg rt what) (succeeds Post) s"
  proof (rule kube_laws.linkArtifact_wp [OF assms(1,2)])
    fix a b s'
    let ?aName = "renderArtifactName (om_namespace (metadata tgt)) (rt_baseURL (spec rt)) (rt_repository (spec rt)) (rt_tag (spec rt))"
    let ?bKey = "\<lparr>nn_namespace = om_namespace (metadata tgt), nn_name = renderBindingName ?aName (om_name (metadata tgt))\<rparr>"
    assume b: "cl_renderbindings (view s') ?bKey = Some b"
      and a: "cl_renderartifacts (view s') \<lparr>nn_namespace = om_namespace (metadata rt), nn_name = ?aName\<rparr> = Some a" "\<not> deleting a"
      and newB: "cl_renderbindings (view s) ?bKey = None \<Longrightarrow> spec b =
        \<lparr>rb_renderArtifactRef = ?aName, rb_ownerKind = ''Target'', rb_ownerName = om_name (metadata tgt),
         rb_ownerNamespace = om_namespace (metadata tgt)\<rparr>"
      and newA: "cl_renderartifacts (view s) \<lparr>nn_namespace = om_namespace (metadata rt), nn_name = ?aName\<rparr> = None \<Longrightarrow>
        spec a = artifactFor rt (reg_flavor (spec reg)) (targetRegistryNamespace tgt)"
    have "om_namespace (metadata b) = om_namespace (metadata tgt)"
      using resource_laws.key [OF kube_laws.axioms(10) [OF assms(1)] b] by (simp add: objectKey_def)
    moreover from this have "artifactBound (view s') \<lparr>nn_namespace = om_namespace (metadata tgt), nn_name = ?aName\<rparr>"
      if "rb_renderArtifactRef (spec b) = ?aName"
      using b that unfolding artifactBound_def namespaced_name.simps by blast
    ultimately show "succeeds Post (Inr (?aName, nn_name ?bKey)) s'"
      using a b newA newB assms(3) by (simp add: Post_def Let_def bindingOf_def ownsBinding_def)
  qed simp
  from wp_succeeds [OF this assms(4)] show ?thesis unfolding Post_def case_prod_conv .
qed

section \<open>One chart, three names\<close>

lemma trimSuffix_prefix: "h \<noteq> '''' \<Longrightarrow> trimSuffix (p @ h) [c] = p @ trimSuffix h [c]"
proof (induction h rule: rev_induct)
  case (snoc y h)
  have "trimSuffix ((p @ h) @ [y]) [c] = p @ trimSuffix (h @ [y]) [c]"
    using trimSuffix_append [of "p @ h" "[c]"] trimSuffix_append [of h "[c]"] by (cases "y = c") (simp_all add: hasSuffix_iff)
  then show ?case by simp
qed simp

lemma artifactRef_reference:
  assumes "trimPrefix base ''oci://'' \<noteq> ''''" "\<not> hasPrefix repo ''/''"
    and "art_baseURL (spec a) = base" "art_repository (spec a) = repo" "art_tag (spec a) = tag"
  shows "''oci://'' @ artifactRef a = reference base repo tag"
proof (cases "hasPrefix base ''oci://''")
  case True
  then obtain h where h: "base = ''oci://'' @ h" by (auto simp: hasPrefix_iff)
  have trim: "trimSuffix (''oci://'' @ h) ''/'' = ''oci://'' @ trimSuffix h ''/''"
    using assms(1) trimSuffix_prefix [of h "''oci://''"] by (simp only: h trimPrefix_append) simp
  have "artifactHost a = trimSuffix h ''/''"
    by (simp only: artifactHost_def assms(3) h trim trimPrefix_append)
  moreover have "reference base repo tag = (''oci://'' @ trimSuffix h ''/'') @ ''/'' @ repo @ '':'' @ tag"
    by (simp only: reference_def Let_def h hasPrefix_append if_True trim)
  ultimately show ?thesis using assms(2,4,5) by (simp add: artifactRef_def)
next
  case False
  have "\<not> hasPrefix (trimSuffix base ''/'') ''oci://''"
    using False by (auto simp: hasPrefix_iff trimSuffix_def hasSuffix_iff)
  moreover have "trimSuffix (''oci://'' @ base) ''/'' = ''oci://'' @ trimSuffix base ''/''"
    using assms(1) False trimSuffix_prefix [of base "''oci://''"] by simp
  ultimately show ?thesis
    using assms(2-5) False unfolding artifactRef_def artifactHost_def reference_def Let_def by simp
qed

text \<open>The chart that is collected is the chart that was pushed: for a release of a Target, the reference under
  which the RenderTask reports its chart, the chart URL of the naming helper, and the tag that the collection of its
  RenderArtifact deletes are the same.\<close>

theorem collected_chart_is_pushed_chart:
  assumes "computeReleaseRenderTaskSpec strict rel cv reg tgt pullSecrets = Inr sp" "spec rt = sp"
    and "spec a = artifactFor rt flavor ns"
    and "om_namespace (metadata tgt) \<noteq> ''''" "CHR ''/'' \<notin> set (om_namespace (metadata tgt))"
    and "reg_hostname (spec reg) \<noteq> ''''" "CHR ''/'' \<notin> set (reg_hostname (spec reg))"
  shows "''oci://'' @ artifactRef a = reference (rt_baseURL sp) (rt_repository sp) (rt_tag sp) \<and>
    reference (rt_baseURL sp) (rt_repository sp) (rt_tag sp) = renderChartURL (rt_baseURL sp) (rt_repository sp) (rt_tag sp)"
proof -
  have sp: "rt_baseURL sp = reg_hostname (spec reg)"
    "rt_repository sp = om_namespace (metadata tgt) @ ''/'' @ om_namespace (metadata rel) @ ''/'' @ releaseChartName rel"
    using assms(1) by (auto simp: computeReleaseRenderTaskSpec_def Let_def split: sum.splits)
  have "\<not> hasPrefix (rt_baseURL sp) ''oci://''"
    using assms(7) by (auto simp: sp hasPrefix_iff)
  then have "trimPrefix (rt_baseURL sp) ''oci://'' \<noteq> ''''" using assms(6) by (simp add: sp)
  moreover have "\<not> hasPrefix (rt_repository sp) ''/''"
    using assms(4,5) by (cases "om_namespace (metadata tgt)") (auto simp: sp hasPrefix_iff)
  ultimately show ?thesis
    using assms(2,3) artifactRef_reference [of "rt_baseURL sp" "rt_repository sp" a "rt_tag sp"]
    by (simp add: artifactFor_def reference_def renderChartURL_def Let_def)
qed

section \<open>Bindings\<close>

definition bindingKey :: "release_binding \<Rightarrow> string" where
  "bindingKey rb = om_namespace (metadata rb) @ ''/'' @ om_name (metadata rb)"

definition admits :: "reference_grant_from \<Rightarrow> release_binding \<Rightarrow> bool" where
  "admits f rb \<longleftrightarrow> from_kind f = ''ReleaseBinding'' \<and> from_group f = solarGroup \<and> from_namespace f = om_namespace (metadata rb)"

text \<open>The loops of \<open>collectCrossNamespaceReleaseBindings\<close>: the set of keys seen is the set of keys of the result.\<close>

lemma addUnseen_spec:
  assumes "inj_on bindingKey (set result \<union> set rbs)"
  shows "\<exists>result'. addUnseen tgt (bindingKey ` set result, result) rbs = (bindingKey ` set result', result') \<and>
    set result' = set result \<union> {rb \<in> set rbs. rlb_targetNamespace (spec rb) = om_namespace (metadata tgt)}"
  using assms
proof (induction rbs arbitrary: result)
  case (Cons rb rbs)
  have seen: "bindingKey rb \<in> bindingKey ` set result \<longleftrightarrow> rb \<in> set result"
    using inj_on_image_mem_iff [OF Cons.prems, of rb "set result"] by auto
  have inj: "inj_on bindingKey (set result \<union> set rbs)" "inj_on bindingKey (set (result @ [rb]) \<union> set rbs)"
    by (rule inj_on_subset [OF Cons.prems]; auto; fail)+
  show ?case
  proof (cases "rlb_targetNamespace (spec rb) \<noteq> om_namespace (metadata tgt) \<or> rb \<in> set result")
    case True
    then have step: "addUnseen tgt (bindingKey ` set result, result) (rb # rbs) = addUnseen tgt (bindingKey ` set result, result) rbs"
      using seen by (auto simp: Let_def bindingKey_def)
    have "set result \<union> {rb \<in> set rbs. rlb_targetNamespace (spec rb) = om_namespace (metadata tgt)} =
      set result \<union> {rb' \<in> set (rb # rbs). rlb_targetNamespace (spec rb') = om_namespace (metadata tgt)}"
      using True by auto
    then show ?thesis unfolding step using Cons.IH [OF inj(1)] by simp
  next
    case False
    then have step: "addUnseen tgt (bindingKey ` set result, result) (rb # rbs) =
        addUnseen tgt (bindingKey ` set (result @ [rb]), result @ [rb]) rbs"
      using seen by (auto simp: Let_def bindingKey_def)
    have "set (result @ [rb]) \<union> {rb \<in> set rbs. rlb_targetNamespace (spec rb) = om_namespace (metadata tgt)} =
      set result \<union> {rb' \<in> set (rb # rbs). rlb_targetNamespace (spec rb') = om_namespace (metadata tgt)}"
      using False by auto
    then show ?thesis unfolding step using Cons.IH [OF inj(2)] by simp
  qed
qed simp

context kube_laws begin

definition storedBinding :: "'s \<Rightarrow> release_binding \<Rightarrow> bool" where
  "storedBinding s rb \<longleftrightarrow> cl_releasebindings (abs s) (objectKey rb) = Some rb"

lemma indexTargetName: "v \<in> set (index_release_binding indexReleaseBindingTargetName rb') \<longleftrightarrow> v = rlb_targetRef (spec rb') \<and> v \<noteq> ''''"
  by (auto simp: index_release_binding_def nonEmpty_def)

lemma crossBindingsFrom_wp:
  assumes inj: "inj_on bindingKey {rb. storedBinding s rb}" and name: "om_name (metadata x) \<noteq> ''''"
    and "set result \<subseteq> {rb. storedBinding s rb}"
    and "\<And>err s'. abs s' = abs s \<Longrightarrow> Q (Inl err) s'"
    and "\<And>result' s'. abs s' = abs s \<Longrightarrow> set result' = set result \<union> {rb. storedBinding s rb \<and> rlb_targetRef (spec rb) = om_name (metadata x) \<and>
      rlb_targetNamespace (spec rb) = om_namespace (metadata x) \<and> (\<exists>f \<in> set froms. admits f rb)} \<Longrightarrow>
      Q (Inr (bindingKey ` set result', result')) s'"
  shows "wp (crossBindingsFrom e x (bindingKey ` set result, result) froms) Q s"
  using assms(1,3-)
proof (induction froms arbitrary: result s)
  case (Cons f froms)
  show ?case
  proof (cases "from_kind f \<noteq> ''ReleaseBinding'' \<or> from_group f \<noteq> solarGroup")
    case True
    then show ?thesis unfolding crossBindingsFrom.simps if_P [OF True]
      by (intro Cons.IH Cons.prems) (auto simp: admits_def)
  next
    case False
    show ?thesis unfolding crossBindingsFrom.simps if_not_P [OF False] wp_bind
    proof (rule relb.list_wp)
      fix rbs s1
      assume s1: "abs s1 = abs s" "set rbs = {y. cl_releasebindings (abs s) (objectKey y) = Some y \<and> selected index_release_binding
        (inNamespaceMatching (from_namespace f) indexReleaseBindingTargetName (om_name (metadata x))) y}"
      then have sub: "set result \<union> set rbs \<subseteq> {rb. storedBinding s rb}" using Cons.prems(2) by (auto simp: storedBinding_def)
      obtain result' where r: "addUnseen x (bindingKey ` set result, result) rbs = (bindingKey ` set result', result')"
        "set result' = set result \<union> {rb \<in> set rbs. rlb_targetNamespace (spec rb) = om_namespace (metadata x)}"
        using addUnseen_spec [OF inj_on_subset [OF Cons.prems(1) sub]] by blast
      have "wp (crossBindingsFrom e x (bindingKey ` set result', result') froms) Q s1"
      proof (rule Cons.IH)
        fix result'' s' assume r': "abs s' = abs s1" "set result'' = set result' \<union> {rb. storedBinding s1 rb \<and>
          rlb_targetRef (spec rb) = om_name (metadata x) \<and> rlb_targetNamespace (spec rb) = om_namespace (metadata x) \<and>
          (\<exists>f \<in> set froms. admits f rb)}"
        show "Q (Inr (bindingKey ` set result'', result'')) s'"
          by (rule Cons.prems(4)) (use r' r s1 False name in \<open>auto simp: storedBinding_def admits_def indexTargetName\<close>)
      qed (use Cons.prems s1 sub r in \<open>auto simp: storedBinding_def\<close>)
      then show "wp (case Inr rbs of Inl err \<Rightarrow> ret (Inl err)
        | Inr rbs \<Rightarrow> crossBindingsFrom e x (addUnseen x (bindingKey ` set result, result) rbs) froms) Q s1"
        by (simp add: r(1))
    qed (use Cons.prems(3) in simp)
  qed
qed simp

lemma crossBindingsGrants_wp:
  assumes inj: "inj_on bindingKey {rb. storedBinding s rb}" and name: "om_name (metadata x) \<noteq> ''''"
    and "set result \<subseteq> {rb. storedBinding s rb}"
    and "\<And>err s'. abs s' = abs s \<Longrightarrow> Q (Inl err) s'"
    and "\<And>result' s'. abs s' = abs s \<Longrightarrow> set result' = set result \<union> {rb. storedBinding s rb \<and> rlb_targetRef (spec rb) = om_name (metadata x) \<and>
      rlb_targetNamespace (spec rb) = om_namespace (metadata x) \<and>
      (\<exists>g \<in> set grants. grantsReleaseBindingToTargetResource g \<and> (\<exists>f \<in> set (rg_from (spec g)). admits f rb))} \<Longrightarrow>
      Q (Inr (bindingKey ` set result', result')) s'"
  shows "wp (crossBindingsGrants e x (bindingKey ` set result, result) grants) Q s"
  using assms(1,3-)
proof (induction grants arbitrary: result s)
  case (Cons g grants)
  show ?case
  proof (cases "grantsReleaseBindingToTargetResource g")
    case True
    then have t: "\<not> \<not> grantsReleaseBindingToTargetResource g" by simp
    show ?thesis unfolding crossBindingsGrants.simps if_not_P [OF t] wp_andThen
    proof (rule crossBindingsFrom_wp [OF Cons.prems(1) name Cons.prems(2)])
      fix result' s1
      assume s1: "abs s1 = abs s" "set result' = set result \<union> {rb. storedBinding s rb \<and> rlb_targetRef (spec rb) = om_name (metadata x) \<and>
        rlb_targetNamespace (spec rb) = om_namespace (metadata x) \<and> (\<exists>f \<in> set (rg_from (spec g)). admits f rb)}"
      have "wp (crossBindingsGrants e x (bindingKey ` set result', result') grants) Q s1"
      proof (rule Cons.IH)
        fix result'' s' assume r': "abs s' = abs s1" "set result'' = set result' \<union> {rb. storedBinding s1 rb \<and>
          rlb_targetRef (spec rb) = om_name (metadata x) \<and> rlb_targetNamespace (spec rb) = om_namespace (metadata x) \<and>
          (\<exists>g \<in> set grants. grantsReleaseBindingToTargetResource g \<and> (\<exists>f \<in> set (rg_from (spec g)). admits f rb))}"
        show "Q (Inr (bindingKey ` set result'', result'')) s'"
          by (rule Cons.prems(4)) (use r' s1 True in \<open>auto simp: storedBinding_def\<close>)
      qed (use Cons.prems s1 in \<open>auto simp: storedBinding_def\<close>)
      then show "(case Inr (bindingKey ` set result', result') of Inl err \<Rightarrow> Q (Inl err)
        | Inr acc \<Rightarrow> wp (crossBindingsGrants e x acc grants) Q) s1" by simp
    qed (use Cons.prems(3) in simp)
  next
    case False
    then show ?thesis unfolding crossBindingsGrants.simps if_P [OF False]
      by (intro Cons.IH Cons.prems) auto
  qed
qed simp

lemma bindingKey_inj:
  assumes "\<And>k rb. cl_releasebindings (abs s) k = Some rb \<Longrightarrow> CHR ''/'' \<notin> set (om_namespace (metadata rb))"
  shows "inj_on bindingKey {rb. storedBinding s rb}"
proof (rule inj_onI)
  fix a b assume ab: "a \<in> {rb. storedBinding s rb}" "b \<in> {rb. storedBinding s rb}" "bindingKey a = bindingKey b"
  have split: "ns = ns' \<and> n = n'" if "ns @ ''/'' @ n = ns' @ ''/'' @ n'" "CHR ''/'' \<notin> set ns" "CHR ''/'' \<notin> set ns'"
    for ns ns' n n' :: string
    using that
  proof (induction ns arbitrary: ns')
    case Nil
    then show ?case by (cases ns') auto
  next
    case (Cons c ns)
    then show ?case by (cases ns') auto
  qed
  have "objectKey a = objectKey b"
    using split [of "om_namespace (metadata a)"] ab assms by (auto simp: bindingKey_def storedBinding_def objectKey_def)
  then show "a = b" using ab by (simp add: storedBinding_def)
qed

lemma collectBindings_wp:
  assumes "\<And>k rb. cl_releasebindings (abs s) k = Some rb \<Longrightarrow> CHR ''/'' \<notin> set (om_namespace (metadata rb))"
    and "om_name (metadata x) \<noteq> ''''" "\<not> k_testMode e" and err: "\<And>err s'. Q (Inl (Inl err)) s'"
    and ok: "\<And>bs s'. abs s' = abs s \<Longrightarrow> set bs = {rb. storedBinding s rb \<and> rlb_targetRef (spec rb) = om_name (metadata x) \<and>
      (om_namespace (metadata rb) = om_namespace (metadata x) \<and> rlb_targetNamespace (spec rb) = '''' \<or>
       rlb_targetNamespace (spec rb) = om_namespace (metadata x) \<and>
       (\<exists>g. cl_referencegrants (abs s) (objectKey g) = Some g \<and> om_namespace (metadata g) = om_namespace (metadata x) \<and>
          grantsReleaseBindingToTargetResource g \<and> (\<exists>f \<in> set (rg_from (spec g)). admits f rb)))} \<Longrightarrow> Q (Inr bs) s'"
  shows "wp (collectBindings e x) Q s"
proof -
  have cross: "wp (collectCrossNamespaceReleaseBindings e x) (\<lambda>r s'. abs s' = abs s \<and> (\<forall>bs. r = Inr bs \<longrightarrow> set bs =
      {rb. storedBinding s rb \<and> rlb_targetRef (spec rb) = om_name (metadata x) \<and> rlb_targetNamespace (spec rb) = om_namespace (metadata x) \<and>
        (\<exists>g. cl_referencegrants (abs s) (objectKey g) = Some g \<and> om_namespace (metadata g) = om_namespace (metadata x) \<and>
          grantsReleaseBindingToTargetResource g \<and> (\<exists>f \<in> set (rg_from (spec g)). admits f rb))})) s1" if s1: "abs s1 = abs s" for s1
    unfolding collectCrossNamespaceReleaseBindings_def wp_bind
  proof (rule grant.list_wp)
    fix grants s2 assume s2: "abs s2 = abs s1" "set grants = {g. cl_referencegrants (abs s1) (objectKey g) = Some g \<and>
      selected (\<lambda>_ _. []) (inNamespace (om_namespace (metadata x))) g}"
    show "wp (case Inr grants of Inl err \<Rightarrow> ret (Inl err)
      | Inr grants \<Rightarrow> andThen (crossBindingsGrants e x ({}, []) grants) (\<lambda>(seen, result). ret (Inr result)))
      (\<lambda>r s'. abs s' = abs s \<and> (\<forall>bs. r = Inr bs \<longrightarrow> set bs =
      {rb. storedBinding s rb \<and> rlb_targetRef (spec rb) = om_name (metadata x) \<and> rlb_targetNamespace (spec rb) = om_namespace (metadata x) \<and>
        (\<exists>g. cl_referencegrants (abs s) (objectKey g) = Some g \<and> om_namespace (metadata g) = om_namespace (metadata x) \<and>
          grantsReleaseBindingToTargetResource g \<and> (\<exists>f \<in> set (rg_from (spec g)). admits f rb))})) s2"
      unfolding sum.case wp_andThen
      by (rule crossBindingsGrants_wp [where result = "[]", simplified])
        (use assms(1,2) s1 s2 bindingKey_inj [of s2] in \<open>auto simp: storedBinding_def\<close>)
  qed (use s1 in simp)
  show ?thesis
    unfolding collectBindings_def wp_bind
  proof (rule relb.apiList_wp)
    fix own s1 assume s1: "abs s1 = abs s" "set own = {y. cl_releasebindings (abs s) (objectKey y) = Some y \<and>
      selected index_release_binding (inNamespace (om_namespace (metadata x))) y}"
    show "wp (case Inr own of Inl err \<Rightarrow> failR e err ''failed to list ReleaseBindings''
      | Inr allBindings \<Rightarrow> andThen (wrapReturn e ''failed to collect cross-namespace ReleaseBindings''
                     (apiErr (collectCrossNamespaceReleaseBindings e x)))
            (\<lambda>crossNs. ret (Inr (filter (\<lambda>rb. rlb_targetRef (spec rb) = om_name (metadata x) \<and>
                                           rlb_targetNamespace (spec rb) = '''') allBindings @ crossNs)))) Q s1"
      unfolding sum.case wp_andThen
      by (rule wp_wrapReturn [OF assms(3)], simp, unfold apiErr_def wp_bind, rule wp_mono [OF cross [OF s1(1)]])
        (use err s1 in \<open>auto split: sum.splits intro!: ok simp: storedBinding_def\<close>)
  qed (use err assms(3) in \<open>auto simp: failR_def\<close>)
qed

end


section \<open>The bootstrap version\<close>

text \<open>The RenderTask of a bootstrap version.\<close>

definition bootstrapKey :: "target \<Rightarrow> int \<Rightarrow> namespaced_name" where
  "bootstrapKey tgt v = \<lparr>nn_namespace = om_namespace (metadata tgt), nn_name = targetRenderTaskName (om_name (metadata tgt)) v\<rparr>"

text \<open>The RenderTask of the current version exists and its input differs from the one that is now needed.\<close>

definition bootstrapOutdated :: "'s kube \<Rightarrow> cluster \<Rightarrow> target \<Rightarrow> registry \<Rightarrow> release_info list \<Rightarrow> bool" where
  "bootstrapOutdated e c tgt reg releases \<longleftrightarrow>
     (\<exists>rt input. cl_rendertasks c (bootstrapKey tgt (tgt_bootstrapVersion (status tgt))) = Some rt \<and>
       buildBootstrapInput (k_parseReference e) tgt releases (reg_targetPullSecretName (spec reg)) (reg_plainHTTP (spec reg)) = Inr input \<and>
       \<not> k_bootstrapInputEqual e input (bc_input (cfg_bootstrap (rt_rendererConfig (spec rt)))))"

context kube_laws begin

lemma createBootstrapTask_wp:
  assumes tm: "\<not> k_testMode e" and err: "\<And>err s'. Q (Inl (Inl err)) s'"
    and ok: "\<And>t m s'. abs s' = cl_rendertasks_update m (abs s) \<Longrightarrow> cl_rendertasks (abs s') (bootstrapKey x v) = Some t \<Longrightarrow> Q (Inr t) s'"
  shows "wp (createBootstrapTask e x r ris v) Q s"
proof -
  have name: "targetRenderTaskName (om_name (metadata x)) v \<noteq> ''''"
    by (auto simp: targetRenderTaskName_def truncateName_def Let_def)
  have key: "objectKey (newRenderTask (targetRenderTaskName (om_name (metadata x)) v) (om_namespace (metadata x)) sp) = bootstrapKey x v" for sp
    by (simp add: newRenderTask_def objectKey_def newMeta_def bootstrapKey_def)
  show ?thesis
  proof (cases "computeBootstrapRenderTaskSpec (k_parseReference e) x ris r v")
    case (Inr sp)
    let ?new = "newRenderTask (targetRenderTaskName (om_name (metadata x)) v) (om_namespace (metadata x)) sp"
    show ?thesis
      unfolding createBootstrapTask_def Let_def Inr sum.case wp_bind
    proof (rule rt.create_wp)
      fix t s1 assume t: "createdFrom ?new t" "abs s1 = cl_rendertasks_update (\<lambda>m. m(objectKey t := Some t)) (abs s)"
      then have "objectKey t = bootstrapKey x v" using name by (simp add: createdFrom_def newRenderTask_def newMeta_def objectKey_def bootstrapKey_def)
      then show "wp (case Inr t of Inl err \<Rightarrow> if \<not> isAlreadyExists err then failR e err ''failed to create bootstrap RenderTask''
         else do { g \<leftarrow> res_get (k_rendertasks e) \<lparr>nn_namespace = om_namespace (metadata x), nn_name = targetRenderTaskName (om_name (metadata x)) v\<rparr>;
             (case g of Inl gerr \<Rightarrow> failR e gerr ''failed to get existing bootstrap RenderTask'' | Inr rt \<Rightarrow> ret (Inr rt)) }
        | Inr rt \<Rightarrow> do { k_eventf e ''Normal'' ''Created'' (''Created bootstrap RenderTask '' @ targetRenderTaskName (om_name (metadata x)) v
             @ '' (version '' @ itoa v @ '')''); ret (Inr rt) }) Q s1"
        using t ok by (auto intro!: wp_mono [OF event])
    qed (use tm err ok [where m = "\<lambda>m. m"] in \<open>auto intro!: rt.get_wp simp: failR_def bootstrapKey_def\<close>)
  qed (use tm err in \<open>simp add: createBootstrapTask_def\<close>)
qed

lemma bootstrapTask_wp:
  assumes x: "cl_targets (abs s) (objectKey x) = Some x" and tm: "\<not> k_testMode e" and err: "\<And>err s'. Q (Inl (Inl err)) s'"
    and same: "\<And>t s'. abs s' = abs s \<Longrightarrow> cl_rendertasks (abs s) (bootstrapKey x (tgt_bootstrapVersion (status x))) = Some t \<Longrightarrow>
      \<not> bootstrapOutdated e (abs s) x r ris \<Longrightarrow> Q (Inr (x, nn_name (bootstrapKey x (tgt_bootstrapVersion (status x))), t)) s'"
    and fresh: "\<And>v t x' s'. v = tgt_bootstrapVersion (status x) \<and> cl_rendertasks (abs s) (bootstrapKey x v) = None \<or>
        v = int64_wrap (tgt_bootstrapVersion (status x) + 1) \<and> bootstrapOutdated e (abs s) x r ris \<Longrightarrow>
      cl_rendertasks (abs s') (bootstrapKey x v) = Some t \<Longrightarrow> cl_targets (abs s') (objectKey x) = Some x' \<Longrightarrow>
      x' = x\<lparr>status := (status x)\<lparr>tgt_bootstrapVersion := v\<rparr>\<rparr> \<Longrightarrow> Q (Inr (x', nn_name (bootstrapKey x v), t)) s'"
  shows "wp (bootstrapTask e x r ris) Q s"
proof -
  let ?v = "tgt_bootstrapVersion (status x)"
  have create: "wp (andThen (createBootstrapTask e x r ris v) (\<lambda>rt.
             if v \<noteq> ?v then do {
               u \<leftarrow> res_statusUpdate (k_targets e) (x\<lparr>status := (status x)\<lparr>tgt_bootstrapVersion := v\<rparr>\<rparr>);
               (case u of
                  Inl err \<Rightarrow> failR e err ''failed to update Target bootstrapVersion''
                | Inr tgt' \<Rightarrow> ret (Inr (tgt', targetRenderTaskName (om_name (metadata x)) v, rt)))
             } else ret (Inr (x, targetRenderTaskName (om_name (metadata x)) v, rt)))) Q s1"
    if "abs s1 = abs s" "v = ?v \<and> cl_rendertasks (abs s) (bootstrapKey x v) = None \<or>
        v = int64_wrap (?v + 1) \<and> bootstrapOutdated e (abs s) x r ris" for v s1
    unfolding wp_andThen
  proof (rule createBootstrapTask_wp [OF tm])
    fix t m s2 assume s2: "abs s2 = cl_rendertasks_update m (abs s1)" "cl_rendertasks (abs s2) (bootstrapKey x v) = Some t"
    have tgts: "cl_targets (abs s2) (objectKey x) = Some x" using s2 that x by simp
    show "(case Inr t of Inl err \<Rightarrow> Q (Inl err) | Inr rt \<Rightarrow> wp (if v \<noteq> ?v then do {
               u \<leftarrow> res_statusUpdate (k_targets e) (x\<lparr>status := (status x)\<lparr>tgt_bootstrapVersion := v\<rparr>\<rparr>);
               (case u of
                  Inl err \<Rightarrow> failR e err ''failed to update Target bootstrapVersion''
                | Inr tgt' \<Rightarrow> ret (Inr (tgt', targetRenderTaskName (om_name (metadata x)) v, rt)))
             } else ret (Inr (x, targetRenderTaskName (om_name (metadata x)) v, rt))) Q) s2"
      unfolding sum.case
      by (rule wp_if)
        (use s2 that tgts tm err fresh [OF that(2), unfolded bootstrapKey_def namespaced_name.simps] in
          \<open>auto intro!: tgt.statusUpdate_wp simp: failR_def bootstrapKey_def\<close>)
  qed (simp add: err)
  show ?thesis
    unfolding bootstrapTask_def bootstrapNeeded_def Let_def wp_andThen wp_bind
    by (rule rt.get_wp)
      (use tm err same create [unfolded wp_andThen] in \<open>auto simp: failR_def bootstrapKey_def bootstrapOutdated_def split: sum.splits\<close>)
qed

end

text \<open>(C12) The bootstrap version: when the controller has determined the bootstrap RenderTask, it is the stored task of the
  version that the Target's status records; the version has advanced by one exactly when the task of the previous version
  exists with another input, and when that task is up to date nothing has been written.\<close>

theorem bootstrap_version_advances:
  assumes "kube_laws e view" "\<not> k_testMode e" and "cl_targets (view s) (objectKey tgt) = Some tgt"
    and "- (2 ^ 63) \<le> tgt_bootstrapVersion (status tgt)" "tgt_bootstrapVersion (status tgt) < 2 ^ 63 - 1"
    and "run_state (bootstrapTask e tgt reg releases) s = (Inr (tgt', name, rt), s')"
  shows "name = targetRenderTaskName (om_name (metadata tgt)) (tgt_bootstrapVersion (status tgt')) \<and>
    cl_rendertasks (view s') (bootstrapKey tgt (tgt_bootstrapVersion (status tgt'))) = Some rt \<and>
    cl_targets (view s') (objectKey tgt) = Some tgt' \<and>
    tgt_bootstrapVersion (status tgt') =
      tgt_bootstrapVersion (status tgt) + (if bootstrapOutdated e (view s) tgt reg releases then 1 else 0) \<and>
    (\<not> bootstrapOutdated e (view s) tgt reg releases \<and>
     cl_rendertasks (view s) (bootstrapKey tgt (tgt_bootstrapVersion (status tgt))) \<noteq> None \<longrightarrow> view s' = view s \<and> tgt' = tgt)"
proof -
  define Post where "Post = (\<lambda>(tgt', name, rt) s'. name = targetRenderTaskName (om_name (metadata tgt)) (tgt_bootstrapVersion (status tgt')) \<and>
    cl_rendertasks (view s') (bootstrapKey tgt (tgt_bootstrapVersion (status tgt'))) = Some rt \<and>
    cl_targets (view s') (objectKey tgt) = Some tgt' \<and>
    tgt_bootstrapVersion (status tgt') =
      tgt_bootstrapVersion (status tgt) + (if bootstrapOutdated e (view s) tgt reg releases then 1 else 0) \<and>
    (\<not> bootstrapOutdated e (view s) tgt reg releases \<and>
     cl_rendertasks (view s) (bootstrapKey tgt (tgt_bootstrapVersion (status tgt))) \<noteq> None \<longrightarrow> view s' = view s \<and> tgt' = tgt))"
  have missing: "\<not> bootstrapOutdated e (view s) tgt reg releases"
    if "cl_rendertasks (view s) (bootstrapKey tgt (tgt_bootstrapVersion (status tgt))) = None"
    using that by (simp add: bootstrapOutdated_def)
  have "wp (bootstrapTask e tgt reg releases) (succeeds Post) s"
    by (rule kube_laws.bootstrapTask_wp [OF assms(1,3,2)])
      (use assms(3-5) missing in \<open>auto simp: Post_def bootstrapKey_def\<close>)
  from wp_succeeds [OF this assms(6)] show ?thesis unfolding Post_def case_prod_conv .
qed

end
