(* ===== verification/ProfileProperties.thy ===== *)
theory ProfileProperties
  imports ProfileController
begin

text \<open>
  Convergence of a Profile: after a successful reconcile its ReleaseBindings are exactly those of the
  targets that its selector matches and that it may reach. The one assumption beyond the contract of the
  API server is that it finds a free name for every binding, since the controller takes a name clash for a
  binding that exists already.
\<close>

definition freshNames :: "'s kube \<Rightarrow> bool" where
  "freshNames e \<longleftrightarrow> (\<forall>new s err s'. om_name (metadata new) = '''' \<longrightarrow>
     run_state (res_create (k_releasebindings e) new) s = (Inl err, s') \<longrightarrow> \<not> isAlreadyExists err)"

text \<open>The targets of a profile: those of its own namespace, and those of a namespace with a ReferenceGrant for it.\<close>

definition eligible :: "cluster \<Rightarrow> profile \<Rightarrow> (labels \<Rightarrow> bool) \<Rightarrow> target \<Rightarrow> bool" where
  "eligible c p selector t \<longleftrightarrow> cl_targets c (objectKey t) = Some t \<and> selector (om_labels (metadata t)) \<and>
     (om_namespace (metadata t) = om_namespace (metadata p) \<or>
      (\<exists>g. cl_referencegrants c (objectKey g) = Some g \<and> om_namespace (metadata g) = om_namespace (metadata t) \<and>
         grantPermitsTargetAccess g (om_namespace (metadata p))))"

section \<open>The desired targets\<close>

lemma desiredTargets_keys: "map_of (desiredTargets ts) key \<noteq> None \<longleftrightarrow> key \<in> targetKey ` set ts"
proof -
  have "map_of (fold (\<lambda>t m. gomap_put (targetKey t) t m) ts m) key \<noteq> None \<longleftrightarrow> key \<in> targetKey ` set ts \<or> map_of m key \<noteq> None" for m
    by (induction ts arbitrary: m) auto
  then show ?thesis by (simp add: desiredTargets_def)
qed

lemma set_gomap_put: "set (gomap_put k v m) \<subseteq> insert (k, v) (set m)"
  by (induction k v m rule: gomap_put.induct) auto

lemma desiredTargets_entry: "(key, t) \<in> set (desiredTargets ts) \<Longrightarrow> key = targetKey t \<and> t \<in> set ts"
proof -
  have "(key, t) \<in> set (fold (\<lambda>t m. gomap_put (targetKey t) t m) ts m) \<Longrightarrow> key = targetKey t \<and> t \<in> set ts \<or> (key, t) \<in> set m" for m
  proof (induction ts arbitrary: m)
    case (Cons u us)
    then show ?case using set_gomap_put [of "targetKey u" u m] by fastforce
  qed simp
  from this [of "[]"] show "(key, t) \<in> set (desiredTargets ts) \<Longrightarrow> key = targetKey t \<and> t \<in> set ts" by (simp add: desiredTargets_def)
qed

context kube_laws begin

lemma crossNamespaceTargets_wp:
  assumes tm: "\<not> k_testMode e" and err: "\<And>err s'. Q (Inl (Inl err)) s'"
    and ok: "\<And>ts s'. abs s' = abs s \<Longrightarrow> set ts = {t. cl_targets (abs s) (objectKey t) = Some t \<and> selector (om_labels (metadata t)) \<and>
      (\<exists>g \<in> set grants. om_namespace (metadata g) = om_namespace (metadata t) \<and> om_namespace (metadata g) \<noteq> om_namespace (metadata p) \<and>
         grantPermitsTargetAccess g (om_namespace (metadata p)))} \<Longrightarrow> Q (Inr ts) s'"
  shows "wp (crossNamespaceTargets e p selector grants) Q s"
  using err ok
proof (induction grants arbitrary: Q s)
  case (Cons g grants)
  show ?case
  proof (cases "om_namespace (metadata g) = om_namespace (metadata p) \<or> \<not> grantPermitsTargetAccess g (om_namespace (metadata p))")
    case True
    then show ?thesis unfolding crossNamespaceTargets.simps if_P [OF True]
      by (intro Cons.IH Cons.prems) auto
  next
    case False
    show ?thesis unfolding crossNamespaceTargets.simps if_not_P [OF False] wp_bind
    proof (rule tgt.list_wp)
      fix ts s1 assume s1: "abs s1 = abs s" "set ts = {y. cl_targets (abs s) (objectKey y) = Some y \<and>
        selected index_target (inNamespaceLabels (om_namespace (metadata g)) selector) y}"
      show "wp (case Inr ts of Inl err \<Rightarrow> failR e err (''failed to list cross-namespace Targets in '' @ om_namespace (metadata g))
         | Inr ts \<Rightarrow> andThen (crossNamespaceTargets e p selector grants) (\<lambda>rest. ret (Inr (ts @ rest)))) Q s1"
        unfolding sum.case wp_andThen
        by (rule Cons.IH) (use Cons.prems(1) s1 False in \<open>auto intro!: Cons.prems(2)\<close>)
    qed (use Cons.prems(1) tm in \<open>simp add: failR_def\<close>)
  qed
qed simp

lemma profileTargets_wp:
  assumes tm: "\<not> k_testMode e" and err: "\<And>err s'. Q (Inl (Inl err)) s'"
    and ok: "\<And>desired s'. abs s' = abs s \<Longrightarrow> (\<And>key. map_of desired key \<noteq> None \<longleftrightarrow> key \<in> targetKey ` {t. eligible (abs s) p selector t}) \<Longrightarrow>
      (\<And>key t. (key, t) \<in> set desired \<Longrightarrow> key = targetKey t \<and> eligible (abs s) p selector t) \<Longrightarrow> Q (Inr desired) s'"
  shows "wp (profileTargets e p selector) Q s"
  unfolding profileTargets_def wp_bind
proof (rule tgt.list_wp)
  fix own s1 assume s1: "abs s1 = abs s" "set own = {y. cl_targets (abs s) (objectKey y) = Some y \<and>
    selected index_target (inNamespaceLabels (om_namespace (metadata p)) selector) y}"
  have "wp (crossNamespaceTargets e p selector grants) (\<lambda>r. case r of Inl out \<Rightarrow> Q (Inl out)
      | Inr crossNs \<Rightarrow> wp (ret (Inr (desiredTargets (own @ crossNs)))) Q) s2"
    if s2: "abs s2 = abs s" "set grants = {g. cl_referencegrants (abs s) (objectKey g) = Some g}" for grants s2
  proof (rule crossNamespaceTargets_wp [OF tm])
    fix ts s3 assume s3: "abs s3 = abs s2" "set ts = {t. cl_targets (abs s2) (objectKey t) = Some t \<and> selector (om_labels (metadata t)) \<and>
      (\<exists>g \<in> set grants. om_namespace (metadata g) = om_namespace (metadata t) \<and> om_namespace (metadata g) \<noteq> om_namespace (metadata p) \<and>
         grantPermitsTargetAccess g (om_namespace (metadata p)))}"
    have all: "set (own @ ts) = {t. eligible (abs s) p selector t}"
      using s1 s2 s3 by (auto simp: eligible_def)
    then show "(case Inr ts of Inl out \<Rightarrow> Q (Inl out) | Inr crossNs \<Rightarrow> wp (ret (Inr (desiredTargets (own @ crossNs)))) Q) s3"
      unfolding sum.case wp_ret
      by (intro ok) (use s2 s3 all desiredTargets_keys [of "own @ ts"] desiredTargets_entry [of _ _ "own @ ts"] in
        \<open>simp, simp only: desiredTargets_keys, blast\<close>)
  qed (simp add: err)
  then show "wp (case Inr own of Inl err \<Rightarrow> failR e err ''failed to list Targets'' | Inr sameNs \<Rightarrow> do {
      g \<leftarrow> res_list (k_referencegrants e) anyNamespace;
      (case g of
         Inl err \<Rightarrow> failR e err ''failed to list ReferenceGrants''
       | Inr grants \<Rightarrow> andThen (crossNamespaceTargets e p selector grants) (\<lambda>crossNs. ret (Inr (desiredTargets (sameNs @ crossNs)))))
    }) Q s1"
    unfolding sum.case wp_bind by (intro grant.list_wp) (use s1 tm err in \<open>auto simp: failR_def\<close>)
qed (use tm err in \<open>simp add: failR_def\<close>)

text \<open>The bindings of targets that no longer match are deleted, the others stay.\<close>

lemma deleteBinding_wp:
  assumes "\<not> k_testMode e" "msg \<noteq> ''''" and "\<And>err s'. Q (Inl (Inl err)) s'"
    and "\<And>v s'. goneOrDeleting v \<Longrightarrow> cl_releasebindings (abs s') = (cl_releasebindings (abs s))(objectKey b := v) \<Longrightarrow> Q (Inr ()) s'"
  shows "wp (deleteBinding e msg b) Q s"
  unfolding deleteBinding_def wp_bind
proof (rule relb.delete_wp)
  fix err s1 assume "abs s1 = abs s" "isNotFound err \<longrightarrow> cl_releasebindings (abs s) (objectKey b) = None"
  then show "wp (case Inl err of Inl err \<Rightarrow> if isNotFound err then ret (Inr ()) else failR e err msg | Inr _ \<Rightarrow> ret (Inr ())) Q s1"
    using assms(1-3) assms(4) [of None s1] by (auto simp: failR_def fun_upd_idem)
qed (use assms(4) [OF goneOrDeleting_settle] in simp)

lemma pruneBindings_wp:
  assumes tm: "\<not> k_testMode e" and err: "\<And>err s'. Q (Inl (Inl err)) s'"
    and ok: "\<And>existing' s'. (\<And>key. map_of existing' key \<noteq> None \<longleftrightarrow> map_of existing key \<noteq> None \<or> (\<exists>b \<in> set bs. bindingTargetKey b = key)) \<Longrightarrow>
      (\<And>k. cl_releasebindings (abs s') k = cl_releasebindings (abs s) k \<or> goneOrDeleting (cl_releasebindings (abs s') k) \<and>
        (\<exists>b \<in> set bs. objectKey b = k \<and> map_of desired (bindingTargetKey b) = None)) \<Longrightarrow>
      (\<And>b. b \<in> set bs \<Longrightarrow> map_of desired (bindingTargetKey b) = None \<Longrightarrow> goneOrDeleting (cl_releasebindings (abs s') (objectKey b))) \<Longrightarrow>
      Q (Inr existing') s'"
  shows "wp (pruneBindings e desired existing bs) Q s"
  using err ok
proof (induction bs arbitrary: Q existing s)
  case (Cons b bs)
  let ?put = "gomap_put (bindingTargetKey b) b existing"
  show ?case
  proof (cases "map_of desired (bindingTargetKey b) = None")
    case True
    have rest: "wp (pruneBindings e desired ?put bs) Q s2"
      if s2: "goneOrDeleting v" "cl_releasebindings (abs s2) = (cl_releasebindings (abs s))(objectKey b := v)" for v s2
    proof (rule Cons.IH)
      fix existing' :: "release_binding gomap" and s3
      assume ex: "\<And>key. map_of existing' key \<noteq> None \<longleftrightarrow> map_of ?put key \<noteq> None \<or> (\<exists>b \<in> set bs. bindingTargetKey b = key)"
        and kept: "\<And>k. cl_releasebindings (abs s3) k = cl_releasebindings (abs s2) k \<or> goneOrDeleting (cl_releasebindings (abs s3) k) \<and>
          (\<exists>b \<in> set bs. objectKey b = k \<and> map_of desired (bindingTargetKey b) = None)"
        and gone: "\<And>b. b \<in> set bs \<Longrightarrow> map_of desired (bindingTargetKey b) = None \<Longrightarrow> goneOrDeleting (cl_releasebindings (abs s3) (objectKey b))"
      show "Q (Inr existing') s3"
      proof (rule Cons.prems(2))
        show "map_of existing' key \<noteq> None \<longleftrightarrow> map_of existing key \<noteq> None \<or> (\<exists>b \<in> set (b # bs). bindingTargetKey b = key)" for key
          using ex [of key] by auto
        show "cl_releasebindings (abs s3) k = cl_releasebindings (abs s) k \<or> goneOrDeleting (cl_releasebindings (abs s3) k) \<and>
          (\<exists>b \<in> set (b # bs). objectKey b = k \<and> map_of desired (bindingTargetKey b) = None)" for k
          using kept [of k] s2 True by (auto split: if_splits)
        show "b' \<in> set (b # bs) \<Longrightarrow> map_of desired (bindingTargetKey b') = None \<Longrightarrow> goneOrDeleting (cl_releasebindings (abs s3) (objectKey b'))" for b'
          using gone [of b'] kept [of "objectKey b"] s2 by auto
      qed
    qed (rule Cons.prems(1))
    show ?thesis unfolding pruneBindings.simps Let_def if_P [OF True] wp_andThen
      by (rule deleteBinding_wp [OF tm]) (use Cons.prems(1) rest in \<open>auto intro!: wp_mono [OF event]\<close>)
  next
    case False
    show ?thesis unfolding pruneBindings.simps Let_def if_not_P [OF False]
    proof (rule Cons.IH)
      fix existing' :: "release_binding gomap" and s3
      assume ex: "\<And>key. map_of existing' key \<noteq> None \<longleftrightarrow> map_of ?put key \<noteq> None \<or> (\<exists>b \<in> set bs. bindingTargetKey b = key)"
        and kept: "\<And>k. cl_releasebindings (abs s3) k = cl_releasebindings (abs s) k \<or> goneOrDeleting (cl_releasebindings (abs s3) k) \<and>
          (\<exists>b \<in> set bs. objectKey b = k \<and> map_of desired (bindingTargetKey b) = None)"
        and gone: "\<And>b. b \<in> set bs \<Longrightarrow> map_of desired (bindingTargetKey b) = None \<Longrightarrow> goneOrDeleting (cl_releasebindings (abs s3) (objectKey b))"
      show "Q (Inr existing') s3"
      proof (rule Cons.prems(2))
        show "map_of existing' key \<noteq> None \<longleftrightarrow> map_of existing key \<noteq> None \<or> (\<exists>b \<in> set (b # bs). bindingTargetKey b = key)" for key
          using ex [of key] by auto
        show "cl_releasebindings (abs s3) k = cl_releasebindings (abs s) k \<or> goneOrDeleting (cl_releasebindings (abs s3) k) \<and>
          (\<exists>b \<in> set (b # bs). objectKey b = k \<and> map_of desired (bindingTargetKey b) = None)" for k
          using kept [of k] by auto
        show "b' \<in> set (b # bs) \<Longrightarrow> map_of desired (bindingTargetKey b') = None \<Longrightarrow> goneOrDeleting (cl_releasebindings (abs s3) (objectKey b'))" for b'
          using gone [of b'] False by auto
      qed
    qed (rule Cons.prems(1))
  qed
qed simp

text \<open>A missing binding is created, owned by the profile.\<close>

lemma createBinding_wp:
  assumes tm: "\<not> k_testMode e" and fresh: "freshNames e" and err: "\<And>err s'. Q (Inl (Inl err)) s'"
    and skip: "map_of existing key \<noteq> None \<Longrightarrow> Q (Inr ()) s"
    and new: "\<And>b s'. map_of existing key = None \<Longrightarrow> k_isControlledBy e (metadata b) (metadata p) \<Longrightarrow> spec b = spec (newReleaseBinding p t) \<Longrightarrow>
      om_namespace (metadata b) = om_namespace (metadata p) \<Longrightarrow> cl_releasebindings (abs s) (objectKey b) = None \<Longrightarrow>
      cl_releasebindings (abs s') = (cl_releasebindings (abs s))(objectKey b := Some b) \<Longrightarrow> Q (Inr ()) s'"
  shows "wp (createBinding e p existing (key, t)) Q s"
proof (cases "map_of existing key")
  case None
  show ?thesis
  proof (cases "k_setControllerReference e (metadata p) (metadata (newReleaseBinding p t))")
    case (Inr meta)
    let ?rb = "(newReleaseBinding p t)\<lparr>metadata := meta\<rparr>"
    obtain refs where meta: "meta = (metadata (newReleaseBinding p t))\<lparr>om_ownerReferences := refs\<rparr>" "k_isControlledBy e meta (metadata p)"
      using setControllerRef [OF Inr] by blast
    have name: "om_name (metadata ?rb) = ''''" "om_namespace (metadata ?rb) = om_namespace (metadata p)"
      by (simp_all add: meta(1) newReleaseBinding_def newMeta_def)
    have "wp (res_create (k_releasebindings e) ?rb) (\<lambda>r s'. (\<forall>err. r = Inl err \<longrightarrow> \<not> isAlreadyExists err) \<and>
        (\<forall>b. r = Inr b \<longrightarrow> Q (Inr ()) s' \<and> (\<forall>s''. abs s'' = abs s' \<longrightarrow> Q (Inr ()) s''))) s"
    proof (rule wp_conj)
      show "wp (res_create (k_releasebindings e) ?rb) (\<lambda>r s'. \<forall>err. r = Inl err \<longrightarrow> \<not> isAlreadyExists err) s"
        using fresh [unfolded freshNames_def, rule_format, OF name(1)] unfolding wp_def by (auto split: prod.splits)
      show "wp (res_create (k_releasebindings e) ?rb) (\<lambda>r s'. \<forall>b. r = Inr b \<longrightarrow> Q (Inr ()) s' \<and> (\<forall>s''. abs s'' = abs s' \<longrightarrow> Q (Inr ()) s'')) s"
      proof (rule relb.create_wp)
        fix b s1 assume b: "createdFrom ?rb b" "cl_releasebindings (abs s) (objectKey b) = None"
          "abs s1 = cl_releasebindings_update (\<lambda>m. m(objectKey b := Some b)) (abs s)"
        have "k_isControlledBy e (metadata b) (metadata p)"
          using meta(2) controlledBy [of "metadata b" meta] b(1) by (simp add: createdFrom_def)
        then have "Q (Inr ()) s'" if "abs s' = abs s1" for s'
          using b that name(2) None by (intro new [of b]) (auto simp: createdFrom_def)
        then show "\<forall>b'. Inr b = Inr b' \<longrightarrow> Q (Inr ()) s1 \<and> (\<forall>s''. abs s'' = abs s1 \<longrightarrow> Q (Inr ()) s'')" by blast
      qed simp
    qed
    then have "wp (res_create (k_releasebindings e) ?rb) (\<lambda>c. wp (case c of
        Inl err \<Rightarrow> if isAlreadyExists err then ret (Inr ()) else failR e err ''failed to create ReleaseBinding''
      | Inr _ \<Rightarrow> do { k_eventf e ''Normal'' ''Created'' (''Created ReleaseBinding for target '' @ key); ret (Inr ()) }) Q) s"
      by (rule wp_mono) (auto simp: failR_def tm err split: sum.splits intro!: wp_mono [OF event])
    then show ?thesis by (simp add: createBinding_def None Inr del: append.simps)
  qed (use None tm err in \<open>simp add: createBinding_def\<close>)
qed (use skip in \<open>simp add: createBinding_def\<close>)

text \<open>The bindings after all missing ones have been created.\<close>

lemma createBindings_wp:
  assumes tm: "\<not> k_testMode e" and fresh: "freshNames e" and err: "\<And>err s'. Q (Inl (Inl err)) s'"
    and newKey: "\<And>key t b. (key, t) \<in> set desired \<Longrightarrow> spec b = spec (newReleaseBinding p t) \<Longrightarrow>
      om_namespace (metadata b) = om_namespace (metadata p) \<Longrightarrow> bindingTargetKey b = key"
    and ok: "\<And>s'. (\<And>k b. cl_releasebindings (abs s) k = Some b \<Longrightarrow> cl_releasebindings (abs s') k = Some b) \<Longrightarrow>
      (\<And>k b. cl_releasebindings (abs s') k = Some b \<Longrightarrow> cl_releasebindings (abs s) k = Some b \<or> bindingTargetKey b \<in> fst ` set desired) \<Longrightarrow>
      (\<And>key t. (key, t) \<in> set desired \<Longrightarrow> map_of existing key = None \<Longrightarrow> \<exists>k b. cl_releasebindings (abs s') k = Some b \<and>
        k_isControlledBy e (metadata b) (metadata p) \<and> bindingTargetKey b = key) \<Longrightarrow> Q (Inr ()) s'"
  shows "wp (forEach (createBinding e p existing) desired) Q s"
proof -
  define I where "I ys s' \<longleftrightarrow> (\<forall>k b. cl_releasebindings (abs s) k = Some b \<longrightarrow> cl_releasebindings (abs s') k = Some b) \<and>
    (\<forall>k b. cl_releasebindings (abs s') k = Some b \<longrightarrow> cl_releasebindings (abs s) k = Some b \<or> bindingTargetKey b \<in> fst ` set desired) \<and>
    (\<forall>key t. (key, t) \<in> set ys \<longrightarrow> map_of existing key = None \<longrightarrow> (\<exists>k b. cl_releasebindings (abs s') k = Some b \<and>
        k_isControlledBy e (metadata b) (metadata p) \<and> bindingTargetKey b = key))" for ys :: "(string \<times> target) list" and s'
  show ?thesis
  proof (rule wp_forEach [where I = I])
    fix ys y s1 assume y: "y \<in> set desired" and s1: "I ys s1"
    obtain key t where kt: "y = (key, t)" by force
    show "wp (createBinding e p existing y) (\<lambda>r. case r of Inl err \<Rightarrow> Q (Inl err) | Inr _ \<Rightarrow> I (ys @ [y])) s1"
      unfolding kt
    proof (rule createBinding_wp [OF tm fresh])
      fix b s2
      assume b: "k_isControlledBy e (metadata b) (metadata p)" "cl_releasebindings (abs s1) (objectKey b) = None"
        "cl_releasebindings (abs s2) = (cl_releasebindings (abs s1))(objectKey b := Some b)"
        and "spec b = spec (newReleaseBinding p t)" "om_namespace (metadata b) = om_namespace (metadata p)"
      then have key: "bindingTargetKey b = key" using newKey y kt by blast
      have old: "k \<noteq> objectKey b" if "cl_releasebindings (abs s1) k = Some b'" for k b' using that b(2) by auto
      have "key \<in> fst ` set desired" using y kt by force
      then have "I (ys @ [(key, t)]) s2"
        using s1 b key old unfolding I_def by (auto split: if_splits) (metis fun_upd_apply option.distinct(1))+
      then show "(case Inr () of Inl err \<Rightarrow> Q (Inl err) | Inr _ \<Rightarrow> I (ys @ [(key, t)])) s2" by simp
    qed (use err s1 in \<open>auto simp: I_def\<close>)
  qed (auto simp: I_def intro!: ok)
qed

text \<open>What the bindings of a profile look like when they match the desired targets.\<close>

definition settledOn :: "cluster \<Rightarrow> profile \<Rightarrow> target gomap \<Rightarrow> bool" where
  "settledOn c p desired \<longleftrightarrow>
     (\<forall>key t. (key, t) \<in> set desired \<longrightarrow> (\<exists>k b. cl_releasebindings c k = Some b \<and>
        k_isControlledBy e (metadata b) (metadata p) \<and> bindingTargetKey b = key)) \<and>
     (\<forall>k b. cl_releasebindings c k = Some b \<longrightarrow> om_namespace (metadata b) = om_namespace (metadata p) \<longrightarrow>
        k_isControlledBy e (metadata b) (metadata p) \<longrightarrow> \<not> deleting b \<longrightarrow> map_of desired (bindingTargetKey b) \<noteq> None)"

lemma profileBind_wp:
  assumes tm: "\<not> k_testMode e" and fresh: "freshNames e" and err: "\<And>err s'. Q (Inl (Inl err)) s'"
    and newKey: "\<And>key t b. (key, t) \<in> set desired \<Longrightarrow> spec b = spec (newReleaseBinding p t) \<Longrightarrow>
      om_namespace (metadata b) = om_namespace (metadata p) \<Longrightarrow> bindingTargetKey b = key"
    and ok: "\<And>s'. settledOn (abs s') p desired \<Longrightarrow> Q (Inr ()) s'"
  shows "wp (profileBind e p desired) Q s"
  unfolding profileBind_def wp_bind
proof (rule relb.list_wp)
  fix all s1
  assume s1: "abs s1 = abs s" "set all = {y. cl_releasebindings (abs s) (objectKey y) = Some y \<and>
    selected index_release_binding (inNamespace (om_namespace (metadata p))) y}"
  have owned: "b \<in> set (ownedBindings e p all) \<longleftrightarrow> cl_releasebindings (abs s) (objectKey b) = Some b \<and>
    om_namespace (metadata b) = om_namespace (metadata p) \<and> k_isControlledBy e (metadata b) (metadata p)" for b
    using s1 by (auto simp: ownedBindings_def)
  let ?finish = "if int (length desired) \<noteq> prf_matchedTargets (status p) then do {
              u \<leftarrow> res_statusUpdate (k_profiles e) (p\<lparr>status := (status p)\<lparr>prf_matchedTargets := int (length desired)\<rparr>\<rparr>);
              (case u of Inl err \<Rightarrow> failR e err ''failed to update Profile status'' | Inr _ \<Rightarrow> ret (Inr ()))
            } else ret (Inr ())"
  have finish: "wp ?finish Q s3" if "settledOn (abs s3) p desired" for s3
    using that tm err by (auto intro!: pro.statusUpdate_wp ok simp: failR_def settledOn_def)
  have create: "wp (andThen (forEach (createBinding e p existing) desired) (\<lambda>_. ?finish)) Q s2"
    if ex: "\<And>key. map_of existing key \<noteq> None \<longleftrightarrow> (\<exists>b \<in> set (ownedBindings e p all). bindingTargetKey b = key)"
      and kept: "\<And>k. cl_releasebindings (abs s2) k = cl_releasebindings (abs s1) k \<or> goneOrDeleting (cl_releasebindings (abs s2) k) \<and>
        (\<exists>b \<in> set (ownedBindings e p all). objectKey b = k \<and> map_of desired (bindingTargetKey b) = None)"
      and gone: "\<And>b. b \<in> set (ownedBindings e p all) \<Longrightarrow> map_of desired (bindingTargetKey b) = None \<Longrightarrow>
        goneOrDeleting (cl_releasebindings (abs s2) (objectKey b))" for existing s2
    unfolding wp_andThen
  proof (rule createBindings_wp [OF tm fresh _ newKey])
    fix s3
    assume old: "\<And>k b. cl_releasebindings (abs s2) k = Some b \<Longrightarrow> cl_releasebindings (abs s3) k = Some b"
      and only: "\<And>k b. cl_releasebindings (abs s3) k = Some b \<Longrightarrow> cl_releasebindings (abs s2) k = Some b \<or> bindingTargetKey b \<in> fst ` set desired"
      and made: "\<And>key t. (key, t) \<in> set desired \<Longrightarrow> map_of existing key = None \<Longrightarrow> \<exists>k b. cl_releasebindings (abs s3) k = Some b \<and>
        k_isControlledBy e (metadata b) (metadata p) \<and> bindingTargetKey b = key"
    have "\<exists>k b. cl_releasebindings (abs s3) k = Some b \<and> k_isControlledBy e (metadata b) (metadata p) \<and> bindingTargetKey b = key"
      if "(key, t) \<in> set desired" for key t
    proof (cases "map_of existing key")
      case (Some b0)
      then obtain b where b: "b \<in> set (ownedBindings e p all)" "bindingTargetKey b = key" using ex [of key] by auto
      have "map_of desired key \<noteq> None" using that by (simp add: map_of_eq_None_iff) force
      then have "cl_releasebindings (abs s2) (objectKey b) = Some b" using kept [of "objectKey b"] b owned s1(1) by auto
      then show ?thesis using old b owned by blast
    qed (use made that in blast)
    moreover have "map_of desired (bindingTargetKey b) \<noteq> None"
      if "cl_releasebindings (abs s3) k = Some b" "om_namespace (metadata b) = om_namespace (metadata p)"
        "k_isControlledBy e (metadata b) (metadata p)" "\<not> deleting b" for k b
    proof (cases "cl_releasebindings (abs s2) k = Some b")
      case True
      then have "cl_releasebindings (abs s1) k = Some b" using kept [of k] that(4) by (auto simp: goneOrDeleting_def)
      then have "b \<in> set (ownedBindings e p all)" "objectKey b = k" using owned s1(1) that relb.key by auto
      then show ?thesis using gone True that(4) by (auto simp: goneOrDeleting_def)
    qed (use only [OF that(1)] in \<open>auto simp: map_of_eq_None_iff\<close>)
    ultimately have "settledOn (abs s3) p desired" unfolding settledOn_def by blast
    then show "(case Inr () of Inl err \<Rightarrow> Q (Inl err) | Inr _ \<Rightarrow> wp ?finish Q) s3" using finish by simp
  qed (use err in auto)
  show "wp (case Inr all of Inl err \<Rightarrow> failR e err ''failed to list ReleaseBindings''
      | Inr allBindings \<Rightarrow> andThen (pruneBindings e desired [] (ownedBindings e p allBindings)) (\<lambda>existingByKey.
          andThen (forEach (createBinding e p existingByKey) desired) (\<lambda>_. ?finish))) Q s1"
    unfolding sum.case wp_andThen [of "pruneBindings e desired [] (ownedBindings e p all)"]
    by (rule pruneBindings_wp [OF tm]) (use err create in auto)
qed (use tm err in \<open>simp add: failR_def\<close>)

lemma newReleaseBinding_key:
  assumes "om_namespace (metadata t) \<noteq> ''''" "spec b = spec (newReleaseBinding p t)" "om_namespace (metadata b) = om_namespace (metadata p)"
  shows "bindingTargetKey b = targetKey t"
  using assms by (auto simp: newReleaseBinding_def bindingTargetKey_def targetKey_def)

lemma profileProtect_frame:
  assumes "\<not> k_testMode e" and "\<And>err s'. Q (Inl (Inl err)) s'"
    and "\<And>s'. cl_targets (abs s') = cl_targets (abs s) \<Longrightarrow> cl_referencegrants (abs s') = cl_referencegrants (abs s) \<Longrightarrow> Q (Inr ()) s'"
  shows "wp (profileProtect e p) Q s"
  using assms unfolding profileProtect_def
  by (auto intro!: rel.get_wp rel.addProtection_wp simp: addProtection_def failR_def intro!: rel.patch_wp)

lemma eligible_cong:
  "cl_targets c = cl_targets c' \<Longrightarrow> cl_referencegrants c = cl_referencegrants c' \<Longrightarrow> eligible c p selector t = eligible c' p selector t"
  by (simp add: eligible_def)

lemma profileActive_wp:
  assumes tm: "\<not> k_testMode e" and fresh: "freshNames e" and sel: "k_asSelector e (prf_targetSelector (spec p)) = Inr selector"
    and ns: "\<And>k t. cl_targets (abs s) k = Some t \<Longrightarrow> om_namespace (metadata t) \<noteq> ''''" and err: "\<And>err s'. Q (Inl (Inl err)) s'"
    and ok: "\<And>s' desired. settledOn (abs s') p desired \<Longrightarrow>
      (\<And>key. map_of desired key \<noteq> None \<longleftrightarrow> key \<in> targetKey ` {t. eligible (abs s) p selector t}) \<Longrightarrow> Q (Inr ()) s'"
  shows "wp (andThen (profileProtect e p) (\<lambda>_. case k_asSelector e (prf_targetSelector (spec p)) of
       Inl err \<Rightarrow> returnR 0 | Inr selector \<Rightarrow> andThen (profileTargets e p selector) (profileBind e p))) Q s"
  unfolding wp_andThen [of "profileProtect e p"] sel sum.case(2)
proof (rule profileProtect_frame [OF tm])
  fix s1 assume s1: "cl_targets (abs s1) = cl_targets (abs s)" "cl_referencegrants (abs s1) = cl_referencegrants (abs s)"
  have "wp (andThen (profileTargets e p selector) (profileBind e p)) Q s1"
    unfolding wp_andThen
  proof (rule profileTargets_wp [OF tm])
    fix desired s2
    assume keys: "\<And>key. map_of desired key \<noteq> None \<longleftrightarrow> key \<in> targetKey ` {t. eligible (abs s1) p selector t}"
      and entry: "\<And>key t. (key, t) \<in> set desired \<Longrightarrow> key = targetKey t \<and> eligible (abs s1) p selector t"
    have "bindingTargetKey b = key" if "(key, t) \<in> set desired" "spec b = spec (newReleaseBinding p t)"
      "om_namespace (metadata b) = om_namespace (metadata p)" for key t b
    proof -
      have "cl_targets (abs s) (objectKey t) = Some t" "key = targetKey t" using entry [OF that(1)] s1 by (auto simp: eligible_def)
      then show ?thesis using newReleaseBinding_key that ns by blast
    qed
    note newKey = this
    have same: "{t. eligible (abs s1) p selector t} = {t. eligible (abs s) p selector t}" using eligible_cong [OF s1] by simp
    have "wp (profileBind e p desired) Q s2"
    proof (rule profileBind_wp [OF tm fresh _ newKey])
      show "Q (Inr ()) s'" if "settledOn (abs s') p desired" for s' using that keys [unfolded same] by (rule ok)
    qed (rule err)
    then show "(case Inr desired of Inl out \<Rightarrow> Q (Inl out) | Inr d \<Rightarrow> wp (profileBind e p d) Q) s2" by simp
  qed (simp add: err)
  then show "(case Inr () of Inl out \<Rightarrow> Q (Inl out)
    | Inr _ \<Rightarrow> wp (andThen (profileTargets e p selector) (profileBind e p)) Q) s1" by simp
qed (simp add: err)

lemma profileReconcile_wp:
  assumes p: "cl_profiles (abs s) k = Some p" "\<not> deleting p" and tm: "\<not> k_testMode e" "watched e k" and fresh: "freshNames e"
    and sel: "k_asSelector e (prf_targetSelector (spec p)) = Inr selector"
    and ns: "\<And>k t. cl_targets (abs s) k = Some t \<Longrightarrow> om_namespace (metadata t) \<noteq> ''''"
    and ok: "\<And>s' desired. settledOn (abs s') p desired \<Longrightarrow>
      (\<And>key. map_of desired key \<noteq> None \<longleftrightarrow> key \<in> targetKey ` {t. eligible (abs s) p selector t}) \<Longrightarrow> P 0 s'"
  shows "wp (profileReconcile e k) (succeeds P) s"
  unfolding profileReconcile_def
proof (rule pro.withObject_wp [OF p(1) tm(2,1)])
  fix s1 assume s1: "abs s1 = abs s" "objectKey p = k"
  have active: "wp (andThen (profileProtect e p) (\<lambda>_. case k_asSelector e (prf_targetSelector (spec p)) of
       Inl err \<Rightarrow> returnR 0 | Inr selector \<Rightarrow> andThen (profileTargets e p selector) (profileBind e p)))
      (\<lambda>r. case r of Inl out \<Rightarrow> succeeds P out | Inr _ \<Rightarrow> succeeds P (Inr 0)) s2"
    if s2: "cl_targets (abs s2) = cl_targets (abs s)" "cl_referencegrants (abs s2) = cl_referencegrants (abs s)" for s2
  proof (rule profileActive_wp [OF tm(1) fresh sel])
    have same: "{t. eligible (abs s2) p selector t} = {t. eligible (abs s) p selector t}" using eligible_cong [OF s2] by simp
    show "(case Inr () of Inl out \<Rightarrow> succeeds P out | Inr _ \<Rightarrow> succeeds P (Inr 0)) s'"
      if "settledOn (abs s') p desired" "\<And>key. map_of desired key \<noteq> None \<longleftrightarrow> key \<in> targetKey ` {t. eligible (abs s2) p selector t}" for s' desired
      using ok [OF that(1)] that(2) [unfolded same] by simp
  qed (use ns s2 in simp_all)
  show "wp (finish (if deleting p then profileDelete e k p
       else
         andThen (ensureSelfFinalizer e (k_profiles e) profileFinalizer ''Profile'' k p) (\<lambda>_.
         andThen (profileProtect e p) (\<lambda>_.
           case k_asSelector e (prf_targetSelector (spec p)) of
             Inl err \<Rightarrow> returnR 0
           | Inr selector \<Rightarrow> andThen (profileTargets e p selector) (profileBind e p))))) (succeeds P) s1"
    unfolding if_not_P [OF p(2)] wp_finish wp_andThen [of "ensureSelfFinalizer e (k_profiles e) profileFinalizer ''Profile'' k p"]
    by (rule pro.ensureSelf_prod [where x = p])
      (use p s1 tm in \<open>simp_all del: wp_andThen\<close>, (rule active; simp)+)
qed simp

end


end
