(* ===== verification/TargetScenarios.thy ===== *)
theory TargetScenarios
  imports RenderScenarios TargetProperties ProfileProperties
begin

text \<open>
  Concrete runs of the Target and Profile controllers, with their guarantees applied to them.
\<close>

section \<open>Profiles\<close>

lemma memKube_freshNames: "freshNames memKube"
  unfolding freshNames_def by (auto simp: memKube_def memResource_def Let_def split: if_splits)

definition edgeSelector :: "labels \<Rightarrow> bool" where
  "edgeSelector = (\<lambda>ls. list_all (\<lambda>(key, v). map_of ls key = Some v) [(''tier'', ''edge'')] \<and> list_all (matchExpression ls) [])"

abbreviation rolling :: profile where
  "rolling \<equiv> hd (mem_profiles unrolled)"


section \<open>Targets\<close>

definition foreignEdge :: target where
  "foreignEdge = edge\<lparr>spec := (spec edge)\<lparr>tgt_renderRegistryNamespace := ''infra''\<rparr>\<rparr>"

definition ungrantedEdge :: mem where
  "ungrantedEdge = demo\<lparr>mem_targets := [foreignEdge],
     mem_registries := [harbor\<lparr>metadata := metaIn ''infra'' ''harbor'' []\<rparr>]\<rparr>"

abbreviation edgeRun :: "(mem, outcome) state" where
  "edgeRun \<equiv> targetReconcile memKube (inApps ''edge'')"


text \<open>A target with a task and a binding of its own, and a task of another target.\<close>

definition otherTask :: render_task where
  "otherTask = task\<lparr>metadata := metaIn ''apps'' ''other-task'' [], spec := (spec task)\<lparr>rt_ownerName := ''core''\<rparr>\<rparr>"

definition rendering :: mem where
  "rendering = demo\<lparr>mem_rendertasks := [task, otherTask], mem_renderbindings := [chartOnEdge]\<rparr>"

theorem stale_objects_removed_witness:
  "swept (\<lambda>rt. ownsTask edge rt \<and> om_name (metadata rt) \<notin> {}) (cl_rendertasks (memView rendering))
     (cl_rendertasks (memView (after (deleteStaleRenderBindings memKube edge {''chart-edge''}) (after (deleteStaleRenderTasks memKube edge {}) rendering)))) \<and>
   swept (\<lambda>b. bindingOf edge b \<and> om_name (metadata b) \<notin> {''chart-edge''}) (cl_renderbindings (memView rendering))
     (cl_renderbindings (memView (after (deleteStaleRenderBindings memKube edge {''chart-edge''}) (after (deleteStaleRenderTasks memKube edge {}) rendering)))) \<and>
   (\<exists>m m'. memView (after (deleteStaleRenderBindings memKube edge {''chart-edge''}) (after (deleteStaleRenderTasks memKube edge {}) rendering)) =
      cl_renderbindings_update m' (cl_rendertasks_update m (memView rendering)))"
proof (rule stale_objects_removed [OF mem.kube_laws_axioms])
  show "run_state (deleteStaleRenderTasks memKube edge {}) rendering = (Inr (), after (deleteStaleRenderTasks memKube edge {}) rendering)"
    by (rule run_after) code_simp
  show "run_state (deleteStaleRenderBindings memKube edge {''chart-edge''}) (after (deleteStaleRenderTasks memKube edge {}) rendering) =
    (Inr (), after (deleteStaleRenderBindings memKube edge {''chart-edge''}) (after (deleteStaleRenderTasks memKube edge {}) rendering))"
    by (rule run_after) code_simp
qed

definition leaving :: mem where
  "leaving = rendering\<lparr>mem_targets := [edge\<lparr>metadata := (metadata edge)\<lparr>om_deletionTimestamp := Some 1\<rparr>\<rparr>]\<rparr>"

theorem target_deletion_cleans_up_witness:
  "swept (ownsTask (hd (mem_targets leaving))) (cl_rendertasks (memView leaving)) (cl_rendertasks (memView (after edgeRun leaving))) \<and>
   swept (bindingOf (hd (mem_targets leaving))) (cl_renderbindings (memView leaving)) (cl_renderbindings (memView (after edgeRun leaving))) \<and>
   cl_targets (memView (after edgeRun leaving)) (inApps ''edge'') = None"
proof -
  have "run_state edgeRun leaving = (Inr 0, after edgeRun leaving)" by (rule run_after) code_simp
  note clean = target_deletion_cleans_up [OF mem.kube_laws_axioms memKube_settings(2,3) _ _ _ this]
  have "cl_targets (memView leaving) (inApps ''edge'') = Some (hd (mem_targets leaving))" "deleting (hd (mem_targets leaving))"
    "hasFinalizer targetFinalizer (hd (mem_targets leaving))" by code_simp+
  moreover have "cl_targets (memView (after edgeRun leaving)) (inApps ''edge'') = None" by code_simp
  ultimately show ?thesis using clean by blast
qed


section \<open>Charts\<close>

definition webSpec :: render_task_spec where
  "webSpec = projr (computeReleaseRenderTaskSpec True web nginxV1 harbor edge [(''ghcr.io'', ''pull'')])"

definition webTask :: render_task where "webTask = newRenderTask ''render-web'' ''apps'' webSpec"

definition webArtifact :: render_artifact where
  "webArtifact = chart\<lparr>spec := artifactFor webTask ''oci'' ''apps''\<rparr>"

lemma webSpec_computed: "computeReleaseRenderTaskSpec True web nginxV1 harbor edge [(''ghcr.io'', ''pull'')] = Inr webSpec"
proof -
  have "\<exists>resolved. resolveResources (cv_resources (spec nginxV1)) [(''ghcr.io'', ''pull'')] True = Inr resolved"
    by (rule resolveResources_strict_iff [THEN iffD2]) code_simp
  then show ?thesis by (auto simp: webSpec_def computeReleaseRenderTaskSpec_def Let_def)
qed

theorem collected_chart_is_pushed_chart_witness:
  "''oci://'' @ artifactRef webArtifact = reference (rt_baseURL webSpec) (rt_repository webSpec) (rt_tag webSpec) \<and>
   reference (rt_baseURL webSpec) (rt_repository webSpec) (rt_tag webSpec) = renderChartURL (rt_baseURL webSpec) (rt_repository webSpec) (rt_tag webSpec)"
proof (rule collected_chart_is_pushed_chart [OF webSpec_computed])
  show "spec webTask = webSpec" by (simp add: webTask_def newRenderTask_def)
  show "spec webArtifact = artifactFor webTask ''oci'' ''apps''" by (simp add: webArtifact_def)
qed code_simp+

lemma ensure_empty:
  "mem_renderbindings s = [] \<Longrightarrow> \<exists>s'. run_state (ensureRenderBinding memKube tgt a b) s = (Inr (), s') \<and> mem_renderartifacts s' = mem_renderartifacts s"
  "mem_renderartifacts s = [] \<Longrightarrow> \<exists>s'. run_state (ensureRenderArtifact memKube n rt flavor ns) s = (Inr (), s')"
  by (simp_all add: ensureRenderBinding_def ensureRenderArtifact_def memKube_def memResource_def Let_def)

lemma link_empty:
  assumes "mem_renderbindings s = []" "mem_renderartifacts s = []"
  shows "\<exists>s'. run_state (linkArtifact memKube tgt reg rt what) s =
    (let a = renderArtifactName (om_namespace (metadata tgt)) (rt_baseURL (spec rt)) (rt_repository (spec rt)) (rt_tag (spec rt))
     in (Inr (a, renderBindingName a (om_name (metadata tgt))), s'))"
proof -
  let ?a = "renderArtifactName (om_namespace (metadata tgt)) (rt_baseURL (spec rt)) (rt_repository (spec rt)) (rt_tag (spec rt))"
  obtain s1 where 1: "run_state (ensureRenderBinding memKube tgt ?a (renderBindingName ?a (om_name (metadata tgt)))) s = (Inr (), s1)"
    "mem_renderartifacts s1 = []"
    using ensure_empty(1) [OF assms(1)] assms(2) by metis
  obtain s2 where 2: "run_state (ensureRenderArtifact memKube ?a rt (reg_flavor (spec reg)) (targetRegistryNamespace tgt)) s1 = (Inr (), s2)"
    using ensure_empty(2) [OF 1(2)] by metis
  show ?thesis using 1(1) 2 by (simp add: linkArtifact_def Let_def wrapReturn_def andThen_def)
qed

definition webArtifactName :: string where
  "webArtifactName = renderArtifactName ''apps'' (rt_baseURL webSpec) (rt_repository webSpec) (rt_tag webSpec)"

definition linkedWeb :: mem where
  "linkedWeb = after (linkArtifact memKube edge harbor webTask ''release'') demo"

theorem pushed_chart_linked_witness:
  "\<exists>a b. cl_renderartifacts (memView linkedWeb) (inApps webArtifactName) = Some a \<and> \<not> deleting a \<and>
      cl_renderbindings (memView linkedWeb) (inApps (renderBindingName webArtifactName ''edge'')) = Some b \<and>
      bindingOf edge b \<and> artifactBound (memView linkedWeb) (inApps webArtifactName) \<and>
      spec a = artifactFor webTask (reg_flavor (spec harbor)) (targetRegistryNamespace edge)"
proof -
  have names: "om_namespace (metadata webTask) = ''apps''" "om_namespace (metadata edge) = ''apps''" "om_name (metadata edge) = ''edge''" "spec webTask = webSpec"
    by (simp_all add: webTask_def newRenderTask_def newMeta_def edge_def metaIn_def)
  have "run_state (linkArtifact memKube edge harbor webTask ''release'') demo =
      (Inr (webArtifactName, renderBindingName webArtifactName ''edge''), linkedWeb)"
    using link_empty [of demo edge harbor webTask "''release''"]
    by (auto simp: demo_def emptyMem_def names webArtifactName_def Let_def linkedWeb_def after_def)
  note linked = pushed_chart_linked [OF mem.kube_laws_axioms memKube_settings(2) _ this]
  have "mem_renderbindings demo = []" "mem_renderartifacts demo = []" by (simp_all add: demo_def emptyMem_def)
  with linked show ?thesis by (auto simp: names inApps_def Let_def)
qed

text \<open>The first bootstrap task of a target.\<close>

definition renderedWeb :: release_info where
  "renderedWeb = (setUniqueName (bound ''web'' '''' 10 [] None))\<lparr>inf_chartURL := ''oci://ghcr.io/apps/web:v1''\<rparr>"

abbreviation bootstrapRun :: "(mem, outcome + target \<times> string \<times> render_task) state" where
  "bootstrapRun \<equiv> bootstrapTask memKube edge harbor [renderedWeb]"

theorem bootstrap_version_advances_witness:
  "\<exists>tgt' name rt. fst (run_state bootstrapRun demo) = Inr (tgt', name, rt) \<and>
    cl_rendertasks (memView (after bootstrapRun demo)) (bootstrapKey edge 0) = Some rt \<and>
    cl_targets (memView (after bootstrapRun demo)) (inApps ''edge'') = Some tgt' \<and> tgt_bootstrapVersion (status tgt') = 0"
proof -
  have "case fst (run_state bootstrapRun demo) of Inl _ \<Rightarrow> False | Inr (tgt', name, rt) \<Rightarrow> True" by code_simp
  then obtain tgt' name rt where r: "fst (run_state bootstrapRun demo) = Inr (tgt', name, rt)" by (auto split: sum.splits)
  have "\<not> bootstrapOutdated memKube (memView demo) edge harbor [renderedWeb]"
    by (simp add: bootstrapOutdated_def demo_def emptyMem_def)
  moreover have "objectKey edge = inApps ''edge''" "tgt_bootstrapVersion (status edge) = 0" by code_simp+
  moreover have "cl_targets (memView demo) (objectKey edge) = Some edge" by code_simp
  ultimately have "cl_rendertasks (memView (after bootstrapRun demo)) (bootstrapKey edge 0) = Some rt \<and>
    cl_targets (memView (after bootstrapRun demo)) (inApps ''edge'') = Some tgt' \<and> tgt_bootstrapVersion (status tgt') = 0"
    using bootstrap_version_advances [OF mem.kube_laws_axioms memKube_settings(2) _ _ _ run_after [OF r]] by auto
  with r show ?thesis by blast
qed

end
