(* ===== verification/DiscoveryNames.thy ===== *)
theory DiscoveryNames
  imports Sha256
begin

text \<open>
  \<open>pkg/discovery/helpers.go\<close>: how the discovery reads component names out of repository names and
  turns them into names and labels of the API. \<open>SplitRepository\<close> is characterised exactly, the names
  are shown to be valid within their length limit, and the one that is not, \<open>SanitizeWithHash\<close>, is
  measured.
\<close>

section \<open>Repository names\<close>

text \<open>\<open>strings.Split\<close> at a non-empty separator, leftmost occurrences first.\<close>

fun splitStr :: "string \<Rightarrow> string \<Rightarrow> string list" where
  "splitStr sep [] = [[]]"
| "splitStr sep (c # s) =
     (if hasPrefix (c # s) sep then [] # splitStr sep (drop (length sep - 1) s)
      else case splitStr sep s of [] \<Rightarrow> [[c]] | p # ps \<Rightarrow> (c # p) # ps)"

text \<open>The separator \<open>/component-descriptors/\<close>, and the prefix of a repository without a base.\<close>

definition descriptorsPrefix :: string where
  "descriptorsPrefix = ''component-descriptors/''"

definition descriptorsSeparator :: string where
  "descriptorsSeparator = CHR ''/'' # descriptorsPrefix"

definition errNotComponentDescriptor :: string where
  "errNotComponentDescriptor = ''repository is not a component descriptor''"

definition singleQuoted :: "string \<Rightarrow> string" where
  "singleQuoted s = CHR 0x27 # s @ [CHR 0x27]"

definition notDescriptor :: "string \<Rightarrow> string \<Rightarrow> go_error" where
  "notDescriptor repo why = ErrorText (errNotComponentDescriptor @ '': repo '' @ singleQuoted repo @ why)"

definition multipleSeparators :: string where
  "multipleSeparators = '' has multiple '' @ singleQuoted ''component-descriptors'' @ '' separators''"

definition splitRepository :: "string \<Rightarrow> go_error + string \<times> string" where
  "splitRepository repo =
     (if \<not> containsStr repo descriptorsPrefix then Inl (notDescriptor repo '' is not an ocm repository'')
      else let trimmed = trimPrefix repo descriptorsPrefix in
        if trimmed \<noteq> repo \<and> length trimmed > 0 then
          (if containsStr trimmed descriptorsSeparator then Inl (notDescriptor repo multipleSeparators)
           else Inr ('''', trimmed))
        else case splitStr descriptorsSeparator repo of
            [base, component] \<Rightarrow> Inr (base, component)
          | _ \<Rightarrow> Inl (notDescriptor repo multipleSeparators))"

section \<open>Names\<close>

text \<open>\<open>strings.ToLower\<close>, as far as the sanitised names depend on it: ASCII letters, and the two
  letters outside ASCII whose lower case is an ASCII letter, the Kelvin sign (\<open>E2 84 AA\<close> in UTF-8)
  and the dotted capital I (\<open>C4 B0\<close>). Every other byte outside ASCII stays outside ASCII and is replaced
  in the next step.\<close>

fun lowerName :: "string \<Rightarrow> string" where
  "lowerName [] = []"
| "lowerName (c # s) =
     (if hasPrefix (c # s) [CHR 0xE2, CHR 0x84, CHR 0xAA] then CHR ''k'' # lowerName (drop 2 s)
      else if hasPrefix (c # s) [CHR 0xC4, CHR 0xB0] then CHR ''i'' # lowerName (drop 1 s)
      else lowerChar c # lowerName s)"

definition alphaNumeric :: "char \<Rightarrow> bool" where
  "alphaNumeric c \<longleftrightarrow> (let n = of_char c :: nat in 97 \<le> n \<and> n \<le> 122 \<or> 48 \<le> n \<and> n \<le> 57)"

lemma length_dropWhile_Suc [termination_simp]: "length (dropWhile P xs) < Suc (length xs)"
  by (simp add: length_dropWhile_le less_Suc_eq_le)

text \<open>\<open>regexp.MustCompile("[^a-z0-9]+").ReplaceAllString(name, "-")\<close>.\<close>

fun replaceNonAlphaNumeric :: "string \<Rightarrow> string" where
  "replaceNonAlphaNumeric [] = []"
| "replaceNonAlphaNumeric (c # s) =
     (if alphaNumeric c then c # replaceNonAlphaNumeric s
      else CHR ''-'' # replaceNonAlphaNumeric (dropWhile (\<lambda>x. \<not> alphaNumeric x) s))"

definition trimLeft :: "char \<Rightarrow> string \<Rightarrow> string" where
  "trimLeft c s = dropWhile (\<lambda>x. x = c) s"

definition trimRight :: "char \<Rightarrow> string \<Rightarrow> string" where
  "trimRight c s = rev (dropWhile (\<lambda>x. x = c) (rev s))"

definition sanitizeName :: "string \<Rightarrow> string" where
  "sanitizeName input =
     (let name = trimRight CHR ''-'' (trimLeft CHR ''-'' (replaceNonAlphaNumeric (lowerName input)))
      in if length name > 63 then trimRight CHR ''-'' (take 63 name) else name)"

text \<open>\<open>hash/fnv.New32a\<close>, and \<open>%x\<close> of an unsigned number.\<close>

definition fnv32a :: "string \<Rightarrow> u32" where
  "fnv32a s = fold (\<lambda>c h. (h XOR of_nat (of_char c)) * 16777619) s 2166136261"

fun hexNat :: "nat \<Rightarrow> string" where
  "hexNat n = (if n < 16 then [hex_digit n] else hexNat (n div 16) @ [hex_digit (n mod 16)])"

declare hexNat.simps [simp del]

definition sanitizeWithHash :: "string \<Rightarrow> string" where
  "sanitizeWithHash input =
     (let clean = sanitizeName input in
      if length clean < 57 then clean
      else take 57 clean @ ''-'' @ hexNat (unat (fnv32a input)))"

definition componentVersionName :: "string \<Rightarrow> string \<Rightarrow> string" where
  "componentVersionName component version = sanitizeName (component @ ''-'' @ version)"

definition sanitizeDigestLabel :: "string \<Rightarrow> string" where
  "sanitizeDigestLabel digest =
     (if digest = '''' then ''''
      else let rest = (if CHR '':'' \<in> set digest then tl (dropWhile (\<lambda>c. c \<noteq> CHR '':'') digest) else digest)
           in if length rest > 63 then take 63 rest else rest)"

section \<open>Splitting repository names\<close>

lemma containsStr_iff [go_strings]: "containsStr s p \<longleftrightarrow> (\<exists>a b. s = a @ p @ b)"
proof (induction s)
  case (Cons c s)
  have "(\<exists>a b. c # s = a @ p @ b) \<longleftrightarrow> (\<exists>b. c # s = p @ b) \<or> (\<exists>a b. s = a @ p @ b)"
    by (metis append_Cons append_Nil list.exhaust list.inject)
  then show ?case using Cons by (simp add: hasPrefix_iff)
qed auto

lemma splitStr_nonempty [simp]: "splitStr sep s \<noteq> []"
  by (cases s) (auto split: list.splits)

lemma splitStr_none [simp]: "\<not> containsStr s sep \<Longrightarrow> splitStr sep s = [s]"
  by (induction s) auto

lemma splitStr_one: "splitStr sep s = [x] \<Longrightarrow> sep \<noteq> [] \<Longrightarrow> \<not> containsStr s sep"
  by (induction sep s arbitrary: x rule: splitStr.induct) (auto split: list.splits if_splits)

lemma splitStr_single: "sep \<noteq> [] \<Longrightarrow> splitStr sep s = [x] \<longleftrightarrow> x = s \<and> \<not> containsStr s sep"
  using splitStr_one [of sep s x] by auto

text \<open>A prefix up to the last character of a separator decides whether it starts further left.\<close>

lemma hasPrefix_butlast:
  assumes "sep \<noteq> []"
  shows "hasPrefix (c # a @ sep @ b) sep \<longleftrightarrow> hasPrefix (c # a @ butlast sep) sep"
proof -
  obtain xs x where sep: "sep = xs @ [x]" using assms by (metis rev_exhaust)
  then have "c # a @ sep @ b = (c # a @ xs) @ (x # b)" by simp
  moreover have "take (length sep) ((c # a @ xs) @ (x # b)) = take (length sep) (c # a @ xs)"
    unfolding take_append using sep by simp
  ultimately show ?thesis using sep by (simp only: hasPrefix_def butlast_snoc)
qed

lemma notin_butlast: "sep \<noteq> [] \<Longrightarrow> \<not> containsStr (butlast sep) sep"
proof
  assume "sep \<noteq> []" "containsStr (butlast sep) sep"
  then obtain a b where "butlast sep = a @ sep @ b" by (auto simp: containsStr_iff)
  then have "length (butlast sep) \<ge> length sep" by simp
  with \<open>sep \<noteq> []\<close> show False by (cases "length sep") auto
qed

lemma splitStr_first:
  assumes "sep \<noteq> []" and "\<not> containsStr (a @ butlast sep) sep"
  shows "splitStr sep (a @ sep @ b) = a # splitStr sep b"
  using assms(2)
proof (induction a)
  case Nil
  obtain x xs where "sep = x # xs" using assms(1) by (cases sep) auto
  then show ?case by (simp add: hasPrefix_def)
next
  case (Cons c a)
  then have "\<not> hasPrefix (c # a @ sep @ b) sep"
    unfolding hasPrefix_butlast [OF assms(1)] by simp
  then show ?case using Cons by simp
qed

lemma splitStr_ConsD:
  assumes "splitStr sep s = a # ps" "ps \<noteq> []" "sep \<noteq> []"
  shows "\<exists>r. s = a @ sep @ r \<and> splitStr sep r = ps \<and> \<not> containsStr (a @ butlast sep) sep"
  using assms
proof (induction sep s arbitrary: a ps rule: splitStr.induct)
  case (2 sep c s)
  show ?case
  proof (cases "hasPrefix (c # s) sep")
    case True
    then obtain r where r: "c # s = sep @ r" by (auto simp: hasPrefix_iff)
    moreover obtain x xs where "sep = x # xs" using 2(5) by (cases sep) auto
    ultimately have "drop (length sep - 1) s = r" by simp
    with 2(3) True have "a = []" "splitStr sep r = ps" by simp_all
    then show ?thesis using r notin_butlast [OF 2(5)] by simp
  next
    case False
    then obtain p where p: "splitStr sep s = p # ps" "a = c # p"
      using 2(3) by (auto split: list.splits)
    with 2 False obtain r where r: "s = p @ sep @ r" "splitStr sep r = ps" "\<not> containsStr (p @ butlast sep) sep"
      by blast
    with False have "\<not> hasPrefix (c # p @ butlast sep) sep"
      using hasPrefix_butlast [OF 2(5)] by metis
    with r p show ?thesis by auto
  qed
qed simp

lemma splitStr_two:
  assumes "sep \<noteq> []"
  shows "splitStr sep s = [a, b] \<longleftrightarrow> s = a @ sep @ b \<and> \<not> containsStr (a @ butlast sep) sep \<and> \<not> containsStr b sep"
proof
  assume two: "splitStr sep s = [a, b]"
  then obtain r where "s = a @ sep @ r" "splitStr sep r = [b]" "\<not> containsStr (a @ butlast sep) sep"
    using splitStr_ConsD [OF two _ assms] by auto
  then show "s = a @ sep @ b \<and> \<not> containsStr (a @ butlast sep) sep \<and> \<not> containsStr b sep"
    using splitStr_single [OF assms, of r b] by simp
qed (use splitStr_first [OF assms, of a b] in simp)

lemma descriptors_nonempty [simp]: "descriptorsSeparator \<noteq> []" "descriptorsPrefix \<noteq> []"
  by (simp_all add: descriptorsSeparator_def descriptorsPrefix_def)

lemma containsStr_descriptors:
  "containsStr (a @ descriptorsSeparator @ b) descriptorsPrefix" "containsStr (descriptorsPrefix @ b) descriptorsPrefix"
  by (metis append.assoc append_Cons append_Nil containsStr_iff descriptorsSeparator_def)+

text \<open>A repository is read as a component exactly when it is \<open>component-descriptors/\<close> and a component,
  or a base, \<open>/component-descriptors/\<close> and a component, with no further separator in either part;
  base and component are then the ones that the repository is made of, so they can be put together
  again to the repository. Every other name is rejected with \<open>ErrNotComponentDescriptor\<close>.\<close>

theorem splitRepository_exact:
  "splitRepository repo = Inr (base, component) \<longleftrightarrow>
     base = '''' \<and> component \<noteq> '''' \<and> repo = descriptorsPrefix @ component \<and> \<not> containsStr component descriptorsSeparator
   \<or> \<not> hasPrefix repo descriptorsPrefix \<and> repo = base @ descriptorsSeparator @ component \<and>
     \<not> containsStr (base @ butlast descriptorsSeparator) descriptorsSeparator \<and>
     \<not> containsStr component descriptorsSeparator"
proof (cases "hasPrefix repo descriptorsPrefix")
  case True
  then obtain rest where rest: "repo = descriptorsPrefix @ rest" by (auto simp: hasPrefix_iff)
  show ?thesis
  proof (cases "rest = []")
    case True
    have "\<not> containsStr descriptorsPrefix descriptorsSeparator"
      by (simp add: descriptorsPrefix_def descriptorsSeparator_def hasPrefix_def)
    with True rest hasPrefix_append [of descriptorsPrefix "[]"] show ?thesis
      by (simp add: splitRepository_def Let_def trimPrefix_def)
  next
    case False
    with rest containsStr_descriptors show ?thesis
      by (auto simp: splitRepository_def Let_def)
  qed
next
  case False
  have "splitRepository repo = Inr (base, component) \<longleftrightarrow> splitStr descriptorsSeparator repo = [base, component]"
    using False splitStr_two [OF descriptors_nonempty(1), of repo base component] containsStr_descriptors(1)
    by (auto simp: splitRepository_def Let_def split: list.splits)
  with False show ?thesis using splitStr_two [OF descriptors_nonempty(1), of repo base component] by auto
qed

section \<open>Valid names\<close>

text \<open>A name of at most 63 characters, lower-case alphanumeric or a dash, that starts and ends with an
  alphanumeric: a valid resource name and label value.\<close>

definition nameChars :: "string \<Rightarrow> bool" where
  "nameChars s \<longleftrightarrow> list_all (\<lambda>c. alphaNumeric c \<or> c = CHR ''-'') s"

definition validLabelName :: "string \<Rightarrow> bool" where
  "validLabelName s \<longleftrightarrow>
     s \<noteq> '''' \<and> length s \<le> 63 \<and> nameChars s \<and> alphaNumeric (hd s) \<and> alphaNumeric (last s)"

abbreviation singleDashes :: "string \<Rightarrow> bool" where
  "singleDashes \<equiv> successively (\<lambda>a b. alphaNumeric a \<or> alphaNumeric b)"

lemma not_alphaNumeric_dash [simp]: "\<not> alphaNumeric CHR ''-''"
  by code_simp

lemma replace_chars [simp]: "nameChars (replaceNonAlphaNumeric s)"
  by (induction s rule: replaceNonAlphaNumeric.induct) (auto simp: nameChars_def)

lemma replace_hd:
  "s \<noteq> [] \<Longrightarrow> replaceNonAlphaNumeric s \<noteq> [] \<and>
     alphaNumeric (hd (replaceNonAlphaNumeric s)) = alphaNumeric (hd s)"
  by (cases s) auto

lemma replace_single [simp]: "singleDashes (replaceNonAlphaNumeric s)"
proof (induction s rule: replaceNonAlphaNumeric.induct)
  case (2 c s)
  let ?t = "dropWhile (\<lambda>x. \<not> alphaNumeric x) s"
  have "alphaNumeric (hd (replaceNonAlphaNumeric ?t))" if "?t \<noteq> []"
    using replace_hd [OF that] hd_dropWhile [OF that] by simp
  then have "?t = [] \<or> alphaNumeric (hd (replaceNonAlphaNumeric ?t))" by blast
  then show ?case using 2 by (auto simp: successively_Cons simp del: dropWhile_eq_Nil_conv)
qed simp

lemma prefix_trimRight: "prefix (trimRight c s) s"
  by (metis prefixI rev_append rev_rev_ident takeWhile_dropWhile_id trimRight_def)

lemma last_trimRight: "trimRight c s \<noteq> [] \<Longrightarrow> last (trimRight c s) \<noteq> c"
  using hd_dropWhile [of "\<lambda>x. x = c" "rev s"] by (simp add: trimRight_def last_rev)

lemma trimRight_id: "s = [] \<or> last s \<noteq> c \<Longrightarrow> trimRight c s = s"
  by (cases s rule: rev_cases) (auto simp: trimRight_def)

lemma trimLeft_id: "s = [] \<or> hd s \<noteq> c \<Longrightarrow> trimLeft c s = s"
  by (cases s) (auto simp: trimLeft_def)

lemma suffix_trimLeft: "suffix (trimLeft c s) s"
  by (simp add: trimLeft_def suffix_dropWhile)

lemma hd_trimLeft: "trimLeft c s \<noteq> [] \<Longrightarrow> hd (trimLeft c s) \<noteq> c"
  using hd_dropWhile [of "\<lambda>x. x = c" s] by (simp add: trimLeft_def)

lemma nameChars_prefix: "nameChars s \<Longrightarrow> prefix t s \<Longrightarrow> nameChars t"
  and nameChars_suffix: "nameChars s \<Longrightarrow> suffix t s \<Longrightarrow> nameChars t"
  by (auto simp: nameChars_def prefix_def suffix_def)

lemma singleDashes_prefix: "singleDashes s \<Longrightarrow> prefix t s \<Longrightarrow> singleDashes t"
  and singleDashes_suffix: "singleDashes s \<Longrightarrow> suffix t s \<Longrightarrow> singleDashes t"
  by (auto simp: successively_append_iff prefix_def suffix_def)

lemma nameChars_hd: "nameChars s \<Longrightarrow> s \<noteq> [] \<Longrightarrow> hd s \<noteq> CHR ''-'' \<Longrightarrow> alphaNumeric (hd s)"
  and nameChars_last: "nameChars s \<Longrightarrow> s \<noteq> [] \<Longrightarrow> last s \<noteq> CHR ''-'' \<Longrightarrow> alphaNumeric (last s)"
  by (auto simp: nameChars_def list_all_iff)

text \<open>The trimmed name before it is cut to 63 characters.\<close>

definition wholeName :: "string \<Rightarrow> string" where
  "wholeName input = trimRight CHR ''-'' (trimLeft CHR ''-'' (replaceNonAlphaNumeric (lowerName input)))"

lemma sanitizeName_whole:
  "sanitizeName input = (if length (wholeName input) > 63 then trimRight CHR ''-'' (take 63 (wholeName input)) else wholeName input)"
  by (simp add: sanitizeName_def wholeName_def Let_def)

lemma wholeName_part:
  "prefix (wholeName input) (trimLeft CHR ''-'' (replaceNonAlphaNumeric (lowerName input)))"
  by (simp add: wholeName_def prefix_trimRight)

lemma sanitizeName_prefix: "prefix (sanitizeName input) (wholeName input)"
  using prefix_order.trans [OF prefix_trimRight take_is_prefix [of 63 "wholeName input"]]
  by (simp add: sanitizeName_whole)

lemma sanitizeName_part:
  "prefix (sanitizeName input) (trimLeft CHR ''-'' (replaceNonAlphaNumeric (lowerName input)))"
  using sanitizeName_prefix wholeName_part prefix_order.trans by blast

lemma sanitizeName_chars: "nameChars (sanitizeName input)"
  by (meson nameChars_prefix nameChars_suffix replace_chars sanitizeName_part suffix_trimLeft)

lemma sanitizeName_single: "singleDashes (sanitizeName input)"
  by (rule singleDashes_prefix [OF singleDashes_suffix [OF replace_single suffix_trimLeft] sanitizeName_part])

lemma sanitizeName_length: "length (sanitizeName input) \<le> 63"
proof -
  have "length (trimRight c (take 63 s)) \<le> 63" for c s
    using prefix_length_le [OF prefix_trimRight [of c "take 63 s"]] by simp
  then show ?thesis by (simp add: sanitizeName_whole)
qed

lemma sanitizeName_ends:
  assumes "sanitizeName input \<noteq> []"
  shows "hd (sanitizeName input) \<noteq> CHR ''-''" "last (sanitizeName input) \<noteq> CHR ''-''"
proof -
  show "hd (sanitizeName input) \<noteq> CHR ''-''"
    using sanitizeName_part [of input] assms hd_trimLeft by (metis Nil_is_append_conv hd_append2 prefix_def)
  show "last (sanitizeName input) \<noteq> CHR ''-''"
    using assms last_trimRight unfolding sanitizeName_whole by (auto simp: wholeName_def split: if_splits)
qed

lemma sanitizeName_valid: "sanitizeName input \<noteq> [] \<Longrightarrow> validLabelName (sanitizeName input)"
  using sanitizeName_ends [of input] sanitizeName_chars [of input] sanitizeName_length [of input]
  by (simp add: validLabelName_def nameChars_hd nameChars_last)

text \<open>Valid names are left alone.\<close>

lemma alphaNumeric_lower: "alphaNumeric c \<or> c = CHR ''-'' \<Longrightarrow> lowerChar c = c \<and> c \<noteq> CHR 0xE2 \<and> c \<noteq> CHR 0xC4"
  by (auto simp: alphaNumeric_def lowerChar_def Let_def)

lemma lowerName_id: "nameChars s \<Longrightarrow> lowerName s = s"
proof (induction s)
  case (Cons c s)
  then have "lowerChar c = c" "c \<noteq> CHR 0xE2" "c \<noteq> CHR 0xC4" "nameChars s"
    using alphaNumeric_lower [of c] by (simp_all add: nameChars_def)
  with Cons.IH show ?case by (simp add: hasPrefix_def)
qed simp

lemma replace_id: "nameChars s \<Longrightarrow> singleDashes s \<Longrightarrow> replaceNonAlphaNumeric s = s"
proof (induction s rule: replaceNonAlphaNumeric.induct)
  case (2 c s)
  show ?case
  proof (cases "alphaNumeric c")
    case False
    with 2 have "s = [] \<or> alphaNumeric (hd s)" by (auto simp: successively_Cons)
    then have "dropWhile (\<lambda>x. \<not> alphaNumeric x) s = s" by (cases s) auto
    with 2 False show ?thesis by (auto simp: nameChars_def successively_Cons)
  qed (use 2 in \<open>auto simp: nameChars_def successively_Cons\<close>)
qed simp

lemma sanitizeName_id:
  assumes "nameChars s" "singleDashes s" "length s \<le> 63" "s = [] \<or> hd s \<noteq> CHR ''-'' \<and> last s \<noteq> CHR ''-''"
  shows "sanitizeName s = s"
proof -
  have "wholeName s = s"
    using assms unfolding wholeName_def by (auto simp: lowerName_id replace_id trimLeft_id trimRight_id)
  then show ?thesis using assms(3) by (simp add: sanitizeName_whole)
qed

lemma sanitizeName_idem: "sanitizeName (sanitizeName input) = sanitizeName input"
  using sanitizeName_ends [of input]
  by (intro sanitizeName_id) (auto simp: sanitizeName_chars sanitizeName_single sanitizeName_length)

section \<open>Names that collide\<close>

lemma lowerName_dash: "lowerName (a @ CHR ''-'' # b) = lowerName a @ CHR ''-'' # lowerName b"
proof (induction a rule: lowerName.induct)
  case 1
  show ?case by (simp add: hasPrefix_def lowerChar_def Let_def)
next
  case (2 c s)
  have "hasPrefix (c # s @ CHR ''-'' # b) [CHR 0xE2, CHR 0x84, CHR 0xAA] = hasPrefix (c # s) [CHR 0xE2, CHR 0x84, CHR 0xAA]"
    "hasPrefix (c # s @ CHR ''-'' # b) [CHR 0xC4, CHR 0xB0] = hasPrefix (c # s) [CHR 0xC4, CHR 0xB0]"
    by (cases s; cases "tl s"; auto simp: hasPrefix_def)+
  moreover have "length s \<ge> 2" if "hasPrefix (c # s) [CHR 0xE2, CHR 0x84, CHR 0xAA]"
    using that by (cases s; cases "tl s"; auto simp: hasPrefix_def)
  moreover have "length s \<ge> 1" if "hasPrefix (c # s) [CHR 0xC4, CHR 0xB0]"
    using that by (cases s; auto simp: hasPrefix_def)
  ultimately show ?case using 2 by auto
qed

lemma trimRight_Cons: "c \<noteq> x \<or> trimRight c xs \<noteq> [] \<Longrightarrow> trimRight c (x # xs) = x # trimRight c xs"
  by (auto simp: trimRight_def dropWhile_append dropWhile_eq_Nil_conv)

lemma trimRight_append: "trimRight c ys \<noteq> [] \<Longrightarrow> trimRight c (xs @ ys) = xs @ trimRight c ys"
  by (induction xs) (auto simp: trimRight_Cons)

lemma replace_dash:
  "\<exists>r. replaceNonAlphaNumeric (a @ CHR ''-'' # b) = trimRight CHR ''-'' (replaceNonAlphaNumeric a) @ CHR ''-'' # r"
proof (induction a rule: replaceNonAlphaNumeric.induct)
  case 1
  show ?case by (simp add: trimRight_def)
next
  case (2 c s)
  show ?case
  proof (cases "alphaNumeric c")
    case True
    then have "CHR ''-'' \<noteq> c" by auto
    with 2(1) True show ?thesis by (auto simp: trimRight_Cons)
  next
    case False
    let ?t = "dropWhile (\<lambda>x. \<not> alphaNumeric x) s"
    show ?thesis
    proof (cases "?t = []")
      case True
      then have "dropWhile (\<lambda>x. \<not> alphaNumeric x) (s @ CHR ''-'' # b) = dropWhile (\<lambda>x. \<not> alphaNumeric x) b"
        by (simp add: dropWhile_append)
      with False True show ?thesis by (simp add: trimRight_def del: dropWhile_eq_Nil_conv)
    next
      case some: False
      then obtain d t where t: "?t = d # t" "alphaNumeric d"
        by (metis hd_dropWhile list.exhaust_sel)
      then have "CHR ''-'' \<noteq> d" by auto
      have "dropWhile (\<lambda>x. \<not> alphaNumeric x) (s @ CHR ''-'' # b) = ?t @ CHR ''-'' # b"
        using some by (metis dropWhile_append1 dropWhile_eq_Nil_conv)
      moreover have "trimRight CHR ''-'' (replaceNonAlphaNumeric ?t) \<noteq> []"
        using t \<open>CHR ''-'' \<noteq> d\<close> by (simp add: trimRight_Cons)
      ultimately show ?thesis using 2(2) [OF False] False by (auto simp: trimRight_Cons)
    qed
  qed
qed

lemma trimRight_Nil: "trimRight c ys = [] \<Longrightarrow> trimRight c (xs @ ys) = trimRight c xs"
  by (simp add: trimRight_def dropWhile_append)

lemma trim_commute: "trimRight c (trimLeft c s) = trimLeft c (trimRight c s)"
proof (induction s)
  case (Cons x s)
  show ?case
  proof (cases "x = c \<and> trimRight c s = []")
    case True
    then have "trimRight c (x # s) = []" using trimRight_Nil [of c s "[x]"] by (simp add: trimRight_def)
    with Cons True show ?thesis by (simp add: trimLeft_def)
  qed (use Cons in \<open>auto simp: trimRight_Cons trimLeft_def\<close>)
qed (simp add: trimLeft_def trimRight_def)

lemma trimLeft_append: "trimLeft c xs \<noteq> [] \<Longrightarrow> trimLeft c (xs @ ys) = trimLeft c xs @ ys"
  unfolding trimLeft_def by (metis dropWhile_append dropWhile_append1 dropWhile_eq_Nil_conv)

lemma wholeName_dash:
  assumes "wholeName a \<noteq> []"
  shows "\<exists>z. wholeName (a @ CHR ''-'' # b) = wholeName a @ z \<and> (z = [] \<or> hd z = CHR ''-'')"
proof -
  obtain r where r: "replaceNonAlphaNumeric (lowerName (a @ CHR ''-'' # b)) =
      trimRight CHR ''-'' (replaceNonAlphaNumeric (lowerName a)) @ CHR ''-'' # r"
    using replace_dash [of "lowerName a" "lowerName b"] by (auto simp: lowerName_dash)
  have n: "trimLeft CHR ''-'' (trimRight CHR ''-'' (replaceNonAlphaNumeric (lowerName a))) = wholeName a"
    by (simp add: wholeName_def trim_commute)
  have w: "wholeName (a @ CHR ''-'' # b) = trimRight CHR ''-'' (wholeName a @ CHR ''-'' # r)"
    using assms n by (simp add: wholeName_def [of "a @ CHR ''-'' # b"] r trimLeft_append)
  have "trimRight CHR ''-'' (wholeName a) = wholeName a"
    by (rule trimRight_id) (use assms last_trimRight in \<open>auto simp: wholeName_def\<close>)
  moreover have "z = [] \<or> hd z = CHR ''-''" if "z = trimRight CHR ''-'' (CHR ''-'' # r)" for z
    using that prefix_trimRight [of "CHR ''-''" "CHR ''-'' # r"] by (auto simp: prefix_Cons)
  ultimately show ?thesis
    using w by (cases "trimRight CHR ''-'' (CHR ''-'' # r) = []") (auto simp: trimRight_Nil trimRight_append)
qed

lemma sanitizeName_wholeLength: "62 \<le> length (sanitizeName a) \<Longrightarrow> 62 \<le> length (wholeName a)"
  using sanitizeName_prefix prefix_length_le le_trans by blast

text \<open>All versions of a component with a long name share one ComponentVersion name.\<close>

lemma componentVersionName_truncated:
  assumes "62 \<le> length (sanitizeName component)"
  shows "componentVersionName component version = sanitizeName component"
proof -
  let ?n = "wholeName component"
  have n: "62 \<le> length ?n" using sanitizeName_wholeLength [OF assms] .
  then obtain z where z: "wholeName (component @ CHR ''-'' # version) = ?n @ z" "z = [] \<or> hd z = CHR ''-''"
    using wholeName_dash [of component version] by fastforce
  have last: "trimRight CHR ''-'' ?n = ?n"
    by (rule trimRight_id) (use n last_trimRight in \<open>auto simp: wholeName_def\<close>)
  show ?thesis
  proof (cases "length ?n > 62")
    case True
    then have "take 63 (?n @ z) = take 63 ?n" by simp
    with True last show ?thesis unfolding componentVersionName_def
      by (cases z) (auto simp: sanitizeName_whole z(1))
  next
    case False
    then have len: "length ?n = 62" using n by simp
    show ?thesis
    proof (cases "length z \<ge> 2")
      case True
      then obtain z' where "z = CHR ''-'' # z'" using z(2) by (cases z) auto
      then have "trimRight CHR ''-'' (take 63 (?n @ z)) = ?n"
        using len last trimRight_Nil [of "CHR ''-''" "''-''" ?n] by (simp add: trimRight_def)
      with len True show ?thesis by (simp add: componentVersionName_def sanitizeName_whole z(1))
    next
      case False
      have "trimRight CHR ''-'' (?n @ z) = ?n @ z"
        using last_trimRight unfolding z(1) [symmetric] by (intro trimRight_id) (auto simp: wholeName_def)
      moreover have short: "trimRight CHR ''-'' z = []"
        using False z(2) by (cases z; cases "tl z"; auto simp: trimRight_def)
      ultimately have "z = []"
        using trimRight_Nil [of "CHR ''-''" z ?n] short last by simp
      with len show ?thesis by (simp add: componentVersionName_def sanitizeName_whole z(1))
    qed
  qed
qed

section \<open>Hashed names and digest labels\<close>

lemma length_hexNat: "length (hexNat n) \<le> Suc k \<longleftrightarrow> n < 16 ^ Suc k"
proof (induction n arbitrary: k rule: hexNat.induct)
  case (1 n)
  show ?case
  proof (cases "n < 16")
    case True
    then have "n < 16 ^ Suc k" using less_le_trans [of n 16 "16 * 16 ^ k"] by simp
    with True show ?thesis by (simp add: hexNat.simps)
  next
    case False
    show ?thesis
    proof (cases k)
      case 0
      have "hexNat (n div 16) \<noteq> []" by (subst hexNat.simps) simp
      with 0 False show ?thesis by (subst hexNat.simps) simp
    next
      case (Suc j)
      have "n < 16 ^ Suc (Suc j) \<longleftrightarrow> n div 16 < 16 ^ Suc j"
        by (simp add: less_mult_imp_div_less div_less_iff_less_mult mult.commute)
      with Suc False 1 [of j] show ?thesis by (subst hexNat.simps) simp
    qed
  qed
qed

lemma fnv32a_range: "unat (fnv32a s) < 16 ^ Suc 7"
  using unsigned_less [of "fnv32a s", where ?'a = nat] by simp

text \<open>A component name of 57 or more sanitised characters gets a name of up to 66 characters: the
  result of \<open>SanitizeWithHash\<close> fits the 63 characters of a label value exactly when the name is short or
  the 32-bit hash of the full name has at most five hexadecimal digits.\<close>

theorem sanitizeWithHash_fits:
  "(length (sanitizeWithHash input) \<le> 63 \<longleftrightarrow> length (sanitizeName input) < 57 \<or> unat (fnv32a input) < 2 ^ 20) \<and>
   length (sanitizeWithHash input) \<le> 66"
  using length_hexNat [of "unat (fnv32a input)" 4] length_hexNat [of "unat (fnv32a input)" 7] fnv32a_range [of input]
  by (auto simp: sanitizeWithHash_def Let_def)

lemma sanitizeDigestLabel_length: "length (sanitizeDigestLabel digest) \<le> 63"
  by (simp add: sanitizeDigestLabel_def Let_def)

text \<open>Labels of digests of one algorithm tell the digests apart up to their characters after the 63rd.\<close>

lemma sanitizeDigestLabel_algorithm:
  "CHR '':'' \<notin> set alg \<Longrightarrow> sanitizeDigestLabel (alg @ CHR '':'' # hash) = take 63 hash"
  by (simp add: sanitizeDigestLabel_def Let_def dropWhile_append)

text \<open>Such a name is an ordinary one.\<close>

lemma long_component_name: "length (sanitizeWithHash (replicate 57 CHR ''a'')) = 66"
proof -
  let ?f = "\<lambda>c (h :: u32). (h XOR of_nat (of_char c)) * 16777619"
  have "fold ?f ''aaaaaaaa'' 2166136261 = 2904486893"
    "fold ?f ''aaaaaaaa'' 2904486893 = 1434807317"
    "fold ?f ''aaaaaaaa'' 1434807317 = 3519346685"
    "fold ?f ''aaaaaaaa'' 3519346685 = 1297108005"
    "fold ?f ''aaaaaaaa'' 1297108005 = 3951279181"
    "fold ?f ''aaaaaaaa'' 3951279181 = 2656151925"
    "fold ?f ''aaaaaaaa'' 2656151925 = 467530077"
    "fold ?f ''a'' 467530077 = 442679668"
    by simp_all
  note step = this
  have lit: "replicate 57 CHR ''a'' = ''aaaaaaaa'' @ ''aaaaaaaa'' @ ''aaaaaaaa'' @ ''aaaaaaaa'' @ ''aaaaaaaa'' @ ''aaaaaaaa'' @ ''aaaaaaaa'' @ ''a''"
    by (simp add: numeral_eq_Suc)
  have h: "fnv32a (replicate 57 CHR ''a'') = 0x1a62c174"
    unfolding lit fnv32a_def fold_append comp_apply by (simp only: step)
  have "alphaNumeric CHR ''a''" by code_simp
  then have n: "sanitizeName (replicate 57 CHR ''a'') = replicate 57 CHR ''a''"
    by (intro sanitizeName_id) (auto simp: nameChars_def list_all_iff successively_conv_nth)
  have "length (hexNat (unat (fnv32a (replicate 57 CHR ''a'')))) = 8"
    using length_hexNat [of "unat (fnv32a (replicate 57 CHR ''a''))" 7] length_hexNat [of "unat (fnv32a (replicate 57 CHR ''a''))" 6]
    unfolding h by (simp add: le_less)
  then show ?thesis by (simp add: sanitizeWithHash_def n Let_def)
qed

end
