(* ===== verification/Discovery.thy ===== *)
theory Discovery
  imports Kube DiscoveryNames
begin

text \<open>
  The frame of the discovery (\<open>pkg/discovery/events.go\<close>, \<open>runner.go\<close>, \<open>registry.go\<close>,
  \<open>registry_provider.go\<close>): the events that its stages exchange, the bounded channels between them, the
  runner that every stage is, and the registries that it knows with their credentials. A stage is a
  function of an event in the state monad; a stage may also panic, which ends the process.
\<close>

section \<open>Events\<close>

text \<open>\<open>EventType\<close> is a string type with three constants.\<close>

datatype event_type = EventCreated | EventUpdated | EventDeleted | EventUnknown string

record repository_event =
  ev_registry :: string
  ev_repository :: string
  ev_version :: string
  ev_digest :: string
  ev_type :: event_type
  ev_timestamp :: int

record component_version_event =
  ce_source :: repository_event
  ce_namespace :: string
  ce_component :: string
  ce_timestamp :: int

record helm_discovery =
  hd_resourceName :: string
  hd_name :: string
  hd_description :: string
  hd_version :: string
  hd_appVersion :: string
  hd_defaultValues :: string
  hd_schema :: string
  hd_digest :: string
  hd_valuesTemplate :: "string option"

text \<open>What the discovery reads of an OCM component descriptor (\<open>compdesc.ComponentSpec\<close>): its name and its
  resources, each with a type, an access specification and an optional digest.\<close>

record ocm_resource =
  or_name :: string
  or_type :: string
  or_access :: string
  or_digest :: "string option"

record component_descriptor =
  cd_name :: string
  cd_resources :: "ocm_resource list"

record write_event =
  we_source :: component_version_event
  we_helm :: helm_discovery
  we_componentSpec :: component_descriptor
  we_timestamp :: int

record error_event =
  ee_error :: go_error
  ee_timestamp :: int

definition emptyHelmDiscovery :: helm_discovery where
  "emptyHelmDiscovery =
     \<lparr>hd_resourceName = '''', hd_name = '''', hd_description = '''', hd_version = '''', hd_appVersion = '''',
      hd_defaultValues = '''', hd_schema = '''', hd_digest = '''', hd_valuesTemplate = None\<rparr>"

definition emptyDescriptor :: component_descriptor where
  "emptyDescriptor = \<lparr>cd_name = '''', cd_resources = []\<rparr>"

section \<open>Channels and runners\<close>

text \<open>A buffered channel. A sender that does not block drops its event when the buffer is full.\<close>

record 'a channel =
  ch_capacity :: nat
  ch_buffer :: "'a list"

definition hasRoom :: "'a channel \<Rightarrow> bool" where
  "hasRoom ch \<longleftrightarrow> length (ch_buffer ch) < ch_capacity ch"

definition send :: "'a \<Rightarrow> 'a channel \<Rightarrow> 'a channel" where
  "send ev ch = ch\<lparr>ch_buffer := ch_buffer ch @ [ev]\<rparr>"

definition publish :: "'a \<Rightarrow> 'a channel \<Rightarrow> 'a channel" where
  "publish ev ch = (if hasRoom ch then send ev ch else ch)"

text \<open>The result of a stage: a panic, an error, no output (\<open>nil\<close>) or output events.\<close>

datatype 'a run = Panicked | Finished 'a

type_synonym 'a processed = "(go_error + 'a list option) run"

definition processEvent ::
  "('s, go_error + unit) state option \<Rightarrow> ('i \<Rightarrow> ('s, 'o processed) state) \<Rightarrow> 'o channel option \<Rightarrow> 'i \<Rightarrow>
   ('s, 'o channel option run) state" where
  "processEvent rateLimiter process out ev =
     bindM (case rateLimiter of None \<Rightarrow> ret (Inr ()) | Some wait \<Rightarrow> wait) (\<lambda>w. case w of
       Inl _ \<Rightarrow> ret (Finished out)
     | Inr _ \<Rightarrow> bindM (process ev) (\<lambda>r. case r of
         Panicked \<Rightarrow> ret Panicked
       | Finished (Inl _) \<Rightarrow> ret (Finished out)
       | Finished (Inr None) \<Rightarrow> ret (Finished out)
       | Finished (Inr (Some evs)) \<Rightarrow>
           (case out of None \<Rightarrow> ret (Finished None) | Some ch \<Rightarrow> ret (Finished (Some (fold publish evs ch))))))"

text \<open>The backoff of a runner. The defaults are those of the backoff library.\<close>

record backoff_config =
  bo_initialInterval :: int
  bo_maxInterval :: int
  bo_maxElapsedTime :: int

definition withBackoff :: "backoff_config \<Rightarrow> int \<Rightarrow> int \<Rightarrow> int \<Rightarrow> backoff_config" where
  "withBackoff defaults initialInterval maxInterval maxElapsedTime =
     (let i = (if initialInterval \<le> 0 then bo_initialInterval defaults else initialInterval);
          m = (if maxInterval \<le> 0 then bo_maxInterval defaults else maxInterval);
          t = (if maxElapsedTime \<le> 0 then bo_maxElapsedTime defaults else maxElapsedTime)
      in \<lparr>bo_initialInterval = (if i > m then m else i), bo_maxInterval = m, bo_maxElapsedTime = t\<rparr>)"

section \<open>Registries\<close>

record registry_credentials =
  cred_username :: string
  cred_password :: string

record registry_provider =
  rp_registries :: "registry gomap"
  rp_creds :: "registry_credentials gomap"

definition newRegistryProvider :: registry_provider where
  "newRegistryProvider = \<lparr>rp_registries = [], rp_creds = []\<rparr>"

text \<open>\<open>%q\<close> of a name.\<close>

definition doubleQuoted :: "string \<Rightarrow> string" where
  "doubleQuoted s = CHR 0x22 # s @ [CHR 0x22]"

definition missingKey :: "string \<Rightarrow> string \<Rightarrow> string \<Rightarrow> go_error" where
  "missingKey secret name key =
     ErrorText (''secret '' @ doubleQuoted secret @ '' for registry '' @ doubleQuoted name @ '' is missing key '' @ doubleQuoted key)"

definition secretCredentials :: "string \<Rightarrow> string \<Rightarrow> string gomap \<Rightarrow> go_error + registry_credentials" where
  "secretCredentials secret name data =
     (case map_of data ''username'' of
        None \<Rightarrow> Inl (missingKey secret name ''username'')
      | Some username \<Rightarrow> (case map_of data ''password'' of
          None \<Rightarrow> Inl (missingKey secret name ''password'')
        | Some password \<Rightarrow> Inr \<lparr>cred_username = username, cred_password = password\<rparr>))"

fun loadRegistries :: "'s kube \<Rightarrow> string \<Rightarrow> registry list \<Rightarrow> registry_provider \<Rightarrow> ('s, go_error + registry_provider) state" where
  "loadRegistries e ns [] p = ret (Inr p)"
| "loadRegistries e ns (reg # regs) p =
     (let name = om_name (metadata reg); p1 = p\<lparr>rp_registries := gomap_put name reg (rp_registries p)\<rparr> in
      case reg_solarSecretRef (spec reg) of
        None \<Rightarrow> loadRegistries e ns regs p1
      | Some ref \<Rightarrow> bindM (res_get (k_secrets e) \<lparr>nn_namespace = ns, nn_name = ref\<rparr>) (\<lambda>r. case r of
          Inl err \<Rightarrow> ret (Inl (Wrapped (''failed to read secret '' @ doubleQuoted ref @ '' for registry '' @ doubleQuoted name) (Api err)))
        | Inr secret \<Rightarrow> (case secretCredentials ref name (sec_data (spec secret)) of
            Inl err \<Rightarrow> ret (Inl err)
          | Inr creds \<Rightarrow> loadRegistries e ns regs (p1\<lparr>rp_creds := gomap_put name creds (rp_creds p1)\<rparr>))))"

text \<open>The entries are replaced only when everything was read.\<close>

definition loadFromAPI :: "'s kube \<Rightarrow> string \<Rightarrow> registry_provider \<Rightarrow> ('s, registry_provider \<times> go_error option) state" where
  "loadFromAPI e ns p =
     bindM (res_apiList (k_registries e) (inNamespace ns)) (\<lambda>r. case r of
       Inl err \<Rightarrow> ret (p, Some (Wrapped (''failed to list registries in namespace '' @ doubleQuoted ns) (Api err)))
     | Inr items \<Rightarrow> bindM (loadRegistries e ns items newRegistryProvider) (\<lambda>q. case q of
         Inl err \<Rightarrow> ret (p, Some err)
       | Inr loaded \<Rightarrow> ret (loaded, None)))"

definition registerRegistry ::
  "registry \<Rightarrow> registry_credentials option \<Rightarrow> registry_provider \<Rightarrow> registry_provider \<times> go_error option" where
  "registerRegistry reg creds p =
     (let name = om_name (metadata reg) in
      if map_of (rp_registries p) name \<noteq> None
      then (p, Some (ErrorText (''registry with name '' @ doubleQuoted name @ '' is already registered'')))
      else let p1 = p\<lparr>rp_registries := gomap_put name reg (rp_registries p)\<rparr> in
        case creds of
          None \<Rightarrow> (p1, None)
        | Some c \<Rightarrow> (p1\<lparr>rp_creds := gomap_put name c (rp_creds p1)\<rparr>, None))"

definition providerGet :: "registry_provider \<Rightarrow> string \<Rightarrow> registry option" where
  "providerGet p name = map_of (rp_registries p) name"

definition getCredentials :: "registry_provider \<Rightarrow> string \<Rightarrow> registry_credentials option" where
  "getCredentials p name = map_of (rp_creds p) name"

definition getAll :: "registry_provider \<Rightarrow> registry list" where
  "getAll p = map snd (rp_registries p)"

section \<open>Credentials for OCM\<close>

text \<open>\<open>net.SplitHostPort\<close>: the port starts after the last colon, an IPv6 host is in brackets.\<close>

definition addrError :: "string \<Rightarrow> string \<Rightarrow> go_error" where
  "addrError addr why = ErrorText (if addr = '''' then why else ''address '' @ addr @ '': '' @ why)"

definition afterLast :: "char \<Rightarrow> string \<Rightarrow> string" where
  "afterLast c s = rev (takeWhile (\<lambda>x. x \<noteq> c) (rev s))"

definition beforeLast :: "char \<Rightarrow> string \<Rightarrow> string" where
  "beforeLast c s = rev (tl (dropWhile (\<lambda>x. x \<noteq> c) (rev s)))"

definition hostAndPort :: "string \<Rightarrow> string \<Rightarrow> nat \<Rightarrow> nat \<Rightarrow> go_error + string \<times> string" where
  "hostAndPort hostport host j k =
     (if CHR 0x5B \<in> set (drop j hostport) then Inl (addrError hostport (''unexpected '' @ singleQuoted [CHR 0x5B] @ '' in address''))
      else if CHR 0x5D \<in> set (drop k hostport) then Inl (addrError hostport (''unexpected '' @ singleQuoted [CHR 0x5D] @ '' in address''))
      else Inr (host, afterLast CHR '':'' hostport))"

definition splitHostPort :: "string \<Rightarrow> go_error + string \<times> string" where
  "splitHostPort hostport =
     (if CHR '':'' \<notin> set hostport then Inl (addrError hostport ''missing port in address'')
      else let before = beforeLast CHR '':'' hostport in
        if hd hostport = CHR 0x5B then
          (if CHR 0x5D \<notin> set hostport then Inl (addrError hostport (''missing '' @ singleQuoted [CHR 0x5D] @ '' in address''))
           else let upto = takeWhile (\<lambda>c. c \<noteq> CHR 0x5D) hostport; behind = drop (length upto + 1) hostport in
             if behind = '''' then Inl (addrError hostport ''missing port in address'')
             else if length upto + 1 = length before then hostAndPort hostport (tl upto) 1 (length upto + 1)
             else if hd behind = CHR '':'' then Inl (addrError hostport ''too many colons in address'')
             else Inl (addrError hostport ''missing port in address''))
        else if CHR '':'' \<in> set before then Inl (addrError hostport ''too many colons in address'')
        else hostAndPort hostport before 0 0)"

text \<open>An OCM context, by the credentials registered in it for an OCI registry.\<close>

record consumer =
  con_hostname :: string
  con_port :: string
  con_creds :: registry_credentials

type_synonym ocm_context = "consumer option"

definition fromContextWithCreds :: "string \<Rightarrow> registry_credentials \<Rightarrow> go_error + ocm_context" where
  "fromContextWithCreds hostname creds =
     (case splitHostPort hostname of
        Inl err \<Rightarrow> Inl (ErrorText (''failed to split host and port for registry '' @ hostname @ '': '' @ error_text err))
      | Inr (host, port) \<Rightarrow> Inr (Some \<lparr>con_hostname = host, con_port = port, con_creds = creds\<rparr>))"

text \<open>The block that the qualifier and the handler share.\<close>

definition ocmContext :: "registry_provider \<Rightarrow> string \<Rightarrow> registry \<Rightarrow> go_error + ocm_context" where
  "ocmContext p name reg =
     (case getCredentials p name of
        None \<Rightarrow> Inr None
      | Some creds \<Rightarrow> (case fromContextWithCreds (reg_hostname (spec reg)) creds of
          Inl err \<Rightarrow> Inl (Wrapped ''failed to create OCM context with creds'' err)
        | Inr octx \<Rightarrow> Inr octx))"

section \<open>Channels keep their capacity\<close>

definition withinCapacity :: "'a channel \<Rightarrow> bool" where
  "withinCapacity ch \<longleftrightarrow> length (ch_buffer ch) \<le> ch_capacity ch"

lemma publish_capacity [simp]: "ch_capacity (publish ev ch) = ch_capacity ch"
  by (simp add: publish_def send_def)

lemma publish_within: "withinCapacity ch \<Longrightarrow> withinCapacity (publish ev ch)"
  by (simp add: publish_def send_def hasRoom_def withinCapacity_def)

lemma fold_publish_within: "withinCapacity ch \<Longrightarrow> withinCapacity (fold publish evs ch)"
  by (induction evs arbitrary: ch) (auto intro: publish_within)

lemma fold_publish_capacity [simp]: "ch_capacity (fold publish evs ch) = ch_capacity ch"
  by (induction evs arbitrary: ch) auto

text \<open>Publishing appends the events for which there is room, in their order.\<close>

lemma fold_publish_buffer:
  "ch_buffer (fold publish evs ch) = ch_buffer ch @ take (ch_capacity ch - length (ch_buffer ch)) evs"
proof (induction evs arbitrary: ch)
  case (Cons ev evs)
  show ?case
  proof (cases "hasRoom ch")
    case True
    then obtain n where "ch_capacity ch - length (ch_buffer ch) = Suc n"
      "ch_capacity ch - length (ch_buffer ch @ [ev]) = n"
      by (auto simp: hasRoom_def dest!: less_imp_Suc_add)
    with Cons True show ?thesis by (simp add: publish_def send_def)
  qed (use Cons in \<open>simp add: publish_def hasRoom_def\<close>)
qed simp

lemma set_fold_publish: "set (ch_buffer (fold publish evs ch)) \<subseteq> set (ch_buffer ch) \<union> set evs"
  by (auto simp: fold_publish_buffer dest: in_set_takeD)

lemma withBackoff_sane:
  assumes "0 < bo_initialInterval d" "0 < bo_maxInterval d" "0 < bo_maxElapsedTime d"
  shows "0 < bo_initialInterval (withBackoff d i m t) \<and> 0 < bo_maxElapsedTime (withBackoff d i m t) \<and>
    bo_initialInterval (withBackoff d i m t) \<le> bo_maxInterval (withBackoff d i m t)"
  using assms by (simp add: withBackoff_def Let_def)

section \<open>The registries and their credentials\<close>

text \<open>Registries are found under their own names, and credentials belong to registries that name a
  secret.\<close>

definition providerInv :: "registry_provider \<Rightarrow> bool" where
  "providerInv p \<longleftrightarrow>
     (\<forall>name reg. providerGet p name = Some reg \<longrightarrow> om_name (metadata reg) = name) \<and>
     (\<forall>name. getCredentials p name \<noteq> None \<longrightarrow> providerGet p name \<noteq> None)"

lemma providerInv_new: "providerInv newRegistryProvider"
  by (simp add: providerInv_def newRegistryProvider_def providerGet_def getCredentials_def)

lemma providerInv_put:
  "providerInv p \<Longrightarrow> providerInv (p\<lparr>rp_registries := gomap_put (om_name (metadata reg)) reg (rp_registries p)\<rparr>)"
  by (auto simp: providerInv_def providerGet_def getCredentials_def)

lemma providerInv_creds:
  "providerInv p \<Longrightarrow> providerGet p name \<noteq> None \<Longrightarrow> providerInv (p\<lparr>rp_creds := gomap_put name c (rp_creds p)\<rparr>)"
  by (auto simp: providerInv_def providerGet_def getCredentials_def)

lemma providerInv_both:
  assumes "providerInv p"
  shows "providerInv (p\<lparr>rp_registries := gomap_put (om_name (metadata reg)) reg (rp_registries p),
    rp_creds := gomap_put (om_name (metadata reg)) c (rp_creds p)\<rparr>)"
  using providerInv_creds [OF providerInv_put [OF assms, of reg], of "om_name (metadata reg)" c]
  by (simp add: providerGet_def)

lemma providerInv_register: "providerInv p \<Longrightarrow> providerInv (fst (registerRegistry reg creds p))"
  unfolding registerRegistry_def Let_def
  by (auto split: option.splits intro!: providerInv_put providerInv_both)

lemma wp_any: "(\<And>a s'. Q a s') \<Longrightarrow> wp m Q s"
  by (auto simp: wp_def split: prod.splits)

lemma loadRegistries_inv:
  "providerInv p \<Longrightarrow> wp (loadRegistries e ns regs p) (\<lambda>r s. case r of Inl _ \<Rightarrow> True | Inr q \<Rightarrow> providerInv q) s"
proof (induction e ns regs p arbitrary: s rule: loadRegistries.induct)
  case (2 e ns reg regs p)
  show ?case
  proof (cases "reg_solarSecretRef (spec reg)")
    case None
    with 2(1) [OF refl refl None] providerInv_put [OF 2(3)] show ?thesis by (simp add: Let_def)
  next
    case (Some ref)
    have "wp (loadRegistries e ns regs (p\<lparr>rp_registries := gomap_put (om_name (metadata reg)) reg (rp_registries p),
        rp_creds := gomap_put (om_name (metadata reg)) c (rp_creds p)\<rparr>)) (\<lambda>r s. case r of Inl _ \<Rightarrow> True | Inr q \<Rightarrow> providerInv q) s'"
      if "secretCredentials ref (om_name (metadata reg)) (sec_data (spec x)) = Inr c" for x :: secret and c s'
      using 2(2) [OF refl refl Some that] providerInv_both [OF 2(3)] by simp
    with Some show ?thesis
      by (simp add: Let_def) (rule wp_any, auto split: sum.splits)
  qed
qed simp

lemma loadFromAPI_inv:
  assumes "providerInv p"
  shows "wp (loadFromAPI e ns p) (\<lambda>(q, _) _. providerInv q) s"
proof -
  have "wp (bindM (loadRegistries e ns items newRegistryProvider) (\<lambda>q. case q of
      Inl err \<Rightarrow> ret (p, Some err) | Inr loaded \<Rightarrow> ret (loaded, None))) (\<lambda>(q, _) _. providerInv q) s'" for items s'
    unfolding wp_bind
    by (rule wp_mono [OF loadRegistries_inv [OF providerInv_new]]) (use assms in \<open>auto split: sum.splits\<close>)
  then show ?thesis using assms
    unfolding loadFromAPI_def wp_bind [of "res_apiList (k_registries e) (inNamespace ns)"]
    by (intro wp_any [where m = "res_apiList _ _"]) (auto split: sum.splits simp del: wp_bind)
qed

lemma splitHostPort_plain:
  assumes "CHR '':'' \<notin> set host" "CHR '':'' \<notin> set port"
    and "set (host @ port) \<inter> {CHR 0x5B, CHR 0x5D} = {}"
  shows "splitHostPort (host @ CHR '':'' # port) = Inr (host, port)"
proof -
  have "takeWhile (\<lambda>x. x \<noteq> CHR '':'') (rev port @ CHR '':'' # rev host) = rev port"
    "dropWhile (\<lambda>x. x \<noteq> CHR '':'') (rev port @ CHR '':'' # rev host) = CHR '':'' # rev host"
    using assms by (simp_all add: takeWhile_append dropWhile_append)
  moreover have "hd (host @ CHR '':'' # port) \<noteq> CHR 0x5B"
    using assms by (cases host) auto
  ultimately show ?thesis
    using assms by (auto simp: splitHostPort_def beforeLast_def afterLast_def hostAndPort_def)
qed

text \<open>Credentials of a registry without a port in its host name are never usable.\<close>

lemma ocmContext_portless:
  "CHR '':'' \<notin> set (reg_hostname (spec reg)) \<Longrightarrow> getCredentials p name = Some c \<Longrightarrow> \<exists>err. ocmContext p name reg = Inl err"
  by (simp add: ocmContext_def fromContextWithCreds_def splitHostPort_def)

end
