(* ===== verification/DiscoveryWebhook.thy ===== *)
theory DiscoveryWebhook
  imports Discovery
begin

text \<open>
  \<open>pkg/discovery/webhook\<close>: the HTTP side of the discovery. A router dispatches notifications of
  registries to the handler of the registry's flavor (\<open>webhook/zot\<close>, \<open>webhook/generic\<close>), which turns
  them into repository events. The decoders of CloudEvents and JSON are parameters. A handler returns
  the response and the channel of repository events, or does not return because it waits for room in
  the channel. Where a \<open>select\<close> has several ready cases, the argument \<open>pick\<close> is the choice that Go
  leaves open.
\<close>

section \<open>Requests and handlers\<close>

record http_request =
  req_method :: string
  req_path :: string
  req_headers :: "string gomap"
  req_body :: string
  req_done :: bool

type_synonym http_response = "int \<times> string"

type_synonym webhook_handler =
  "bool \<Rightarrow> http_request \<Rightarrow> repository_event channel \<Rightarrow> (http_response \<times> repository_event channel) option"

text \<open>\<open>http.Error\<close>.\<close>

definition httpError :: "string \<Rightarrow> int \<Rightarrow> http_response" where
  "httpError msg code = (code, msg @ [CHR 0x0A])"

record cloud_event =
  cloud_type :: string
  cloud_time :: int
  cloud_data :: string

record zot_event_data =
  zd_name :: string
  zd_reference :: string
  zd_digest :: string
  zd_manifest :: string
  zd_mediaType :: string

record envelope =
  env_id :: string
  env_timestamp :: int
  env_type :: string
  env_data :: string

record generic_data =
  gd_repository :: string
  gd_version :: "string option"

record codecs =
  parseCloudEvent :: "http_request \<Rightarrow> go_error + cloud_event"
  parseZotData :: "string \<Rightarrow> go_error + zot_event_data"
  parseEnvelope :: "string \<Rightarrow> go_error + envelope"
  parseGenericData :: "string \<Rightarrow> go_error + generic_data"

section \<open>Zot\<close>

definition isDigestReference :: "string \<Rightarrow> bool" where
  "isDigestReference ref = containsStr ref '':''"

definition zotEventType :: "string \<Rightarrow> event_type option" where
  "zotEventType t =
     (if t = ''zotregistry.repository.created'' then Some EventCreated
      else if t = ''zotregistry.image.updated'' then Some EventUpdated
      else if t = ''zotregistry.image.deleted'' then Some EventDeleted
      else None)"

definition zotServeHTTP :: "codecs \<Rightarrow> registry \<Rightarrow> webhook_handler" where
  "zotServeHTTP c reg pick req ch =
     (case parseCloudEvent c req of
        Inl _ \<Rightarrow> Some (httpError ''invalid cloud event'' 400, ch)
      | Inr cloudEvent \<Rightarrow> (case parseZotData c (cloud_data cloudEvent) of
          Inl _ \<Rightarrow> Some (httpError ''invalid data payload'' 400, ch)
        | Inr data \<Rightarrow>
            if zd_name data = '''' \<or> zd_reference data = '''' then Some (httpError ''invalid data payload'' 400, ch)
            else (case zotEventType (cloud_type cloudEvent) of
              None \<Rightarrow> Some ((204, ''''), ch)
            | Some t \<Rightarrow>
                let repoEvent = \<lparr>ev_registry = om_name (metadata reg), ev_repository = zd_name data,
                      ev_version = zd_reference data, ev_digest = zd_digest data, ev_type = t,
                      ev_timestamp = cloud_time cloudEvent\<rparr>
                in if t \<noteq> EventDeleted \<and> isDigestReference (zd_reference data) then Some ((204, ''''), ch)
                   else if hasRoom ch \<and> (req_done req \<longrightarrow> pick) then Some ((202, ''''), send repoEvent ch)
                   else if req_done req then Some (httpError ''timeout'' 503, ch)
                   else Some (httpError ''server busy'' 503, ch))))"

section \<open>Generic\<close>

definition mapEventType :: "string \<Rightarrow> go_error + event_type" where
  "mapEventType event =
     (if event = ''repository.deleted'' then Inr EventDeleted
      else if event = ''image.created'' then Inr EventCreated
      else if event = ''image.updated'' then Inr EventUpdated
      else if event = ''image.deleted'' then Inr EventDeleted
      else Inl (ErrorText (''unknown event type: '' @ event)))"

definition genericServeHTTP :: "codecs \<Rightarrow> registry \<Rightarrow> webhook_handler" where
  "genericServeHTTP c reg pick req ch =
     (case parseEnvelope c (req_body req) of
        Inl err \<Rightarrow> Some (httpError (''failed to parse CloudEvent.Data from request: '' @ error_text err) 400, ch)
      | Inr envelope \<Rightarrow> (case parseGenericData c (env_data envelope) of
          Inl _ \<Rightarrow> Some (httpError ''failed to parse .data from request'' 400, ch)
        | Inr data \<Rightarrow>
            let version = (case gd_version data of None \<Rightarrow> '''' | Some v \<Rightarrow> v) in
            (case mapEventType (env_type envelope) of
              Inl err \<Rightarrow> Some (httpError (''failed to map event type: '' @ error_text err) 400, ch)
            | Inr mappedEvent \<Rightarrow>
                let repoEvent = \<lparr>ev_registry = om_name (metadata reg), ev_repository = gd_repository data,
                      ev_version = version, ev_digest = '''', ev_type = mappedEvent,
                      ev_timestamp = env_timestamp envelope\<rparr>
                in if hasRoom ch then Some ((204, ''''), send repoEvent ch) else None)))"

section \<open>Flavors and routes\<close>

type_synonym init_handler = "registry \<Rightarrow> webhook_handler"

definition registerHandler :: "string \<Rightarrow> init_handler option \<Rightarrow> init_handler gomap \<Rightarrow> init_handler gomap run" where
  "registerHandler name fn registered =
     (case fn of
        None \<Rightarrow> Panicked
      | Some f \<Rightarrow> if map_of registered name \<noteq> None then Panicked else Finished (gomap_put name f registered))"

definition unregisterHandler :: "string \<Rightarrow> init_handler gomap \<Rightarrow> init_handler gomap \<times> go_error option" where
  "unregisterHandler name registered =
     (if map_of registered name = None
      then (registered, Some (ErrorText (''handler '' @ doubleQuoted name @ '' not registered'')))
      else (filter (\<lambda>(k, _). k \<noteq> name) registered, None))"

definition unregisterAllHandlers :: "init_handler gomap" where
  "unregisterAllHandlers = []"

text \<open>The flavors that \<open>cmd/solar-discovery\<close> links in, by the \<open>init\<close> function of the package.\<close>

definition linkedHandlers :: "codecs \<Rightarrow> init_handler gomap run" where
  "linkedHandlers c = registerHandler ''zot'' (Some (zotServeHTTP c)) []"

record webhook_router =
  wr_paths :: "webhook_handler gomap"

definition newWebhookRouter :: webhook_router where
  "newWebhookRouter = \<lparr>wr_paths = []\<rparr>"

definition registerPath :: "init_handler gomap \<Rightarrow> registry \<Rightarrow> webhook_router \<Rightarrow> webhook_router \<times> go_error option" where
  "registerPath registered reg r =
     (case map_of registered (reg_flavor (spec reg)) of
        None \<Rightarrow> (r, Some (ErrorText (''unknown flavor '' @ singleQuoted (reg_flavor (spec reg)))))
      | Some initFn \<Rightarrow>
          if map_of (wr_paths r) (reg_webhookPath (spec reg)) \<noteq> None
          then (r, Some (ErrorText (''webhook handler for path '' @ reg_webhookPath (spec reg) @ '' already exists'')))
          else (r\<lparr>wr_paths := gomap_put (reg_webhookPath (spec reg)) (initFn reg) (wr_paths r)\<rparr>, None))"

definition routerServeHTTP :: "webhook_router \<Rightarrow> webhook_handler" where
  "routerServeHTTP r pick req ch =
     (if req_method req \<noteq> ''POST'' then Some ((405, ''''), ch)
      else if \<not> hasPrefix (req_path req) ''/webhook'' then Some ((404, ''''), ch)
      else case map_of (wr_paths r) (trimPrefix (req_path req) ''/webhook/'') of
          Some handler \<Rightarrow> handler pick req ch
        | None \<Rightarrow> Some (httpError ''Not Found'' 404, ch))"

section \<open>What the handlers publish\<close>

lemma send_inject [simp]: "send a ch = send b ch \<longleftrightarrow> a = b"
  by (cases ch) (simp add: send_def)

text \<open>The event that a request of a Zot registry stands for.\<close>

definition zotEvent :: "registry \<Rightarrow> repository_event \<Rightarrow> bool" where
  "zotEvent reg ev \<longleftrightarrow>
     ev_registry ev = om_name (metadata reg) \<and> ev_repository ev \<noteq> '''' \<and> ev_version ev \<noteq> '''' \<and>
     ev_type ev \<in> {EventCreated, EventUpdated, EventDeleted} \<and>
     (isDigestReference (ev_version ev) \<longrightarrow> ev_type ev = EventDeleted)"

lemma zotEventType_known: "zotEventType t = Some ty \<Longrightarrow> ty \<in> {EventCreated, EventUpdated, EventDeleted}"
  by (auto simp: zotEventType_def split: if_splits)

lemma zot_channel:
  "\<exists>code body ch'. zotServeHTTP c reg pick req ch = Some ((code, body), ch') \<and>
     (code = 202 \<and> hasRoom ch \<and> (\<exists>ev. zotEvent reg ev \<and> ch' = send ev ch) \<or>
      (code = 204 \<or> code = 400 \<or> code = 503) \<and> ch' = ch)"
  unfolding zotServeHTTP_def httpError_def
  by (auto simp: Let_def zotEvent_def dest: zotEventType_known split: sum.splits option.splits)

text \<open>The Zot webhook never blocks, and its status tells the registry what happened: 202 means that
  exactly one event of this registry was queued, with a tag and not a digest unless it is a deletion;
  503 that nothing was queued because the queue is full or the request was cancelled; 204 that the
  well-formed request is of an unknown type, or a push by digest, and was ignored; 400 that the request
  is not a cloud event, has no Zot data, or names no repository or no reference.\<close>

theorem zot_status_exact:
  "\<exists>code body ch'. zotServeHTTP c reg pick req ch = Some ((code, body), ch') \<and>
     (code = 202 \<and> hasRoom ch \<and> (\<exists>ev. zotEvent reg ev \<and> ch' = send ev ch) \<or>
      code = 503 \<and> ch' = ch \<and> (ch_capacity ch \<le> length (ch_buffer ch) \<or> req_done req) \<or>
      code = 204 \<and> ch' = ch \<and> (\<exists>ce d. parseCloudEvent c req = Inr ce \<and> parseZotData c (cloud_data ce) = Inr d \<and>
        (zotEventType (cloud_type ce) = None \<or> zotEventType (cloud_type ce) \<in> {Some EventCreated, Some EventUpdated} \<and> isDigestReference (zd_reference d))) \<or>
      code = 400 \<and> ch' = ch \<and> \<not> (\<exists>ce d. parseCloudEvent c req = Inr ce \<and> parseZotData c (cloud_data ce) = Inr d \<and>
        zd_name d \<noteq> '''' \<and> zd_reference d \<noteq> ''''))"
  unfolding zotServeHTTP_def httpError_def
  by (auto simp: Let_def zotEvent_def hasRoom_def dest: zotEventType_known split: sum.splits option.splits)

lemma generic_status:
  "genericServeHTTP c reg pick req ch = Some ((code, body), ch') \<Longrightarrow>
     code = 204 \<and> hasRoom ch \<and> (\<exists>ev. ev_registry ev = om_name (metadata reg) \<and> ev_digest ev = '''' \<and> ch' = send ev ch) \<or>
     code = 400 \<and> ch' = ch"
  unfolding genericServeHTTP_def httpError_def
  by (auto simp: Let_def split: sum.splits option.splits if_splits)

lemma linkedHandlers_zot: "linkedHandlers c = Finished [(''zot'', zotServeHTTP c)]"
  by (simp add: linkedHandlers_def registerHandler_def)

text \<open>A registered path is served by the handler of its registry, and registering does not disturb the
  other paths.\<close>

lemma registerPath_routes:
  assumes "registerPath registered reg r = (r', None)"
  shows "\<exists>initFn. map_of registered (reg_flavor (spec reg)) = Some initFn \<and>
    map_of (wr_paths r') = (map_of (wr_paths r))(reg_webhookPath (spec reg) \<mapsto> initFn reg) \<and>
    map_of (wr_paths r) (reg_webhookPath (spec reg)) = None"
  using assms by (auto simp: registerPath_def split: option.splits if_splits)

lemma registerPath_failed: "registerPath registered reg r = (r', Some err) \<Longrightarrow> r' = r"
  by (auto simp: registerPath_def split: option.splits if_splits)

lemma router_dispatch:
  assumes "map_of (wr_paths r) path = Some h" "req_method req = ''POST''" "req_path req = ''/webhook/'' @ path"
  shows "routerServeHTTP r pick req ch = h pick req ch"
proof -
  have "hasPrefix (''/webhook/'' @ path) ''/webhook''" by (simp add: hasPrefix_def)
  with assms show ?thesis unfolding routerServeHTTP_def by (simp del: append.simps)
qed

text \<open>The router queues only what a handler queues.\<close>

lemma router_sources:
  assumes "routerServeHTTP r pick req ch = Some (resp, ch')" "ch' \<noteq> ch"
  shows "\<exists>path h. map_of (wr_paths r) path = Some h \<and> h pick req ch = Some (resp, ch')"
  using assms by (auto simp: routerServeHTTP_def split: if_splits option.splits)

end
