(* ===== verification/DiscoveryStages.thy ===== *)
theory DiscoveryStages
  imports Discovery
begin

text \<open>
  The stages of the discovery before the API writer: the registry scanner
  (\<open>pkg/discovery/scanner\<close>), the qualifier (\<open>pkg/discovery/qualifier\<close>) that finds the versions of a
  component, the filter (\<open>pkg/discovery/handler/filter.go\<close>) that drops known versions, and the handler
  (\<open>pkg/discovery/handler\<close>) that reads the component descriptor and its helm chart. The OCM, ORAS and
  Helm libraries are the operations of the record \<open>ocm_lib\<close>; an OCM object is named by the
  arguments with which it was opened.
\<close>

section \<open>The libraries\<close>

record version_access =
  va_descriptor :: component_descriptor
  va_resources :: "ocm_resource list"

record helm_chart =
  hc_name :: string
  hc_metadata :: "string gomap"
  hc_values :: string
  hc_schema :: string

datatype template_error = TemplateNotFound | TemplateError go_error

text \<open>An error that ends the retries (\<open>backoff.Permanent\<close>) or not.\<close>

datatype retry_error = Transient go_error | Permanent go_error

record 's ocm_lib =
  oras_newRegistry :: "string \<Rightarrow> go_error option"
  oras_repositories :: "string \<Rightarrow> bool \<Rightarrow> registry_credentials option \<Rightarrow> ('s, string list list \<times> go_error option) state"
  ocm_repositoryForSpec :: "ocm_context \<Rightarrow> string \<Rightarrow> ('s, go_error + unit) state"
  ocm_lookupComponent :: "ocm_context \<Rightarrow> string \<Rightarrow> string \<Rightarrow> ('s, go_error + unit) state"
  ocm_listVersions :: "ocm_context \<Rightarrow> string \<Rightarrow> string \<Rightarrow> ('s, go_error + string list) state"
  ocm_lookupComponentVersion :: "ocm_context \<Rightarrow> string \<Rightarrow> string \<Rightarrow> string \<Rightarrow> ('s, go_error + version_access) state"
  ocm_retryLookup :: "backoff_config \<Rightarrow> ('s, retry_error + version_access) state \<Rightarrow> ('s, go_error + version_access) state"
  helm_download :: "ocm_context \<Rightarrow> ocm_resource \<Rightarrow> ('s, go_error + string) state"
  helm_open :: "string \<Rightarrow> ('s, go_error + string) state"
  helm_loadArchive :: "string \<Rightarrow> go_error + string"
  helm_accessor :: "string \<Rightarrow> go_error + helm_chart"
  helm_getValuesTemplate :: "version_access \<Rightarrow> string \<Rightarrow> ('s, template_error + string) state"
  helm_getRenderingInput :: "version_access \<Rightarrow> ('s, go_error + string) state"
  helm_render :: "string \<Rightarrow> string \<Rightarrow> go_error + string"

section \<open>Scanner\<close>

definition processRepository ::
  "'s kube \<Rightarrow> registry \<Rightarrow> repository_event channel \<Rightarrow> string \<Rightarrow> ('s, repository_event channel \<times> go_error option) state" where
  "processRepository e reg ch repoName =
     (case splitRepository repoName of
        Inl err \<Rightarrow> ret (ch, Some err)
      | Inr _ \<Rightarrow> bindM (k_now e) (\<lambda>t.
          ret (publish \<lparr>ev_registry = om_name (metadata reg), ev_repository = repoName, ev_version = '''',
                        ev_digest = '''', ev_type = EventCreated, ev_timestamp = t\<rparr> ch, None)))"

text \<open>Errors of single repositories are logged and the scan goes on.\<close>

fun scanRepositories ::
  "'s kube \<Rightarrow> registry \<Rightarrow> string list \<Rightarrow> repository_event channel \<Rightarrow> ('s, repository_event channel) state" where
  "scanRepositories e reg [] ch = ret ch"
| "scanRepositories e reg (repo # repos) ch =
     bindM (processRepository e reg ch repo) (\<lambda>(ch', _). scanRepositories e reg repos ch')"

definition createRegistryClient :: "'s ocm_lib \<Rightarrow> registry \<Rightarrow> go_error option" where
  "createRegistryClient lib reg =
     (case oras_newRegistry lib (reg_hostname (spec reg)) of
        None \<Rightarrow> None
      | Some err \<Rightarrow> Some (Wrapped ''failed to create registry'' err))"

text \<open>A scan that runs while another one holds the mutex does nothing.\<close>

definition scan ::
  "'s kube \<Rightarrow> 's ocm_lib \<Rightarrow> registry \<Rightarrow> registry_credentials option \<Rightarrow> bool \<Rightarrow> repository_event channel \<Rightarrow>
   ('s, repository_event channel) state" where
  "scan e lib reg creds locked ch =
     (if locked then ret ch
      else case createRegistryClient lib reg of
          Some _ \<Rightarrow> ret ch
        | None \<Rightarrow> bindM (oras_repositories lib (reg_hostname (spec reg)) (reg_plainHTTP (spec reg)) creds)
            (\<lambda>(pages, _). scanRepositories e reg (concat pages) ch))"

section \<open>Qualifier\<close>

definition baseURL :: "registry \<Rightarrow> string \<Rightarrow> string" where
  "baseURL reg ns = getURL reg @ ''/'' @ ns"

definition invalidRegistry :: "string \<Rightarrow> go_error" where
  "invalidRegistry name = ErrorText (''invalid registry: '' @ name)"

definition qualifierLookup ::
  "'s ocm_lib \<Rightarrow> ocm_context \<Rightarrow> string \<Rightarrow> string \<Rightarrow> ('s, go_error + string list) state" where
  "qualifierLookup lib octx url component =
     bindM (ocm_repositoryForSpec lib octx url) (\<lambda>r. case r of
       Inl err \<Rightarrow> ret (Inl (Wrapped ''failed to create repository spec'' err))
     | Inr _ \<Rightarrow> bindM (ocm_lookupComponent lib octx url component) (\<lambda>l. case l of
         Inl err \<Rightarrow> ret (Inl (Wrapped ''failed to lookup component'' err))
       | Inr _ \<Rightarrow> bindM (ocm_listVersions lib octx url component) (\<lambda>v. case v of
           Inl err \<Rightarrow> ret (Inl (Wrapped ''failed to list component versions'' err))
         | Inr versions \<Rightarrow> ret (Inr versions))))"

definition qualifierProcess ::
  "'s kube \<Rightarrow> 's ocm_lib \<Rightarrow> registry_provider \<Rightarrow> repository_event \<Rightarrow> ('s, component_version_event processed) state" where
  "qualifierProcess e lib p ev =
     (case splitRepository (ev_repository ev) of
        Inl err \<Rightarrow> ret (Finished (Inl (Wrapped ''invalid repository format'' err)))
      | Inr (ns, component) \<Rightarrow> bindM (k_now e) (\<lambda>t.
          let compVerEvent = \<lparr>ce_source = ev, ce_namespace = ns, ce_component = component, ce_timestamp = t\<rparr> in
          if ev_type ev = EventDeleted then ret (Finished (Inr (Some [compVerEvent])))
          else if ev_version ev \<noteq> '''' then ret (Finished (Inr (Some [compVerEvent])))
          else case providerGet p (ev_registry ev) of
              None \<Rightarrow> ret (Finished (Inl (invalidRegistry (ev_registry ev))))
            | Some reg \<Rightarrow> (case ocmContext p (ev_registry ev) reg of
                Inl err \<Rightarrow> ret (Finished (Inl err))
              | Inr octx \<Rightarrow> bindM (qualifierLookup lib octx (baseURL reg ns) component) (\<lambda>v. case v of
                  Inl err \<Rightarrow> ret (Finished (Inl err))
                | Inr versions \<Rightarrow> ret (Finished (Inr (Some
                    (map (\<lambda>version. compVerEvent\<lparr>ce_source := ev\<lparr>ev_version := version\<rparr>\<rparr>) versions))))))))"

section \<open>Filter\<close>

definition filterProcess ::
  "'s kube \<Rightarrow> string \<Rightarrow> component_version_event \<Rightarrow> ('s, component_version_event processed) state" where
  "filterProcess e ns ev =
     (if ev_type (ce_source ev) \<noteq> EventCreated then ret (Finished (Inr (Some [ev])))
      else bindM (res_get (k_componentversions e)
             \<lparr>nn_namespace = ns, nn_name = componentVersionName (ce_component ev) (ev_version (ce_source ev))\<rparr>) (\<lambda>r. case r of
          Inr _ \<Rightarrow> ret (Finished (Inr None))
        | Inl err \<Rightarrow>
            if isNotFound err then ret (Finished (Inr (Some [ev])))
            else ret (Finished (Inl (Wrapped ''failed to get component version from API'' (Api err))))))"

section \<open>Helm charts\<close>

definition helmResource :: string where
  "helmResource = ''helmChart''"

text \<open>A missing entry and one that is no string give the empty string.\<close>

definition metadataString :: "helm_chart \<Rightarrow> string \<Rightarrow> string" where
  "metadataString ch key = (case map_of (hc_metadata ch) key of None \<Rightarrow> '''' | Some v \<Rightarrow> v)"

definition loadChart :: "'s ocm_lib \<Rightarrow> ocm_context \<Rightarrow> ocm_resource \<Rightarrow> ('s, go_error + helm_chart) state" where
  "loadChart lib octx res =
     bindM (helm_download lib octx res) (\<lambda>d. case d of
       Inl err \<Rightarrow> ret (Inl (Wrapped (''failed to download helm resource '' @ or_name res) err))
     | Inr path \<Rightarrow> bindM (helm_open lib path) (\<lambda>f. case f of
         Inl err \<Rightarrow> ret (Inl err)
       | Inr content \<Rightarrow> (case helm_loadArchive lib content of
           Inl err \<Rightarrow> ret (Inl (Wrapped ''cannot load helm chart'' err))
         | Inr charter \<Rightarrow> (case helm_accessor lib charter of
             Inl err \<Rightarrow> ret (Inl (Wrapped ''cannot create chart accessor'' err))
           | Inr chart \<Rightarrow> ret (Inr chart)))))"

definition valuesTemplate :: "'s ocm_lib \<Rightarrow> version_access \<Rightarrow> string \<Rightarrow> ('s, go_error + string option) state" where
  "valuesTemplate lib va name =
     bindM (helm_getValuesTemplate lib va name) (\<lambda>h. case h of
       Inl TemplateNotFound \<Rightarrow> ret (Inr None)
     | Inl (TemplateError err) \<Rightarrow> ret (Inl (Wrapped ''cannot get helm values template'' err))
     | Inr hvt \<Rightarrow> bindM (helm_getRenderingInput lib va) (\<lambda>i. case i of
         Inl err \<Rightarrow> ret (Inl (Wrapped ''cannot get helm values rendering input'' err))
       | Inr input \<Rightarrow> (case helm_render lib hvt input of
           Inl err \<Rightarrow> ret (Inl (Wrapped ''cannot render helm values'' err))
         | Inr rendered \<Rightarrow> ret (Inr (Some rendered)))))"

text \<open>The digest of a resource is a pointer that is dereferenced without a check.\<close>

definition processHelmResource ::
  "'s ocm_lib \<Rightarrow> ocm_context \<Rightarrow> version_access \<Rightarrow> ocm_resource \<Rightarrow> write_event \<Rightarrow> ('s, (go_error + write_event) run) state" where
  "processHelmResource lib octx va res result =
     bindM (loadChart lib octx res) (\<lambda>c. case c of
       Inl err \<Rightarrow> ret (Finished (Inl err))
     | Inr chart \<Rightarrow> (case or_digest res of
         None \<Rightarrow> ret Panicked
       | Some digest \<Rightarrow> bindM (valuesTemplate lib va (or_name res)) (\<lambda>t. case t of
           Inl err \<Rightarrow> ret (Finished (Inl err))
         | Inr template \<Rightarrow> ret (Finished (Inr (result\<lparr>we_helm :=
             \<lparr>hd_resourceName = or_name res, hd_name = hc_name chart,
              hd_description = metadataString chart ''Description'', hd_version = metadataString chart ''Version'',
              hd_appVersion = metadataString chart ''AppVersion'', hd_defaultValues = hc_values chart,
              hd_schema = hc_schema chart, hd_digest = digest, hd_valuesTemplate = template\<rparr>\<rparr>))))))"

definition helmProcess ::
  "'s kube \<Rightarrow> 's ocm_lib \<Rightarrow> ocm_context \<Rightarrow> component_version_event \<Rightarrow> version_access \<Rightarrow> ('s, (go_error + write_event) run) state" where
  "helmProcess e lib octx ev va =
     bindM (k_now e) (\<lambda>t.
       let result = \<lparr>we_source = ev, we_helm = emptyHelmDiscovery, we_componentSpec = va_descriptor va, we_timestamp = t\<rparr> in
       case find (\<lambda>res. or_type res = helmResource) (va_resources va) of
         None \<Rightarrow> ret (Finished (Inl (ErrorText ''no helm resource found in component'')))
       | Some res \<Rightarrow> processHelmResource lib octx va res result)"

section \<open>Handler\<close>

datatype handler_type = HelmHandler | KroHandler

type_synonym 's component_handler =
  "ocm_context \<Rightarrow> component_version_event \<Rightarrow> version_access \<Rightarrow> ('s, (go_error + write_event) run) state"

definition registerComponentHandler ::
  "handler_type \<Rightarrow> 'h option \<Rightarrow> (handler_type \<times> 'h) list \<Rightarrow> (handler_type \<times> 'h) list run" where
  "registerComponentHandler t fn registered =
     (case fn of
        None \<Rightarrow> Panicked
      | Some f \<Rightarrow> if map_of registered t \<noteq> None then Panicked else Finished ((t, f) # registered))"

text \<open>The handlers that the package registers at start.\<close>

definition handlerRegistry :: "'s kube \<Rightarrow> 's ocm_lib \<Rightarrow> (handler_type \<times> 's component_handler) list" where
  "handlerRegistry e lib =
     (case registerComponentHandler HelmHandler (Some (helmProcess e lib)) [] of Panicked \<Rightarrow> [] | Finished hs \<Rightarrow> hs)"

fun handlerTypeName :: "handler_type \<Rightarrow> string" where
  "handlerTypeName HelmHandler = ''helm''"
| "handlerTypeName KroHandler = ''kro''"

text \<open>A handler is initialised at its first use and kept.\<close>

definition getHandlerForType ::
  "(handler_type \<times> 'h) list \<Rightarrow> (handler_type \<times> 'h) list \<Rightarrow> handler_type \<Rightarrow> (go_error + 'h) \<times> (handler_type \<times> 'h) list" where
  "getHandlerForType registered known t =
     (case map_of known t of
        Some h \<Rightarrow> (Inr h, known)
      | None \<Rightarrow> (case map_of registered t of
          Some h \<Rightarrow> (Inr h, (t, h) # known)
        | None \<Rightarrow> (Inl (ErrorText (''no handler registered for type '' @ handlerTypeName t)), known)))"

definition isRetryable :: "go_error \<Rightarrow> bool" where
  "isRetryable err =
     (let msg = lowerName (error_text err) in
      containsStr msg ''429'' \<or> containsStr msg ''too many requests'' \<or> containsStr msg ''connection refused'')"

definition handlerLookup ::
  "'s ocm_lib \<Rightarrow> backoff_config option \<Rightarrow> ocm_context \<Rightarrow> string \<Rightarrow> string \<Rightarrow> string \<Rightarrow> ('s, go_error + version_access) state" where
  "handlerLookup lib backoff octx url component version =
     (case backoff of
        None \<Rightarrow> ocm_lookupComponentVersion lib octx url component version
      | Some cfg \<Rightarrow> ocm_retryLookup lib cfg
          (bindM (ocm_lookupComponentVersion lib octx url component version) (\<lambda>r. case r of
             Inl err \<Rightarrow> ret (Inl (if isRetryable err then Transient err else Permanent err))
           | Inr va \<Rightarrow> ret (Inr va))))"

definition helmChartCount :: "component_descriptor \<Rightarrow> nat" where
  "helmChartCount d = length (filter (\<lambda>res. or_type res = helmResource) (cd_resources d))"

definition handleVersion ::
  "'s kube \<Rightarrow> 's ocm_lib \<Rightarrow> ocm_context \<Rightarrow> component_version_event \<Rightarrow> version_access \<Rightarrow> ('s, write_event processed) state" where
  "handleVersion e lib octx ev va =
     (if helmChartCount (va_descriptor va) \<noteq> 1
      then ret (Finished (Inl (ErrorText ''no handler found for component version event'')))
      else case fst (getHandlerForType (handlerRegistry e lib) [] HelmHandler) of
          Inl err \<Rightarrow> ret (Finished (Inl (Wrapped (''failed to process component with handler '' @ doubleQuoted ''helm'') err)))
        | Inr h \<Rightarrow> bindM (h octx ev va) (\<lambda>r. case r of
            Panicked \<Rightarrow> ret Panicked
          | Finished (Inl err) \<Rightarrow> ret (Finished (Inl (Wrapped (''failed to process component with handler '' @ doubleQuoted ''helm'') err)))
          | Finished (Inr resEvent) \<Rightarrow> ret (Finished (Inr (Some [resEvent])))))"

definition handlerProcess ::
  "'s kube \<Rightarrow> 's ocm_lib \<Rightarrow> registry_provider \<Rightarrow> backoff_config option \<Rightarrow> component_version_event \<Rightarrow>
   ('s, write_event processed) state" where
  "handlerProcess e lib p backoff ev =
     (if ev_type (ce_source ev) = EventDeleted then
        bindM (k_now e) (\<lambda>t. ret (Finished (Inr (Some
          [\<lparr>we_source = ev, we_helm = emptyHelmDiscovery, we_componentSpec = emptyDescriptor, we_timestamp = t\<rparr>]))))
      else case providerGet p (ev_registry (ce_source ev)) of
          None \<Rightarrow> ret (Finished (Inl (invalidRegistry (ev_registry (ce_source ev)))))
        | Some reg \<Rightarrow> (case ocmContext p (ev_registry (ce_source ev)) reg of
            Inl err \<Rightarrow> ret (Finished (Inl err))
          | Inr octx \<Rightarrow> bindM (ocm_repositoryForSpec lib octx (baseURL reg (ce_namespace ev))) (\<lambda>r. case r of
              Inl err \<Rightarrow> ret (Finished (Inl (Wrapped ''failed to create repository spec'' err)))
            | Inr _ \<Rightarrow> bindM (handlerLookup lib backoff octx (baseURL reg (ce_namespace ev)) (ce_component ev) (ev_version (ce_source ev))) (\<lambda>v. case v of
                Inl err \<Rightarrow> ret (Finished (Inl (Wrapped (''failed to lookup component version '' @ ev_version (ce_source ev)) err)))
              | Inr va \<Rightarrow> handleVersion e lib octx ev va))))"

section \<open>What the stages pass on\<close>

text \<open>The events of a scan: creations without a version or a digest.\<close>

definition scanEvent :: "registry \<Rightarrow> repository_event \<Rightarrow> bool" where
  "scanEvent reg ev \<longleftrightarrow>
     ev_registry ev = om_name (metadata reg) \<and> ev_type ev = EventCreated \<and> ev_version ev = '''' \<and> ev_digest ev = ''''"

definition isComponentRepository :: "string \<Rightarrow> bool" where
  "isComponentRepository repo \<longleftrightarrow> (\<exists>base component. splitRepository repo = Inr (base, component))"

text \<open>\<open>ch'\<close> is \<open>ch\<close> with the events for \<open>repos\<close> for which there is room.\<close>

definition scanned :: "registry \<Rightarrow> string list \<Rightarrow> repository_event channel \<Rightarrow> repository_event channel \<Rightarrow> bool" where
  "scanned reg repos ch ch' \<longleftrightarrow>
     (\<exists>evs. ch_buffer ch' = ch_buffer ch @ evs \<and> ch_capacity ch' = ch_capacity ch \<and> list_all (scanEvent reg) evs \<and>
       map ev_repository evs = take (ch_capacity ch - length (ch_buffer ch)) (filter isComponentRepository repos))"

lemma scanRepositories_wp: "wp (scanRepositories e reg repos ch) (\<lambda>ch' _. scanned reg repos ch ch') s"
proof (induction e reg repos ch arbitrary: s rule: scanRepositories.induct)
  case (2 e reg repo repos ch)
  show ?case
  proof (cases "splitRepository repo")
    case (Inl err)
    then have "\<not> isComponentRepository repo" by (simp add: isComponentRepository_def)
    with 2 Inl show ?thesis by (simp add: processRepository_def scanned_def)
  next
    case (Inr p)
    then have comp: "isComponentRepository repo" by (cases p) (auto simp: isComponentRepository_def)
    let ?ev = "\<lambda>t. \<lparr>ev_registry = om_name (metadata reg), ev_repository = repo, ev_version = '''', ev_digest = '''',
      ev_type = EventCreated, ev_timestamp = t\<rparr>"
    have "scanned reg (repo # repos) ch ch'" if ch': "scanned reg repos (publish (?ev t) ch) ch'" for t ch'
    proof (cases "hasRoom ch")
      case True
      then obtain n where n: "ch_capacity ch - length (ch_buffer ch) = Suc n"
        "ch_capacity ch - Suc (length (ch_buffer ch)) = n"
        by (auto simp: hasRoom_def dest!: less_imp_Suc_add)
      obtain evs where "ch_buffer ch' = ch_buffer ch @ ?ev t # evs" "ch_capacity ch' = ch_capacity ch"
        "list_all (scanEvent reg) evs" "map ev_repository evs = take n (filter isComponentRepository repos)"
        using ch' True n by (auto simp: scanned_def publish_def send_def)
      then show ?thesis unfolding scanned_def using comp n
        by (intro exI [of _ "?ev t # evs"]) (simp add: scanEvent_def)
    qed (use ch' in \<open>simp add: scanned_def publish_def hasRoom_def\<close>)
    then show ?thesis using Inr 2
      by (simp add: processRepository_def) (rule wp_any, rule wp_mono [OF 2], blast)
  qed
qed (simp add: scanned_def)

text \<open>A scan publishes one creation event per component repository of the registry, in the order in which
  the registry lists them, as long as the channel has room, and nothing else.\<close>

lemma scan_wp:
  assumes "\<And>s. wp (oras_repositories lib (reg_hostname (spec reg)) (reg_plainHTTP (spec reg)) creds) (\<lambda>r _. concat (fst r) = repos) s"
  shows "wp (scan e lib reg creds locked ch)
    (\<lambda>ch' _. ch' = ch \<or> \<not> locked \<and> oras_newRegistry lib (reg_hostname (spec reg)) = None \<and> scanned reg repos ch ch') s"
proof -
  have "wp (bindM (oras_repositories lib (reg_hostname (spec reg)) (reg_plainHTTP (spec reg)) creds)
      (\<lambda>(pages, _). scanRepositories e reg (concat pages) ch)) (\<lambda>ch' _. scanned reg repos ch ch') s"
    unfolding wp_bind
    by (rule wp_mono [OF assms]) (auto intro: wp_mono [OF scanRepositories_wp])
  then show ?thesis unfolding scan_def createRegistryClient_def
    by (auto split: option.splits elim: wp_mono)
qed

text \<open>An event that names its component: base and component are those of the repository.\<close>

definition namesComponent :: "component_version_event \<Rightarrow> bool" where
  "namesComponent ev \<longleftrightarrow> splitRepository (ev_repository (ce_source ev)) = Inr (ce_namespace ev, ce_component ev)"

text \<open>Events derived from an event of a registry: only the version may differ.\<close>

definition derivedFrom :: "repository_event \<Rightarrow> repository_event \<Rightarrow> bool" where
  "derivedFrom ev ev' \<longleftrightarrow> ev'\<lparr>ev_version := ev_version ev\<rparr> = ev \<and>
     (ev_type ev = EventDeleted \<or> ev_version ev \<noteq> '''' \<longrightarrow> ev' = ev)"

text \<open>\<open>outputs P m s\<close>: the stage does not panic, and what it passes on satisfies \<open>P\<close>.\<close>

definition outputs :: "('a \<Rightarrow> bool) \<Rightarrow> 'a processed \<Rightarrow> bool" where
  "outputs P r \<longleftrightarrow> (case r of Panicked \<Rightarrow> True | Finished (Inl _) \<Rightarrow> True | Finished (Inr None) \<Rightarrow> True
     | Finished (Inr (Some evs)) \<Rightarrow> list_all P evs)"

lemma outputs_simps [simp]:
  "outputs P Panicked" "outputs P (Finished (Inl err))" "outputs P (Finished (Inr None))"
  "outputs P (Finished (Inr (Some evs))) = list_all P evs"
  by (simp_all add: outputs_def)

lemma qualifier_outputs:
  "wp (qualifierProcess e lib p ev) (\<lambda>r _. r \<noteq> Panicked \<and> outputs (\<lambda>ce. namesComponent ce \<and> derivedFrom ev (ce_source ce)) r) s"
proof (cases "splitRepository (ev_repository ev)")
  case (Inr q)
  then obtain ns component where q: "splitRepository (ev_repository ev) = Inr (ns, component)" by (cases q) auto
  show ?thesis unfolding qualifierProcess_def q sum.case prod.case wp_bind Let_def
    by (rule wp_any) (auto simp: namesComponent_def derivedFrom_def q list_all_iff
        split: option.splits sum.splits intro!: wp_any [where m = "qualifierLookup _ _ _ _"])
qed (simp add: qualifierProcess_def)

lemma filter_outputs: "wp (filterProcess e ns ev) (\<lambda>r _. r \<noteq> Panicked \<and> outputs (\<lambda>ce. ce = ev) r) s"
  unfolding filterProcess_def by (auto intro!: wp_any [where m = "res_get _ _"] split: sum.splits)

lemma getHandlerForType_known:
  assumes "\<And>t h. map_of known t = Some h \<Longrightarrow> map_of registered t = Some h"
  shows "fst (getHandlerForType registered known t) = fst (getHandlerForType registered [] t)"
  using assms by (auto simp: getHandlerForType_def split: option.splits)

lemma handler_helm: "getHandlerForType (handlerRegistry e lib) [] HelmHandler = (Inr (helmProcess e lib), [(HelmHandler, helmProcess e lib)])"
  by (simp add: getHandlerForType_def handlerRegistry_def registerComponentHandler_def)

lemma processHelmResource_outputs:
  "wp (processHelmResource lib octx va res result)
     (\<lambda>r _. case r of Panicked \<Rightarrow> or_digest res = None
        | Finished (Inl _) \<Rightarrow> True
        | Finished (Inr we) \<Rightarrow> we_source we = we_source result \<and> we_componentSpec we = we_componentSpec result \<and>
            hd_resourceName (we_helm we) = or_name res \<and> or_digest res = Some (hd_digest (we_helm we))) s"
  unfolding processHelmResource_def wp_bind
  by (auto intro!: wp_any [where m = "loadChart _ _ _"] wp_any [where m = "valuesTemplate _ _ _"]
      split: sum.splits option.splits)

text \<open>Every event that the handler passes on stands for the event it received; it panics only at a helm
  resource without a digest, and then for certain once the chart is loaded.\<close>

lemma handler_outputs:
  "wp (handlerProcess e lib p backoff ev) (\<lambda>r _. outputs (\<lambda>we. we_source we = ev) r) s"
proof -
  have helm: "wp (helmProcess e lib octx ev va) (\<lambda>r _. case r of Finished (Inr we) \<Rightarrow> we_source we = ev | _ \<Rightarrow> True) s" for octx va s
    unfolding helmProcess_def wp_bind Let_def
    by (rule wp_any) (auto split: option.splits sum.splits run.splits intro!: wp_mono [OF processHelmResource_outputs])
  have version: "wp (handleVersion e lib octx ev va) (\<lambda>r _. outputs (\<lambda>we. we_source we = ev) r) s" for octx va s
    unfolding handleVersion_def handler_helm fst_conv sum.case
    by (auto intro!: wp_mono [OF helm] split: run.splits sum.splits)
  show ?thesis unfolding handlerProcess_def
    by (auto intro!: wp_any [where m = "k_now _"] wp_any [where m = "ocm_repositoryForSpec _ _ _"]
        wp_any [where m = "handlerLookup _ _ _ _ _ _"] version split: option.splits sum.splits)
qed

lemma processHelmResource_panics:
  "run_state (loadChart lib octx res) s = (Inr chart, s') \<Longrightarrow> or_digest res = None \<Longrightarrow>
   run_state (processHelmResource lib octx va res result) s = (Panicked, s')"
  by (simp add: processHelmResource_def)

end
