(* ===== verification/DiscoveryWriter.thy ===== *)
theory DiscoveryWriter
  imports DiscoveryStages Protection
begin

text \<open>
  \<open>pkg/discovery/apiwriter\<close>: the last stage of the discovery writes Components and ComponentVersions, and
  deletes the ComponentVersion of a digest together with a Component that loses its last version. The
  parsers of OCI references and of OCM access specifications, the retry loop and the \<open>Update\<close> calls of
  the client are parameters; an \<open>Update\<close> is given the object whose resource version it carries.
\<close>

section \<open>URLs\<close>

text \<open>\<open>net/url\<close>: \<open>URL.String\<close> of a scheme, a host and a path.\<close>

definition unreservedChar :: "char \<Rightarrow> bool" where
  "unreservedChar c \<longleftrightarrow>
     (let n = of_char c :: nat in 65 \<le> n \<and> n \<le> 90 \<or> 97 \<le> n \<and> n \<le> 122 \<or> 48 \<le> n \<and> n \<le> 57) \<or> c \<in> set ''-_.~''"

definition pathChar :: "char \<Rightarrow> bool" where
  "pathChar c \<longleftrightarrow> unreservedChar c \<or> c \<in> set ''$&+,/:;=@''"

definition hostChar :: "char \<Rightarrow> bool" where
  "hostChar c \<longleftrightarrow> unreservedChar c \<or> c \<in> set ''!$&()*+,;=:[]<>'' \<or> c = CHR 0x22 \<or> c = CHR 0x27"

definition upperHex :: "nat \<Rightarrow> char" where
  "upperHex n = (if n < 10 then char_of (48 + n) else char_of (55 + n))"

definition escapeStr :: "(char \<Rightarrow> bool) \<Rightarrow> string \<Rightarrow> string" where
  "escapeStr ok s =
     concat (map (\<lambda>c. if ok c then [c]
       else let n = of_char c in [CHR ''%'', upperHex (n div 16), upperHex (n mod 16)]) s)"

definition urlString :: "string \<Rightarrow> string \<Rightarrow> string \<Rightarrow> string" where
  "urlString scheme host path =
     (let pre = (if scheme \<noteq> '''' then scheme @ '':'' else '''') @
                (if scheme \<noteq> '''' \<or> host \<noteq> ''''
                 then (if host \<noteq> '''' \<or> path \<noteq> '''' then ''//'' else '''') @ escapeStr hostChar host else '''');
          p = (if path = ''*'' then ''*'' else escapeStr pathChar path);
          buf = pre @ (if p \<noteq> '''' \<and> hd p \<noteq> CHR ''/'' \<and> host \<noteq> '''' then ''/'' else '''')
      in buf @ (if buf = '''' \<and> CHR '':'' \<in> set (takeWhile (\<lambda>c. c \<noteq> CHR ''/'') p) then ''./'' else '''') @ p)"

section \<open>The libraries\<close>

text \<open>\<open>oci.RefSpec\<close>, with the tag or digest that its \<open>Version\<close> method returns.\<close>

record ref_spec =
  rs_scheme :: string
  rs_host :: string
  rs_repository :: string
  rs_version :: string

text \<open>The access specifications that the writer tells apart.\<close>

datatype access_spec = OciArtifact string | RelativeOciRef string | OtherAccess string

record 's writer_lib =
  wl_parseRef :: "string \<Rightarrow> go_error + ref_spec"
  wl_accessSpecForSpec :: "string \<Rightarrow> go_error + access_spec"
  wl_retry :: "backoff_config \<Rightarrow> ('s, go_error + unit) state \<Rightarrow> ('s, go_error + unit) state"
  wl_updateComponent :: "component \<Rightarrow> component \<Rightarrow> ('s, api_error + component) state"
  wl_updateComponentVersion :: "component_version \<Rightarrow> component_version \<Rightarrow> ('s, api_error + component_version) state"

definition componentLabel :: string where
  "componentLabel = ''solar.opendefense.cloud/component''"

definition digestLabel :: string where
  "digestLabel = ''solar.opendefense.cloud/digest''"

section \<open>Writing\<close>

definition getOciRef :: "'s writer_lib \<Rightarrow> registry_provider \<Rightarrow> write_event \<Rightarrow> go_error + ref_spec" where
  "getOciRef w p ev =
     (let source = ce_source (we_source ev) in
      case providerGet p (ev_registry source) of
        None \<Rightarrow> Inl (invalidRegistry (ev_registry source))
      | Some reg \<Rightarrow> wl_parseRef w (getURL reg @ ''/'' @ ce_namespace (we_source ev) @ ''/'' @ ce_component (we_source ev) @
          '':'' @ ev_version source))"

definition newResourceAccess :: "ref_spec \<Rightarrow> resource_access" where
  "newResourceAccess ociref =
     \<lparr>ra_repository = trimPrefix (urlString '''' (rs_host ociref) (rs_repository ociref)) ''//'',
      ra_insecure = (rs_scheme ociref = ''http''), ra_tag = rs_version ociref, ra_helm = None\<rparr>"

text \<open>The block that creates an object, or updates the one that exists.\<close>

definition createOrUpdate ::
  "('s, 'spec, 'status) resource \<Rightarrow>
   (('spec, 'status) object \<Rightarrow> ('spec, 'status) object \<Rightarrow> ('s, api_error + ('spec, 'status) object) state) \<Rightarrow>
   string \<Rightarrow> ('spec, 'status) object \<Rightarrow> ('s, go_error + unit) state" where
  "createOrUpdate R update text new =
     bindM (res_create R new) (\<lambda>r. case r of
       Inr _ \<Rightarrow> ret (Inr ())
     | Inl err \<Rightarrow>
         if isAlreadyExists err then
           bindM (res_get R (objectKey new)) (\<lambda>g. case g of
             Inl getErr \<Rightarrow> ret (Inl (Wrapped text (Api getErr)))
           | Inr existing \<Rightarrow> bindM (update existing new) (\<lambda>u. case u of
               Inl err \<Rightarrow> ret (Inl (Api err))
             | Inr _ \<Rightarrow> ret (Inr ())))
         else ret (Inl (Api err)))"

definition newComponent :: "string \<Rightarrow> ref_spec \<Rightarrow> component_descriptor \<Rightarrow> component" where
  "newComponent ns ref d =
     \<lparr>metadata = newMeta (sanitizeWithHash (cd_name d)) ns,
      spec = \<lparr>comp_scheme = rs_scheme ref, comp_registry = rs_host ref, comp_repository = rs_repository ref\<rparr>, status = ()\<rparr>"

definition ensureComponent ::
  "'s kube \<Rightarrow> 's writer_lib \<Rightarrow> string \<Rightarrow> ref_spec \<Rightarrow> component_descriptor \<Rightarrow> ('s, go_error + unit) state" where
  "ensureComponent e w ns ref d =
     createOrUpdate (k_components e) (wl_updateComponent w) ''failed to get existing component for update'' (newComponent ns ref d)"

fun resourceMap ::
  "'s writer_lib \<Rightarrow> ref_spec \<Rightarrow> ocm_resource list \<Rightarrow> resource_access gomap \<Rightarrow> go_error + resource_access gomap" where
  "resourceMap w ref [] resources = Inr resources"
| "resourceMap w ref (res # rest) resources =
     (case wl_accessSpecForSpec w (or_access res) of
        Inl err \<Rightarrow> Inl (Wrapped (''failed to parse access spec for resource '' @ or_name res) err)
      | Inr (OtherAccess _) \<Rightarrow> resourceMap w ref rest resources
      | Inr acc \<Rightarrow>
          let rawRef = (case acc of
                OciArtifact imageReference \<Rightarrow> imageReference
              | RelativeOciRef reference \<Rightarrow> urlString (rs_scheme ref) (rs_host ref) reference
              | OtherAccess t \<Rightarrow> t)
          in case wl_parseRef w rawRef of
               Inl err \<Rightarrow> Inl (Wrapped (''failed to parse OCI reference '' @ doubleQuoted rawRef) err)
             | Inr ociref \<Rightarrow> resourceMap w ref rest (gomap_put (or_name res) (newResourceAccess ociref) resources))"

definition attachHelm :: "helm_discovery \<Rightarrow> resource_access gomap \<Rightarrow> resource_access gomap" where
  "attachHelm h resources =
     (if hd_resourceName h \<noteq> '''' then
        (case map_of resources (hd_resourceName h) of
           None \<Rightarrow> resources
         | Some ra \<Rightarrow> gomap_put (hd_resourceName h)
             (ra\<lparr>ra_helm := Some \<lparr>helm_name = hd_name h, helm_description = hd_description h, helm_version = hd_version h,
                helm_appVersion = hd_appVersion h, helm_valuesTemplate = hd_valuesTemplate h\<rparr>\<rparr>) resources)
      else resources)"

definition discoveredEntrypoint :: "helm_discovery \<Rightarrow> entrypoint" where
  "discoveredEntrypoint h =
     (if hd_resourceName h \<noteq> '''' then \<lparr>ep_resourceName = hd_resourceName h, ep_type = ''helm''\<rparr>
      else \<lparr>ep_resourceName = '''', ep_type = ''''\<rparr>)"

definition newComponentVersion ::
  "string \<Rightarrow> ref_spec \<Rightarrow> component_descriptor \<Rightarrow> write_event \<Rightarrow> resource_access gomap \<Rightarrow> component_version" where
  "newComponentVersion ns ref d ev resources =
     (let component = sanitizeWithHash (cd_name d) in
      \<lparr>metadata = (newMeta (componentVersionName (cd_name d) (rs_version ref)) ns)
         \<lparr>om_labels := [(componentLabel, component), (digestLabel, sanitizeDigestLabel (ev_digest (ce_source (we_source ev))))]\<rparr>,
       spec = \<lparr>cv_componentRef = component, cv_tag = rs_version ref, cv_resources = resources,
               cv_entrypoint = discoveredEntrypoint (we_helm ev)\<rparr>, status = ()\<rparr>)"

definition ensureComponentVersion ::
  "'s kube \<Rightarrow> 's writer_lib \<Rightarrow> string \<Rightarrow> ref_spec \<Rightarrow> component_descriptor \<Rightarrow> write_event \<Rightarrow> ('s, go_error + unit) state" where
  "ensureComponentVersion e w ns ref d ev =
     andThen (ensureComponent e w ns ref d) (\<lambda>_.
       case resourceMap w ref (cd_resources d) [] of
         Inl err \<Rightarrow> ret (Inl err)
       | Inr accesses \<Rightarrow>
           let resources = attachHelm (we_helm ev) accesses; entry = ep_resourceName (discoveredEntrypoint (we_helm ev)) in
           if entry \<noteq> '''' \<and> map_of resources entry = None
           then ret (Inl (ErrorText (''entrypoint `'' @ entry @ ''` was not provided in resource map'')))
           else createOrUpdate (k_componentversions e) (wl_updateComponentVersion w)
                  ''failed to get existing component version for update'' (newComponentVersion ns ref d ev resources))"

section \<open>Deleting\<close>

definition componentNamed :: "string \<Rightarrow> string \<Rightarrow> component" where
  "componentNamed n ns =
     \<lparr>metadata = newMeta n ns, spec = \<lparr>comp_scheme = '''', comp_registry = '''', comp_repository = ''''\<rparr>, status = ()\<rparr>"

definition ignoreNotFound :: "api_error + unit \<Rightarrow> api_error option" where
  "ignoreNotFound r = (case r of Inl err \<Rightarrow> if isNotFound err then None else Some err | Inr _ \<Rightarrow> None)"

definition labelled :: "string \<Rightarrow> string \<Rightarrow> labels \<Rightarrow> bool" where
  "labelled key v ls \<longleftrightarrow> map_of ls key = Some v"

definition deleteParent :: "'s kube \<Rightarrow> string \<Rightarrow> component_version \<Rightarrow> ('s, go_error + unit) state" where
  "deleteParent e ns cv =
     (let parent = (case map_of (om_labels (metadata cv)) componentLabel of None \<Rightarrow> '''' | Some p \<Rightarrow> p) in
      if parent \<noteq> '''' then
        bindM (res_apiList (k_componentversions e) (inNamespaceLabels ns (labelled componentLabel parent))) (\<lambda>r. case r of
          Inl err \<Rightarrow> ret (Inl (Api err))
        | Inr remaining \<Rightarrow>
            if list_all (\<lambda>r. om_name (metadata r) = om_name (metadata cv) \<or> deleting r) remaining then
              bindM (res_delete (k_components e) (componentNamed parent ns)) (\<lambda>d. case ignoreNotFound d of
                None \<Rightarrow> ret (Inr ()) | Some err \<Rightarrow> ret (Inl (Api err)))
            else ret (Inr ()))
      else ret (Inr ()))"

definition deleteVersion :: "'s kube \<Rightarrow> string \<Rightarrow> component_version \<Rightarrow> ('s, go_error + unit) state" where
  "deleteVersion e ns cv =
     bindM (res_delete (k_componentversions e) cv) (\<lambda>d. case ignoreNotFound d of
       Some err \<Rightarrow> ret (Inl (Wrapped (''failed to delete component version '' @ om_name (metadata cv)) (Api err)))
     | None \<Rightarrow> deleteParent e ns cv)"

definition deleteComponentVersion :: "'s kube \<Rightarrow> string \<Rightarrow> write_event \<Rightarrow> ('s, go_error + unit) state" where
  "deleteComponentVersion e ns ev =
     (let digest = sanitizeDigestLabel (ev_digest (ce_source (we_source ev))) in
      if digest = '''' then ret (Inl (ErrorText ''cannot delete component version: no digest available''))
      else bindM (res_apiList (k_componentversions e) (inNamespaceLabels ns (labelled digestLabel digest))) (\<lambda>r. case r of
          Inl err \<Rightarrow> ret (Inl (Wrapped ''failed to list component versions by digest'' (Api err)))
        | Inr items \<Rightarrow> forEach (deleteVersion e ns) items))"

definition runWrite :: "'s writer_lib \<Rightarrow> backoff_config option \<Rightarrow> ('s, go_error + unit) state \<Rightarrow> ('s, unit processed) state" where
  "runWrite w backoff op =
     bindM (case backoff of None \<Rightarrow> op | Some cfg \<Rightarrow> wl_retry w cfg op) (\<lambda>r. case r of
       Inl err \<Rightarrow> ret (Finished (Inl err))
     | Inr _ \<Rightarrow> ret (Finished (Inr None)))"

definition writerProcess ::
  "'s kube \<Rightarrow> 's writer_lib \<Rightarrow> string \<Rightarrow> registry_provider \<Rightarrow> backoff_config option \<Rightarrow> write_event \<Rightarrow> ('s, unit processed) state" where
  "writerProcess e w ns p backoff ev =
     (case ev_type (ce_source (we_source ev)) of
        EventDeleted \<Rightarrow> runWrite w backoff (deleteComponentVersion e ns ev)
      | EventUnknown t \<Rightarrow> ret (Finished (Inl (ErrorText (''SHOULD NOT HAPPEN: Invalid event type: '' @ t))))
      | _ \<Rightarrow> (case getOciRef w p ev of
          Inl err \<Rightarrow> ret (Finished (Inl err))
        | Inr ref \<Rightarrow> runWrite w backoff (ensureComponentVersion e w ns ref (we_componentSpec ev) ev)))"

section \<open>The contract of \<open>Update\<close>\<close>

text \<open>What the API server stores for an update: the new object, with the identity, the generation and the
  deletion timestamp of the old one. Labels, finalizers and owner references are those of the request.\<close>

definition replaced :: "int \<Rightarrow> ('spec, 'status) object \<Rightarrow> ('spec, 'status) object \<Rightarrow> ('spec, 'status) object" where
  "replaced generation old new =
     new\<lparr>metadata := (metadata new)\<lparr>om_uid := om_uid (metadata old), om_generation := generation,
       om_deletionTimestamp := om_deletionTimestamp (metadata old)\<rparr>\<rparr>"

lemma replaced_simps [simp]:
  "spec (replaced g old new) = spec new" "objectKey (replaced g old new) = objectKey new"
  "om_labels (metadata (replaced g old new)) = om_labels (metadata new)"
  "om_finalizers (metadata (replaced g old new)) = om_finalizers (metadata new)"
  "deleting (replaced g old new) = deleting old"
  by (simp_all add: replaced_def objectKey_def deleting_def)

locale updating = resource_laws R sel upd idx abs
  for R :: "('s, 'spec, 'status) resource" and sel upd idx and abs :: "'s \<Rightarrow> 'c" +
  fixes update :: "('spec, 'status) object \<Rightarrow> ('spec, 'status) object \<Rightarrow> ('s, api_error + ('spec, 'status) object) state"
  assumes update: "wp (update base new) (\<lambda>r s'. case r of
      Inl err \<Rightarrow> abs s' = abs s
    | Inr x \<Rightarrow> (\<exists>old g. sel (abs s) (objectKey new) = Some old \<and> x = replaced g old new \<and>
        abs s' = upd (\<lambda>m. m(objectKey new := settle x)) (abs s))) s"
begin

lemma update_wp:
  "(\<And>err s'. abs s' = abs s \<Longrightarrow> Q (Inl err) s') \<Longrightarrow>
   (\<And>old g s'. sel (abs s) (objectKey new) = Some old \<Longrightarrow>
      abs s' = upd (\<lambda>m. m(objectKey new := settle (replaced g old new))) (abs s) \<Longrightarrow> Q (Inr (replaced g old new)) s') \<Longrightarrow>
   wp (update base new) Q s"
  using update [of base new s] by (rule wp_mono) (auto split: sum.splits)

lemma createOrUpdate_wp:
  assumes "om_name (metadata new) \<noteq> []"
    and "\<And>err s'. abs s' = abs s \<Longrightarrow> Q (Inl err) s'"
    and "\<And>x s'. createdFrom new x \<Longrightarrow> objectKey x = objectKey new \<Longrightarrow> sel (abs s) (objectKey new) = None \<Longrightarrow>
      abs s' = upd (\<lambda>m. m(objectKey new := Some x)) (abs s) \<Longrightarrow> Q (Inr ()) s'"
    and "\<And>old g s'. sel (abs s) (objectKey new) = Some old \<Longrightarrow>
      abs s' = upd (\<lambda>m. m(objectKey new := settle (replaced g old new))) (abs s) \<Longrightarrow> Q (Inr ()) s'"
  shows "wp (createOrUpdate R update text new) Q s"
proof -
  have key: "objectKey x = objectKey new" if "createdFrom new x" for x
    using that assms(1) by (simp add: createdFrom_def objectKey_def)
  have upd: "wp (bindM (update existing new) (\<lambda>u. case u of Inl err \<Rightarrow> ret (Inl (Api err)) | Inr _ \<Rightarrow> ret (Inr ()))) Q s'"
    if "abs s' = abs s" for existing s'
    unfolding wp_bind by (rule update_wp) (use assms that in auto)
  have "wp (bindM (res_get R (objectKey new)) (\<lambda>g. case g of Inl gerr \<Rightarrow> ret (Inl (Wrapped text (Api gerr)))
      | Inr existing \<Rightarrow> bindM (update existing new) (\<lambda>u. case u of Inl err \<Rightarrow> ret (Inl (Api err)) | Inr _ \<Rightarrow> ret (Inr ())))) Q s'"
    if "abs s' = abs s" for s'
    unfolding wp_bind [of "res_get R (objectKey new)"]
    by (rule get_wp) (use assms(2) upd that in \<open>auto simp del: wp_bind\<close>)
  then show ?thesis unfolding createOrUpdate_def wp_bind [of "res_create R new"]
    by (intro create_wp) (use assms key in \<open>auto simp del: wp_bind\<close>)
qed

end

locale writer_laws =
  kube_laws e abs +
  cu: updating "k_components e" cl_components cl_components_update "\<lambda>_ _. []" abs "wl_updateComponent w" +
  vu: updating "k_componentversions e" cl_componentversions cl_componentversions_update index_component_version abs
    "wl_updateComponentVersion w"
  for e :: "'s kube" and w :: "'s writer_lib" and abs :: "'s \<Rightarrow> cluster"

section \<open>What a write stores\<close>

lemma sanitizeName_empty: "sanitizeName s = [] \<longleftrightarrow> wholeName s = []"
proof -
  have "trimRight CHR ''-'' (take 63 (wholeName s)) \<noteq> []" if ne: "wholeName s \<noteq> []"
  proof -
    have "hd (wholeName s) \<noteq> CHR ''-''"
      using ne wholeName_part [of s] hd_trimLeft by (metis Nil_is_append_conv hd_append2 prefix_def)
    then obtain c r where "take 63 (wholeName s) = c # r" "CHR ''-'' \<noteq> c"
      using ne by (cases "wholeName s") auto
    then show ?thesis by (simp add: trimRight_Cons)
  qed
  then show ?thesis by (auto simp: sanitizeName_whole trimRight_def)
qed

lemma componentVersionName_nonempty: "sanitizeName component \<noteq> [] \<Longrightarrow> componentVersionName component version \<noteq> []"
  using wholeName_dash [of component version] by (auto simp: componentVersionName_def sanitizeName_empty)

lemma sanitizeWithHash_nonempty: "sanitizeName input \<noteq> [] \<Longrightarrow> sanitizeWithHash input \<noteq> []"
  by (simp add: sanitizeWithHash_def Let_def)

text \<open>The object that is stored when \<open>new\<close>, which has no finalizers, is written over \<open>old\<close>: an object that is
  being deleted disappears, any other write leaves exactly what \<open>new\<close> asks for.\<close>

definition written :: "('spec, 'status) object \<Rightarrow> ('spec, 'status) object option \<Rightarrow> ('spec, 'status) object option \<Rightarrow> bool" where
  "written new old v \<longleftrightarrow>
     (case v of
        None \<Rightarrow> (\<exists>o'. old = Some o' \<and> deleting o')
      | Some x \<Rightarrow> goneOrDeleting old = (old = None) \<and> \<not> deleting x \<and> spec x = spec new \<and> objectKey x = objectKey new \<and>
          om_labels (metadata x) = om_labels (metadata new) \<and> om_finalizers (metadata x) = [])"

lemma written_created: "createdFrom new x \<Longrightarrow> objectKey x = objectKey new \<Longrightarrow> om_finalizers (metadata new) = [] \<Longrightarrow> written new None (Some x)"
  by (simp add: written_def createdFrom_def)

lemma written_replaced: "om_finalizers (metadata new) = [] \<Longrightarrow> written new (Some old) (settle (replaced g old new))"
  by (auto simp: written_def settle_def goneOrDeleting_def)

context updating begin

lemma createOrUpdate_written:
  assumes "om_name (metadata new) \<noteq> []" "om_finalizers (metadata new) = []"
    and "\<And>err s'. abs s' = abs s \<Longrightarrow> Q (Inl err) s'"
    and "\<And>v s'. written new (sel (abs s) (objectKey new)) v \<Longrightarrow> abs s' = upd (\<lambda>m. m(objectKey new := v)) (abs s) \<Longrightarrow> Q (Inr ()) s'"
  shows "wp (createOrUpdate R update text new) Q s"
proof (rule createOrUpdate_wp)
  fix x s' assume "createdFrom new x" "objectKey x = objectKey new" "sel (abs s) (objectKey new) = None"
    "abs s' = upd (\<lambda>m. m(objectKey new := Some x)) (abs s)"
  then show "Q (Inr ()) s'" using assms(4) [of "Some x"] written_created [OF _ _ assms(2)] by simp
next
  fix old g s' assume "sel (abs s) (objectKey new) = Some old"
    "abs s' = upd (\<lambda>m. m(objectKey new := settle (replaced g old new))) (abs s)"
  then show "Q (Inr ()) s'" using assms(4) [of "settle (replaced g old new)"] written_replaced [OF assms(2)] by simp
qed (use assms(1,3) in auto)

end

lemma newComponent_simps [simp]:
  "om_name (metadata (newComponent ns ref d)) = sanitizeWithHash (cd_name d)"
  "om_namespace (metadata (newComponent ns ref d)) = ns" "om_finalizers (metadata (newComponent ns ref d)) = []"
  "objectKey (newComponent ns ref d) = \<lparr>nn_namespace = ns, nn_name = sanitizeWithHash (cd_name d)\<rparr>"
  by (simp_all add: newComponent_def newMeta_def objectKey_def)

lemma newComponentVersion_simps [simp]:
  "om_name (metadata (newComponentVersion ns ref d ev rs)) = componentVersionName (cd_name d) (rs_version ref)"
  "om_finalizers (metadata (newComponentVersion ns ref d ev rs)) = []"
  "objectKey (newComponentVersion ns ref d ev rs) = \<lparr>nn_namespace = ns, nn_name = componentVersionName (cd_name d) (rs_version ref)\<rparr>"
  by (simp_all add: newComponentVersion_def newMeta_def objectKey_def Let_def)

text \<open>The resources of an event, and when they provide its entrypoint.\<close>

definition eventResources :: "'s writer_lib \<Rightarrow> ref_spec \<Rightarrow> write_event \<Rightarrow> go_error + resource_access gomap" where
  "eventResources w ref ev =
     (case resourceMap w ref (cd_resources (we_componentSpec ev)) [] of
        Inl err \<Rightarrow> Inl err
      | Inr accesses \<Rightarrow> Inr (attachHelm (we_helm ev) accesses))"

definition componentKey :: "string \<Rightarrow> write_event \<Rightarrow> namespaced_name" where
  "componentKey ns ev = \<lparr>nn_namespace = ns, nn_name = sanitizeWithHash (cd_name (we_componentSpec ev))\<rparr>"

definition versionKey :: "string \<Rightarrow> ref_spec \<Rightarrow> write_event \<Rightarrow> namespaced_name" where
  "versionKey ns ref ev = \<lparr>nn_namespace = ns, nn_name = componentVersionName (cd_name (we_componentSpec ev)) (rs_version ref)\<rparr>"

context writer_laws begin

lemma ensureComponent_written:
  assumes "sanitizeName (cd_name d) \<noteq> []"
    and "\<And>err s'. abs s' = abs s \<Longrightarrow> Q (Inl err) s'"
    and "\<And>v s'. written (newComponent ns ref d) (cl_components (abs s) \<lparr>nn_namespace = ns, nn_name = sanitizeWithHash (cd_name d)\<rparr>) v \<Longrightarrow>
      abs s' = cl_components_update (\<lambda>m. m(\<lparr>nn_namespace = ns, nn_name = sanitizeWithHash (cd_name d)\<rparr> := v)) (abs s) \<Longrightarrow> Q (Inr ()) s'"
  shows "wp (ensureComponent e w ns ref d) Q s"
  unfolding ensureComponent_def
  by (rule cu.createOrUpdate_written) (use assms sanitizeWithHash_nonempty in auto)

lemma ensureComponentVersion_written:
  assumes "sanitizeName (cd_name (we_componentSpec ev)) \<noteq> []"
  shows "wp (ensureComponentVersion e w ns ref (we_componentSpec ev) ev) (succeeds (\<lambda>_ s'.
      \<exists>resources c v. eventResources w ref ev = Inr resources \<and>
        (hd_resourceName (we_helm ev) \<noteq> '''' \<longrightarrow> map_of resources (hd_resourceName (we_helm ev)) \<noteq> None) \<and>
        written (newComponent ns ref (we_componentSpec ev)) (cl_components (abs s) (componentKey ns ev)) c \<and>
        written (newComponentVersion ns ref (we_componentSpec ev) ev resources) (cl_componentversions (abs s) (versionKey ns ref ev)) v \<and>
        abs s' = cl_componentversions_update (\<lambda>m. m(versionKey ns ref ev := v))
          (cl_components_update (\<lambda>m. m(componentKey ns ev := c)) (abs s)))) s"
  unfolding ensureComponentVersion_def wp_andThen
proof (rule ensureComponent_written [OF assms], simp_all, goal_cases)
  case (1 c s1)
  show ?case
  proof (cases "resourceMap w ref (cd_resources (we_componentSpec ev)) []")
    case (Inr accesses)
    then have r: "eventResources w ref ev = Inr (attachHelm (we_helm ev) accesses)" by (simp add: eventResources_def)
    have entry: "ep_resourceName (discoveredEntrypoint (we_helm ev)) = hd_resourceName (we_helm ev)"
      by (simp add: discoveredEntrypoint_def)
    show ?thesis unfolding Inr sum.case Let_def entry r
      by (auto intro!: vu.createOrUpdate_written exI [of _ c]
          simp: 1 componentKey_def versionKey_def componentVersionName_nonempty [OF assms])
  qed simp
qed

end

section \<open>What a deletion removes\<close>

text \<open>No active version is left of the component \<open>t\<close>.\<close>

definition noActive :: "namespaced_name \<Rightarrow> cluster \<Rightarrow> bool" where
  "noActive t c \<longleftrightarrow>
     (\<forall>k v. cl_componentversions c k = Some v \<longrightarrow> om_namespace (metadata v) = nn_namespace t \<longrightarrow>
        labelled componentLabel (nn_name t) (om_labels (metadata v)) \<longrightarrow> deleting v)"

definition parentOf :: "component_version \<Rightarrow> string" where
  "parentOf cv = (case map_of (om_labels (metadata cv)) componentLabel of None \<Rightarrow> '''' | Some p \<Rightarrow> p)"

text \<open>One deletion: the version is gone or being deleted, and its Component as well when no active version is
  left.\<close>

definition versionDeleted :: "string \<Rightarrow> component_version \<Rightarrow> cluster \<Rightarrow> cluster \<Rightarrow> bool" where
  "versionDeleted ns cv c c' \<longleftrightarrow>
     (\<exists>v m. (v = cl_componentversions c (objectKey cv) \<and> v = None \<or>
              (\<exists>old t. cl_componentversions c (objectKey cv) = Some old \<and> v = settle (markDeleted t old))) \<and>
       (let c1 = cl_componentversions_update (\<lambda>m. m(objectKey cv := v)) c; parent = \<lparr>nn_namespace = ns, nn_name = parentOf cv\<rparr> in
        c' = cl_components_update (\<lambda>_. m) c1 \<and>
        (m = cl_components c \<and> (parentOf cv = '''' \<or> \<not> noActive parent c1) \<or>
         parentOf cv \<noteq> '''' \<and> noActive parent c1 \<and> (\<exists>b. m = (cl_components c)(parent := b) \<and> goneOrDeleting b))))"

lemma componentNamed_key [simp]: "objectKey (componentNamed n ns) = \<lparr>nn_namespace = ns, nn_name = n\<rparr>"
  by (simp add: componentNamed_def objectKey_def newMeta_def)

lemma components_self [simp]: "cl_components_update (\<lambda>_. cl_components c) c = c"
  by simp

context writer_laws begin

lemma deleteParent_wp:
  assumes "om_namespace (metadata cv) = ns" "goneOrDeleting (cl_componentversions (abs s) (objectKey cv))"
  shows "wp (deleteParent e ns cv) (succeeds (\<lambda>_ s'. \<exists>m. abs s' = cl_components_update (\<lambda>_. m) (abs s) \<and>
      (m = cl_components (abs s) \<and> (parentOf cv = '''' \<or> \<not> noActive \<lparr>nn_namespace = ns, nn_name = parentOf cv\<rparr> (abs s)) \<or>
       parentOf cv \<noteq> '''' \<and> noActive \<lparr>nn_namespace = ns, nn_name = parentOf cv\<rparr> (abs s) \<and>
         (\<exists>b. m = (cl_components (abs s))(\<lparr>nn_namespace = ns, nn_name = parentOf cv\<rparr> := b) \<and> goneOrDeleting b)))) s"
proof (cases "parentOf cv = ''''")
  case False
  let ?t = "\<lparr>nn_namespace = ns, nn_name = parentOf cv\<rparr>"
  have active: "list_all (\<lambda>r. om_name (metadata r) = om_name (metadata cv) \<or> deleting r) xs \<longleftrightarrow> noActive ?t (abs s)"
    if xs: "set xs = {x. cl_componentversions (abs s) (objectKey x) = Some x \<and>
      selected index_component_version (inNamespaceLabels ns (labelled componentLabel (parentOf cv))) x}" for xs
  proof -
    have "deleting r" if "cl_componentversions (abs s) (objectKey r) = Some r" "om_namespace (metadata r) = ns"
      "om_name (metadata r) = om_name (metadata cv)" for r
      using that assms by (simp add: goneOrDeleting_def objectKey_def)
    moreover have "noActive ?t (abs s) \<longleftrightarrow> (\<forall>r. cl_componentversions (abs s) (objectKey r) = Some r \<longrightarrow> om_namespace (metadata r) = ns \<longrightarrow>
        labelled componentLabel (parentOf cv) (om_labels (metadata r)) \<longrightarrow> deleting r)"
      using cv.key unfolding noActive_def by fastforce
    ultimately show ?thesis unfolding list_all_iff xs by auto
  qed
  have "wp (res_delete (k_components e) (componentNamed (parentOf cv) ns)) (\<lambda>d. case ignoreNotFound d of
      None \<Rightarrow> (\<lambda>s'. \<exists>m. abs s' = cl_components_update (\<lambda>_. m) (abs s) \<and> (\<exists>b. m = (cl_components (abs s))(?t := b) \<and> goneOrDeleting b))
    | Some err \<Rightarrow> (\<lambda>_. True)) s1" if s1: "abs s1 = abs s" for s1
  proof (rule comp.delete_wp, goal_cases)
    case (1 err s')
    then show ?case using s1 by (auto simp: ignoreNotFound_def fun_upd_idem intro!: exI [of _ "cl_components (abs s)"] exI [of _ None])
  next
    case (2 old t s')
    then show ?case using s1 by (auto simp: ignoreNotFound_def intro!: exI [of _ "(cl_components (abs s))(?t := settle (markDeleted t old))"] exI [of _ "settle (markDeleted t old)"])
  qed
  note del = this
  show ?thesis unfolding deleteParent_def Let_def parentOf_def [symmetric] wp_bind
    using False
    by (auto simp: wp_bind active intro!: cv.apiList_wp wp_mono [OF del] split: option.splits)
next
  case True
  then show ?thesis unfolding deleteParent_def parentOf_def [symmetric] Let_def
    by (auto intro!: exI [of _ "cl_components (abs s)"])
qed

lemma deleteVersion_wp:
  assumes "om_namespace (metadata cv) = ns"
  shows "wp (deleteVersion e ns cv) (succeeds (\<lambda>_ s'. versionDeleted ns cv (abs s) (abs s'))) s"
proof -
  have parent: "wp (deleteParent e ns cv) (succeeds (\<lambda>_ s'. versionDeleted ns cv (abs s) (abs s'))) s1"
    if "v = cl_componentversions (abs s) (objectKey cv) \<and> v = None \<or>
        (\<exists>old t. cl_componentversions (abs s) (objectKey cv) = Some old \<and> v = settle (markDeleted t old))"
      "abs s1 = cl_componentversions_update (\<lambda>m. m(objectKey cv := v)) (abs s)" for v s1
  proof (rule wp_mono [OF deleteParent_wp [OF assms]])
    show "goneOrDeleting (cl_componentversions (abs s1) (objectKey cv))" using that by auto
  qed (use that in \<open>auto simp: succeeds_def versionDeleted_def Let_def split: sum.splits\<close>)
  show ?thesis unfolding deleteVersion_def wp_bind
  proof (rule cv.delete_wp, goal_cases)
    case (1 err s')
    then show ?case using parent [of None s'] by (auto simp: ignoreNotFound_def fun_upd_idem)
  next
    case (2 old t s')
    then show ?case using parent [of "settle (markDeleted t old)" s'] by (auto simp: ignoreNotFound_def)
  qed
qed

end

text \<open>The state while the versions of one digest are deleted: \<open>done\<close> are those already dealt with.\<close>

definition deletedSoFar :: "string \<Rightarrow> cluster \<Rightarrow> component_version list \<Rightarrow> cluster \<Rightarrow> bool" where
  "deletedSoFar ns c0 ys c \<longleftrightarrow>
     c = cl_componentversions_update (\<lambda>_. cl_componentversions c) (cl_components_update (\<lambda>_. cl_components c) c0) \<and>
     (\<forall>k. cl_componentversions c k = cl_componentversions c0 k \<or>
        k \<in> objectKey ` set ys \<and> (\<exists>x. cl_componentversions c0 k = Some x \<and>
          (cl_componentversions c k = None \<or> (\<exists>t. cl_componentversions c k = Some (markDeleted t x))))) \<and>
     (\<forall>y \<in> set ys. goneOrDeleting (cl_componentversions c (objectKey y))) \<and>
     (\<forall>t. cl_components c t = cl_components c0 t \<or>
        nn_namespace t = ns \<and> nn_name t \<noteq> '''' \<and> (\<exists>y \<in> set ys. parentOf y = nn_name t) \<and> noActive t c \<and> goneOrDeleting (cl_components c t)) \<and>
     (\<forall>y \<in> set ys. parentOf y \<noteq> '''' \<longrightarrow> noActive \<lparr>nn_namespace = ns, nn_name = parentOf y\<rparr> c \<longrightarrow>
        goneOrDeleting (cl_components c \<lparr>nn_namespace = ns, nn_name = parentOf y\<rparr>))"

lemma markDeleted_labels [simp]:
  "om_labels (metadata (markDeleted t x)) = om_labels (metadata x)"
  "om_namespace (metadata (markDeleted t x)) = om_namespace (metadata x)"
  "markDeleted t (markDeleted u x) = markDeleted u x"
  by (auto simp: markDeleted_def deleting_def)

lemma settle_cases: "settle x = None \<or> settle x = Some x"
  by (simp add: settle_def)

lemma labelled_parentOf: "p \<noteq> '''' \<Longrightarrow> labelled componentLabel p (om_labels (metadata y)) \<longleftrightarrow> parentOf y = p"
  by (auto simp: labelled_def parentOf_def split: option.splits)

lemma noActive_components [simp]: "noActive t (cl_components_update f c) = noActive t c"
  by (simp add: noActive_def)

lemma deletedSoFar_step:
  assumes "deletedSoFar ns c0 ys c" "versionDeleted ns y c c'" "cl_componentversions c0 (objectKey y) = Some y"
  shows "deletedSoFar ns c0 (ys @ [y]) c'"
proof -
  let ?k = "objectKey y"
  obtain v m where v: "v = cl_componentversions c ?k \<and> v = None \<or>
        (\<exists>old t. cl_componentversions c ?k = Some old \<and> v = settle (markDeleted t old))"
    and c': "c' = cl_components_update (\<lambda>_. m) (cl_componentversions_update (\<lambda>m. m(?k := v)) c)"
    and m: "m = cl_components c \<and> (parentOf y = '''' \<or> \<not> noActive \<lparr>nn_namespace = ns, nn_name = parentOf y\<rparr> c') \<or>
         parentOf y \<noteq> '''' \<and> noActive \<lparr>nn_namespace = ns, nn_name = parentOf y\<rparr> c' \<and>
         (\<exists>b. m = (cl_components c)(\<lparr>nn_namespace = ns, nn_name = parentOf y\<rparr> := b) \<and> goneOrDeleting b)"
    using assms(2) unfolding versionDeleted_def Let_def by auto
  have old: "cl_componentversions c ?k = None \<or> cl_componentversions c ?k = Some y \<or> (\<exists>t. cl_componentversions c ?k = Some (markDeleted t y))"
    using assms(1,3) unfolding deletedSoFar_def by (metis option.inject)
  then have v': "v = None \<or> (\<exists>t. v = Some (markDeleted t y))"
    using v settle_cases [of "markDeleted _ _"] by fastforce
  have mono: "noActive p c \<Longrightarrow> noActive p c'" for p
    using old v' unfolding c' noActive_def by (auto split: if_splits)
  have keptActive: "noActive p c" if np: "\<not> labelled componentLabel (nn_name p) (om_labels (metadata y))" "noActive p c'" for p
    unfolding noActive_def
  proof (intro allI impI)
    fix k x
    assume x: "cl_componentversions c k = Some x" "om_namespace (metadata x) = nn_namespace p"
      "labelled componentLabel (nn_name p) (om_labels (metadata x))"
    then have "k \<noteq> ?k" using old np(1) by auto
    then have "cl_componentversions c' k = Some x" using x by (simp add: c')
    with x np(2) show "deleting x" unfolding noActive_def by blast
  qed
  have comps: "cl_components c' = m" by (simp add: c')
  show ?thesis unfolding deletedSoFar_def
  proof (intro conjI allI ballI impI, goal_cases)
    case 1
    have "c = cl_componentversions_update (\<lambda>_. cl_componentversions c) (cl_components_update (\<lambda>_. cl_components c) c0)"
      using assms(1) unfolding deletedSoFar_def by (rule conjunct1)
    then show ?case unfolding c' by (cases c0; cases c) simp
  next
    case (2 k)
    then show ?case using assms(1,3) v' unfolding deletedSoFar_def c' by auto
  next
    case (3 z)
    then show ?case using assms(1) v' unfolding deletedSoFar_def c' by (auto simp: goneOrDeleting_def)
  next
    case (4 t)
    have before: "cl_components c t = cl_components c0 t \<or> nn_namespace t = ns \<and> nn_name t \<noteq> '''' \<and>
        (\<exists>y \<in> set ys. parentOf y = nn_name t) \<and> noActive t c \<and> goneOrDeleting (cl_components c t)"
      using assms(1) unfolding deletedSoFar_def by blast
    show ?case
    proof (cases "m t = cl_components c t")
      case True
      with before mono [of t] show ?thesis unfolding comps by auto
    next
      case False
      then have "t = \<lparr>nn_namespace = ns, nn_name = parentOf y\<rparr>" using m by (auto split: if_splits)
      with m False show ?thesis unfolding comps by auto
    qed
  next
    case (5 z)
    show ?case
    proof (cases "parentOf z = parentOf y")
      case True
      with 5 m show ?thesis unfolding comps by auto
    next
      case False
      with 5 have "z \<in> set ys" "noActive \<lparr>nn_namespace = ns, nn_name = parentOf z\<rparr> c"
        using keptActive [of "\<lparr>nn_namespace = ns, nn_name = parentOf z\<rparr>"] labelled_parentOf [of "parentOf z" y] by auto
      with 5 assms(1) have "goneOrDeleting (cl_components c \<lparr>nn_namespace = ns, nn_name = parentOf z\<rparr>)"
        unfolding deletedSoFar_def by blast
      with m False show ?thesis unfolding comps by auto
    qed
  qed
qed

lemma deletedSoFar_Nil: "deletedSoFar ns c [] c"
  by (simp add: deletedSoFar_def)

text \<open>The versions that carry the digest of an event.\<close>

definition digestVersion :: "string \<Rightarrow> write_event \<Rightarrow> component_version \<Rightarrow> bool" where
  "digestVersion ns ev cv \<longleftrightarrow> om_namespace (metadata cv) = ns \<and>
     labelled digestLabel (sanitizeDigestLabel (ev_digest (ce_source (we_source ev)))) (om_labels (metadata cv))"

context writer_laws begin

lemma version_key: "cl_componentversions (abs s) k = Some x \<Longrightarrow> objectKey x = k"
  by (rule cv.key)

lemma deleteComponentVersion_wp:
  "wp (deleteComponentVersion e ns ev) (succeeds (\<lambda>_ s'.
      sanitizeDigestLabel (ev_digest (ce_source (we_source ev))) \<noteq> '''' \<and>
      (\<exists>items. set items = {x. cl_componentversions (abs s) (objectKey x) = Some x \<and> digestVersion ns ev x} \<and>
        deletedSoFar ns (abs s) items (abs s')))) s"
proof -
  have loop: "wp (forEach (deleteVersion e ns) items) (succeeds (\<lambda>_ s'. deletedSoFar ns (abs s) items (abs s'))) s1"
    if items: "set items = {x. cl_componentversions (abs s) (objectKey x) = Some x \<and> digestVersion ns ev x}" "abs s1 = abs s" for items s1
  proof (rule wp_forEach [where I = "\<lambda>ys s'. deletedSoFar ns (abs s) ys (abs s')"])
    show "deletedSoFar ns (abs s) [] (abs s1)" using items(2) by (simp add: deletedSoFar_Nil)
  next
    fix ys y s' assume y: "y \<in> set items" and I: "deletedSoFar ns (abs s) ys (abs s')"
    then have ns: "om_namespace (metadata y) = ns" and cy: "cl_componentversions (abs s) (objectKey y) = Some y"
      using items(1) by (auto simp: digestVersion_def)
    show "wp (deleteVersion e ns y) (\<lambda>r. case r of Inl err \<Rightarrow> succeeds (\<lambda>_ s'. deletedSoFar ns (abs s) items (abs s')) (Inl err)
        | Inr _ \<Rightarrow> \<lambda>s'. deletedSoFar ns (abs s) (ys @ [y]) (abs s')) s'"
      by (rule wp_mono [OF deleteVersion_wp [OF ns]])
         (use deletedSoFar_step [OF I _ cy] in \<open>simp split: sum.splits add: succeeds_def\<close>)
  qed simp
  have "wp (forEach (deleteVersion e ns) items) (succeeds (\<lambda>_ s'. \<exists>items.
      set items = {x. cl_componentversions (abs s) (objectKey x) = Some x \<and> digestVersion ns ev x} \<and>
      deletedSoFar ns (abs s) items (abs s'))) s1"
    if "set items = {x. cl_componentversions (abs s) (objectKey x) = Some x \<and> digestVersion ns ev x}" "abs s1 = abs s" for items s1
    by (rule wp_mono [OF loop [OF that]]) (use that(1) in \<open>auto simp: succeeds_def split: sum.splits\<close>)
  then show ?thesis unfolding deleteComponentVersion_def Let_def
    by (auto intro!: cv.apiList_wp simp: digestVersion_def)
qed

end

section \<open>The writer\<close>

lemma writer_run_ensure:
  "getOciRef w p ev = Inr ref \<Longrightarrow>
   ev_type (ce_source (we_source ev)) = EventCreated \<or> ev_type (ce_source (we_source ev)) = EventUpdated \<Longrightarrow>
   run_state (writerProcess e w ns p None ev) s = (Finished (Inr None), s') \<Longrightarrow>
   run_state (ensureComponentVersion e w ns ref (we_componentSpec ev) ev) s = (Inr (), s')"
  by (auto simp: writerProcess_def runWrite_def split: sum.splits prod.splits)

lemma writer_run_delete:
  "ev_type (ce_source (we_source ev)) = EventDeleted \<Longrightarrow>
   run_state (writerProcess e w ns p None ev) s = (Finished (Inr None), s') \<Longrightarrow>
   run_state (deleteComponentVersion e ns ev) s = (Inr (), s')"
  by (auto simp: writerProcess_def runWrite_def split: sum.splits prod.splits)


text \<open>(C26) A deletion event that is handled without an error removes exactly what it should: every
  ComponentVersion with the digest is gone or being deleted, every other one is untouched; a Component is
  touched only when one of the deleted versions belonged to it and it has no active version left, and
  then it is gone or being deleted; and no Component whose last version was deleted is forgotten.\<close>

theorem writer_deletes_exactly:
  assumes "writer_laws e w view" and "ev_type (ce_source (we_source ev)) = EventDeleted"
    and "run_state (writerProcess e w ns p None ev) s = (Finished (Inr None), s')"
  shows "(\<forall>k x. cl_componentversions (view s) k = Some x \<longrightarrow> digestVersion ns ev x \<longrightarrow> goneOrDeleting (cl_componentversions (view s') k)) \<and>
    (\<forall>k. (\<exists>x. cl_componentversions (view s) k = Some x \<and> digestVersion ns ev x) \<or>
       cl_componentversions (view s') k = cl_componentversions (view s) k) \<and>
    (\<forall>t. cl_components (view s') t = cl_components (view s) t \<or> goneOrDeleting (cl_components (view s') t) \<and> noActive t (view s') \<and>
       (\<exists>k x. cl_componentversions (view s) k = Some x \<and> digestVersion ns ev x \<and> nn_namespace t = ns \<and> parentOf x = nn_name t)) \<and>
    (\<forall>k x. cl_componentversions (view s) k = Some x \<longrightarrow> digestVersion ns ev x \<longrightarrow> parentOf x \<noteq> '''' \<longrightarrow>
       noActive \<lparr>nn_namespace = ns, nn_name = parentOf x\<rparr> (view s') \<longrightarrow>
       goneOrDeleting (cl_components (view s') \<lparr>nn_namespace = ns, nn_name = parentOf x\<rparr>))"
proof -
  from wp_succeeds [OF writer_laws.deleteComponentVersion_wp [OF assms(1)] writer_run_delete [OF assms(2,3)]]
  obtain items where items: "set items = {x. cl_componentversions (view s) (objectKey x) = Some x \<and> digestVersion ns ev x}"
    and d: "deletedSoFar ns (view s) items (view s')" by auto
  have key: "cl_componentversions (view s) k = Some x \<Longrightarrow> objectKey x = k" for k x
    by (rule writer_laws.version_key [OF assms(1)])
  have mem: "cl_componentversions (view s) k = Some x \<Longrightarrow> digestVersion ns ev x \<Longrightarrow> x \<in> set items \<and> objectKey x = k" for k x
    using items key by auto
  show ?thesis
    using d mem items unfolding deletedSoFar_def by (intro conjI allI impI) (fast | force)+
qed

text \<open>(C29) An update gives up the deletion protection of a Component: the writer updates an existing Component
  with an object that has no finalizers, so after a version of a known component was written the
  Component no longer carries the finalizer that the ComponentVersion controller put there for another,
  active version, until that controller is run again.\<close>

theorem writer_gives_up_protection:
  assumes "writer_laws e w view" and "getOciRef w p ev = Inr ref" and "sanitizeName (cd_name (we_componentSpec ev)) \<noteq> ''''"
    and "ev_type (ce_source (we_source ev)) = EventCreated \<or> ev_type (ce_source (we_source ev)) = EventUpdated"
    and "run_state (writerProcess e w ns p None ev) s = (Finished (Inr None), s')"
    and "cl_componentversions (view s) k = Some cv" "\<not> deleting cv" "cvRef cv = Some (componentKey ns ev)" "k \<noteq> versionKey ns ref ev"
    and "cl_components (view s) (componentKey ns ev) = Some b" "\<not> deleting b" "hasFinalizer componentRefFinalizer b"
  shows "cl_componentversions (view s') k = Some cv \<and>
    (\<exists>b'. cl_components (view s') (componentKey ns ev) = Some b' \<and> \<not> deleting b' \<and> \<not> hasFinalizer componentRefFinalizer b')"
proof -
  from wp_succeeds [OF writer_laws.ensureComponentVersion_written [OF assms(1,3)] writer_run_ensure [OF assms(2,4,5)]]
  obtain c v where c: "written (newComponent ns ref (we_componentSpec ev)) (Some b) c"
    and s': "view s' = cl_componentversions_update (\<lambda>m. m(versionKey ns ref ev := v))
      (cl_components_update (\<lambda>m. m(componentKey ns ev := c)) (view s))"
    using assms(10) by auto
  then obtain b' where "c = Some b'" "\<not> deleting b'" "om_finalizers (metadata b') = []"
    using assms(11) by (cases c) (auto simp: written_def)
  with s' assms(6,9) show ?thesis by (simp add: hasFinalizer_def)
qed

text \<open>A version that was written for a digest carries the digest label.\<close>

lemma newComponentVersion_digest:
  "om_labels (metadata x) = om_labels (metadata (newComponentVersion ns ref d ev rs)) \<Longrightarrow>
   labelled digestLabel l (om_labels (metadata x)) \<longleftrightarrow> l = sanitizeDigestLabel (ev_digest (ce_source (we_source ev)))"
  by (auto simp: newComponentVersion_def newMeta_def labelled_def digestLabel_def componentLabel_def Let_def)

lemma written_version:
  assumes "writer_laws e w view" and "getOciRef w p ev = Inr ref" and "sanitizeName (cd_name (we_componentSpec ev)) \<noteq> ''''"
    and "ev_type (ce_source (we_source ev)) = EventCreated \<or> ev_type (ce_source (we_source ev)) = EventUpdated"
    and "run_state (writerProcess e w ns p None ev) s = (Finished (Inr None), s')"
    and "\<And>o'. cl_componentversions (view s) (versionKey ns ref ev) = Some o' \<Longrightarrow> \<not> deleting o'"
  shows "\<exists>x. cl_componentversions (view s') (versionKey ns ref ev) = Some x \<and> \<not> deleting x \<and> om_namespace (metadata x) = ns \<and>
    (\<forall>l. labelled digestLabel l (om_labels (metadata x)) \<longleftrightarrow> l = sanitizeDigestLabel (ev_digest (ce_source (we_source ev))))"
proof -
  from wp_succeeds [OF writer_laws.ensureComponentVersion_written [OF assms(1,3)] writer_run_ensure [OF assms(2,4,5)]]
  obtain rs c v where v: "written (newComponentVersion ns ref (we_componentSpec ev) ev rs) (cl_componentversions (view s) (versionKey ns ref ev)) v"
    and "view s' = cl_componentversions_update (\<lambda>m. m(versionKey ns ref ev := v))
      (cl_components_update (\<lambda>m. m(componentKey ns ev := c)) (view s))" by blast
  then have s': "cl_componentversions (view s') (versionKey ns ref ev) = v" by simp
  obtain x where "v = Some x" using v assms(6) by (cases v) (auto simp: written_def)
  with v s' newComponentVersion_digest [of x] show ?thesis
    by (auto simp: written_def objectKey_iff)
qed

text \<open>(C28) A pushed version can be taken back: when a version was written for an event with a digest, a
  deletion event of the same digest that is handled without an error deletes it.\<close>

theorem written_then_deleted:
  assumes "writer_laws e w view" and "getOciRef w p ev = Inr ref" and "sanitizeName (cd_name (we_componentSpec ev)) \<noteq> ''''"
    and "ev_type (ce_source (we_source ev)) = EventCreated \<or> ev_type (ce_source (we_source ev)) = EventUpdated"
    and "cl_componentversions (view s) (versionKey ns ref ev) = None"
    and "run_state (writerProcess e w ns p None ev) s = (Finished (Inr None), s1)"
    and "ev_type (ce_source (we_source del)) = EventDeleted"
    and "ev_digest (ce_source (we_source del)) = ev_digest (ce_source (we_source ev))"
    and "run_state (writerProcess e w ns p None del) s1 = (Finished (Inr None), s2)"
  shows "cl_componentversions (view s1) (versionKey ns ref ev) \<noteq> None \<and>
    goneOrDeleting (cl_componentversions (view s2) (versionKey ns ref ev))"
proof -
  obtain x where x: "cl_componentversions (view s1) (versionKey ns ref ev) = Some x" "om_namespace (metadata x) = ns"
    "labelled digestLabel (sanitizeDigestLabel (ev_digest (ce_source (we_source ev)))) (om_labels (metadata x))"
    using written_version [OF assms(1-4,6)] assms(5) by auto
  from wp_succeeds [OF writer_laws.deleteComponentVersion_wp [OF assms(1)] writer_run_delete [OF assms(7,9)]]
  obtain items where items: "set items = {x. cl_componentversions (view s1) (objectKey x) = Some x \<and> digestVersion ns del x}"
    and d: "deletedSoFar ns (view s1) items (view s2)" by auto
  have k: "objectKey x = versionKey ns ref ev" using writer_laws.version_key [OF assms(1) x(1)] .
  then have "x \<in> set items" using x assms(8) by (simp add: items digestVersion_def)
  then have "goneOrDeleting (cl_componentversions (view s2) (objectKey x))"
    using d unfolding deletedSoFar_def by blast
  then show ?thesis using x(1) k by simp
qed

text \<open>Versions found by a scan, or announced by the generic webhook, have no digest, and deletion events
  find versions by their digest only: whatever deletion event is handled later without an error leaves
  such a version untouched.\<close>

theorem undigested_version_kept:
  assumes "writer_laws e w view" and "getOciRef w p ev = Inr ref" and "sanitizeName (cd_name (we_componentSpec ev)) \<noteq> ''''"
    and "ev_type (ce_source (we_source ev)) = EventCreated \<or> ev_type (ce_source (we_source ev)) = EventUpdated"
    and "ev_digest (ce_source (we_source ev)) = ''''" and "cl_componentversions (view s) (versionKey ns ref ev) = None"
    and "run_state (writerProcess e w ns p None ev) s = (Finished (Inr None), s1)"
    and "ev_type (ce_source (we_source del)) = EventDeleted"
    and "run_state (writerProcess e w ns p None del) s1 = (Finished (Inr None), s2)"
  shows "cl_componentversions (view s1) (versionKey ns ref ev) \<noteq> None \<and>
    cl_componentversions (view s2) (versionKey ns ref ev) = cl_componentversions (view s1) (versionKey ns ref ev)"
proof -
  obtain x where x: "cl_componentversions (view s1) (versionKey ns ref ev) = Some x"
    "\<And>l. labelled digestLabel l (om_labels (metadata x)) \<longleftrightarrow> l = ''''"
    using written_version [OF assms(1-4,7)] assms(5,6) by (auto simp: sanitizeDigestLabel_def)
  from wp_succeeds [OF writer_laws.deleteComponentVersion_wp [OF assms(1)] writer_run_delete [OF assms(8,9)]]
  obtain items where items: "set items = {x. cl_componentversions (view s1) (objectKey x) = Some x \<and> digestVersion ns del x}"
    and d: "deletedSoFar ns (view s1) items (view s2)"
    and l: "sanitizeDigestLabel (ev_digest (ce_source (we_source del))) \<noteq> ''''" by auto
  have "versionKey ns ref ev \<notin> objectKey ` set items"
  proof
    assume "versionKey ns ref ev \<in> objectKey ` set items"
    then have "digestVersion ns del x" using x(1) by (auto simp: items)
    then show False using x(2) l by (simp add: digestVersion_def)
  qed
  moreover have "cl_componentversions (view s2) (versionKey ns ref ev) = cl_componentversions (view s1) (versionKey ns ref ev) \<or>
      versionKey ns ref ev \<in> objectKey ` set items"
    using d unfolding deletedSoFar_def by blast
  ultimately show ?thesis using x(1) by simp
qed

text \<open>A deletion event without a digest fails and changes nothing.\<close>

lemma writer_undigested_deletion:
  assumes "ev_type (ce_source (we_source ev)) = EventDeleted" "ev_digest (ce_source (we_source ev)) = ''''"
  shows "run_state (writerProcess e w ns p None ev) s =
    (Finished (Inl (ErrorText ''cannot delete component version: no digest available'')), s)"
  using assms by (simp add: writerProcess_def runWrite_def deleteComponentVersion_def sanitizeDigestLabel_def)

end
