(* ===== verification/DiscoveryPipeline.thy ===== *)
theory DiscoveryPipeline
  imports DiscoveryWebhook DiscoveryWriter
begin

text \<open>
  \<open>pkg/discovery/pipeline\<close>: how the discovery is put together from the registries it knows, and its
  behaviour as a whole. \<open>newPipeline\<close> registers a webhook path or a scanner per registry; the stages then
  run concurrently, connected by channels of 1000 events. One step of the relation \<open>advance\<close> is one
  scan, one webhook request, or one event taken from a channel by a stage; the interleavings of the
  goroutines are the sequences of these steps.
\<close>

section \<open>Construction\<close>

record registry_scanner =
  rsc_registry :: registry
  rsc_creds :: "registry_credentials option"
  rsc_interval :: int

record sources =
  src_router :: "webhook_router option"
  src_scanners :: "registry_scanner list"

definition addWebhook :: "init_handler gomap \<Rightarrow> registry \<Rightarrow> sources \<Rightarrow> go_error + sources" where
  "addWebhook registered reg src =
     (if reg_webhookPath (spec reg) \<noteq> '''' then
        let router = (case src_router src of None \<Rightarrow> newWebhookRouter | Some r \<Rightarrow> r) in
        (case registerPath registered reg router of
           (_, Some err) \<Rightarrow> Inl (Wrapped ''failed to register handler'' err)
         | (router', None) \<Rightarrow> Inr (src\<lparr>src_router := Some router'\<rparr>))
      else Inr src)"

definition addScanner :: "registry_provider \<Rightarrow> registry \<Rightarrow> sources \<Rightarrow> sources" where
  "addScanner p reg src =
     (case reg_scanInterval (spec reg) of
        Some d \<Rightarrow>
          if d > 0
          then src\<lparr>src_scanners := src_scanners src @
            [\<lparr>rsc_registry = reg, rsc_creds = getCredentials p (om_name (metadata reg)), rsc_interval = d\<rparr>]\<rparr>
          else src
      | None \<Rightarrow> src)"

fun addRegistries :: "init_handler gomap \<Rightarrow> registry_provider \<Rightarrow> registry list \<Rightarrow> sources \<Rightarrow> go_error + sources" where
  "addRegistries registered p [] src = Inr src"
| "addRegistries registered p (reg # regs) src =
     (case addWebhook registered reg src of
        Inl err \<Rightarrow> Inl err
      | Inr src' \<Rightarrow> addRegistries registered p regs (addScanner p reg src'))"

definition newPipeline :: "init_handler gomap \<Rightarrow> registry_provider \<Rightarrow> go_error + sources" where
  "newPipeline registered p = addRegistries registered p (getAll p) \<lparr>src_router = None, src_scanners = []\<rparr>"

section \<open>Running\<close>

text \<open>What the pipeline is built from, and its state: the outside world, the four channels, and whether a
  panic has ended the process.\<close>

record 's assembly =
  su_kube :: "'s kube"
  su_lib :: "'s ocm_lib"
  su_writer :: "'s writer_lib"
  su_namespace :: string
  su_provider :: registry_provider
  su_sources :: sources
  su_rateLimiter :: "('s, go_error + unit) state"

record 's pipeline =
  pl_world :: 's
  pl_repoEvents :: "repository_event channel"
  pl_filterInput :: "component_version_event channel"
  pl_handlerInput :: "component_version_event channel"
  pl_writerInput :: "write_event channel"
  pl_crashed :: bool

definition emptyChannel :: "'a channel" where
  "emptyChannel = \<lparr>ch_capacity = 1000, ch_buffer = []\<rparr>"

definition startPipeline :: "'s \<Rightarrow> 's pipeline" where
  "startPipeline s =
     \<lparr>pl_world = s, pl_repoEvents = emptyChannel, pl_filterInput = emptyChannel, pl_handlerInput = emptyChannel,
      pl_writerInput = emptyChannel, pl_crashed = False\<rparr>"

definition dequeue :: "'a channel \<Rightarrow> 'a channel" where
  "dequeue ch = ch\<lparr>ch_buffer := tl (ch_buffer ch)\<rparr>"

text \<open>One turn of a stage: take an event, process it, publish the results. \<open>put\<close> stores the output channel.\<close>

definition stageTurn ::
  "('s, go_error + unit) state option \<Rightarrow> ('i \<Rightarrow> ('s, 'o processed) state) \<Rightarrow> 'o channel option \<Rightarrow>
   ('o channel \<Rightarrow> 's pipeline \<Rightarrow> 's pipeline) \<Rightarrow> 'i \<Rightarrow> 's pipeline \<Rightarrow> 's pipeline" where
  "stageTurn limiter process out put ev P =
     (case run_state (processEvent limiter process out ev) (pl_world P) of
        (Panicked, s) \<Rightarrow> P\<lparr>pl_world := s, pl_crashed := True\<rparr>
      | (Finished (Some ch), s) \<Rightarrow> put ch (P\<lparr>pl_world := s\<rparr>)
      | (Finished None, s) \<Rightarrow> P\<lparr>pl_world := s\<rparr>)"

definition qualifierTurn :: "'s assembly \<Rightarrow> repository_event \<Rightarrow> 's pipeline \<Rightarrow> 's pipeline" where
  "qualifierTurn S ev P =
     stageTurn None (qualifierProcess (su_kube S) (su_lib S) (su_provider S)) (Some (pl_filterInput P))
       (\<lambda>ch. pl_filterInput_update (\<lambda>_. ch)) ev (P\<lparr>pl_repoEvents := dequeue (pl_repoEvents P)\<rparr>)"

definition filterTurn :: "'s assembly \<Rightarrow> component_version_event \<Rightarrow> 's pipeline \<Rightarrow> 's pipeline" where
  "filterTurn S ev P =
     stageTurn None (filterProcess (su_kube S) (su_namespace S)) (Some (pl_handlerInput P))
       (\<lambda>ch. pl_handlerInput_update (\<lambda>_. ch)) ev (P\<lparr>pl_filterInput := dequeue (pl_filterInput P)\<rparr>)"

definition handlerTurn :: "'s assembly \<Rightarrow> component_version_event \<Rightarrow> 's pipeline \<Rightarrow> 's pipeline" where
  "handlerTurn S ev P =
     stageTurn (Some (su_rateLimiter S)) (handlerProcess (su_kube S) (su_lib S) (su_provider S) None) (Some (pl_writerInput P))
       (\<lambda>ch. pl_writerInput_update (\<lambda>_. ch)) ev (P\<lparr>pl_handlerInput := dequeue (pl_handlerInput P)\<rparr>)"

definition writerTurn :: "'s assembly \<Rightarrow> write_event \<Rightarrow> 's pipeline \<Rightarrow> 's pipeline" where
  "writerTurn S ev P =
     stageTurn None (writerProcess (su_kube S) (su_writer S) (su_namespace S) (su_provider S) None) None
       (\<lambda>_ Q. Q) ev (P\<lparr>pl_writerInput := dequeue (pl_writerInput P)\<rparr>)"

inductive advance :: "'s assembly \<Rightarrow> 's pipeline \<Rightarrow> 's pipeline \<Rightarrow> bool" for S where
  adv_scan: "\<not> pl_crashed P \<Longrightarrow> sc \<in> set (src_scanners (su_sources S)) \<Longrightarrow>
    run_state (scan (su_kube S) (su_lib S) (rsc_registry sc) (rsc_creds sc) locked (pl_repoEvents P)) (pl_world P) = (ch, s) \<Longrightarrow>
    advance S P (P\<lparr>pl_world := s, pl_repoEvents := ch\<rparr>)"
| adv_webhook: "\<not> pl_crashed P \<Longrightarrow> src_router (su_sources S) = Some router \<Longrightarrow>
    routerServeHTTP router pick req (pl_repoEvents P) = Some (resp, ch) \<Longrightarrow> advance S P (P\<lparr>pl_repoEvents := ch\<rparr>)"
| adv_qualifier: "\<not> pl_crashed P \<Longrightarrow> ch_buffer (pl_repoEvents P) = ev # rest \<Longrightarrow> advance S P (qualifierTurn S ev P)"
| adv_filter: "\<not> pl_crashed P \<Longrightarrow> ch_buffer (pl_filterInput P) = ev' # rest' \<Longrightarrow> advance S P (filterTurn S ev' P)"
| adv_handler: "\<not> pl_crashed P \<Longrightarrow> ch_buffer (pl_handlerInput P) = ev' # rest' \<Longrightarrow> advance S P (handlerTurn S ev' P)"
| adv_writer: "\<not> pl_crashed P \<Longrightarrow> ch_buffer (pl_writerInput P) = ev'' # rest'' \<Longrightarrow> advance S P (writerTurn S ev'' P)"

section \<open>Every registry is served\<close>

definition routes :: "sources \<Rightarrow> string \<Rightarrow> webhook_handler option" where
  "routes src = (case src_router src of None \<Rightarrow> (\<lambda>_. None) | Some r \<Rightarrow> map_of (wr_paths r))"

definition scansPeriodically :: "registry \<Rightarrow> bool" where
  "scansPeriodically reg \<longleftrightarrow> (case reg_scanInterval (spec reg) of None \<Rightarrow> False | Some d \<Rightarrow> d > 0)"

lemma addWebhook_cases:
  assumes "addWebhook registered reg src = Inr src'"
  shows "src_scanners src' = src_scanners src \<and>
    (reg_webhookPath (spec reg) = '''' \<and> routes src' = routes src \<or>
     reg_webhookPath (spec reg) \<noteq> '''' \<and> routes src (reg_webhookPath (spec reg)) = None \<and>
     (\<exists>initFn. map_of registered (reg_flavor (spec reg)) = Some initFn \<and>
        routes src' = (routes src)(reg_webhookPath (spec reg) \<mapsto> initFn reg)))"
  using assms
  by (auto simp: addWebhook_def routes_def newWebhookRouter_def Let_def split: if_splits option.splits prod.splits
      dest!: registerPath_routes)

lemma addScanner_simps [simp]:
  "routes (addScanner p reg src) = routes src"
  "map rsc_registry (src_scanners (addScanner p reg src)) =
     map rsc_registry (src_scanners src) @ (if scansPeriodically reg then [reg] else [])"
  by (auto simp: addScanner_def routes_def scansPeriodically_def split: option.splits)

text \<open>The registries whose webhooks are routed.\<close>

definition served :: "init_handler gomap \<Rightarrow> registry \<Rightarrow> sources \<Rightarrow> bool" where
  "served registered reg src \<longleftrightarrow>
     (\<exists>initFn. map_of registered (reg_flavor (spec reg)) = Some initFn \<and> routes src (reg_webhookPath (spec reg)) = Some (initFn reg))"

lemma addRegistries_sources:
  assumes "addRegistries registered p regs src = Inr src'"
  shows "(\<forall>path h. routes src path = Some h \<longrightarrow> routes src' path = Some h) \<and>
    (\<forall>reg \<in> set regs. reg_webhookPath (spec reg) \<noteq> '''' \<longrightarrow> served registered reg src') \<and>
    (\<forall>path h. routes src' path = Some h \<longrightarrow> routes src path = Some h \<or>
       (\<exists>reg \<in> set regs. \<exists>initFn. map_of registered (reg_flavor (spec reg)) = Some initFn \<and> h = initFn reg)) \<and>
    map rsc_registry (src_scanners src') = map rsc_registry (src_scanners src) @ filter scansPeriodically regs"
  using assms
proof (induction registered p regs src rule: addRegistries.induct)
  case (2 registered p reg regs src)
  then obtain src1 where src1: "addWebhook registered reg src = Inr src1"
    and rest: "addRegistries registered p regs (addScanner p reg src1) = Inr src'"
    by (auto split: sum.splits)
  note IH = 2(1) [OF src1 rest] and first = addWebhook_cases [OF src1]
  show ?case
  proof (cases "reg_webhookPath (spec reg) = ''''")
    case True
    then have "routes src1 = routes src" "src_scanners src1 = src_scanners src" using first by auto
    with IH True show ?thesis by auto
  next
    case False
    then obtain initFn where init: "map_of registered (reg_flavor (spec reg)) = Some initFn"
      and r1: "routes src1 = (routes src)(reg_webhookPath (spec reg) \<mapsto> initFn reg)" "routes src (reg_webhookPath (spec reg)) = None"
      and sc: "src_scanners src1 = src_scanners src" using first by auto
    have kept: "routes src1 path = Some h \<Longrightarrow> routes src' path = Some h" for path h
      using IH by simp
    have new: "routes src' path = Some h \<Longrightarrow> routes src1 path = Some h \<or>
       (\<exists>reg \<in> set regs. \<exists>initFn. map_of registered (reg_flavor (spec reg)) = Some initFn \<and> h = initFn reg)" for path h
      using IH by simp
    show ?thesis
    proof (intro conjI allI ballI impI, goal_cases)
      case (1 path h)
      then show ?case using r1 by (intro kept) auto
    next
      case (2 reg')
      then show ?case using IH init r1(1) kept [of "reg_webhookPath (spec reg)" "initFn reg"] by (auto simp: served_def)
    next
      case (3 path h)
      then show ?case using new [of path h] r1(1) init by (auto split: if_splits)
    next
      case 4
      show ?case using IH sc by simp
    qed
  qed
qed auto

text \<open>Two registries with the same webhook path are refused.\<close>

lemma addRegistries_distinct:
  assumes "addRegistries registered p regs src = Inr src'"
  shows "distinct (map (\<lambda>reg. reg_webhookPath (spec reg)) (filter (\<lambda>reg. reg_webhookPath (spec reg) \<noteq> '''') regs)) \<and>
    (\<forall>reg \<in> set regs. reg_webhookPath (spec reg) \<noteq> '''' \<longrightarrow> routes src (reg_webhookPath (spec reg)) = None)"
  using assms
proof (induction registered p regs src rule: addRegistries.induct)
  case (2 registered p reg regs src)
  then obtain src1 where src1: "addWebhook registered reg src = Inr src1"
    and rest: "addRegistries registered p regs (addScanner p reg src1) = Inr src'"
    by (auto split: sum.splits)
  from 2(1) [OF src1 rest] addWebhook_cases [OF src1] show ?case by (fastforce split: if_splits)
qed simp

text \<open>When the pipeline of the discovery binary can be built, every registry with a webhook path has the
  Zot flavor and is served by its own handler under \<open>/webhook/\<close> and that path, no two registries share a
  path, and exactly the registries with a positive scan interval are scanned.\<close>

theorem newPipeline_serves:
  assumes "linkedHandlers c = Finished registered" and "newPipeline registered p = Inr src"
  shows "(\<forall>reg. reg \<in> set (getAll p) \<longrightarrow> reg_webhookPath (spec reg) \<noteq> '''' \<longrightarrow>
      reg_flavor (spec reg) = ''zot'' \<and> (\<exists>router. src_router src = Some router \<and>
        (\<forall>pick req ch. req_method req = ''POST'' \<longrightarrow> req_path req = ''/webhook/'' @ reg_webhookPath (spec reg) \<longrightarrow>
          routerServeHTTP router pick req ch = zotServeHTTP c reg pick req ch))) \<and>
    distinct (map (\<lambda>reg. reg_webhookPath (spec reg)) (filter (\<lambda>reg. reg_webhookPath (spec reg) \<noteq> '''') (getAll p))) \<and>
    map rsc_registry (src_scanners src) = filter scansPeriodically (getAll p)"
proof -
  have r: "registered = [(''zot'', zotServeHTTP c)]" using assms(1) by (simp add: linkedHandlers_zot)
  note built = assms(2) [unfolded newPipeline_def]
  have "reg_flavor (spec reg) = ''zot'' \<and> (\<exists>router. src_router src = Some router \<and>
        (\<forall>pick req ch. req_method req = ''POST'' \<longrightarrow> req_path req = ''/webhook/'' @ reg_webhookPath (spec reg) \<longrightarrow>
          routerServeHTTP router pick req ch = zotServeHTTP c reg pick req ch))"
    if "reg \<in> set (getAll p)" "reg_webhookPath (spec reg) \<noteq> ''''" for reg
  proof -
    have "served registered reg src" using addRegistries_sources [OF built] that by blast
    then obtain router where "reg_flavor (spec reg) = ''zot''" "src_router src = Some router"
      "map_of (wr_paths router) (reg_webhookPath (spec reg)) = Some (zotServeHTTP c reg)"
      by (auto simp: served_def r routes_def split: if_splits option.splits)
    then show ?thesis using router_dispatch by blast
  qed
  with addRegistries_sources [OF built] addRegistries_distinct [OF built] show ?thesis by auto
qed

section \<open>The invariant of the pipeline\<close>

definition channelOk :: "('a \<Rightarrow> bool) \<Rightarrow> 'a channel \<Rightarrow> bool" where
  "channelOk P ch \<longleftrightarrow> ch_capacity ch = 1000 \<and> withinCapacity ch \<and> list_all P (ch_buffer ch)"

text \<open>Events name a known registry, and events of component versions the component of their repository.\<close>

definition knownEvent :: "registry_provider \<Rightarrow> repository_event \<Rightarrow> bool" where
  "knownEvent p ev \<longleftrightarrow> providerGet p (ev_registry ev) \<noteq> None"

definition queuedVersion :: "registry_provider \<Rightarrow> component_version_event \<Rightarrow> bool" where
  "queuedVersion p ev \<longleftrightarrow> namesComponent ev \<and> knownEvent p (ce_source ev)"

definition pipelineInv :: "'s assembly \<Rightarrow> 's pipeline \<Rightarrow> bool" where
  "pipelineInv S P \<longleftrightarrow>
     channelOk (knownEvent (su_provider S)) (pl_repoEvents P) \<and>
     channelOk (queuedVersion (su_provider S)) (pl_filterInput P) \<and>
     channelOk (queuedVersion (su_provider S)) (pl_handlerInput P) \<and>
     channelOk (\<lambda>we. queuedVersion (su_provider S) (we_source we)) (pl_writerInput P)"

lemma channelOk_empty [simp]: "channelOk P emptyChannel"
  by (simp add: channelOk_def emptyChannel_def withinCapacity_def)

lemma channelOk_publish: "channelOk P ch \<Longrightarrow> list_all P evs \<Longrightarrow> channelOk P (fold publish evs ch)"
  unfolding channelOk_def list_all_iff
  using fold_publish_within set_fold_publish by (metis UnE fold_publish_capacity subsetD)

lemma channelOk_send: "channelOk P ch \<Longrightarrow> hasRoom ch \<Longrightarrow> P ev \<Longrightarrow> channelOk P (send ev ch)"
  by (simp add: channelOk_def send_def hasRoom_def withinCapacity_def)

lemma channelOk_dequeue: "channelOk P ch \<Longrightarrow> channelOk P (dequeue ch)"
  by (cases "ch_buffer ch") (auto simp: channelOk_def dequeue_def withinCapacity_def)

lemma channelOk_scanned:
  assumes "channelOk P ch" "scanned reg repos ch ch'" "\<And>ev. scanEvent reg ev \<Longrightarrow> P ev"
  shows "channelOk P ch'"
proof -
  obtain evs where ch': "ch_buffer ch' = ch_buffer ch @ evs" "ch_capacity ch' = ch_capacity ch" "list_all (scanEvent reg) evs"
    and evs: "map ev_repository evs = take (ch_capacity ch - length (ch_buffer ch)) (filter isComponentRepository repos)"
    using assms(2) unfolding scanned_def by blast
  have "length evs \<le> ch_capacity ch - length (ch_buffer ch)"
    using arg_cong [OF evs, of length] by simp
  with ch' assms(1,3) show ?thesis by (auto simp: channelOk_def withinCapacity_def list_all_iff)
qed

lemma scan_channelOk:
  assumes "channelOk P ch" "\<And>ev. scanEvent reg ev \<Longrightarrow> P ev"
  shows "wp (scan e lib reg creds locked ch) (\<lambda>ch' _. channelOk P ch') s"
proof -
  have "wp (scanRepositories e reg repos ch) (\<lambda>ch' _. channelOk P ch') s" for repos s
    by (rule wp_mono [OF scanRepositories_wp]) (use assms channelOk_scanned in blast)
  then show ?thesis using assms(1) unfolding scan_def
    by (auto intro!: wp_any [where m = "oras_repositories _ _ _ _"] split: option.splits)
qed

text \<open>A stage whose outputs satisfy \<open>P\<close> keeps its output channel in order.\<close>

lemma processEvent_channelOk:
  assumes "\<And>s. wp (process ev) (\<lambda>r _. outputs P r) s" "channelOk P ch"
  shows "wp (processEvent limiter process (Some ch) ev) (\<lambda>r _. case r of
      Finished (Some ch') \<Rightarrow> channelOk P ch' | Finished None \<Rightarrow> False | Panicked \<Rightarrow> True) s"
proof -
  have "wp (bindM (process ev) (\<lambda>r. case r of Panicked \<Rightarrow> ret Panicked | Finished (Inl _) \<Rightarrow> ret (Finished (Some ch))
      | Finished (Inr None) \<Rightarrow> ret (Finished (Some ch))
      | Finished (Inr (Some evs)) \<Rightarrow> ret (Finished (Some (fold publish evs ch)))))
    (\<lambda>r _. case r of Finished (Some ch') \<Rightarrow> channelOk P ch' | Finished None \<Rightarrow> False | Panicked \<Rightarrow> True) s" for s
    unfolding wp_bind
    by (rule wp_mono [OF assms(1)]) (use assms(2) in \<open>auto simp: outputs_def channelOk_publish split: run.splits sum.splits option.splits\<close>)
  note published = this
  show ?thesis unfolding processEvent_def wp_bind
    by (rule wp_any) (use published assms(2) in \<open>auto split: sum.splits\<close>)
qed

lemma stageTurn_inv:
  assumes "\<And>s. wp (process ev) (\<lambda>r _. outputs Q r) s" "channelOk Q ch"
    and "\<And>s. I (P\<lparr>pl_world := s, pl_crashed := True\<rparr>)"
    and "\<And>s ch'. channelOk Q ch' \<Longrightarrow> I (put ch' (P\<lparr>pl_world := s\<rparr>))"
  shows "I (stageTurn limiter process (Some ch) put ev P)"
  using processEvent_channelOk [of process ev Q ch limiter "pl_world P", OF assms(1,2)] assms(3,4)
  unfolding stageTurn_def wp_def by (auto split: run.splits option.splits prod.splits)

lemma derivedFrom_registry: "derivedFrom ev ev' \<Longrightarrow> ev_registry ev' = ev_registry ev"
  by (cases ev; cases ev') (simp add: derivedFrom_def)

lemma knownEvent_derived: "knownEvent p ev \<Longrightarrow> derivedFrom ev ev' \<Longrightarrow> knownEvent p ev'"
  by (simp add: knownEvent_def derivedFrom_registry)

lemma turns_keep_inv:
  assumes "pipelineInv S P"
  shows "ch_buffer (pl_repoEvents P) = ev # rest \<Longrightarrow> pipelineInv S (qualifierTurn S ev P)"
    and "ch_buffer (pl_filterInput P) = ce # rest' \<Longrightarrow> pipelineInv S (filterTurn S ce P)"
    and "ch_buffer (pl_handlerInput P) = ce # rest' \<Longrightarrow> pipelineInv S (handlerTurn S ce P)"
    and "pipelineInv S (writerTurn S we P)"
proof -
  note inv = assms [unfolded pipelineInv_def] and deq = channelOk_dequeue
  assume "ch_buffer (pl_repoEvents P) = ev # rest"
  then have "knownEvent (su_provider S) ev" using inv by (simp add: channelOk_def)
  then have "wp (qualifierProcess (su_kube S) (su_lib S) (su_provider S) ev) (\<lambda>r _. outputs (queuedVersion (su_provider S)) r) s" for s
    by (intro wp_mono [OF qualifier_outputs])
       (auto simp: outputs_def queuedVersion_def list_all_iff knownEvent_derived
          split: run.splits sum.splits option.splits)
  then show "pipelineInv S (qualifierTurn S ev P)"
    unfolding qualifierTurn_def by (rule stageTurn_inv) (use inv deq in \<open>auto simp: pipelineInv_def\<close>)
next
  note inv = assms [unfolded pipelineInv_def] and deq = channelOk_dequeue
  assume "ch_buffer (pl_filterInput P) = ce # rest'"
  then have "queuedVersion (su_provider S) ce" using inv by (simp add: channelOk_def)
  then have "wp (filterProcess (su_kube S) (su_namespace S) ce) (\<lambda>r _. outputs (queuedVersion (su_provider S)) r) s" for s
    by (intro wp_mono [OF filter_outputs]) (auto simp: outputs_def list_all_iff split: run.splits sum.splits option.splits)
  then show "pipelineInv S (filterTurn S ce P)"
    unfolding filterTurn_def by (rule stageTurn_inv) (use inv deq in \<open>auto simp: pipelineInv_def\<close>)
next
  note inv = assms [unfolded pipelineInv_def] and deq = channelOk_dequeue
  assume "ch_buffer (pl_handlerInput P) = ce # rest'"
  then have "queuedVersion (su_provider S) ce" using inv by (simp add: channelOk_def)
  then have "wp (handlerProcess (su_kube S) (su_lib S) (su_provider S) None ce)
      (\<lambda>r _. outputs (\<lambda>we. queuedVersion (su_provider S) (we_source we)) r) s" for s
    by (intro wp_mono [OF handler_outputs]) (auto simp: outputs_def list_all_iff split: run.splits sum.splits option.splits)
  then show "pipelineInv S (handlerTurn S ce P)"
    unfolding handlerTurn_def by (rule stageTurn_inv) (use inv deq in \<open>auto simp: pipelineInv_def\<close>)
next
  show "pipelineInv S (writerTurn S we P)"
    using assms channelOk_dequeue unfolding writerTurn_def stageTurn_def
    by (auto simp: pipelineInv_def split: prod.splits run.splits option.splits)
qed

text \<open>(C23) Along every interleaving of scans, webhook requests and turns of the stages, no channel holds
  more than its 1000 events, every event names a registry that the provider knows, and every event past
  the qualifier names exactly the base and the component that its repository consists of.\<close>

theorem pipeline_invariant:
  assumes "linkedHandlers c = Finished registered" "newPipeline registered (su_provider S) = Inr (su_sources S)"
    and "providerInv (su_provider S)" "is_gomap (rp_registries (su_provider S))"
    and "(advance S)\<^sup>*\<^sup>* (startPipeline s) P"
  shows "pipelineInv S P"
proof -
  have reg: "providerGet (su_provider S) (om_name (metadata reg)) \<noteq> None" if reg: "reg \<in> set (getAll (su_provider S))" for reg
  proof -
    obtain name where "(name, reg) \<in> set (rp_registries (su_provider S))" using reg by (auto simp: getAll_def)
    then have "providerGet (su_provider S) name = Some reg"
      using assms(4) by (simp add: providerGet_def is_gomap_def map_of_is_SomeI)
    then show ?thesis using assms(3) by (auto simp: providerInv_def)
  qed
  note built = addRegistries_sources [OF assms(2) [unfolded newPipeline_def]]
  have route: "\<exists>reg \<in> set (getAll (su_provider S)). h = zotServeHTTP c reg"
    if "src_router (su_sources S) = Some router" "map_of (wr_paths router) path = Some h" for router path h
    using built that assms(1) by (fastforce simp: routes_def linkedHandlers_zot split: if_splits)
  have scanners: "rsc_registry sc \<in> set (getAll (su_provider S))" if "sc \<in> set (src_scanners (su_sources S))" for sc
    using built that by (metis (no_types, lifting) append_Nil filter_is_subset imageI list.map(1) list.set_map select_convs(2) subsetD sources.select_convs(2))
  show ?thesis using assms(5)
  proof (induction rule: rtranclp_induct)
    case base
    show ?case by (simp add: pipelineInv_def startPipeline_def)
  next
    case (step P Q)
    from step.hyps(2) show ?case
    proof cases
      case (adv_scan sc locked ch s)
      have "channelOk (knownEvent (su_provider S)) ch"
        using wp_run [OF scan_channelOk adv_scan(4)] step.IH reg [OF scanners [OF adv_scan(3)]]
        by (auto simp: pipelineInv_def knownEvent_def scanEvent_def)
      then show ?thesis using step.IH adv_scan(1) by (simp add: pipelineInv_def)
    next
      case (adv_webhook router pick req resp ch)
      have "channelOk (knownEvent (su_provider S)) ch"
      proof (cases "ch = pl_repoEvents P")
        case False
        with router_sources [OF adv_webhook(4)] route [OF adv_webhook(3)]
        obtain reg where "reg \<in> set (getAll (su_provider S))" "zotServeHTTP c reg pick req (pl_repoEvents P) = Some (resp, ch)" by metis
        with zot_channel [of c reg pick req "pl_repoEvents P"] False step.IH show ?thesis
          by (auto simp: pipelineInv_def knownEvent_def zotEvent_def reg intro!: channelOk_send)
      qed (use step.IH in \<open>simp add: pipelineInv_def\<close>)
      then show ?thesis using step.IH adv_webhook(1) by (simp add: pipelineInv_def)
    qed (use turns_keep_inv [OF step.IH] in auto)
  qed
qed

section \<open>Events that get lost\<close>

text \<open>The generic webhook accepts deletions but cannot carry them out: its events have no digest, and a
  deletion event without a digest, which the stages pass on unchanged, ends in an error of the writer
  that leaves the cluster as it is.\<close>

theorem generic_deletion_ineffective:
  assumes "genericServeHTTP c reg pick req ch = Some (resp, send ev ch)" and "ev_type ev = EventDeleted"
    and "ce_source (we_source we) = ev"
  shows "fst resp = 204 \<and> run_state (writerProcess e w ns p None we) s =
    (Finished (Inl (ErrorText ''cannot delete component version: no digest available'')), s)"
proof -
  obtain code body where resp: "resp = (code, body)" by (cases resp)
  have "send ev ch \<noteq> ch" by (cases ch) (simp add: send_def)
  then have "code = 204" "ev_digest ev = ''''"
    using generic_status [of c reg pick req ch code body "send ev ch"] assms(1) resp by auto
  then show ?thesis using writer_undigested_deletion [of we e w ns p s] assms(2,3) resp by simp
qed

context kube_laws begin

lemma getVersion_wp:
  "(\<And>err s'. abs s' = abs s \<Longrightarrow> isNotFound err \<longrightarrow> cl_componentversions (abs s) k = None \<Longrightarrow> Q (Inl err) s') \<Longrightarrow>
   (\<And>x s'. abs s' = abs s \<Longrightarrow> cl_componentversions (abs s) k = Some x \<Longrightarrow> Q (Inr x) s') \<Longrightarrow>
   wp (res_get (k_componentversions e) k) Q s"
  by (rule cv.get_wp)

end

text \<open>Versions of a component with a long name shadow each other: the names of its ComponentVersions are
  cut off before the version, so once one version is registered the filter drops the creation of every
  other version.\<close>

theorem long_name_versions_dropped:
  assumes "kube_laws e view" and "62 \<le> length (sanitizeName (ce_component ev))" and "ev_type (ce_source ev) = EventCreated"
    and "cl_componentversions (view s) \<lparr>nn_namespace = ns, nn_name = componentVersionName (ce_component ev) other\<rparr> = Some x"
    and "run_state (filterProcess e ns ev) s = (r, s')"
  shows "r = Finished (Inr None) \<or> (\<exists>err. r = Finished (Inl err))"
proof -
  have "componentVersionName (ce_component ev) (ev_version (ce_source ev)) = componentVersionName (ce_component ev) other"
    by (simp add: componentVersionName_truncated [OF assms(2)])
  then have "wp (filterProcess e ns ev) (\<lambda>r _. r = Finished (Inr None) \<or> (\<exists>err. r = Finished (Inl err))) s"
    using assms(3,4) unfolding filterProcess_def
    by (auto intro!: kube_laws.getVersion_wp [OF assms(1)])
  from wp_run [OF this assms(5)] show ?thesis .
qed

end
