(* ===== verification/DiscoveryScenarios.thy ===== *)
theory DiscoveryScenarios
  imports Scenarios DiscoveryPipeline
begin

text \<open>
  The discovery on the in-memory API server: an \<open>Update\<close> operation that satisfies its contract, a Zot
  registry with one component, and concrete runs of the webhook, the stages and the writer.
\<close>

section \<open>Updates in memory\<close>

definition memUpdate ::
  "(mem \<Rightarrow> ('spec, 'status) object list) \<Rightarrow>
   ((('spec, 'status) object list \<Rightarrow> ('spec, 'status) object list) \<Rightarrow> mem \<Rightarrow> mem) \<Rightarrow>
   ('spec, 'status) object \<Rightarrow> ('spec, 'status) object \<Rightarrow> (mem, api_error + ('spec, 'status) object) state" where
  "memUpdate get put base new =
     memWrite get put (objectKey new)
       (\<lambda>old. let x = replaced (om_generation (metadata old) + 1) old new in (settle x, x))"

text \<open>A reference \<open>scheme://host/repository:version\<close>.\<close>

definition memParseRef :: "string \<Rightarrow> go_error + ref_spec" where
  "memParseRef s =
     (let scheme = takeWhile (\<lambda>c. c \<noteq> CHR '':'') s; rest = drop (length scheme + 3) s;
          host = takeWhile (\<lambda>c. c \<noteq> CHR ''/'') rest; path = drop (length host + 1) rest
      in if CHR '':'' \<in> set path
         then Inr \<lparr>rs_scheme = scheme, rs_host = host, rs_repository = beforeLast CHR '':'' path, rs_version = afterLast CHR '':'' path\<rparr>
         else Inl (ErrorText ''no version''))"

definition memWriter :: "mem writer_lib" where
  "memWriter =
     \<lparr>wl_parseRef = memParseRef, wl_accessSpecForSpec = (\<lambda>acc. Inr (OciArtifact acc)), wl_retry = (\<lambda>_ op. op),
      wl_updateComponent = memUpdate mem_components mem_components_update,
      wl_updateComponentVersion = memUpdate mem_componentversions mem_componentversions_update\<rparr>"

lemma memUpdate_law:
  assumes "\<And>s. sel (view s) = lookup (get s)"
    and "\<And>s k v. (\<And>x. v = Some x \<Longrightarrow> objectKey x = k) \<Longrightarrow> view (put (store k v) s) = upd (\<lambda>m. m(k := v)) (view s)"
  shows "wp (memUpdate get put base new) (\<lambda>r s'. case r of
      Inl err \<Rightarrow> view s' = view s
    | Inr x \<Rightarrow> (\<exists>old g. sel (view s) (objectKey new) = Some old \<and> x = replaced g old new \<and>
        view s' = upd (\<lambda>m. m(objectKey new := settle x)) (view s))) s"
  unfolding memUpdate_def
  by (rule memWrite_wp [of sel view get put upd, OF assms]) (auto simp: Let_def dest: settle_key)

lemma memUpdate_laws:
  "updating_axioms cl_components cl_components_update memView (wl_updateComponent memWriter)"
  "updating_axioms cl_componentversions cl_componentversions_update memView (wl_updateComponentVersion memWriter)"
  unfolding memWriter_def writer_lib.simps
  using memUpdate_law [of cl_components memView mem_components mem_components_update cl_components_update]
    memUpdate_law [of cl_componentversions memView mem_componentversions mem_componentversions_update cl_componentversions_update]
  by (auto intro!: updating_axioms.intro simp: memView_def lookup_store)

interpretation memw: writer_laws memKube memWriter memView
  by (intro writer_laws.intro updating.intro mem.kube_laws_axioms memKube_resources memUpdate_laws)

section \<open>A Zot registry\<close>

definition zotMain :: registry where
  "zotMain =
     \<lparr>metadata = metaIn ''apps'' ''zot-main'' [],
      spec = \<lparr>reg_hostname = ''ghcr.io'', reg_plainHTTP = False, reg_solarSecretRef = None, reg_targetPullSecretName = '''',
              reg_flavor = ''zot'', reg_webhookPath = ''events'', reg_scanInterval = Some 60\<rparr>,
      status = \<lparr>reg_conditions = []\<rparr>\<rparr>"

definition zotProvider :: registry_provider where
  "zotProvider = fst (registerRegistry zotMain None newRegistryProvider)"

text \<open>A push of \<open>acme/nginx:v2\<close>, its deletion, and a version found by a scan.\<close>

definition digestV2 :: string where
  "digestV2 = ''sha256:4bc453b53cb3d914b45f4b250294236adba2c0e09ff6f03793949e7e39fd4cc1''"

definition pushV2 :: repository_event where
  "pushV2 = \<lparr>ev_registry = ''zot-main'', ev_repository = ''acme/component-descriptors/nginx'', ev_version = ''v2'',
     ev_digest = digestV2, ev_type = EventUpdated, ev_timestamp = 1\<rparr>"

definition removeV2 :: repository_event where
  "removeV2 = pushV2\<lparr>ev_version := digestV2, ev_type := EventDeleted\<rparr>"

definition scanV2 :: repository_event where
  "scanV2 = pushV2\<lparr>ev_digest := '''', ev_type := EventCreated\<rparr>"

definition asVersion :: "repository_event \<Rightarrow> component_version_event" where
  "asVersion ev = \<lparr>ce_source = ev, ce_namespace = ''acme'', ce_component = ''nginx'', ce_timestamp = 0\<rparr>"

definition nginxChart :: ocm_resource where
  "nginxChart = \<lparr>or_name = ''chart'', or_type = ''helmChart'', or_access = ''https://ghcr.io/acme/chart:v2'', or_digest = Some ''d2''\<rparr>"

definition nginxDescriptor :: component_descriptor where
  "nginxDescriptor = \<lparr>cd_name = ''nginx'', cd_resources = [nginxChart]\<rparr>"

definition asWrite :: "repository_event \<Rightarrow> write_event" where
  "asWrite ev = \<lparr>we_source = asVersion ev,
     we_helm = emptyHelmDiscovery\<lparr>hd_resourceName := ''chart'', hd_name := ''nginx'', hd_digest := ''d2''\<rparr>,
     we_componentSpec = nginxDescriptor, we_timestamp = 0\<rparr>"

definition writeEvent :: "repository_event \<Rightarrow> (mem, unit processed) state" where
  "writeEvent ev = writerProcess memKube memWriter ''apps'' zotProvider None (asWrite ev)"

definition refV2 :: ref_spec where
  "refV2 = \<lparr>rs_scheme = ''https'', rs_host = ''ghcr.io'', rs_repository = ''acme/nginx'', rs_version = ''v2''\<rparr>"

lemma write_refs:
  "getOciRef memWriter zotProvider (asWrite pushV2) = Inr refV2"
  "getOciRef memWriter zotProvider (asWrite scanV2) = Inr refV2"
  by code_simp+

lemma write_runs:
  "run_state (writeEvent pushV2) demo = (Finished (Inr None), after (writeEvent pushV2) demo)"
  "run_state (writeEvent scanV2) demo = (Finished (Inr None), after (writeEvent scanV2) demo)"
  "run_state (writeEvent removeV2) (after (writeEvent pushV2) demo) = (Finished (Inr None), after (writeEvent removeV2) (after (writeEvent pushV2) demo))"
  "run_state (writeEvent removeV2) (after (writeEvent scanV2) demo) = (Finished (Inr None), after (writeEvent removeV2) (after (writeEvent scanV2) demo))"
  by (rule run_after, code_simp)+

section \<open>Writing and deleting\<close>


theorem writer_gives_up_protection_witness:
  "cl_componentversions (memView (after (writeEvent pushV2) demo)) (inApps ''nginx-v1'') = Some nginxV1 \<and>
   (\<exists>b'. cl_components (memView (after (writeEvent pushV2) demo)) (componentKey ''apps'' (asWrite pushV2)) = Some b' \<and>
      \<not> deleting b' \<and> \<not> hasFinalizer componentRefFinalizer b')"
proof (rule writer_gives_up_protection [where e = memKube and w = memWriter and p = zotProvider and s = demo and ref = refV2 and b = nginx])
  show "run_state (writerProcess memKube memWriter ''apps'' zotProvider None (asWrite pushV2)) demo =
    (Finished (Inr None), after (writeEvent pushV2) demo)"
    using write_runs(1) by (simp add: writeEvent_def)
qed (rule memw.writer_laws_axioms write_refs | code_simp)+

theorem written_then_deleted_witness:
  "cl_componentversions (memView (after (writeEvent pushV2) demo)) (versionKey ''apps'' refV2 (asWrite pushV2)) \<noteq> None \<and>
   goneOrDeleting (cl_componentversions (memView (after (writeEvent removeV2) (after (writeEvent pushV2) demo)))
     (versionKey ''apps'' refV2 (asWrite pushV2)))"
proof (rule written_then_deleted [where e = memKube and w = memWriter and p = zotProvider and s = demo and del = "asWrite removeV2"])
  show "run_state (writerProcess memKube memWriter ''apps'' zotProvider None (asWrite pushV2)) demo =
    (Finished (Inr None), after (writeEvent pushV2) demo)"
    using write_runs(1) by (simp add: writeEvent_def)
  show "run_state (writerProcess memKube memWriter ''apps'' zotProvider None (asWrite removeV2)) (after (writeEvent pushV2) demo) =
    (Finished (Inr None), after (writeEvent removeV2) (after (writeEvent pushV2) demo))"
    using write_runs(3) by (simp add: writeEvent_def)
qed (rule memw.writer_laws_axioms write_refs | code_simp)+

theorem undigested_version_kept_witness:
  "cl_componentversions (memView (after (writeEvent scanV2) demo)) (versionKey ''apps'' refV2 (asWrite scanV2)) \<noteq> None \<and>
   cl_componentversions (memView (after (writeEvent removeV2) (after (writeEvent scanV2) demo))) (versionKey ''apps'' refV2 (asWrite scanV2)) =
   cl_componentversions (memView (after (writeEvent scanV2) demo)) (versionKey ''apps'' refV2 (asWrite scanV2))"
proof (rule undigested_version_kept [where e = memKube and w = memWriter and p = zotProvider and s = demo and del = "asWrite removeV2"])
  show "run_state (writerProcess memKube memWriter ''apps'' zotProvider None (asWrite scanV2)) demo =
    (Finished (Inr None), after (writeEvent scanV2) demo)"
    using write_runs(2) by (simp add: writeEvent_def)
  show "run_state (writerProcess memKube memWriter ''apps'' zotProvider None (asWrite removeV2)) (after (writeEvent scanV2) demo) =
    (Finished (Inr None), after (writeEvent removeV2) (after (writeEvent scanV2) demo))"
    using write_runs(4) by (simp add: writeEvent_def)
qed (rule memw.writer_laws_axioms write_refs | code_simp)+

theorem writer_deletes_exactly_witness:
  "goneOrDeleting (cl_componentversions (memView (after (writeEvent removeV2) (after (writeEvent pushV2) demo))) (inApps ''nginx-v2'')) \<and>
   cl_componentversions (memView (after (writeEvent removeV2) (after (writeEvent pushV2) demo))) (inApps ''nginx-v1'') =
   cl_componentversions (memView (after (writeEvent pushV2) demo)) (inApps ''nginx-v1'')"
proof -
  have run: "run_state (writerProcess memKube memWriter ''apps'' zotProvider None (asWrite removeV2)) (after (writeEvent pushV2) demo) =
    (Finished (Inr None), after (writeEvent removeV2) (after (writeEvent pushV2) demo))"
    using write_runs(3) by (simp add: writeEvent_def)
  have deletion: "ev_type (ce_source (we_source (asWrite removeV2))) = EventDeleted" by code_simp
  note deleted = writer_deletes_exactly [OF memw.writer_laws_axioms deletion run]
  have "\<exists>x. cl_componentversions (memView (after (writeEvent pushV2) demo)) (inApps ''nginx-v2'') = Some x \<and> digestVersion ''apps'' (asWrite removeV2) x"
    by (rule exSome) code_simp
  moreover have "\<exists>x. cl_componentversions (memView (after (writeEvent pushV2) demo)) (inApps ''nginx-v1'') = Some x \<and> \<not> digestVersion ''apps'' (asWrite removeV2) x"
    by (rule exSome) code_simp
  ultimately show ?thesis
    using conjunct1 [OF deleted] conjunct1 [OF conjunct2 [OF deleted], THEN spec, of "inApps ''nginx-v1''"] by (metis option.inject)
qed

section \<open>The pipeline\<close>

definition demoCodecs :: codecs where
  "demoCodecs =
     \<lparr>parseCloudEvent = (\<lambda>req. Inr \<lparr>cloud_type = req_body req, cloud_time = 1, cloud_data = ''data''\<rparr>),
      parseZotData = (\<lambda>_. Inr \<lparr>zd_name = ''acme/component-descriptors/nginx'', zd_reference = ''v2'', zd_digest = digestV2,
        zd_manifest = '''', zd_mediaType = ''''\<rparr>),
      parseEnvelope = (\<lambda>body. Inr \<lparr>env_id = ''1'', env_timestamp = 1, env_type = body, env_data = ''data''\<rparr>),
      parseGenericData = (\<lambda>_. Inr \<lparr>gd_repository = ''acme/component-descriptors/nginx'', gd_version = Some ''v2''\<rparr>)\<rparr>"

definition post :: "string \<Rightarrow> string \<Rightarrow> http_request" where
  "post path body = \<lparr>req_method = ''POST'', req_path = path, req_headers = [], req_body = body, req_done = False\<rparr>"

definition zotRouter :: webhook_router where
  "zotRouter = \<lparr>wr_paths = [(''events'', zotServeHTTP demoCodecs zotMain)]\<rparr>"

definition zotSources :: sources where
  "zotSources = \<lparr>src_router = Some zotRouter, src_scanners = [\<lparr>rsc_registry = zotMain, rsc_creds = None, rsc_interval = 60\<rparr>]\<rparr>"

lemma zot_built: "newPipeline [(''zot'', zotServeHTTP demoCodecs)] zotProvider = Inr zotSources"
  by (simp add: newPipeline_def zotProvider_def registerRegistry_def newRegistryProvider_def getAll_def addWebhook_def
      addScanner_def registerPath_def newWebhookRouter_def zotSources_def zotRouter_def getCredentials_def Let_def
      zotMain_def metaIn_def newMeta_def)

theorem newPipeline_serves_witness:
  "routerServeHTTP zotRouter True (post ''/webhook/events'' ''zotregistry.image.updated'') emptyChannel =
     zotServeHTTP demoCodecs zotMain True (post ''/webhook/events'' ''zotregistry.image.updated'') emptyChannel \<and>
   map rsc_registry (src_scanners zotSources) = filter scansPeriodically (getAll zotProvider)"
proof -
  note built = newPipeline_serves [OF linkedHandlers_zot zot_built]
  have reg: "zotMain \<in> set (getAll zotProvider)" "reg_webhookPath (spec zotMain) \<noteq> ''''"
    by (simp_all add: zotProvider_def registerRegistry_def newRegistryProvider_def getAll_def Let_def zotMain_def)
  have "req_method (post path body) = ''POST''" "req_path (post path body) = path" for path body by (simp_all add: post_def)
  moreover have "''/webhook/events'' = ''/webhook/'' @ reg_webhookPath (spec zotMain)" by code_simp
  moreover have "src_router zotSources = Some zotRouter" by (simp add: zotSources_def)
  ultimately show ?thesis using conjunct1 [OF built] reg conjunct2 [OF conjunct2 [OF built]] by (metis option.inject)
qed

definition demoLib :: "mem ocm_lib" where
  "demoLib =
     \<lparr>oras_newRegistry = (\<lambda>_. None), oras_repositories = (\<lambda>_ _ _. ret ([[''acme/component-descriptors/nginx'', ''acme/chart'']], None)),
      ocm_repositoryForSpec = (\<lambda>_ _. ret (Inr ())), ocm_lookupComponent = (\<lambda>_ _ _. ret (Inr ())),
      ocm_listVersions = (\<lambda>_ _ _. ret (Inr [''v1'', ''v2''])),
      ocm_lookupComponentVersion = (\<lambda>_ _ _ _. ret (Inr \<lparr>va_descriptor = nginxDescriptor, va_resources = [nginxChart]\<rparr>)),
      ocm_retryLookup = (\<lambda>_ _. ret (Inl (ErrorText ''no retries''))),
      helm_download = (\<lambda>_ _. ret (Inr ''chart.tgz'')), helm_open = (\<lambda>p. ret (Inr p)), helm_loadArchive = (\<lambda>c. Inr c),
      helm_accessor = (\<lambda>_. Inr \<lparr>hc_name = ''nginx'', hc_metadata = [(''Version'', ''2.0.0'')], hc_values = '''', hc_schema = ''''\<rparr>),
      helm_getValuesTemplate = (\<lambda>_ _. ret (Inl TemplateNotFound)), helm_getRenderingInput = (\<lambda>_. ret (Inr '''')),
      helm_render = (\<lambda>_ _. Inr '''')\<rparr>"

definition demoAssembly :: "mem assembly" where
  "demoAssembly =
     \<lparr>su_kube = memKube, su_lib = demoLib, su_writer = memWriter, su_namespace = ''apps'', su_provider = zotProvider,
      su_sources = zotSources, su_rateLimiter = ret (Inr ())\<rparr>"

definition queued :: "mem pipeline" where
  "queued = (startPipeline demo)\<lparr>pl_repoEvents := send pushV2 emptyChannel\<rparr>"

definition qualifiedPush :: "mem pipeline" where
  "qualifiedPush = qualifierTurn demoAssembly (hd (ch_buffer (pl_repoEvents queued))) queued"

definition filteredPush :: "mem pipeline" where
  "filteredPush = filterTurn demoAssembly (hd (ch_buffer (pl_filterInput qualifiedPush))) qualifiedPush"

definition handledPush :: "mem pipeline" where
  "handledPush = handlerTurn demoAssembly (hd (ch_buffer (pl_handlerInput filteredPush))) filteredPush"

definition writtenPush :: "mem pipeline" where
  "writtenPush = writerTurn demoAssembly (hd (ch_buffer (pl_writerInput handledPush))) handledPush"

lemma push_run: "(advance demoAssembly)\<^sup>*\<^sup>* (startPipeline demo) writtenPush"
proof -
  have "advance demoAssembly (startPipeline demo) queued"
    unfolding queued_def
    by (rule adv_webhook [where router = zotRouter and pick = True and req = "post ''/webhook/events'' ''zotregistry.image.updated''" and resp = "(202, '''')"])
       (simp add: startPipeline_def, simp add: demoAssembly_def zotSources_def, code_simp)
  moreover have "advance demoAssembly queued qualifiedPush"
    unfolding qualifiedPush_def by (rule adv_qualifier [where rest = "[]"]) code_simp+
  moreover have "advance demoAssembly qualifiedPush filteredPush"
    unfolding filteredPush_def by (rule adv_filter [where rest' = "[]"]) code_simp+
  moreover have "advance demoAssembly filteredPush handledPush"
    unfolding handledPush_def by (rule adv_handler [where rest' = "[]"]) code_simp+
  moreover have "advance demoAssembly handledPush writtenPush"
    unfolding writtenPush_def by (rule adv_writer [where rest'' = "[]"]) code_simp+
  ultimately show ?thesis by (meson converse_rtranclp_into_rtranclp rtranclp.rtrancl_refl)
qed

theorem pipeline_invariant_witness:
  "pipelineInv demoAssembly writtenPush \<and> \<not> pl_crashed writtenPush \<and>
   lookup (mem_componentversions (pl_world writtenPush)) (inApps ''nginx-v2'') \<noteq> None"
proof (intro conjI)
  show "pipelineInv demoAssembly writtenPush"
  proof (rule pipeline_invariant [OF linkedHandlers_zot _ _ _ push_run])
    show "newPipeline [(''zot'', zotServeHTTP demoCodecs)] (su_provider demoAssembly) = Inr (su_sources demoAssembly)"
      using zot_built by (simp add: demoAssembly_def)
    show "providerInv (su_provider demoAssembly)"
      by (simp add: demoAssembly_def zotProvider_def providerInv_register providerInv_new)
  qed (simp add: demoAssembly_def zotProvider_def registerRegistry_def newRegistryProvider_def is_gomap_def Let_def)
qed code_simp+

section \<open>Lost events\<close>

theorem generic_deletion_ineffective_witness:
  "fst ((204, '''') :: http_response) = 204 \<and> run_state (writeEvent (removeV2\<lparr>ev_version := ''v2'', ev_digest := ''''\<rparr>)) demo =
     (Finished (Inl (ErrorText ''cannot delete component version: no digest available'')), demo)"
  unfolding writeEvent_def
  by (rule generic_deletion_ineffective [where c = demoCodecs and reg = zotMain and pick = True and ch = emptyChannel and
        req = "post ''/webhook/events'' ''image.deleted''" and ev = "removeV2\<lparr>ev_version := ''v2'', ev_digest := ''''\<rparr>"])
     code_simp+

definition longName :: string where
  "longName = replicate 62 CHR ''a''"

definition longVersion :: component_version where
  "longVersion = nginxV1\<lparr>metadata := metaIn ''apps'' longName []\<rparr>"

theorem long_name_versions_dropped_witness:
  "fst (run_state (filterProcess memKube ''apps'' ((asVersion scanV2)\<lparr>ce_component := longName\<rparr>)) (demo\<lparr>mem_componentversions := [longVersion]\<rparr>)) =
     Finished (Inr None)"
proof -
  let ?s = "demo\<lparr>mem_componentversions := [longVersion]\<rparr>" and ?ev = "(asVersion scanV2)\<lparr>ce_component := longName\<rparr>"
  have "fst (run_state (filterProcess memKube ''apps'' ?ev) ?s) = Finished (Inr None) \<or>
    (\<exists>err. fst (run_state (filterProcess memKube ''apps'' ?ev) ?s) = Finished (Inl err))"
    by (rule long_name_versions_dropped [where e = memKube and view = memView and s = ?s and ns = "''apps''" and ev = ?ev and
          other = "''v1''" and x = longVersion and s' = "after (filterProcess memKube ''apps'' ?ev) ?s"])
       (rule mem.kube_laws_axioms | code_simp)+
  moreover have "case fst (run_state (filterProcess memKube ''apps'' ?ev) ?s) of Finished (Inl _) \<Rightarrow> False | _ \<Rightarrow> True"
    by code_simp
  ultimately show ?thesis by auto
qed

end
