(* ===== verification/WebSession.thy ===== *)
theory WebSession
  imports Prelude
begin

text \<open>
  \<open>pkg/ui/session/store.go\<close>: the sessions of the web backend, and the programs in which its handlers are
  written. The backend serves requests concurrently; a request touches the session store only in
  critical sections, and between them it calls Kubernetes or the identity provider. A handler is
  therefore a tree of such steps, to be run alone (\<open>runAct\<close>) or interleaved with other requests.
\<close>

section \<open>Requests and responses\<close>

text \<open>A request as the handlers see it: \<open>rq_values\<close> are the path values that the multiplexer filled in.\<close>

record web_request =
  rq_method :: string
  rq_path :: string
  rq_cookies :: "string gomap"
  rq_query :: "string gomap"
  rq_values :: "string gomap"
  rq_body :: string

record cookie =
  ck_name :: string
  ck_value :: string
  ck_path :: string
  ck_httpOnly :: bool
  ck_secure :: bool
  ck_maxAge :: int

record kobject =
  ko_namespace :: string
  ko_name :: string
  ko_content :: string

datatype k8s_error = StatusError int string | OtherError string

datatype json =
    JBool bool
  | JString string
  | JStrings "string list"
  | JObject "(string \<times> json) list"
  | JResource kobject
  | JResources "kobject list"
  | JStatus k8s_error

datatype body = Empty | Plain string | Json json | EventStream

record web_response =
  rs_status :: int
  rs_cookies :: "cookie list"
  rs_location :: string
  rs_body :: body

text \<open>\<open>w.WriteHeader\<close>, \<open>http.Error\<close> and \<open>http.Redirect\<close>.\<close>

definition statusOnly :: "int \<Rightarrow> web_response" where
  "statusOnly code = \<lparr>rs_status = code, rs_cookies = [], rs_location = '''', rs_body = Empty\<rparr>"

definition failure :: "string \<Rightarrow> int \<Rightarrow> web_response" where
  "failure msg code = (statusOnly code)\<lparr>rs_body := Plain (msg @ [CHR 0x0A])\<rparr>"

definition redirect :: "string \<Rightarrow> web_response" where
  "redirect url = (statusOnly 302)\<lparr>rs_location := url\<rparr>"

definition getParam :: "string \<Rightarrow> string gomap \<Rightarrow> string" where
  "getParam k m = (case map_of m k of None \<Rightarrow> '''' | Some v \<Rightarrow> v)"

section \<open>The store\<close>

definition cookieName :: string where
  "cookieName = ''solar-session''"

definition stateCookieName :: string where
  "stateCookieName = ''solar-oidc-state''"

record session_data =
  sd_username :: string
  sd_groups :: "string list"
  sd_idToken :: string
  sd_accessToken :: string
  sd_impersonatingAs :: string
  sd_impersonatingGroups :: "string list"
  sd_canImpersonate :: "bool option"
  sd_canListAllNamespaces :: "bool option"

record session_store =
  ss_sessions :: "session_data gomap"
  ss_key :: "nat list"

text \<open>\<open>hex.DecodeString\<close>; the offending byte is not part of the error text here.\<close>

definition hexValue :: "char \<Rightarrow> nat option" where
  "hexValue c =
     (if CHR ''0'' \<le> c \<and> c \<le> CHR ''9'' then Some (of_char c - 48)
      else if CHR ''a'' \<le> c \<and> c \<le> CHR ''f'' then Some (of_char c - 87)
      else if CHR ''A'' \<le> c \<and> c \<le> CHR ''F'' then Some (of_char c - 55)
      else None)"

fun hexDecode :: "string \<Rightarrow> go_error + nat list" where
  "hexDecode [] = Inr []"
| "hexDecode [c] =
     (if hexValue c = None then Inl (ErrorText ''encoding/hex: invalid byte'')
      else Inl (ErrorText ''encoding/hex: odd length hex string''))"
| "hexDecode (a # b # s) =
     (case (hexValue a, hexValue b) of
        (Some x, Some y) \<Rightarrow> (case hexDecode s of Inl err \<Rightarrow> Inl err | Inr bytes \<Rightarrow> Inr ((16 * x + y) # bytes))
      | _ \<Rightarrow> Inl (ErrorText ''encoding/hex: invalid byte''))"

text \<open>\<open>crypto/rand\<close> fills its buffer and does not fail; \<open>random\<close> are the 32 bytes it delivers.\<close>

definition newStore :: "nat list \<Rightarrow> string \<Rightarrow> go_error + session_store" where
  "newStore random hexKey =
     (if hexKey \<noteq> '''' then
        (case hexDecode hexKey of
           Inl err \<Rightarrow> Inl (Wrapped ''invalid session key'' err)
         | Inr key \<Rightarrow>
             if length key \<noteq> 32
             then Inl (ErrorText (''session key must be 32 bytes (64 hex chars), got '' @ itoa (int (length key))))
             else Inr \<lparr>ss_sessions = [], ss_key = key\<rparr>)
      else Inr \<lparr>ss_sessions = [], ss_key = random\<rparr>)"

definition storeGet :: "session_store \<Rightarrow> web_request \<Rightarrow> session_data option" where
  "storeGet s r = (case map_of (rq_cookies r) cookieName of None \<Rightarrow> None | Some i \<Rightarrow> map_of (ss_sessions s) i)"

definition putSession :: "string \<Rightarrow> session_data \<Rightarrow> session_store \<Rightarrow> session_store" where
  "putSession i d s = s\<lparr>ss_sessions := gomap_put i d (ss_sessions s)\<rparr>"

definition sessionCookie :: "string \<Rightarrow> int \<Rightarrow> cookie" where
  "sessionCookie v age =
     \<lparr>ck_name = cookieName, ck_value = v, ck_path = ''/'', ck_httpOnly = True, ck_secure = True, ck_maxAge = age\<rparr>"

text \<open>The mutators share the lookup of the session of a request.\<close>

definition updateSession :: "(session_data \<Rightarrow> session_data) \<Rightarrow> web_request \<Rightarrow> session_store \<Rightarrow> session_store \<times> bool" where
  "updateSession f r s =
     (case map_of (rq_cookies r) cookieName of
        None \<Rightarrow> (s, False)
      | Some i \<Rightarrow> (case map_of (ss_sessions s) i of None \<Rightarrow> (s, False) | Some d \<Rightarrow> (putSession i (f d) s, True)))"

definition setImpersonation :: "string \<Rightarrow> string list \<Rightarrow> web_request \<Rightarrow> session_store \<Rightarrow> session_store \<times> bool" where
  "setImpersonation username groups =
     updateSession (\<lambda>d. d\<lparr>sd_impersonatingAs := username, sd_impersonatingGroups := groups, sd_canListAllNamespaces := None\<rparr>)"

definition setCanImpersonate :: "bool \<Rightarrow> web_request \<Rightarrow> session_store \<Rightarrow> session_store \<times> bool" where
  "setCanImpersonate allowed = updateSession (\<lambda>d. d\<lparr>sd_canImpersonate := Some allowed\<rparr>)"

definition clearImpersonation :: "web_request \<Rightarrow> session_store \<Rightarrow> session_store \<times> bool" where
  "clearImpersonation =
     updateSession (\<lambda>d. d\<lparr>sd_impersonatingAs := '''', sd_impersonatingGroups := [], sd_canListAllNamespaces := None\<rparr>)"

definition setCanListAllNamespaces :: "bool \<Rightarrow> web_request \<Rightarrow> session_store \<Rightarrow> session_store \<times> bool" where
  "setCanListAllNamespaces allowed = updateSession (\<lambda>d. d\<lparr>sd_canListAllNamespaces := Some allowed\<rparr>)"

definition clearSession :: "web_request \<Rightarrow> session_store \<Rightarrow> session_store" where
  "clearSession r s =
     (case map_of (rq_cookies r) cookieName of
        None \<Rightarrow> s
      | Some i \<Rightarrow> s\<lparr>ss_sessions := filter (\<lambda>(k, _). k \<noteq> i) (ss_sessions s)\<rparr>)"

definition clearedCookie :: cookie where
  "clearedCookie = sessionCookie '''' (- 1)"

definition stateCookie :: "string \<Rightarrow> int \<Rightarrow> cookie" where
  "stateCookie v age =
     \<lparr>ck_name = stateCookieName, ck_value = v, ck_path = ''/api/auth/'', ck_httpOnly = True, ck_secure = True, ck_maxAge = age\<rparr>"

definition setState :: "string \<Rightarrow> cookie" where
  "setState st = stateCookie st 300"

definition getState :: "web_request \<Rightarrow> string" where
  "getState r = getParam stateCookieName (rq_cookies r)"

definition clearState :: cookie where
  "clearState = stateCookie '''' (- 1)"

end
