(* ===== verification/WebProgram.thy ===== *)
theory WebProgram
  imports WebSession
begin

text \<open>
  The programs that requests run, and their semantics. A program is a tree of atomic steps: a critical
  section of the session store, or a call of the outside that is resumed with its answer. \<open>runAct\<close> runs
  one request alone; \<open>webStep\<close> interleaves the steps of any number of requests. \<open>safe\<close> is the proof rule
  for the latter: an invariant of the store that every step of a program keeps, whatever other requests
  do in between, where a program may rely on whom a session identifier was once issued to.
\<close>

section \<open>Calls to the outside\<close>

text \<open>The settings of a \<open>rest.Config\<close> that identify the caller; \<open>rc_host\<close> stands for all others.\<close>

record rest_config =
  rc_host :: string
  rc_bearerToken :: string
  rc_bearerTokenFile :: string
  rc_certData :: string
  rc_certFile :: string
  rc_keyData :: string
  rc_keyFile :: string
  rc_impersonateUser :: string
  rc_impersonateGroups :: "string list"

record gvr =
  gvr_group :: string
  gvr_version :: string
  gvr_resource :: string

record token_claims =
  tc_email :: string
  tc_name :: string
  tc_groups :: "string list"

record oauth_token =
  ot_accessToken :: string
  ot_idToken :: "string option"

datatype 'a act =
    Done 'a
  | Locked "session_store \<Rightarrow> session_store \<times> 'a act"
  | Create session_data "string \<Rightarrow> 'a act"
  | Random "string \<Rightarrow> 'a act"
  | Review rest_config string string "go_error + bool \<Rightarrow> 'a act"
  | Rules rest_config string "go_error + string list list \<Rightarrow> 'a act"
  | ListObjects rest_config gvr string "k8s_error + kobject list \<Rightarrow> 'a act"
  | GetObject rest_config gvr string string "k8s_error + kobject \<Rightarrow> 'a act"
  | Exchange string "go_error + oauth_token \<Rightarrow> 'a act"
  | Verify string "go_error + (go_error + token_claims) \<Rightarrow> 'a act"

text \<open>\<open>Create\<close> draws a session identifier and stores the session under it; \<open>Verify\<close> answers with the claims
  of the verified token, which may still fail to parse.\<close>

primrec bindA :: "'a act \<Rightarrow> ('a \<Rightarrow> 'b act) \<Rightarrow> 'b act" where
  "bindA (Done a) k = k a"
| "bindA (Locked f) k = Locked (map_prod id (\<lambda>p. bindA p k) \<circ> f)"
| "bindA (Create d c) k = Create d ((\<lambda>p. bindA p k) \<circ> c)"
| "bindA (Random c) k = Random ((\<lambda>p. bindA p k) \<circ> c)"
| "bindA (Review cfg v r c) k = Review cfg v r ((\<lambda>p. bindA p k) \<circ> c)"
| "bindA (Rules cfg n c) k = Rules cfg n ((\<lambda>p. bindA p k) \<circ> c)"
| "bindA (ListObjects cfg g n c) k = ListObjects cfg g n ((\<lambda>p. bindA p k) \<circ> c)"
| "bindA (GetObject cfg g n m c) k = GetObject cfg g n m ((\<lambda>p. bindA p k) \<circ> c)"
| "bindA (Exchange code c) k = Exchange code ((\<lambda>p. bindA p k) \<circ> c)"
| "bindA (Verify t c) k = Verify t ((\<lambda>p. bindA p k) \<circ> c)"

text \<open>Induction over the continuations of a program.\<close>

lemma act_continuations [case_names Done Locked Create Random Review Rules ListObjects GetObject Exchange Verify]:
  assumes "\<And>a. P (Done a)" and "\<And>f. (\<And>s. P (snd (f s))) \<Longrightarrow> P (Locked f)"
    and "\<And>d c. (\<And>i. P (c i)) \<Longrightarrow> P (Create d c)" and "\<And>c. (\<And>x. P (c x)) \<Longrightarrow> P (Random c)"
    and "\<And>cfg v r c. (\<And>x. P (c x)) \<Longrightarrow> P (Review cfg v r c)" and "\<And>cfg n c. (\<And>x. P (c x)) \<Longrightarrow> P (Rules cfg n c)"
    and "\<And>cfg g n c. (\<And>x. P (c x)) \<Longrightarrow> P (ListObjects cfg g n c)"
    and "\<And>cfg g n m c. (\<And>x. P (c x)) \<Longrightarrow> P (GetObject cfg g n m c)"
    and "\<And>code c. (\<And>x. P (c x)) \<Longrightarrow> P (Exchange code c)" and "\<And>t c. (\<And>x. P (c x)) \<Longrightarrow> P (Verify t c)"
  shows "P p"
proof (induction p)
  case (Locked f)
  show ?case by (rule assms(2), rule Locked [OF rangeI]) (auto simp: prod_set_defs)
qed (use assms in \<open>auto intro: assms\<close>)

section \<open>One request alone\<close>

record web_env =
  en_newID :: "session_store \<Rightarrow> string"
  en_random :: string
  en_review :: "rest_config \<Rightarrow> string \<Rightarrow> string \<Rightarrow> go_error + bool"
  en_rules :: "rest_config \<Rightarrow> string \<Rightarrow> go_error + string list list"
  en_list :: "rest_config \<Rightarrow> gvr \<Rightarrow> string \<Rightarrow> k8s_error + kobject list"
  en_get :: "rest_config \<Rightarrow> gvr \<Rightarrow> string \<Rightarrow> string \<Rightarrow> k8s_error + kobject"
  en_exchange :: "string \<Rightarrow> go_error + oauth_token"
  en_verify :: "string \<Rightarrow> go_error + (go_error + token_claims)"

primrec runAct :: "web_env \<Rightarrow> 'a act \<Rightarrow> session_store \<Rightarrow> 'a \<times> session_store" where
  "runAct env (Done a) = (\<lambda>s. (a, s))"
| "runAct env (Locked f) = (\<lambda>s. case map_prod id (runAct env) (f s) of (s', g) \<Rightarrow> g s')"
| "runAct env (Create d c) = (\<lambda>s. let i = en_newID env s in (runAct env \<circ> c) i (putSession i d s))"
| "runAct env (Random c) = (runAct env \<circ> c) (en_random env)"
| "runAct env (Review cfg v r c) = (runAct env \<circ> c) (en_review env cfg v r)"
| "runAct env (Rules cfg n c) = (runAct env \<circ> c) (en_rules env cfg n)"
| "runAct env (ListObjects cfg g n c) = (runAct env \<circ> c) (en_list env cfg g n)"
| "runAct env (GetObject cfg g n m c) = (runAct env \<circ> c) (en_get env cfg g n m)"
| "runAct env (Exchange code c) = (runAct env \<circ> c) (en_exchange env code)"
| "runAct env (Verify t c) = (runAct env \<circ> c) (en_verify env t)"

lemma runAct_bind [simp]: "runAct env (bindA p k) s = (case runAct env p s of (a, s') \<Rightarrow> runAct env (k a) s')"
proof (induction p arbitrary: s rule: act_continuations)
  case (Locked f)
  show ?case by (cases "f s") (use Locked [of s] in simp)
qed (simp_all add: Let_def)

section \<open>Interleaved requests\<close>

text \<open>The state of the backend: the store, to whom each session identifier was issued, and the requests in
  progress. Identifiers are 32 random bytes and are taken to be new whenever one is drawn. Kubernetes
  answers an access review with what its rules say, or fails; all other answers are arbitrary.\<close>

record 'a web_state =
  ws_store :: session_store
  ws_issued :: "string \<Rightarrow> session_data option"
  ws_running :: "'a act list"

inductive webStep :: "(rest_config \<Rightarrow> string \<Rightarrow> string \<Rightarrow> bool) \<Rightarrow> 'a act set \<Rightarrow> 'a web_state \<Rightarrow> 'a web_state \<Rightarrow> bool"
  for allows handlers where
  ws_request: "p \<in> handlers \<Longrightarrow> webStep allows handlers W (W\<lparr>ws_running := p # ws_running W\<rparr>)"
| ws_locked: "n < length (ws_running W) \<Longrightarrow> ws_running W ! n = Locked f \<Longrightarrow> f (ws_store W) = (s', p) \<Longrightarrow>
    webStep allows handlers W (W\<lparr>ws_store := s', ws_running := (ws_running W)[n := p]\<rparr>)"
| ws_create: "n < length (ws_running W) \<Longrightarrow> ws_running W ! n = Create d c \<Longrightarrow> ws_issued W i = None \<Longrightarrow>
    webStep allows handlers W (W\<lparr>ws_store := putSession i d (ws_store W), ws_issued := (ws_issued W)(i \<mapsto> d),
      ws_running := (ws_running W)[n := c i]\<rparr>)"
| ws_random: "n < length (ws_running W) \<Longrightarrow> ws_running W ! n = Random c \<Longrightarrow>
    webStep allows handlers W (W\<lparr>ws_running := (ws_running W)[n := c x]\<rparr>)"
| ws_review: "n < length (ws_running W) \<Longrightarrow> ws_running W ! n = Review cfg v r c \<Longrightarrow>
    (case answer of Inl _ \<Rightarrow> True | Inr b \<Rightarrow> b = allows cfg v r) \<Longrightarrow>
    webStep allows handlers W (W\<lparr>ws_running := (ws_running W)[n := c answer]\<rparr>)"
| ws_rules: "n < length (ws_running W) \<Longrightarrow> ws_running W ! n = Rules cfg ns c1 \<Longrightarrow>
    webStep allows handlers W (W\<lparr>ws_running := (ws_running W)[n := c1 a1]\<rparr>)"
| ws_list: "n < length (ws_running W) \<Longrightarrow> ws_running W ! n = ListObjects cfg g ns c2 \<Longrightarrow>
    webStep allows handlers W (W\<lparr>ws_running := (ws_running W)[n := c2 a2]\<rparr>)"
| ws_get: "n < length (ws_running W) \<Longrightarrow> ws_running W ! n = GetObject cfg g ns m c3 \<Longrightarrow>
    webStep allows handlers W (W\<lparr>ws_running := (ws_running W)[n := c3 a3]\<rparr>)"
| ws_exchange: "n < length (ws_running W) \<Longrightarrow> ws_running W ! n = Exchange code c4 \<Longrightarrow>
    webStep allows handlers W (W\<lparr>ws_running := (ws_running W)[n := c4 a4]\<rparr>)"
| ws_verify: "n < length (ws_running W) \<Longrightarrow> ws_running W ! n = Verify t c5 \<Longrightarrow>
    webStep allows handlers W (W\<lparr>ws_running := (ws_running W)[n := c5 a5]\<rparr>)"

definition startWeb :: "session_store \<Rightarrow> 'a web_state" where
  "startWeb s = \<lparr>ws_store = s, ws_issued = (\<lambda>_. None), ws_running = []\<rparr>"

text \<open>An invariant of sessions that programs keep and a condition \<open>C\<close> on their calls of Kubernetes, where \<open>I d0 d\<close> relates a stored session to what was first
  stored under its identifier.\<close>

definition storeInv :: "(session_data \<Rightarrow> session_data \<Rightarrow> bool) \<Rightarrow> (string \<Rightarrow> session_data option) \<Rightarrow> session_store \<Rightarrow> bool" where
  "storeInv I issued s \<longleftrightarrow> (\<forall>i d. map_of (ss_sessions s) i = Some d \<longrightarrow> (\<exists>d0. issued i = Some d0 \<and> I d0 d))"

primrec safe :: "(session_data \<Rightarrow> session_data \<Rightarrow> bool) \<Rightarrow> (gvr option \<Rightarrow> rest_config \<Rightarrow> (string \<Rightarrow> session_data option) \<Rightarrow> bool) \<Rightarrow>
    (rest_config \<Rightarrow> string \<Rightarrow> string \<Rightarrow> bool) \<Rightarrow>
    ('a \<Rightarrow> (string \<Rightarrow> session_data option) \<Rightarrow> bool) \<Rightarrow> 'a act \<Rightarrow> (string \<Rightarrow> session_data option) \<Rightarrow> bool" where
  "safe I C allows Q (Done a) G \<longleftrightarrow> (\<forall>G'. G \<subseteq>\<^sub>m G' \<longrightarrow> Q a G')"
| "safe I C allows Q (Locked f) G \<longleftrightarrow> (\<forall>s G'. G \<subseteq>\<^sub>m G' \<longrightarrow> storeInv I G' s \<longrightarrow>
     storeInv I G' (fst (f s)) \<and> snd (map_prod id (safe I C allows Q) (f s)) G')"
| "safe I C allows Q (Create d c) G \<longleftrightarrow> I d d \<and> (\<forall>i G'. G \<subseteq>\<^sub>m G' \<longrightarrow> (safe I C allows Q \<circ> c) i G')"
| "safe I C allows Q (Random c) G \<longleftrightarrow> (\<forall>x. (safe I C allows Q \<circ> c) x G)"
| "safe I C allows Q (Review cfg v r c) G \<longleftrightarrow> (\<forall>G'. G \<subseteq>\<^sub>m G' \<longrightarrow> C None cfg G') \<and>
     (\<forall>answer. (case answer of Inl _ \<Rightarrow> True | Inr b \<Rightarrow> b = allows cfg v r) \<longrightarrow> (safe I C allows Q \<circ> c) answer G)"
| "safe I C allows Q (Rules cfg n c) G \<longleftrightarrow> (\<forall>G'. G \<subseteq>\<^sub>m G' \<longrightarrow> C None cfg G') \<and> (\<forall>a. (safe I C allows Q \<circ> c) a G)"
| "safe I C allows Q (ListObjects cfg g n c) G \<longleftrightarrow> (\<forall>G'. G \<subseteq>\<^sub>m G' \<longrightarrow> C (Some g) cfg G') \<and> (\<forall>a. (safe I C allows Q \<circ> c) a G)"
| "safe I C allows Q (GetObject cfg g n m c) G \<longleftrightarrow> (\<forall>G'. G \<subseteq>\<^sub>m G' \<longrightarrow> C None cfg G') \<and> (\<forall>a. (safe I C allows Q \<circ> c) a G)"
| "safe I C allows Q (Exchange code c) G \<longleftrightarrow> (\<forall>a. (safe I C allows Q \<circ> c) a G)"
| "safe I C allows Q (Verify t c) G \<longleftrightarrow> (\<forall>a. (safe I C allows Q \<circ> c) a G)"

lemma safe_mono: "safe I C allows Q p G \<Longrightarrow> G \<subseteq>\<^sub>m G' \<Longrightarrow> safe I C allows Q p G'"
proof (induction p arbitrary: G G' rule: act_continuations)
  case (Done a)
  then show ?case by simp (meson map_le_trans)
next
  case (Locked f)
  then show ?case by simp (meson map_le_trans)
next
  case (Create d c)
  then show ?case by simp (meson map_le_trans)
qed (simp_all, (meson map_le_trans)+)

lemma safe_bind:
  assumes "safe I C allows Q p G" and k: "\<And>a G'. Q a G' \<Longrightarrow> safe I C allows R (k a) G'"
  shows "safe I C allows R (bindA p k) G"
  using assms(1)
proof (induction p arbitrary: G rule: act_continuations)
  case (Done a)
  then show ?case using k by simp
next
  case (Locked f)
  have "snd (map_prod id (safe I C allows R) (map_prod id (\<lambda>p. bindA p k) (f s))) G'"
    if "snd (map_prod id (safe I C allows Q) (f s)) G'" for s G'
    using Locked.IH [of s G'] that by (cases "f s") simp
  with Locked.prems show ?case by simp
qed simp_all

text \<open>The proof rule: interleaved requests that are safe keep the invariant.\<close>

lemma webStep_safe:
  assumes "webStep allows handlers W W'" and handlers: "\<And>p. p \<in> handlers \<Longrightarrow> safe I C allows (\<lambda>_ _. True) p (\<lambda>_. None)"
    and "storeInv I (ws_issued W) (ws_store W)" "\<forall>p \<in> set (ws_running W). safe I C allows (\<lambda>_ _. True) p (ws_issued W)"
  shows "storeInv I (ws_issued W') (ws_store W') \<and> (\<forall>p \<in> set (ws_running W'). safe I C allows (\<lambda>_ _. True) p (ws_issued W'))"
proof -
  note run = assms(4) [THEN bspec, OF nth_mem]
  have upd: "\<forall>q \<in> set ((ws_running W)[n := p]). safe I C allows (\<lambda>_ _. True) q G"
    if "safe I C allows (\<lambda>_ _. True) p G" "ws_issued W \<subseteq>\<^sub>m G" for n p G
    using that assms(4) safe_mono set_update_subset_insert [of "ws_running W" n p] by fastforce
  have resume: ?thesis if "W' = W\<lparr>ws_running := (ws_running W)[n := q]\<rparr>" "safe I C allows (\<lambda>_ _. True) q (ws_issued W)" for n q
    using that upd [OF that(2)] assms(3) by simp
  from assms(1) show ?thesis
  proof cases
    case (ws_request p)
    have "safe I C allows (\<lambda>_ _. True) p (ws_issued W)" by (rule safe_mono [OF handlers]) (use ws_request in \<open>auto simp: map_le_def\<close>)
    with ws_request assms(3,4) show ?thesis by simp
  next
    case (ws_locked n f s' p)
    have "storeInv I (ws_issued W) s' \<and> safe I C allows (\<lambda>_ _. True) p (ws_issued W)"
      using run [OF ws_locked(2)] assms(3) unfolding ws_locked(3) by simp (metis fst_conv map_prod_simp ws_locked(4) map_le_refl snd_conv)
    with upd ws_locked(1) show ?thesis by auto
  next
    case (ws_create n d c i)
    have grow: "ws_issued W \<subseteq>\<^sub>m (ws_issued W)(i \<mapsto> d)" using ws_create(4) by (auto simp: map_le_def)
    have "I d d" "safe I C allows (\<lambda>_ _. True) (c i) ((ws_issued W)(i \<mapsto> d))"
      using run [OF ws_create(2)] grow unfolding ws_create(3) by simp_all
    then show ?thesis
      using upd [OF _ grow] ws_create(1,4) assms(3) by (auto simp: storeInv_def putSession_def)
  next
    case (ws_review n cfg v r c answer)
    then show ?thesis using run [OF ws_review(2)] by (intro resume [OF ws_review(1)]) simp
  next
    case (ws_random n c x)
    then show ?thesis using run [OF ws_random(2)] by (intro resume [OF ws_random(1)]) simp
  next
    case (ws_rules n cfg ns c1 a1)
    then show ?thesis using run [OF ws_rules(2)] by (intro resume [OF ws_rules(1)]) simp
  next
    case (ws_list n cfg g ns c2 a2)
    then show ?thesis using run [OF ws_list(2)] by (intro resume [OF ws_list(1)]) simp
  next
    case (ws_get n cfg g ns m c3 a3)
    then show ?thesis using run [OF ws_get(2)] by (intro resume [OF ws_get(1)]) simp
  next
    case (ws_exchange n code c4 a4)
    then show ?thesis using run [OF ws_exchange(2)] by (intro resume [OF ws_exchange(1)]) simp
  next
    case (ws_verify n t c5 a5)
    then show ?thesis using run [OF ws_verify(2)] by (intro resume [OF ws_verify(1)]) simp
  qed
qed

text \<open>The contract of a set of handlers, and what every interleaving of their requests then guarantees.\<close>

locale session_guarantee =
  fixes I :: "session_data \<Rightarrow> session_data \<Rightarrow> bool"
    and C :: "gvr option \<Rightarrow> rest_config \<Rightarrow> (string \<Rightarrow> session_data option) \<Rightarrow> bool"
    and allows :: "rest_config \<Rightarrow> string \<Rightarrow> string \<Rightarrow> bool"
    and handlers :: "'a act set"
  assumes handlers_safe: "p \<in> handlers \<Longrightarrow> safe I C allows (\<lambda>_ _. True) p (\<lambda>_. None)"
begin

lemma reachable:
  assumes "(webStep allows handlers)\<^sup>*\<^sup>* (startWeb s) W" and "storeInv I (\<lambda>_. None) s"
  shows "storeInv I (ws_issued W) (ws_store W) \<and> (\<forall>p \<in> set (ws_running W). safe I C allows (\<lambda>_ _. True) p (ws_issued W))"
  using assms(1)
proof (induction rule: rtranclp_induct)
  case base
  show ?case using assms(2) by (simp add: startWeb_def)
next
  case (step W W')
  then show ?case using webStep_safe [OF step.hyps(2) handlers_safe] by blast
qed

end

end
