(* ===== verification/WebAuth.thy ===== *)
theory WebAuth
  imports WebProgram
begin

text \<open>
  \<open>pkg/ui/auth\<close>: the two authentication providers of the web backend and the identity they lend to calls
  of Kubernetes. The OpenID Connect and OAuth libraries are parameters.
\<close>

section \<open>Providers\<close>

definition authModeToken :: string where
  "authModeToken = ''token''"

definition authModeImpersonate :: string where
  "authModeImpersonate = ''impersonate''"

record oidc_config =
  oc_issuer :: string
  oc_clientID :: string
  oc_clientSecret :: string
  oc_redirectURL :: string
  oc_authMode :: string
  oc_caCertFile :: string

text \<open>TLS roots of the HTTP client: the system's, or these and the given PEM certificates.\<close>

datatype http_client = SystemRoots | ExtraRoots string

record oauth_config =
  oa_clientID :: string
  oa_clientSecret :: string
  oa_redirectURL :: string
  oa_endpoint :: string
  oa_scopes :: "string list"

record oidc_lib =
  ol_readFile :: "string \<Rightarrow> go_error + string"
  ol_hasCertificates :: "string \<Rightarrow> bool"
  ol_newProvider :: "http_client \<Rightarrow> string \<Rightarrow> go_error + string"
  ol_authCodeURL :: "oauth_config \<Rightarrow> string \<Rightarrow> string"

record oidc_provider =
  op_oauth :: oauth_config
  op_authMode :: string
  op_httpClient :: http_client

datatype provider = NoopProvider | OIDCProvider oidc_provider

definition newHTTPClient :: "oidc_lib \<Rightarrow> string \<Rightarrow> go_error + http_client" where
  "newHTTPClient lib caCertFile =
     (if caCertFile = '''' then Inr SystemRoots
      else (case ol_readFile lib caCertFile of
          Inl err \<Rightarrow> Inl (Wrapped (''failed to read OIDC CA cert '' @ caCertFile) err)
        | Inr pem \<Rightarrow>
            if \<not> ol_hasCertificates lib pem then Inl (ErrorText (''no certificates found in OIDC CA cert '' @ caCertFile))
            else Inr (ExtraRoots pem)))"

definition newOIDCProvider :: "oidc_lib \<Rightarrow> oidc_config \<Rightarrow> go_error + provider" where
  "newOIDCProvider lib cfg =
     (case newHTTPClient lib (oc_caCertFile cfg) of
        Inl err \<Rightarrow> Inl err
      | Inr httpClient \<Rightarrow> (case ol_newProvider lib httpClient (oc_issuer cfg) of
          Inl err \<Rightarrow> Inl (Wrapped (''failed to create OIDC provider for issuer '' @ oc_issuer cfg) err)
        | Inr endpoint \<Rightarrow>
            let authMode = (if oc_authMode cfg = '''' then authModeToken else oc_authMode cfg) in
            Inr (OIDCProvider
              \<lparr>op_oauth =
                 \<lparr>oa_clientID = oc_clientID cfg, oa_clientSecret = oc_clientSecret cfg, oa_redirectURL = oc_redirectURL cfg,
                  oa_endpoint = endpoint, oa_scopes = [''openid'', ''profile'', ''email'', ''groups'']\<rparr>,
               op_authMode = authMode, op_httpClient = httpClient\<rparr>)))"

section \<open>Login\<close>

definition newSession :: "string \<Rightarrow> string list \<Rightarrow> string \<Rightarrow> string \<Rightarrow> session_data" where
  "newSession username groups idToken accessToken =
     \<lparr>sd_username = username, sd_groups = groups, sd_idToken = idToken, sd_accessToken = accessToken,
      sd_impersonatingAs = '''', sd_impersonatingGroups = [], sd_canImpersonate = None, sd_canListAllNamespaces = None\<rparr>"

text \<open>\<open>Store.Set\<close>: a new session, and the cookie that names it for a day.\<close>

definition setSession :: "session_data \<Rightarrow> (cookie \<Rightarrow> 'a act) \<Rightarrow> 'a act" where
  "setSession d k = Create d (\<lambda>i. k (sessionCookie i (24 * 60 * 60)))"

definition noopLogin :: "web_response act" where
  "noopLogin = setSession (newSession ''noop'' [] '''' '''') (\<lambda>c. Done ((redirect ''/'')\<lparr>rs_cookies := [c]\<rparr>))"

definition oidcLogin :: "oidc_lib \<Rightarrow> oidc_provider \<Rightarrow> web_response act" where
  "oidcLogin lib p =
     Random (\<lambda>st. Done ((redirect (ol_authCodeURL lib (op_oauth p) st))\<lparr>rs_cookies := [setState st]\<rparr>))"

definition claimedUser :: "token_claims \<Rightarrow> string" where
  "claimedUser c = (if tc_email c = '''' then tc_name c else tc_email c)"

definition oidcCallback :: "web_request \<Rightarrow> web_response act" where
  "oidcCallback r =
     (let code = getParam ''code'' (rq_query r);
          expectedState = getState r;
          actualState = getParam ''state'' (rq_query r);
          failed = (\<lambda>msg. Done ((failure msg 500)\<lparr>rs_cookies := [clearState]\<rparr>))
      in if code = '''' then Done (failure ''missing code parameter'' 400)
         else if expectedState = '''' \<or> actualState \<noteq> expectedState then Done (failure ''invalid state parameter'' 400)
         else Exchange code (\<lambda>tk. case tk of
             Inl err \<Rightarrow> failed (''token exchange failed: '' @ error_text err)
           | Inr token \<Rightarrow> (case ot_idToken token of
               None \<Rightarrow> failed ''no id_token in response''
             | Some rawIDToken \<Rightarrow> Verify rawIDToken (\<lambda>v. case v of
                 Inl err \<Rightarrow> failed (''id_token verification failed: '' @ error_text err)
               | Inr (Inl err) \<Rightarrow> failed (''failed to parse claims: '' @ error_text err)
               | Inr (Inr claims) \<Rightarrow>
                   setSession (newSession (claimedUser claims) (tc_groups claims) rawIDToken (ot_accessToken token))
                     (\<lambda>c. Done ((redirect ''/'')\<lparr>rs_cookies := [clearState, c]\<rparr>))))))"

definition handleLogin :: "oidc_lib \<Rightarrow> provider \<Rightarrow> web_response act" where
  "handleLogin lib p = (case p of NoopProvider \<Rightarrow> noopLogin | OIDCProvider oidc \<Rightarrow> oidcLogin lib oidc)"

definition handleCallback :: "provider \<Rightarrow> web_request \<Rightarrow> web_response act" where
  "handleCallback p r = (case p of NoopProvider \<Rightarrow> noopLogin | OIDCProvider _ \<Rightarrow> oidcCallback r)"

section \<open>The identity of calls\<close>

definition impersonate :: "string \<Rightarrow> string list \<Rightarrow> rest_config \<Rightarrow> rest_config" where
  "impersonate user groups cfg = cfg\<lparr>rc_impersonateUser := user, rc_impersonateGroups := groups\<rparr>"

definition withToken :: "string \<Rightarrow> rest_config \<Rightarrow> rest_config" where
  "withToken token cfg =
     cfg\<lparr>rc_bearerToken := token, rc_bearerTokenFile := '''', rc_certData := '''', rc_certFile := '''',
       rc_keyData := '''', rc_keyFile := ''''\<rparr>"

definition wrapConfig :: "provider \<Rightarrow> rest_config \<Rightarrow> session_data \<Rightarrow> rest_config" where
  "wrapConfig p base sess =
     (case p of
        NoopProvider \<Rightarrow> base
      | OIDCProvider oidc \<Rightarrow>
          if sd_impersonatingAs sess \<noteq> '''' then impersonate (sd_impersonatingAs sess) (sd_impersonatingGroups sess) base
          else if op_authMode oidc = authModeImpersonate then impersonate (sd_username sess) (sd_groups sess) base
          else withToken (sd_idToken sess) base)"

text \<open>The session without an active preview.\<close>

definition realSession :: "session_data \<Rightarrow> session_data" where
  "realSession d = d\<lparr>sd_impersonatingAs := '''', sd_impersonatingGroups := []\<rparr>"

lemma wrapConfig_caches [simp]:
  "wrapConfig p base (d\<lparr>sd_canImpersonate := a\<rparr>) = wrapConfig p base d"
  "wrapConfig p base (d\<lparr>sd_canListAllNamespaces := b\<rparr>) = wrapConfig p base d"
  by (simp_all add: wrapConfig_def split: provider.splits)

text \<open>(C34) A session is created only by a login that the same browser began: the callback has a code, its
  state equals the non-empty state of the cookie, the code was exchanged and the token verified, and the
  session belongs to the user of the verified claims, without a preview and without cached permissions.
  In every other case the store stays as it is.\<close>

theorem callback_creates_verified_session:
  "\<exists>resp s'. runAct env (oidcCallback r) s = (resp, s') \<and>
     (rs_status resp \<in> {400, 500} \<and> s' = s \<or>
      rs_status resp = 302 \<and> getParam ''code'' (rq_query r) \<noteq> '''' \<and>
      getState r \<noteq> '''' \<and> getParam ''state'' (rq_query r) = getState r \<and>
      (\<exists>token raw claims. en_exchange env (getParam ''code'' (rq_query r)) = Inr token \<and> ot_idToken token = Some raw \<and>
        en_verify env raw = Inr (Inr claims) \<and>
        s' = putSession (en_newID env s) (newSession (claimedUser claims) (tc_groups claims) raw (ot_accessToken token)) s))"
  by (auto simp: oidcCallback_def Let_def failure_def statusOnly_def redirect_def setSession_def
      split: sum.splits option.splits)

end
