(* ===== verification/WebApi.thy ===== *)
theory WebApi
  imports WebAuth
begin

text \<open>
  \<open>pkg/ui/api\<close>: the handlers that proxy Kubernetes for the web front end. Every call is made with the
  identity of the session of the request; only the namespaces are enumerated with the backend's own.
\<close>

section \<open>Helpers\<close>

definition writeJSON :: "json \<Rightarrow> web_response" where
  "writeJSON v = (statusOnly 200)\<lparr>rs_body := Json v\<rparr>"

definition writeK8sError :: "k8s_error \<Rightarrow> web_response" where
  "writeK8sError err =
     (case err of
        StatusError code _ \<Rightarrow> (statusOnly code)\<lparr>rs_body := Json (JStatus err)\<rparr>
      | OtherError _ \<Rightarrow> failure ''Internal Server Error'' 500)"

definition solarAPIGroup :: string where
  "solarAPIGroup = ''solar.opendefense.cloud''"

definition solarResource :: "string \<Rightarrow> gvr" where
  "solarResource r = \<lparr>gvr_group = ''solar.opendefense.cloud'', gvr_version = ''v1alpha1'', gvr_resource = r\<rparr>"

definition apiResources :: "gvr gomap" where
  "apiResources =
     map (\<lambda>r. (r, solarResource r))
       [''targets'', ''releases'', ''releasebindings'', ''components'', ''componentversions'', ''registries'',
        ''registrybindings'', ''profiles'', ''rendertasks'']"

text \<open>The handler and what it is built from. \<open>be_clientError\<close> is the error of the client constructors for a
  configuration; \<open>be_order\<close> is the order in which the goroutines of one request get to the lock.\<close>

record backend =
  be_base :: rest_config
  be_provider :: provider
  be_clientError :: "rest_config \<Rightarrow> go_error option"
  be_order :: "kobject list \<Rightarrow> kobject list"
  be_oidc :: oidc_lib

definition newHandler :: "(string \<Rightarrow> go_error + rest_config) \<Rightarrow> (go_error + rest_config) \<Rightarrow> string \<Rightarrow>
    (rest_config \<Rightarrow> backend) \<Rightarrow> go_error + backend" where
  "newHandler fromFlags inCluster kubeconfig mk =
     (case (if kubeconfig \<noteq> '''' then fromFlags kubeconfig else inCluster) of
        Inl err \<Rightarrow> Inl (Wrapped ''failed to create kubernetes config'' err)
      | Inr cfg \<Rightarrow> Inr (mk cfg))"

definition getSession :: "web_request \<Rightarrow> (session_data option \<Rightarrow> 'a act) \<Rightarrow> 'a act" where
  "getSession r k = Locked (\<lambda>s. (s, k (storeGet s r)))"

definition mutate :: "(session_store \<Rightarrow> session_store \<times> bool) \<Rightarrow> 'a act \<Rightarrow> 'a act" where
  "mutate f k = Locked (\<lambda>s. (fst (f s), k))"

section \<open>Permissions\<close>

text \<open>A client is its configuration.\<close>

definition clientFor :: "backend \<Rightarrow> web_request \<Rightarrow> (go_error + rest_config) act" where
  "clientFor b r =
     getSession r (\<lambda>sess. case sess of
         None \<Rightarrow> Done (Inl (ErrorText ''unauthorized: no session''))
       | Some d \<Rightarrow>
           let cfg = wrapConfig (be_provider b) (be_base b) d in
           (case be_clientError b cfg of Some err \<Rightarrow> Done (Inl err) | None \<Rightarrow> Done (Inr cfg)))"

definition sessionCanImpersonate :: "backend \<Rightarrow> web_request \<Rightarrow> session_data \<Rightarrow> (go_error + bool) act" where
  "sessionCanImpersonate b r d =
     (case sd_canImpersonate d of
        Some cached \<Rightarrow> Done (Inr cached)
      | None \<Rightarrow>
          let cfg = wrapConfig (be_provider b) (be_base b) (realSession d) in
          (case be_clientError b cfg of
             Some err \<Rightarrow> Done (Inl (Wrapped ''build clientset'' err))
           | None \<Rightarrow> Review cfg ''impersonate'' ''users'' (\<lambda>res. case res of
                 Inl err \<Rightarrow> Done (Inl (Wrapped ''SelfSubjectAccessReview'' err))
               | Inr allowed \<Rightarrow> mutate (setCanImpersonate allowed r) (Done (Inr allowed)))))"

definition canImpersonate :: "backend \<Rightarrow> web_request \<Rightarrow> (go_error + bool) act" where
  "canImpersonate b r = getSession r (\<lambda>sess. case sess of None \<Rightarrow> Done (Inr False) | Some d \<Rightarrow> sessionCanImpersonate b r d)"

definition sessionCanListAllNamespaces :: "backend \<Rightarrow> web_request \<Rightarrow> session_data \<Rightarrow> (go_error + bool) act" where
  "sessionCanListAllNamespaces b r d =
     (case sd_canListAllNamespaces d of
        Some cached \<Rightarrow> Done (Inr cached)
      | None \<Rightarrow>
          let cfg = wrapConfig (be_provider b) (be_base b) d in
          (case be_clientError b cfg of
             Some err \<Rightarrow> Done (Inl (Wrapped ''build clientset'' err))
           | None \<Rightarrow> Review cfg ''list'' ''namespaces'' (\<lambda>res. case res of
                 Inl err \<Rightarrow> Done (Inl (Wrapped ''SelfSubjectAccessReview'' err))
               | Inr allowed \<Rightarrow> mutate (setCanListAllNamespaces allowed r) (Done (Inr allowed)))))"

definition canListAllNamespaces :: "backend \<Rightarrow> web_request \<Rightarrow> (go_error + bool) act" where
  "canListAllNamespaces b r = getSession r (\<lambda>sess. case sess of None \<Rightarrow> Done (Inr False) | Some d \<Rightarrow> sessionCanListAllNamespaces b r d)"

section \<open>Handlers\<close>

definition orFalse :: "go_error + bool \<Rightarrow> bool" where
  "orFalse r = (case r of Inl _ \<Rightarrow> False | Inr b \<Rightarrow> b)"

text \<open>The fields of the answer are in the order in which a Go map is encoded.\<close>

definition handleMe :: "backend \<Rightarrow> web_request \<Rightarrow> web_response act" where
  "handleMe b r =
     getSession r (\<lambda>sess. case sess of
         None \<Rightarrow> Done (writeJSON (JObject [(''authenticated'', JBool False)]))
       | Some d \<Rightarrow>
           bindA (canImpersonate b r) (\<lambda>imp.
           bindA (canListAllNamespaces b r) (\<lambda>all.
             Done (writeJSON (JObject
               ([(''authenticated'', JBool True), (''canImpersonate'', JBool (orFalse imp)),
                 (''canListAllNamespaces'', JBool (orFalse all)), (''groups'', JStrings (sd_groups d))] @
                (if sd_impersonatingAs d \<noteq> ''''
                 then [(''impersonating'', JObject [(''groups'', JStrings (sd_impersonatingGroups d)),
                         (''username'', JString (sd_impersonatingAs d))])]
                 else []) @
                [(''username'', JString (sd_username d))]))))))"

definition handleList :: "backend \<Rightarrow> string \<Rightarrow> web_request \<Rightarrow> web_response act" where
  "handleList b resource r =
     (case map_of apiResources resource of
        None \<Rightarrow> Done (failure (''unknown resource: '' @ resource) 404)
      | Some g \<Rightarrow>
          bindA (clientFor b r) (\<lambda>c. case c of
              Inl _ \<Rightarrow> Done (failure ''internal error'' 500)
            | Inr cfg \<Rightarrow> ListObjects cfg g (getParam ''namespace'' (rq_values r)) (\<lambda>l. case l of
                Inl err \<Rightarrow> Done (writeK8sError err)
              | Inr items \<Rightarrow> Done (writeJSON (JResources items)))))"

definition handleGet :: "backend \<Rightarrow> string \<Rightarrow> web_request \<Rightarrow> web_response act" where
  "handleGet b resource r =
     (case map_of apiResources resource of
        None \<Rightarrow> Done (failure (''unknown resource: '' @ resource) 404)
      | Some g \<Rightarrow>
          bindA (clientFor b r) (\<lambda>c. case c of
              Inl _ \<Rightarrow> Done (failure ''internal error'' 500)
            | Inr cfg \<Rightarrow> GetObject cfg g (getParam ''namespace'' (rq_values r)) (getParam ''name'' (rq_values r)) (\<lambda>l. case l of
                Inl err \<Rightarrow> Done (writeK8sError err)
              | Inr x \<Rightarrow> Done (writeJSON (JResource x)))))"

definition hasSolarAccess :: "go_error + string list list \<Rightarrow> bool" where
  "hasSolarAccess review =
     (case review of
        Inl _ \<Rightarrow> False
      | Inr rules \<Rightarrow> list_ex (list_ex (\<lambda>group. group = solarAPIGroup \<or> group = ''*'')) rules)"

text \<open>The goroutines of the loop, in the order in which they append to the result.\<close>

fun reviewNamespaces :: "rest_config \<Rightarrow> kobject list \<Rightarrow> kobject list \<Rightarrow> kobject list act" where
  "reviewNamespaces cfg [] filtered = Done filtered"
| "reviewNamespaces cfg (ns # rest) filtered =
     Rules cfg (ko_name ns) (\<lambda>review.
       reviewNamespaces cfg rest (if hasSolarAccess review then filtered @ [ns] else filtered))"

definition namespacesResource :: gvr where
  "namespacesResource = \<lparr>gvr_group = '''', gvr_version = ''v1'', gvr_resource = ''namespaces''\<rparr>"

definition byName :: "kobject \<Rightarrow> kobject \<Rightarrow> bool" where
  "byName x y \<longleftrightarrow> ko_name x < ko_name y"

definition listUserNamespaces :: "backend \<Rightarrow> session_data \<Rightarrow> web_response act" where
  "listUserNamespaces b d =
     (case be_clientError b (be_base b) of
        Some _ \<Rightarrow> Done (failure ''internal error'' 500)
      | None \<Rightarrow> ListObjects (be_base b) namespacesResource [] (\<lambda>l. case l of
          Inl err \<Rightarrow> Done (writeK8sError err)
        | Inr items \<Rightarrow>
            let cfg = wrapConfig (be_provider b) (be_base b) d in
            (case be_clientError b cfg of
               Some _ \<Rightarrow> Done (failure ''internal error'' 500)
             | None \<Rightarrow> bindA (reviewNamespaces cfg (be_order b items) []) (\<lambda>filtered.
                 Done (writeJSON (JResources (sortSlice byName filtered)))))))"

definition handleListNamespaces :: "backend \<Rightarrow> web_request \<Rightarrow> web_response act" where
  "handleListNamespaces b r =
     getSession r (\<lambda>sess. case sess of None \<Rightarrow> Done (failure ''unauthorized'' 401) | Some d \<Rightarrow> listUserNamespaces b d)"

section \<open>The namespaces of a user\<close>

lemma reviewNamespaces_run:
  "runAct env (reviewNamespaces cfg nss acc) s =
     (acc @ filter (\<lambda>ns. hasSolarAccess (en_rules env cfg (ko_name ns))) nss, s)"
  by (induction cfg nss acc rule: reviewNamespaces.induct) auto

interpretation byName: strict_total byName
  by unfold_locales (auto simp: byName_def)

text \<open>(C36) The list of namespaces has exactly the existing namespaces in which the user of the session, as
  previewed, may use some resource of SolAr, sorted by name, whatever the order in which the concurrent
  reviews finish; namespaces whose review fails are left out, and the session store is not changed.\<close>

theorem namespaces_filtered:
  assumes "storeGet s r = Some d" and "be_clientError b (be_base b) = None"
    and "be_clientError b (wrapConfig (be_provider b) (be_base b) d) = None"
    and "en_list env (be_base b) namespacesResource '''' = Inr items" and "distinct (map ko_name items)"
    and "mset (be_order b items) = mset items"
  shows "runAct env (handleListNamespaces b r) s =
    (writeJSON (JResources (sortSlice byName
       (filter (\<lambda>ns. hasSolarAccess (en_rules env (wrapConfig (be_provider b) (be_base b) d) (ko_name ns))) items))), s)"
proof -
  let ?P = "\<lambda>ns. hasSolarAccess (en_rules env (wrapConfig (be_provider b) (be_base b) d) (ko_name ns))"
  have "sortSlice byName (filter ?P (be_order b items)) = sortSlice byName (filter ?P items)"
  proof (rule byName.sortSlice_perm)
    show "mset (filter ?P (be_order b items)) = mset (filter ?P items)" using assms(6) by simp
    show "x = y" if "x \<in> set (filter ?P (be_order b items))" "y \<in> set (filter ?P (be_order b items))" "\<not> byName x y" "\<not> byName y x" for x y
      using that assms(5) mset_eq_setD [OF assms(6)] by (auto simp: byName_def distinct_map inj_on_def)
  qed
  with assms show ?thesis
    by (simp add: handleListNamespaces_def listUserNamespaces_def getSession_def Let_def reviewNamespaces_run)
qed

end
