(* ===== verification/WebServer.thy ===== *)
theory WebServer
  imports WebApi DiscoveryNames
begin

text \<open>
  \<open>pkg/ui/server.go\<close>: the routes of the web backend, the checks in front of them and the static files. The
  patterns of \<open>http.ServeMux\<close> are matched segment by segment, as for paths without percent escapes.
\<close>

section \<open>Paths\<close>

text \<open>\<open>path.Clean\<close> of a rooted path; the stack holds the segments so far, innermost first.\<close>

fun cleanSegments :: "string list \<Rightarrow> string list \<Rightarrow> string list" where
  "cleanSegments stack [] = rev stack"
| "cleanSegments stack (seg # segs) =
     (if seg = '''' \<or> seg = ''.'' then cleanSegments stack segs
      else if seg = ''..'' then cleanSegments (tl stack) segs
      else cleanSegments (seg # stack) segs)"

definition pathClean :: "string \<Rightarrow> string" where
  "pathClean p = CHR ''/'' # joinStr ''/'' (cleanSegments [] (splitStr ''/'' p))"

definition rooted :: "string \<Rightarrow> string" where
  "rooted p = (if hasPrefix p ''/'' then p else CHR ''/'' # p)"

text \<open>The path to which \<open>http.ServeMux\<close> redirects a request.\<close>

definition muxPath :: "string \<Rightarrow> string" where
  "muxPath p =
     (let c = pathClean (rooted p) in if hasSuffix (rooted p) ''/'' \<and> c \<noteq> ''/'' then c @ ''/'' else c)"

text \<open>\<open>spaFileServer\<close>: \<open>opens\<close> tells whether a static file can be opened, \<open>fileServer\<close> serves a path.\<close>

definition spaName :: "string \<Rightarrow> string" where
  "spaName p = trimPrefix (pathClean (rooted p)) ''/''"

definition spaFileServer :: "(string \<Rightarrow> bool) \<Rightarrow> (string \<Rightarrow> web_response) \<Rightarrow> web_request \<Rightarrow> web_response" where
  "spaFileServer opens fileServer r =
     (let name = spaName (rq_path r) in
      if name = ''..'' \<or> hasPrefix name ''../'' then fileServer ''/''
      else if \<not> opens name then fileServer ''/''
      else fileServer (rq_path r))"

section \<open>Routes\<close>

datatype segment = Lit string | Wild string

fun matchSegments :: "segment list \<Rightarrow> string list \<Rightarrow> string gomap option" where
  "matchSegments [] [] = Some []"
| "matchSegments (Lit l # ps) (s # ss) = (if s = l then matchSegments ps ss else None)"
| "matchSegments (Wild n # ps) (s # ss) =
     (if s = '''' then None else case matchSegments ps ss of None \<Rightarrow> None | Some vs \<Rightarrow> Some ((n, s) # vs))"
| "matchSegments _ _ = None"

datatype route =
    LoginRoute | CallbackRoute | MeRoute | SessionRoute | LogoutRoute
  | PreviewRoute | StopPreviewRoute
  | NamespacesRoute | ListRoute string | GetRoute string | EventsRoute

definition apiPath :: "string list \<Rightarrow> segment list" where
  "apiPath segs = map Lit (''api'' # segs)"

definition nsPath :: "segment list \<Rightarrow> segment list" where
  "nsPath segs = Lit ''api'' # Lit ''namespaces'' # Wild ''namespace'' # segs"

definition authRoutes :: "(string \<times> segment list \<times> route) list" where
  "authRoutes =
     [(''POST'', apiPath [''auth'', ''login''], LoginRoute),
      (''GET'', apiPath [''auth'', ''login''], LoginRoute),
      (''GET'', apiPath [''auth'', ''callback''], CallbackRoute),
      (''GET'', apiPath [''auth'', ''me''], MeRoute),
      (''DELETE'', apiPath [''auth'', ''session''], SessionRoute),
      (''GET'', apiPath [''auth'', ''logout''], LogoutRoute)]"

definition adminRoutes :: "(string \<times> segment list \<times> route) list" where
  "adminRoutes =
     [(''PUT'', apiPath [''auth'', ''impersonate''], PreviewRoute),
      (''DELETE'', apiPath [''auth'', ''impersonate''], StopPreviewRoute)]"

definition listedResources :: "string list" where
  "listedResources =
     [''targets'', ''releases'', ''releasebindings'', ''components'', ''componentversions'', ''registries'',
      ''registrybindings'', ''profiles'', ''rendertasks'']"

definition gettableResources :: "string list" where
  "gettableResources = [''targets'', ''releases'', ''components'', ''registries'', ''profiles'', ''rendertasks'']"

definition resourceRoutes :: "(string \<times> segment list \<times> route) list" where
  "resourceRoutes =
     (''GET'', apiPath [''namespaces''], NamespacesRoute) #
     map (\<lambda>r. (''GET'', apiPath [r], ListRoute r)) listedResources @
     map (\<lambda>r. (''GET'', nsPath [Lit r], ListRoute r)) listedResources @
     map (\<lambda>r. (''GET'', nsPath [Lit r, Wild ''name''], GetRoute r)) gettableResources @
     [(''GET'', apiPath [''events''], EventsRoute), (''GET'', nsPath [Lit ''events''], EventsRoute)]"

definition methodMatches :: "string \<Rightarrow> string \<Rightarrow> bool" where
  "methodMatches pattern method \<longleftrightarrow> pattern = method \<or> pattern = ''GET'' \<and> method = ''HEAD''"

fun findRoute :: "(string \<times> segment list \<times> route) list \<Rightarrow> string \<Rightarrow> string list \<Rightarrow> (route \<times> string gomap) option" where
  "findRoute [] method segs = None"
| "findRoute ((m, pat, h) # rts) method segs =
     (case (if methodMatches m method then matchSegments pat segs else None) of
        Some vs \<Rightarrow> Some (h, vs)
      | None \<Rightarrow> findRoute rts method segs)"

section \<open>Checks\<close>

definition requireAuth :: "(web_request \<Rightarrow> web_response act) \<Rightarrow> web_request \<Rightarrow> web_response act" where
  "requireAuth k r =
     getSession r (\<lambda>sess. case sess of
         None \<Rightarrow> Done (failure ''{\"error\":\"unauthorized\"}'' 401)
       | Some _ \<Rightarrow> k r)"

definition requireAdmin :: "backend \<Rightarrow> (web_request \<Rightarrow> web_response act) \<Rightarrow> web_request \<Rightarrow> web_response act" where
  "requireAdmin b k =
     requireAuth (\<lambda>r. bindA (canImpersonate b r) (\<lambda>res. case res of
         Inl _ \<Rightarrow> Done (failure ''internal error'' 500)
       | Inr allowed \<Rightarrow> if \<not> allowed then Done (failure ''forbidden'' 403) else k r))"

section \<open>The server\<close>

text \<open>\<open>sv_parsePreview\<close> decodes the body of a preview request; \<open>sv_static\<close> answers everything else.\<close>

record web_server =
  sv_backend :: backend
  sv_parsePreview :: "string \<Rightarrow> go_error + string \<times> string list"
  sv_static :: "web_request \<Rightarrow> web_response"

definition handlePreview :: "web_server \<Rightarrow> web_request \<Rightarrow> web_response act" where
  "handlePreview sv r =
     (case sv_parsePreview sv (rq_body r) of
        Inl _ \<Rightarrow> Done (failure ''invalid request body: username is required'' 400)
      | Inr (username, groups) \<Rightarrow>
          if username = '''' then Done (failure ''invalid request body: username is required'' 400)
          else mutate (setImpersonation username groups r) (Done (statusOnly 204)))"

definition handleStopPreview :: "web_request \<Rightarrow> web_response act" where
  "handleStopPreview r = mutate (clearImpersonation r) (Done (statusOnly 204))"

definition handleLogout :: "web_response \<Rightarrow> web_request \<Rightarrow> web_response act" where
  "handleLogout resp r = Locked (\<lambda>s. (clearSession r s, Done (resp\<lparr>rs_cookies := [clearedCookie]\<rparr>)))"

definition handleSSE :: "backend \<Rightarrow> web_request \<Rightarrow> web_response act" where
  "handleSSE b r =
     bindA (clientFor b r) (\<lambda>c. case c of
         Inl _ \<Rightarrow> Done (failure ''internal error'' 500)
       | Inr _ \<Rightarrow> Done ((statusOnly 200)\<lparr>rs_body := EventStream\<rparr>))"

fun dispatch :: "web_server \<Rightarrow> route \<Rightarrow> web_request \<Rightarrow> web_response act" where
  "dispatch sv LoginRoute r = handleLogin (be_oidc (sv_backend sv)) (be_provider (sv_backend sv))"
| "dispatch sv CallbackRoute r = handleCallback (be_provider (sv_backend sv)) r"
| "dispatch sv MeRoute r = handleMe (sv_backend sv) r"
| "dispatch sv SessionRoute r = handleLogout (statusOnly 204) r"
| "dispatch sv LogoutRoute r = handleLogout (redirect ''/'') r"
| "dispatch sv PreviewRoute r = requireAdmin (sv_backend sv) (handlePreview sv) r"
| "dispatch sv StopPreviewRoute r = requireAdmin (sv_backend sv) handleStopPreview r"
| "dispatch sv NamespacesRoute r = requireAuth (handleListNamespaces (sv_backend sv)) r"
| "dispatch sv (ListRoute res) r = requireAuth (handleList (sv_backend sv) res) r"
| "dispatch sv (GetRoute res) r = requireAuth (handleGet (sv_backend sv) res) r"
| "dispatch sv EventsRoute r = requireAuth (handleSSE (sv_backend sv)) r"

definition serve :: "web_server \<Rightarrow> web_request \<Rightarrow> web_response act" where
  "serve sv r =
     (if rq_method r \<noteq> ''CONNECT'' \<and> muxPath (rq_path r) \<noteq> rq_path r
      then Done ((redirect (muxPath (rq_path r)))\<lparr>rs_status := 307\<rparr>)
      else case findRoute (authRoutes @ adminRoutes @ resourceRoutes) (rq_method r) (splitStr ''/'' (tl (rq_path r))) of
          Some (h, values) \<Rightarrow> dispatch sv h (r\<lparr>rq_values := values\<rparr>)
        | None \<Rightarrow> Done (sv_static sv r))"

text \<open>\<open>NewServer\<close>: the store, the provider, the handler and the static files. The constructors of libraries
  and the reading of the configuration of the cluster are parameters.\<close>

record web_config =
  wc_oidc :: oidc_config
  wc_sessionKey :: string
  wc_kubeconfig :: string
  wc_devViteURL :: string

record server_lib =
  sl_oidc :: oidc_lib
  sl_random :: "nat list"
  sl_fromFlags :: "string \<Rightarrow> go_error + rest_config"
  sl_inCluster :: "go_error + rest_config"
  sl_clientError :: "rest_config \<Rightarrow> go_error option"
  sl_order :: "kobject list \<Rightarrow> kobject list"
  sl_parsePreview :: "string \<Rightarrow> go_error + string \<times> string list"
  sl_proxy :: "string \<Rightarrow> go_error + (web_request \<Rightarrow> web_response)"
  sl_opens :: "string \<Rightarrow> bool"
  sl_fileServer :: "string \<Rightarrow> web_response"

definition newProvider :: "oidc_lib \<Rightarrow> oidc_config \<Rightarrow> go_error + provider" where
  "newProvider lib cfg =
     (if oc_issuer cfg \<noteq> '''' then
        (case newOIDCProvider lib cfg of Inl err \<Rightarrow> Inl (Wrapped ''failed to create OIDC provider'' err) | Inr p \<Rightarrow> Inr p)
      else Inr NoopProvider)"

definition newServer :: "server_lib \<Rightarrow> web_config \<Rightarrow> go_error + session_store \<times> web_server" where
  "newServer lib cfg =
     (case newStore (sl_random lib) (wc_sessionKey cfg) of
        Inl err \<Rightarrow> Inl (Wrapped ''failed to create session store'' err)
      | Inr store \<Rightarrow> (case newProvider (sl_oidc lib) (wc_oidc cfg) of
          Inl err \<Rightarrow> Inl err
        | Inr p \<Rightarrow> (case newHandler (sl_fromFlags lib) (sl_inCluster lib) (wc_kubeconfig cfg)
              (\<lambda>base. \<lparr>be_base = base, be_provider = p, be_clientError = sl_clientError lib, be_order = sl_order lib,
                 be_oidc = sl_oidc lib\<rparr>) of
            Inl err \<Rightarrow> Inl (Wrapped ''failed to create API handler'' err)
          | Inr b \<Rightarrow>
              let server = (\<lambda>static. (store, \<lparr>sv_backend = b, sv_parsePreview = sl_parsePreview lib, sv_static = static\<rparr>)) in
              if wc_devViteURL cfg \<noteq> '''' then
                (case sl_proxy lib (wc_devViteURL cfg) of
                   Inl err \<Rightarrow> Inl (Wrapped ''invalid dev-vite-url'' err)
                 | Inr proxy \<Rightarrow> Inr (server proxy))
              else Inr (server (spaFileServer (sl_opens lib) (sl_fileServer lib))))))"

end
