(* ===== verification/WebProperties.thy ===== *)
theory WebProperties
  imports WebServer
begin

text \<open>
  What the web backend guarantees: static paths stay inside their directory, requests without a session
  reach nothing, and along every interleaving of requests Kubernetes is called only as the user of a
  session, or as a user previewed by somebody whom Kubernetes lets impersonate users.
\<close>

section \<open>Static files\<close>

definition properSegment :: "string \<Rightarrow> bool" where
  "properSegment seg \<longleftrightarrow> seg \<noteq> '''' \<and> seg \<noteq> ''.'' \<and> seg \<noteq> ''..'' \<and> CHR ''/'' \<notin> set seg"

lemma cleanSegments_proper:
  "\<forall>seg \<in> set stack. properSegment seg \<Longrightarrow> \<forall>seg \<in> set segs. CHR ''/'' \<notin> set seg \<Longrightarrow>
   \<forall>seg \<in> set (cleanSegments stack segs). properSegment seg"
proof (induction stack segs rule: cleanSegments.induct)
  case (2 stack seg segs)
  have tl: "\<forall>seg \<in> set (tl stack). properSegment seg" using 2(4) by (cases stack) auto
  have rest: "\<forall>x \<in> set segs. CHR ''/'' \<notin> set x" using 2(5) by simp
  consider "seg = '''' \<or> seg = ''.''" | "seg = ''..''" | "properSegment seg" using 2(5) by (auto simp: properSegment_def)
  then show ?case
  proof cases
    case 1
    show ?thesis unfolding cleanSegments.simps if_P [OF 1] by (rule 2(1) [OF 1 2(4) rest])
  next
    case 2
    have no: "\<not> (seg = [] \<or> seg = ''.'')" using 2 by simp
    show ?thesis unfolding cleanSegments.simps if_not_P [OF no] if_P [OF 2] by (rule "2.IH"(2) [OF no 2 tl rest])
  next
    case 3
    then have no: "\<not> (seg = [] \<or> seg = ''.'')" "seg \<noteq> ''..''" by (auto simp: properSegment_def)
    have "\<forall>x \<in> set (seg # stack). properSegment x" using 3 2(4) by simp
    from "2.IH"(3) [OF no this rest] show ?thesis unfolding cleanSegments.simps if_not_P [OF no(1)] if_not_P [OF no(2)] .
  qed
qed simp

lemma splitSlash_pieces: "x \<in> set (splitStr ''/'' s) \<Longrightarrow> CHR ''/'' \<notin> set x"
  by (induction "''/''" s arbitrary: x rule: splitStr.induct)
     (auto simp: hasPrefix_def split: if_splits list.splits)

lemma splitSlash_first: "CHR ''/'' \<notin> set a \<Longrightarrow> splitStr ''/'' (a @ CHR ''/'' # b) = a # splitStr ''/'' b"
  by (induction a) (auto simp: hasPrefix_def)

lemma splitSlash_none: "CHR ''/'' \<notin> set a \<Longrightarrow> splitStr ''/'' a = [a]"
  by (induction a) (auto simp: hasPrefix_def)

lemma splitSlash_join: "segs \<noteq> [] \<Longrightarrow> \<forall>seg \<in> set segs. properSegment seg \<Longrightarrow> splitStr ''/'' (joinStr ''/'' segs) = segs"
  by (induction "''/''" segs rule: joinStr.induct) (auto simp: properSegment_def splitSlash_first splitSlash_none)

lemma spaName_join: "spaName p = joinStr ''/'' (cleanSegments [] (splitStr ''/'' (rooted p)))"
  using trimPrefix_append [of "''/''"] by (simp add: spaName_def pathClean_def)


section \<open>Unauthenticated requests\<close>

definition allRoutes :: "(string \<times> segment list \<times> route) list" where
  "allRoutes = authRoutes @ adminRoutes @ resourceRoutes"

definition publicRoute :: "route \<Rightarrow> bool" where
  "publicRoute h \<longleftrightarrow> h \<in> {LoginRoute, CallbackRoute, MeRoute, SessionRoute, LogoutRoute}"

lemma storeGet_values [simp]: "storeGet s (r\<lparr>rq_values := v\<rparr>) = storeGet s r"
  by (simp add: storeGet_def)

text \<open>(C35) A request without a valid session is refused on every route of the API but login, callback, status
  and logout: its first step reads the store, finds no session and answers 401, before anything is asked of
  Kubernetes and without changing the store.\<close>

theorem unauthenticated_refused:
  assumes "storeGet s r = None" and "muxPath (rq_path r) = rq_path r"
    and "findRoute allRoutes (rq_method r) (splitStr ''/'' (tl (rq_path r))) = Some (h, vs)" and "\<not> publicRoute h"
  shows "\<exists>f. serve sv r = Locked f \<and> f s = (s, Done (failure ''{\"error\":\"unauthorized\"}'' 401))"
proof -
  have "serve sv r = dispatch sv h (r\<lparr>rq_values := vs\<rparr>)" using assms(2,3) by (simp add: serve_def allRoutes_def)
  with assms(1,4) show ?thesis
    by (cases h) (simp_all add: publicRoute_def requireAdmin_def requireAuth_def getSession_def)
qed

section \<open>Who may act as whom\<close>

definition sameUser :: "session_data \<Rightarrow> session_data \<Rightarrow> bool" where
  "sameUser d0 d \<longleftrightarrow> sd_username d = sd_username d0 \<and> sd_groups d = sd_groups d0 \<and> sd_idToken d = sd_idToken d0"

definition mayImpersonate :: "(rest_config \<Rightarrow> string \<Rightarrow> string \<Rightarrow> bool) \<Rightarrow> backend \<Rightarrow> session_data \<Rightarrow> bool" where
  "mayImpersonate allows b d \<longleftrightarrow> allows (wrapConfig (be_provider b) (be_base b) (realSession d)) ''impersonate'' ''users''"

definition adminInv :: "(rest_config \<Rightarrow> string \<Rightarrow> string \<Rightarrow> bool) \<Rightarrow> backend \<Rightarrow> session_data \<Rightarrow> session_data \<Rightarrow> bool" where
  "adminInv allows b d0 d \<longleftrightarrow> sameUser d0 d \<and> (\<forall>c. sd_canImpersonate d = Some c \<longrightarrow> c = mayImpersonate allows b d0) \<and>
     (sd_impersonatingAs d \<noteq> '''' \<longrightarrow> mayImpersonate allows b d0)"

text \<open>A call of Kubernetes on behalf of a session that was issued, or the enumeration of the namespaces.\<close>

definition callOk :: "(rest_config \<Rightarrow> string \<Rightarrow> string \<Rightarrow> bool) \<Rightarrow> backend \<Rightarrow> gvr option \<Rightarrow> rest_config \<Rightarrow>
    (string \<Rightarrow> session_data option) \<Rightarrow> bool" where
  "callOk allows b listed cfg issued \<longleftrightarrow>
     listed = Some namespacesResource \<and> cfg = be_base b \<or>
     (\<exists>i d0 d. issued i = Some d0 \<and> sameUser d0 d \<and> (sd_impersonatingAs d \<noteq> '''' \<longrightarrow> mayImpersonate allows b d0) \<and>
        cfg = wrapConfig (be_provider b) (be_base b) d)"

lemma realSession_sameUser:
  "sameUser d0 d \<Longrightarrow> wrapConfig p base (realSession d) = wrapConfig p base (realSession d0)"
  by (auto simp: sameUser_def realSession_def wrapConfig_def split: provider.splits)

lemma callOk_session: "G i = Some d0 \<Longrightarrow> adminInv allows b d0 d \<Longrightarrow> callOk allows b l (wrapConfig (be_provider b) (be_base b) d) G"
  unfolding callOk_def adminInv_def by blast

lemma callOk_real: "G i = Some d0 \<Longrightarrow> adminInv allows b d0 d \<Longrightarrow> callOk allows b l (wrapConfig (be_provider b) (be_base b) (realSession d)) G"
  unfolding callOk_def adminInv_def sameUser_def realSession_def
  by (intro disjI2 exI [of _ i] exI [of _ d0] exI [of _ "d\<lparr>sd_impersonatingAs := [], sd_impersonatingGroups := []\<rparr>"]) auto

subsection \<open>Safe building blocks\<close>

lemma storeInv_lookup:
  "storeInv I G s \<Longrightarrow> storeGet s r = Some d \<Longrightarrow> \<exists>i d0. map_of (rq_cookies r) cookieName = Some i \<and> G i = Some d0 \<and> I d0 d"
  by (auto simp: storeInv_def storeGet_def split: option.splits)

lemma safe_getSession:
  assumes "\<And>G'. G \<subseteq>\<^sub>m G' \<Longrightarrow> safe I C allows Q (k None) G'"
    and "\<And>G' i d0 d. G \<subseteq>\<^sub>m G' \<Longrightarrow> map_of (rq_cookies r) cookieName = Some i \<Longrightarrow> G' i = Some d0 \<Longrightarrow> I d0 d \<Longrightarrow>
      safe I C allows Q (k (Some d)) G'"
  shows "safe I C allows Q (getSession r k) G"
proof -
  have "safe I C allows Q (k (storeGet s r)) G'" if "G \<subseteq>\<^sub>m G'" "storeInv I G' s" for s G'
    using that assms storeInv_lookup [OF that(2), of r] by (cases "storeGet s r") (simp, metis)
  then show ?thesis by (simp add: getSession_def)
qed

lemma storeInv_update:
  assumes "storeInv I G s" and "\<And>i d0 d. map_of (rq_cookies r) cookieName = Some i \<Longrightarrow> G i = Some d0 \<Longrightarrow> I d0 d \<Longrightarrow> I d0 (f d)"
  shows "storeInv I G (fst (updateSession f r s))"
  using assms unfolding updateSession_def putSession_def storeInv_def
  by (auto split: option.splits) (metis option.inject)+

lemma safe_mutate:
  assumes "\<And>G' i d0 d. G \<subseteq>\<^sub>m G' \<Longrightarrow> map_of (rq_cookies r) cookieName = Some i \<Longrightarrow> G' i = Some d0 \<Longrightarrow> I d0 d \<Longrightarrow> I d0 (f d)"
    and "\<And>G'. G \<subseteq>\<^sub>m G' \<Longrightarrow> safe I C allows Q k G'"
  shows "safe I C allows Q (mutate (updateSession f r) k) G"
  using assms storeInv_update by (simp add: mutate_def)

lemma map_of_without [simp]: "map_of (filter (\<lambda>(k, _). k \<noteq> i) m) j = (if j = i then None else map_of m j)"
  by (induction m) auto

lemma safe_logout: "safe I C allows (\<lambda>_ _. True) (handleLogout resp r) G"
  by (auto simp: handleLogout_def clearSession_def storeInv_def split: option.splits)

subsection \<open>The handlers are safe\<close>

abbreviation safeFor :: "(rest_config \<Rightarrow> string \<Rightarrow> string \<Rightarrow> bool) \<Rightarrow> backend \<Rightarrow> ('a \<Rightarrow> (string \<Rightarrow> session_data option) \<Rightarrow> bool) \<Rightarrow>
    'a act \<Rightarrow> (string \<Rightarrow> session_data option) \<Rightarrow> bool" where
  "safeFor allows b \<equiv> safe (adminInv allows b) (callOk allows b) allows"

lemma callOk_mono: "callOk allows b l cfg G \<Longrightarrow> G \<subseteq>\<^sub>m G' \<Longrightarrow> callOk allows b l cfg G'"
  unfolding callOk_def map_le_def by (metis domI)

definition adminKnown :: "(rest_config \<Rightarrow> string \<Rightarrow> string \<Rightarrow> bool) \<Rightarrow> backend \<Rightarrow> web_request \<Rightarrow> (string \<Rightarrow> session_data option) \<Rightarrow> bool" where
  "adminKnown allows b r G \<longleftrightarrow> (\<exists>i d0. map_of (rq_cookies r) cookieName = Some i \<and> G i = Some d0 \<and> mayImpersonate allows b d0)"

lemma adminKnown_mono: "adminKnown allows b r G \<Longrightarrow> G \<subseteq>\<^sub>m G' \<Longrightarrow> adminKnown allows b r G'"
  unfolding adminKnown_def map_le_def by (metis domI)

lemma canImpersonate_safe: "safeFor allows b (\<lambda>res G. res = Inr True \<longrightarrow> adminKnown allows b r G) (canImpersonate b r) G"
  unfolding canImpersonate_def
proof (rule safe_getSession)
  fix G' i d0 d
  assume G': "map_of (rq_cookies r) cookieName = Some i" "G' i = Some d0" and d: "adminInv allows b d0 d"
  let ?cfg = "wrapConfig (be_provider b) (be_base b) (realSession d)"
  have later: "G'' i = Some d0" if "G' \<subseteq>\<^sub>m G''" for G'' using that G'(2) by (metis domI map_le_def)
  have known: "adminKnown allows b r G''" if "G' \<subseteq>\<^sub>m G''" "mayImpersonate allows b d0" for G''
    using later [OF that(1)] that(2) G'(1) by (auto simp: adminKnown_def)
  have answer: "allows ?cfg ''impersonate'' ''users'' = mayImpersonate allows b d0"
    using d realSession_sameUser [of d0 d] by (simp add: adminInv_def mayImpersonate_def)
  have cached: "c = mayImpersonate allows b d0" if "sd_canImpersonate d = Some c" for c using that d by (simp add: adminInv_def)
  have call: "callOk allows b None ?cfg G''" if "G' \<subseteq>\<^sub>m G''" for G''
    by (rule callOk_real [of G'' i, OF later [OF that] d])
  have "safeFor allows b (\<lambda>res G. res = Inr True \<longrightarrow> adminKnown allows b r G)
      (mutate (setCanImpersonate allowed r) (Done (Inr allowed))) G'"
    if allowed: "allowed = mayImpersonate allows b d0" for allowed
    unfolding setCanImpersonate_def
  proof (rule safe_mutate)
    show "adminInv allows b d1 (d'\<lparr>sd_canImpersonate := Some allowed\<rparr>)"
      if "G' \<subseteq>\<^sub>m G''" "map_of (rq_cookies r) cookieName = Some j" "G'' j = Some d1" "adminInv allows b d1 d'" for G'' j d1 d'
      using that later [of G''] G'(1) allowed by (auto simp: adminInv_def sameUser_def)
    show "safeFor allows b (\<lambda>res G. res = Inr True \<longrightarrow> adminKnown allows b r G) (Done (Inr allowed)) G''" if "G' \<subseteq>\<^sub>m G''" for G''
      using known allowed map_le_trans [OF that] by auto
  qed
  then show "safeFor allows b (\<lambda>res G. res = Inr True \<longrightarrow> adminKnown allows b r G)
      (case Some d of None \<Rightarrow> Done (Inr False) | Some d \<Rightarrow> sessionCanImpersonate b r d) G'"
    unfolding sessionCanImpersonate_def using cached known call answer by (auto simp: Let_def split: option.splits sum.splits)
qed simp

lemma canListAllNamespaces_safe: "safeFor allows b (\<lambda>_ _. True) (canListAllNamespaces b r) G"
  unfolding canListAllNamespaces_def
proof (rule safe_getSession)
  fix G' :: "string \<Rightarrow> session_data option" and i d0 d
  assume G': "G' i = Some d0" and d: "adminInv allows b d0 d"
  have call: "callOk allows b None (wrapConfig (be_provider b) (be_base b) d) G''" if "G' \<subseteq>\<^sub>m G''" for G''
    by (rule callOk_mono [OF callOk_session [of G' i, OF G' d] that])
  have "safeFor allows b (\<lambda>_ _. True) (mutate (setCanListAllNamespaces allowed r) (Done (Inr allowed))) G'" for allowed
    unfolding setCanListAllNamespaces_def by (rule safe_mutate) (auto simp: adminInv_def sameUser_def)
  with call show "safeFor allows b (\<lambda>_ _. True)
      (case Some d of None \<Rightarrow> Done (Inr False) | Some d \<Rightarrow> sessionCanListAllNamespaces b r d) G'"
    unfolding sessionCanListAllNamespaces_def by (auto simp: Let_def split: option.splits sum.splits)
qed simp

lemma clientFor_safe:
  "safeFor allows b (\<lambda>res G. \<forall>cfg. res = Inr cfg \<longrightarrow> (\<forall>l. callOk allows b l cfg G)) (clientFor b r) G"
  unfolding clientFor_def
  by (rule safe_getSession)
     (auto simp: Let_def split: option.splits intro: callOk_mono callOk_session)

lemma handleMe_safe: "safeFor allows b (\<lambda>_ _. True) (handleMe b r) G"
  unfolding handleMe_def
  by (rule safe_getSession) (auto intro!: safe_bind [OF canImpersonate_safe] safe_bind [OF canListAllNamespaces_safe])

lemma handleList_safe: "safeFor allows b (\<lambda>_ _. True) (handleList b res r) G"
  unfolding handleList_def
  by (auto intro!: safe_bind [OF clientFor_safe] split: option.splits sum.splits) (metis callOk_mono)

lemma handleGet_safe: "safeFor allows b (\<lambda>_ _. True) (handleGet b res r) G"
  unfolding handleGet_def
  by (auto intro!: safe_bind [OF clientFor_safe] split: option.splits sum.splits) (metis callOk_mono)

lemma handleSSE_safe: "safeFor allows b (\<lambda>_ _. True) (handleSSE b r) G"
  unfolding handleSSE_def by (auto intro!: safe_bind [OF clientFor_safe] split: sum.splits)

lemma reviewNamespaces_safe:
  "(\<And>G'. G \<subseteq>\<^sub>m G' \<Longrightarrow> callOk allows b None cfg G') \<Longrightarrow> safeFor allows b (\<lambda>_ _. True) (reviewNamespaces cfg nss acc) G"
  by (induction cfg nss acc rule: reviewNamespaces.induct) auto

lemma handleListNamespaces_safe: "safeFor allows b (\<lambda>_ _. True) (handleListNamespaces b r) G"
  unfolding handleListNamespaces_def
proof (rule safe_getSession)
  fix G' :: "string \<Rightarrow> session_data option" and i d0 d
  assume G': "G' i = Some d0" and d: "adminInv allows b d0 d"
  have call: "callOk allows b None (wrapConfig (be_provider b) (be_base b) d) G''" if "G' \<subseteq>\<^sub>m G''" for G''
    by (rule callOk_mono [OF callOk_session [of G' i, OF G' d] that])
  have disc: "callOk allows b (Some namespacesResource) (be_base b) G''" for G'' by (simp add: callOk_def)
  have "safeFor allows b (\<lambda>_ _. True) (bindA (reviewNamespaces (wrapConfig (be_provider b) (be_base b) d) nss []) (\<lambda>xs. Done (f xs))) G'" for nss f
    by (rule safe_bind [OF reviewNamespaces_safe]) (use call in auto)
  with disc show "safeFor allows b (\<lambda>_ _. True) (case Some d of None \<Rightarrow> Done (failure ''unauthorized'' 401)
       | Some d \<Rightarrow> listUserNamespaces b d) G'"
    unfolding listUserNamespaces_def by (auto simp: Let_def split: option.splits sum.splits)
qed simp

lemma requireAuth_safe:
  "(\<And>G'. safeFor allows b (\<lambda>_ _. True) (k r) G') \<Longrightarrow> safeFor allows b (\<lambda>_ _. True) (requireAuth k r) G"
  unfolding requireAuth_def by (rule safe_getSession) auto

lemma requireAdmin_safe:
  assumes "\<And>G'. adminKnown allows b r G' \<Longrightarrow> safeFor allows b (\<lambda>_ _. True) (k r) G'"
  shows "safeFor allows b (\<lambda>_ _. True) (requireAdmin b k r) G"
  unfolding requireAdmin_def
  by (rule requireAuth_safe) (auto intro!: safe_bind [OF canImpersonate_safe] assms split: sum.splits)

lemma handlePreview_safe:
  assumes "adminKnown allows b r G"
  shows "safeFor allows b (\<lambda>_ _. True) (handlePreview sv r) G"
proof -
  have "safeFor allows b (\<lambda>_ _. True) (mutate (setImpersonation username groups r) (Done (statusOnly 204))) G" for username groups
    unfolding setImpersonation_def
  proof (rule safe_mutate)
    show "adminInv allows b d0 (d\<lparr>sd_impersonatingAs := username, sd_impersonatingGroups := groups, sd_canListAllNamespaces := None\<rparr>)"
      if "G \<subseteq>\<^sub>m G'" "map_of (rq_cookies r) cookieName = Some i" "G' i = Some d0" "adminInv allows b d0 d" for G' i d0 d
      using that adminKnown_mono [OF assms that(1)] by (auto simp: adminInv_def sameUser_def adminKnown_def)
  qed simp
  then show ?thesis by (auto simp: handlePreview_def split: sum.splits)
qed

lemma handleStopPreview_safe: "safeFor allows b (\<lambda>_ _. True) (handleStopPreview r) G"
  unfolding handleStopPreview_def clearImpersonation_def
  by (rule safe_mutate) (auto simp: adminInv_def sameUser_def)

lemma login_safe: "safeFor allows b (\<lambda>_ _. True) (handleLogin lib p) G" "safeFor allows b (\<lambda>_ _. True) (handleCallback p r) G"
  by (auto simp: handleLogin_def handleCallback_def noopLogin_def oidcLogin_def oidcCallback_def setSession_def Let_def
      newSession_def adminInv_def sameUser_def split: provider.splits sum.splits option.splits)

lemma serve_safe: "safeFor allows (sv_backend sv) (\<lambda>_ _. True) (serve sv r) G"
proof -
  have "safeFor allows (sv_backend sv) (\<lambda>_ _. True) (dispatch sv h r') G" for h r'
    by (cases h) (simp_all add: login_safe handleMe_safe safe_logout handleList_safe handleGet_safe handleSSE_safe
      handleListNamespaces_safe handleStopPreview_safe handlePreview_safe requireAuth_safe requireAdmin_safe)
  then show ?thesis by (auto simp: serve_def split: option.splits)
qed

subsection \<open>The guarantees\<close>

lemma newStore_empty: "newStore random key = Inr s \<Longrightarrow> ss_sessions s = []"
  by (auto simp: newStore_def split: if_splits sum.splits)

interpretation backend: session_guarantee "adminInv allows (sv_backend sv)" "callOk allows (sv_backend sv)" allows "{serve sv r |r. True}"
  for allows sv
  by unfold_locales (auto simp: serve_safe)

lemma backend_inv:
  assumes "newStore random key = Inr s" and "(webStep allows {serve sv r |r. True})\<^sup>*\<^sup>* (startWeb s) W"
  shows "storeInv (adminInv allows (sv_backend sv)) (ws_issued W) (ws_store W) \<and>
    (\<forall>p \<in> set (ws_running W). safeFor allows (sv_backend sv) (\<lambda>_ _. True) p (ws_issued W))"
  by (rule backend.reachable [OF assms(2)]) (simp add: storeInv_def newStore_empty [OF assms(1)])

text \<open>(C17) Nobody gets a preview without the right to it: along every interleaving of requests, a session with an
  active preview belongs to a user whom Kubernetes, asked with the user's real identity, allows to
  impersonate users, and the answer cached with a session is the one for its real user.\<close>

theorem preview_only_for_admins:
  assumes "newStore random key = Inr s" and "(webStep allows {serve sv r |r. True})\<^sup>*\<^sup>* (startWeb s) W"
    and "map_of (ss_sessions (ws_store W)) i = Some d"
  shows "(sd_impersonatingAs d = '''' \<or> mayImpersonate allows (sv_backend sv) d) \<and>
    (sd_canImpersonate d = None \<or> sd_canImpersonate d = Some (mayImpersonate allows (sv_backend sv) d))"
proof -
  obtain d0 where "adminInv allows (sv_backend sv) d0 d"
    using backend_inv [OF assms(1,2)] assms(3) unfolding storeInv_def by blast
  moreover from this have "mayImpersonate allows (sv_backend sv) d = mayImpersonate allows (sv_backend sv) d0"
    using realSession_sameUser [of d0 d] by (simp add: adminInv_def mayImpersonate_def)
  ultimately show ?thesis by (cases "sd_canImpersonate d") (auto simp: adminInv_def)
qed

text \<open>The configuration with which a program is about to call Kubernetes, and the list it asks for.\<close>

fun pendingCall :: "'a act \<Rightarrow> (gvr option \<times> rest_config) option" where
  "pendingCall (Review cfg v r k) = Some (None, cfg)"
| "pendingCall (Rules cfg n k1) = Some (None, cfg)"
| "pendingCall (ListObjects cfg g n k2) = Some (Some g, cfg)"
| "pendingCall (GetObject cfg g n m k3) = Some (None, cfg)"
| "pendingCall _ = None"

lemma safe_pendingCall: "safe I C allows Q p G \<Longrightarrow> pendingCall p = Some (l, cfg) \<Longrightarrow> C l cfg G"
  by (cases p) auto


section \<open>Requests one after the other\<close>

text \<open>An environment whose access reviews follow the rules \<open>allows\<close>.\<close>

definition honest :: "(rest_config \<Rightarrow> string \<Rightarrow> string \<Rightarrow> bool) \<Rightarrow> web_env \<Rightarrow> bool" where
  "honest allows env \<longleftrightarrow> (\<forall>cfg v r. case en_review env cfg v r of Inl _ \<Rightarrow> True | Inr b \<Rightarrow> b = allows cfg v r)"

definition cacheOk :: "(rest_config \<Rightarrow> string \<Rightarrow> string \<Rightarrow> bool) \<Rightarrow> backend \<Rightarrow> session_data \<Rightarrow> bool" where
  "cacheOk allows b d \<longleftrightarrow> (case sd_canListAllNamespaces d of
     None \<Rightarrow> True
   | Some c \<Rightarrow> c = allows (wrapConfig (be_provider b) (be_base b) d) ''list'' ''namespaces'')"

definition cachesOk :: "(rest_config \<Rightarrow> string \<Rightarrow> string \<Rightarrow> bool) \<Rightarrow> backend \<Rightarrow> session_store \<Rightarrow> bool" where
  "cachesOk allows b s \<longleftrightarrow> (\<forall>i d. map_of (ss_sessions s) i = Some d \<longrightarrow> cacheOk allows b d)"

lemma cachesOk_get: "cachesOk allows b s \<Longrightarrow> storeGet s r = Some d \<Longrightarrow> cacheOk allows b d"
  by (auto simp: cachesOk_def storeGet_def split: option.splits)

lemma cachesOk_put: "cachesOk allows b s \<Longrightarrow> cacheOk allows b d \<Longrightarrow> cachesOk allows b (putSession i d s)"
  by (auto simp: cachesOk_def putSession_def)

lemma cachesOk_update:
  "cachesOk allows b s \<Longrightarrow> (\<And>d. storeGet s r = Some d \<Longrightarrow> cacheOk allows b d \<Longrightarrow> cacheOk allows b (f d)) \<Longrightarrow>
   cachesOk allows b (fst (updateSession f r s))"
  using cachesOk_get [of allows b s r]
  by (auto simp: updateSession_def storeGet_def intro!: cachesOk_put split: option.splits)

lemma canImpersonate_caches: "cachesOk allows b s \<Longrightarrow> cachesOk allows b (snd (runAct env (canImpersonate b r) s))"
  by (auto simp: canImpersonate_def getSession_def sessionCanImpersonate_def mutate_def setCanImpersonate_def cacheOk_def Let_def
      intro!: cachesOk_update split: option.splits sum.splits)

lemma canListAllNamespaces_caches:
  "cachesOk allows b s \<Longrightarrow> honest allows env \<Longrightarrow> cachesOk allows b (snd (runAct env (canListAllNamespaces b r) s))"
proof (cases "storeGet s r")
  case (Some d)
  assume "cachesOk allows b s" and h: "honest allows env"
  moreover have "c = allows cfg ''list'' ''namespaces''" if "en_review env cfg ''list'' ''namespaces'' = Inr c" for cfg c
    using h [unfolded honest_def, rule_format, of cfg "''list''" "''namespaces''"] that by simp
  ultimately show ?thesis using Some
    by (auto simp: canListAllNamespaces_def getSession_def sessionCanListAllNamespaces_def mutate_def setCanListAllNamespaces_def
        cacheOk_def Let_def intro!: cachesOk_update split: option.splits sum.splits)
qed (simp add: canListAllNamespaces_def getSession_def)

lemma clientFor_run [simp]: "snd (runAct env (clientFor b r) s) = s"
  by (auto simp: clientFor_def getSession_def Let_def split: option.splits)

lemma runAct_bind_snd: "snd (runAct env (bindA p k) s) = snd (runAct env (k (fst (runAct env p s))) (snd (runAct env p s)))"
  by (simp add: case_prod_beta)

lemma dispatch_caches:
  assumes "cachesOk allows (sv_backend sv) s" "honest allows env"
  shows "cachesOk allows (sv_backend sv) (snd (runAct env (dispatch sv h r) s))"
proof (cases h)
  case PreviewRoute
  show ?thesis using canImpersonate_caches [OF assms(1), of env r]
    by (auto simp: PreviewRoute requireAdmin_def requireAuth_def getSession_def handlePreview_def mutate_def setImpersonation_def
        runAct_bind_snd assms(1) cacheOk_def simp del: runAct_bind intro!: cachesOk_update split: option.splits sum.splits)
next
  case StopPreviewRoute
  show ?thesis using canImpersonate_caches [OF assms(1), of env r]
    by (auto simp: StopPreviewRoute requireAdmin_def requireAuth_def getSession_def handleStopPreview_def mutate_def clearImpersonation_def
        runAct_bind_snd assms(1) cacheOk_def simp del: runAct_bind intro!: cachesOk_update split: option.splits sum.splits)
next
  case MeRoute
  show ?thesis using canListAllNamespaces_caches [OF canImpersonate_caches [OF assms(1), of env r] assms(2)] assms(1)
    by (auto simp: MeRoute handleMe_def getSession_def runAct_bind_snd simp del: runAct_bind split: option.splits)
next
  case LoginRoute
  show ?thesis using assms(1)
    by (auto simp: LoginRoute handleLogin_def noopLogin_def oidcLogin_def setSession_def newSession_def Let_def cacheOk_def
        intro!: cachesOk_put split: provider.splits)
next
  case CallbackRoute
  show ?thesis using assms(1)
    by (auto simp: CallbackRoute handleCallback_def noopLogin_def oidcCallback_def setSession_def newSession_def Let_def cacheOk_def
        intro!: cachesOk_put split: provider.splits sum.splits option.splits)
qed (use assms(1) in \<open>auto simp: requireAuth_def getSession_def handleLogout_def clearSession_def cachesOk_def handleList_def
    handleGet_def handleSSE_def handleListNamespaces_def listUserNamespaces_def reviewNamespaces_run runAct_bind_snd Let_def
    simp del: runAct_bind split: option.splits sum.splits\<close>)

text \<open>As long as requests are served one after the other, the permission to list all namespaces that is
  cached with a session is the one of its current identity: every request, previews included, keeps
  the caches correct.\<close>

theorem namespace_cache_sequential:
  assumes "cachesOk allows (sv_backend sv) s" and "honest allows env" and "runAct env (serve sv r) s = (resp, s')"
  shows "cachesOk allows (sv_backend sv) s'"
proof -
  have "cachesOk allows (sv_backend sv) (snd (runAct env (serve sv r) s))"
    using dispatch_caches [OF assms(1,2)] assms(1) by (auto simp: serve_def split: option.splits)
  then show ?thesis using assms(3) by simp
qed

section \<open>A user without a name\<close>

text \<open>In impersonation mode, a user whose token has neither an email nor a name nor groups is not impersonated
  at all: the calls of the session are made with the configuration, and so with the rights, of the backend.\<close>

theorem nameless_user_is_backend:
  assumes "op_authMode oidc = authModeImpersonate" and "tc_email claims = ''''" "tc_name claims = ''''" "tc_groups claims = []"
    and "rc_impersonateUser base = ''''" "rc_impersonateGroups base = []"
  shows "wrapConfig (OIDCProvider oidc) base (newSession (claimedUser claims) (tc_groups claims) raw access) = base"
  using assms by (simp add: wrapConfig_def newSession_def claimedUser_def impersonate_def)

end
