(* ===== verification/WebEvents.thy ===== *)
theory WebEvents
  imports WebApi Discovery
begin

text \<open>
  \<open>HandleSSE\<close> of \<open>pkg/ui/api/handler.go\<close> once its client exists: one goroutine per resource forwards the
  events of a watch into a channel of 64 events, and one writer sends them to the browser. A step of
  \<open>sseStep\<close> is one forwarded event, one written event, or the end of the request.
\<close>

section \<open>The stream\<close>

text \<open>An event of a watch; the namespace of its object, when the object has metadata.\<close>

record watch_event =
  wv_type :: string
  wv_namespace :: "string option"

record sse_event =
  sse_type :: string
  sse_resource :: string
  sse_namespace :: string

definition sseEvent :: "string \<Rightarrow> string \<Rightarrow> watch_event \<Rightarrow> sse_event" where
  "sseEvent ns resource e =
     \<lparr>sse_type = wv_type e, sse_resource = resource,
      sse_namespace = (case wv_namespace e of Some n \<Rightarrow> n | None \<Rightarrow> ns)\<rparr>"

text \<open>The requested namespace, what each watch is still going to deliver, the channel, what was written, and
  whether the request has ended.\<close>

record sse_state =
  st_namespace :: string
  st_watches :: "watch_event list gomap"
  st_events :: "sse_event channel"
  st_written :: "sse_event list"
  st_cancelled :: bool

text \<open>Watches that cannot be opened are skipped.\<close>

definition startSSE :: "string \<Rightarrow> (gvr \<Rightarrow> go_error + watch_event list) \<Rightarrow> sse_state" where
  "startSSE ns watch =
     \<lparr>st_namespace = ns,
      st_watches = List.map_filter (\<lambda>(name, g). case watch g of Inl _ \<Rightarrow> None | Inr evs \<Rightarrow> Some (name, evs)) apiResources,
      st_events = \<lparr>ch_capacity = 64, ch_buffer = []\<rparr>, st_written = [], st_cancelled = False\<rparr>"

text \<open>When the request has ended, a goroutine that can also send does either; the writer likewise.\<close>

inductive sseStep :: "sse_state \<Rightarrow> sse_state \<Rightarrow> bool" where
  sse_forward: "map_of (st_watches s) name = Some (e # es) \<Longrightarrow> hasRoom (st_events s) \<Longrightarrow>
    sseStep s (s\<lparr>st_watches := gomap_put name es (st_watches s),
      st_events := send (sseEvent (st_namespace s) name e) (st_events s)\<rparr>)"
| sse_write: "ch_buffer (st_events s) = e' # rest \<Longrightarrow>
    sseStep s (s\<lparr>st_events := (st_events s)\<lparr>ch_buffer := rest\<rparr>, st_written := st_written s @ [e']\<rparr>)"
| sse_cancel: "sseStep s (s\<lparr>st_cancelled := True\<rparr>)"
| sse_stop: "st_cancelled s \<Longrightarrow> sseStep s (s\<lparr>st_watches := filter (\<lambda>(k, _). k \<noteq> name) (st_watches s)\<rparr>)"

section \<open>Nothing is lost or reordered\<close>

definition ofResource :: "string \<Rightarrow> sse_event list \<Rightarrow> sse_event list" where
  "ofResource name = filter (\<lambda>e. sse_resource e = name)"

definition sent :: "string \<Rightarrow> sse_state \<Rightarrow> sse_event list" where
  "sent name s = ofResource name (st_written s @ ch_buffer (st_events s))"

definition toCome :: "string \<Rightarrow> sse_state \<Rightarrow> watch_event list" where
  "toCome name s = (case map_of (st_watches s) name of None \<Rightarrow> [] | Some es \<Rightarrow> es)"

text \<open>What has been sent and what is still to come, as long as the request is alive; its beginning afterwards.\<close>

definition sseInv :: "sse_state \<Rightarrow> sse_state \<Rightarrow> bool" where
  "sseInv s0 s \<longleftrightarrow> st_namespace s = st_namespace s0 \<and> ch_capacity (st_events s) = ch_capacity (st_events s0) \<and>
     length (ch_buffer (st_events s)) \<le> ch_capacity (st_events s) \<and>
     (\<forall>name. \<exists>es. toCome name s0 = es @ toCome name s \<and> sent name s = map (sseEvent (st_namespace s0) name) es \<or>
        st_cancelled s \<and> (\<exists>es'. toCome name s0 = es @ es' \<and> sent name s = map (sseEvent (st_namespace s0) name) es \<and> toCome name s = []))"

lemma sseEvent_resource [simp]: "sse_resource (sseEvent ns name e) = name"
  by (simp add: sseEvent_def)

lemma map_of_dropped: "map_of (filter (\<lambda>(k, _). k \<noteq> i) m) j = (if j = i then None else map_of m j)"
  by (induction m) auto

lemma sseStep_inv: "sseStep s s' \<Longrightarrow> sseInv s0 s \<Longrightarrow> sseInv s0 s'"
proof (induction rule: sseStep.induct)
  case (sse_forward s name e es)
  have w: "toCome name s = e # es" using sse_forward(1) by (simp add: toCome_def)
  have same: "toCome n (s\<lparr>st_watches := gomap_put name es (st_watches s), st_events := c\<rparr>) = (if n = name then es else toCome n s)" for n c
    by (simp add: toCome_def)
  have ns: "st_namespace s = st_namespace s0" using sse_forward.prems by (simp add: sseInv_def)
  have snt: "sent n (s\<lparr>st_watches := x, st_events := send (sseEvent (st_namespace s0) name e) (st_events s)\<rparr>) =
      sent n s @ (if n = name then [sseEvent (st_namespace s0) name e] else [])" for n x
    by (simp add: sent_def ofResource_def send_def)
  show ?case unfolding sseInv_def
  proof (intro conjI allI, goal_cases)
    case (4 n)
    from sse_forward.prems obtain es0 where es0: "toCome n s0 = es0 @ toCome n s \<and> sent n s = map (sseEvent (st_namespace s0) n) es0 \<or>
        st_cancelled s \<and> (\<exists>es'. toCome n s0 = es0 @ es' \<and> sent n s = map (sseEvent (st_namespace s0) n) es0 \<and> toCome n s = [])"
      unfolding sseInv_def by blast
    show ?case
      by (rule exI [of _ "if n = name then es0 @ [e] else es0"]) (use es0 w ns in \<open>auto simp: same snt\<close>)
  qed (use sse_forward in \<open>auto simp: sseInv_def send_def hasRoom_def\<close>)
next
  case (sse_write s e' rest)
  then have "sent n (s\<lparr>st_events := (st_events s)\<lparr>ch_buffer := rest\<rparr>, st_written := st_written s @ [e']\<rparr>) = sent n s" for n
    by (simp add: sent_def ofResource_def)
  with sse_write show ?case by (simp add: sseInv_def toCome_def)
next
  case (sse_cancel s)
  then show ?case by (simp add: sseInv_def toCome_def sent_def) blast
next
  case (sse_stop s name)
  have same: "toCome n (s\<lparr>st_watches := filter (\<lambda>(k, _). k \<noteq> name) (st_watches s)\<rparr>) = (if n = name then [] else toCome n s)" for n
    by (simp add: toCome_def map_of_dropped)
  show ?case using sse_stop unfolding sseInv_def same by (simp add: sent_def) metis
qed

text \<open>The browser gets the events of every watch once and in order: whatever has been written is, for every
  resource, the beginning of what its watch delivered, tagged with the resource and the namespace of the
  object; as long as the request is alive nothing was dropped: what was written, what is queued and what
  the watch still delivers make up the whole; and the queue never holds more than 64 events.\<close>

theorem sse_in_order:
  assumes "sseStep\<^sup>*\<^sup>* (startSSE ns watch) s"
  shows "length (ch_buffer (st_events s)) \<le> 64 \<and>
    (\<exists>es rest. toCome name (startSSE ns watch) = es @ rest \<and> sent name s = map (sseEvent ns name) es \<and>
       (st_cancelled s \<or> rest = toCome name s))"
proof -
  have "sseInv (startSSE ns watch) s"
    using assms
  proof (induction rule: rtranclp_induct)
    case base
    show ?case by (simp add: sseInv_def startSSE_def sent_def ofResource_def)
  qed (rule sseStep_inv)
  moreover have "ch_capacity (st_events (startSSE ns watch)) = 64" "st_namespace (startSSE ns watch) = ns"
    by (simp_all add: startSSE_def)
  ultimately show ?thesis unfolding sseInv_def by auto metis+
qed

end
