(* ===== verification/WebScenarios.thy ===== *)
theory WebScenarios
  imports WebProperties WebEvents
begin

text \<open>
  Concrete runs of the web backend: an administrator logs in, asks for the status and previews a viewer,
  alone and with the requests interleaved.
\<close>

section \<open>Playing a schedule\<close>

text \<open>A schedule lets requests arrive and the requests in progress take turns; the environment answers.\<close>

datatype move = Arrive web_request | Turn nat

definition resume :: "nat \<Rightarrow> 'a act \<Rightarrow> 'a web_state \<Rightarrow> 'a web_state" where
  "resume n p W = W\<lparr>ws_running := (ws_running W)[n := p]\<rparr>"

definition playTurn :: "web_env \<Rightarrow> nat \<Rightarrow> 'a web_state \<Rightarrow> 'a web_state" where
  "playTurn env n W =
     (if n < length (ws_running W) then
        (case ws_running W ! n of
           Done _ \<Rightarrow> W
         | Locked f \<Rightarrow> (case f (ws_store W) of (s, p) \<Rightarrow> resume n p (W\<lparr>ws_store := s\<rparr>))
         | Create d c \<Rightarrow>
             (let i = en_newID env (ws_store W) in
              if ws_issued W i = None
              then resume n (c i) (W\<lparr>ws_store := putSession i d (ws_store W), ws_issued := (ws_issued W)(i \<mapsto> d)\<rparr>) else W)
         | Random c \<Rightarrow> resume n (c (en_random env)) W
         | Review cfg v r c \<Rightarrow> resume n (c (en_review env cfg v r)) W
         | Rules cfg m c \<Rightarrow> resume n (c (en_rules env cfg m)) W
         | ListObjects cfg g m c \<Rightarrow> resume n (c (en_list env cfg g m)) W
         | GetObject cfg g m x c \<Rightarrow> resume n (c (en_get env cfg g m x)) W
         | Exchange code c \<Rightarrow> resume n (c (en_exchange env code)) W
         | Verify t c \<Rightarrow> resume n (c (en_verify env t)) W)
      else W)"

fun play :: "web_env \<Rightarrow> web_server \<Rightarrow> move list \<Rightarrow> web_response web_state \<Rightarrow> web_response web_state" where
  "play env sv [] W = W"
| "play env sv (Arrive r # ms) W = play env sv ms (W\<lparr>ws_running := serve sv r # ws_running W\<rparr>)"
| "play env sv (Turn n # ms) W = play env sv ms (playTurn env n W)"

lemma playTurn_steps:
  assumes "honest allows env"
  shows "(webStep allows H)\<^sup>*\<^sup>* W (playTurn env n W)"
proof (cases "n < length (ws_running W)")
  case True
  have h: "case en_review env cfg v r of Inl _ \<Rightarrow> True | Inr b \<Rightarrow> b = allows cfg v r" for cfg v r
    using assms by (simp add: honest_def)
  show ?thesis
  proof (cases "ws_running W ! n")
    case (Locked f)
    then show ?thesis using ws_locked [OF True Locked] True
      by (auto simp: playTurn_def resume_def split: prod.splits)
  next
    case (Create d c)
    then show ?thesis using ws_create [OF True Create] True
      by (auto simp: playTurn_def resume_def Let_def)
  next
    case (Random c)
    show ?thesis using ws_random [OF True Random] True by (auto simp: playTurn_def resume_def Random)
  next
    case (Review cfg v r c)
    show ?thesis using ws_review [where answer = "en_review env cfg v r" and allows = allows, OF True Review h] True by (auto simp: playTurn_def resume_def Review)
  next
    case (Rules cfg m c)
    show ?thesis using ws_rules [OF True Rules] True by (auto simp: playTurn_def resume_def Rules)
  next
    case (ListObjects cfg g m c)
    show ?thesis using ws_list [OF True ListObjects] True by (auto simp: playTurn_def resume_def ListObjects)
  next
    case (GetObject cfg g m x c)
    show ?thesis using ws_get [OF True GetObject] True by (auto simp: playTurn_def resume_def GetObject)
  next
    case (Exchange code c)
    show ?thesis using ws_exchange [OF True Exchange] True by (auto simp: playTurn_def resume_def Exchange)
  next
    case (Verify t c)
    show ?thesis using ws_verify [OF True Verify] True by (auto simp: playTurn_def resume_def Verify)
  qed (simp add: playTurn_def)
qed (simp add: playTurn_def)

lemma play_reachable:
  assumes "honest allows env"
  shows "(webStep allows {serve sv r |r. True})\<^sup>*\<^sup>* W (play env sv ms W)"
  using assms
proof (induction env sv ms W rule: play.induct)
  case (2 env sv r ms W)
  have "webStep allows {serve sv r |r. True} W (W\<lparr>ws_running := serve sv r # ws_running W\<rparr>)" by (rule ws_request) auto
  with 2 show ?case by (simp add: converse_rtranclp_into_rtranclp)
next
  case (3 env sv n ms W)
  show ?case unfolding play.simps using playTurn_steps [OF "3.prems"] "3.IH" [OF "3.prems"] by (rule rtranclp_trans)
qed simp

section \<open>The installation\<close>

definition backendConfig :: rest_config where
  "backendConfig =
     \<lparr>rc_host = ''https://10.0.0.1'', rc_bearerToken = ''backend-token'', rc_bearerTokenFile = ''/var/run/secrets/token'',
      rc_certData = '''', rc_certFile = '''', rc_keyData = '''', rc_keyFile = '''', rc_impersonateUser = '''', rc_impersonateGroups = []\<rparr>"

definition dexLib :: oidc_lib where
  "dexLib =
     \<lparr>ol_readFile = (\<lambda>_. Inl (ErrorText ''no such file'')), ol_hasCertificates = (\<lambda>_. False),
      ol_newProvider = (\<lambda>_ issuer. Inr issuer), ol_authCodeURL = (\<lambda>cfg st. oa_endpoint cfg @ ''?state='' @ st)\<rparr>"

definition dexOAuth :: oauth_config where
  "dexOAuth =
     \<lparr>oa_clientID = ''solar'', oa_clientSecret = ''secret'', oa_redirectURL = ''https://solar/api/auth/callback'',
      oa_endpoint = ''https://dex'', oa_scopes = [''openid'', ''profile'', ''email'', ''groups'']\<rparr>"

definition dexProvider :: "string \<Rightarrow> oidc_provider" where
  "dexProvider mode = \<lparr>op_oauth = dexOAuth, op_authMode = mode, op_httpClient = SystemRoots\<rparr>"

definition demoBackend :: backend where
  "demoBackend =
     \<lparr>be_base = backendConfig, be_provider = OIDCProvider (dexProvider authModeToken), be_clientError = (\<lambda>_. None),
      be_order = rev, be_oidc = dexLib\<rparr>"

definition demoServer :: web_server where
  "demoServer =
     \<lparr>sv_backend = demoBackend, sv_parsePreview = (\<lambda>user. Inr (user, [])), sv_static = (\<lambda>_. statusOnly 200)\<rparr>"

definition demoStore :: session_store where
  "demoStore = \<lparr>ss_sessions = [], ss_key = replicate 32 0\<rparr>"

text \<open>The administrator may do everything, previewed users nothing at cluster scope.\<close>

definition clusterRules :: "rest_config \<Rightarrow> string \<Rightarrow> string \<Rightarrow> bool" where
  "clusterRules cfg v r \<longleftrightarrow> rc_impersonateUser cfg = '''' \<and> rc_bearerToken cfg = ''admin-token''"

definition demoNamespaces :: "kobject list" where
  "demoNamespaces = map (\<lambda>n. \<lparr>ko_namespace = '''', ko_name = n, ko_content = ''''\<rparr>) [''kube-system'', ''team-b'', ''team-a'']"

definition demoEnv :: web_env where
  "demoEnv =
     \<lparr>en_newID = (\<lambda>s. if ss_sessions s = [] then ''s1'' else ''s2''), en_random = ''st'',
      en_review = (\<lambda>cfg v r. Inr (clusterRules cfg v r)),
      en_rules = (\<lambda>cfg n. if n = ''kube-system'' then Inr [['''']] else Inr [[''apps''], [solarAPIGroup]]),
      en_list = (\<lambda>cfg g n. Inr demoNamespaces), en_get = (\<lambda>_ _ _ _. Inl (StatusError 404 ''not found'')),
      en_exchange = (\<lambda>code. Inr \<lparr>ot_accessToken = ''access'', ot_idToken = Some ''admin-token''\<rparr>),
      en_verify = (\<lambda>t. Inr (Inr \<lparr>tc_email = ''admin@solar.local'', tc_name = ''Admin'', tc_groups = [''admins'']\<rparr>))\<rparr>"

lemma demo_honest: "honest clusterRules demoEnv"
  by (simp add: honest_def demoEnv_def)

definition browse :: "string \<Rightarrow> string \<Rightarrow> string \<Rightarrow> web_request" where
  "browse method path body =
     \<lparr>rq_method = method, rq_path = path, rq_cookies = [(cookieName, ''s1'')], rq_query = [], rq_values = [], rq_body = body\<rparr>"

definition loginRequest :: web_request where
  "loginRequest =
     \<lparr>rq_method = ''GET'', rq_path = ''/api/auth/callback'', rq_cookies = [(stateCookieName, ''st'')],
      rq_query = [(''code'', ''c''), (''state'', ''st'')], rq_values = [], rq_body = ''''\<rparr>"

text \<open>The login, then the status and the preview interleaved: the status has asked whether all namespaces may
  be listed when the preview begins, and stores the answer after it.\<close>

definition login :: "move list" where
  "login = [Arrive loginRequest, Turn 0, Turn 0, Turn 0]"

definition overtaken :: "move list" where
  "overtaken = login @ [Arrive (browse ''GET'' ''/api/auth/me'' ''''), Turn 0, Turn 0, Turn 0, Turn 0, Turn 0, Turn 0,
     Arrive (browse ''PUT'' ''/api/auth/impersonate'' ''viewer@solar.local''), Turn 0, Turn 0, Turn 0, Turn 1]"

definition overtakenState :: "web_response web_state" where
  "overtakenState = play demoEnv demoServer overtaken (startWeb demoStore)"

lemma overtaken_session:
  "map_option (\<lambda>d. (sd_impersonatingAs d, sd_canListAllNamespaces d)) (map_of (ss_sessions (ws_store overtakenState)) ''s1'') =
     Some (''viewer@solar.local'', Some True)"
  by code_simp

lemma overtaken_reachable: "(webStep clusterRules {serve demoServer r |r. True})\<^sup>*\<^sup>* (startWeb demoStore) overtakenState"
  unfolding overtakenState_def by (rule play_reachable [OF demo_honest])

lemma demo_store: "newStore (replicate 32 0) '''' = Inr demoStore"
  by (simp add: newStore_def demoStore_def)

text \<open>With concurrent requests the cached permission to list all namespaces can be the one of another
  identity: a status request of an administrator that is overtaken by the begin of a preview stores the
  answer for the administrator in the session that now previews a user without that permission.\<close>

theorem namespace_cache_overtaken:
  "\<exists>W d. (webStep clusterRules {serve demoServer r |r. True})\<^sup>*\<^sup>* (startWeb demoStore) W \<and>
     map_of (ss_sessions (ws_store W)) ''s1'' = Some d \<and> sd_canListAllNamespaces d = Some True \<and>
     \<not> clusterRules (wrapConfig (be_provider demoBackend) (be_base demoBackend) d) ''list'' ''namespaces''"
proof -
  obtain d where d: "map_of (ss_sessions (ws_store overtakenState)) ''s1'' = Some d"
    "sd_impersonatingAs d = ''viewer@solar.local''" "sd_canListAllNamespaces d = Some True"
    using overtaken_session by (auto simp: map_option_case split: option.splits)
  then have "\<not> clusterRules (wrapConfig (be_provider demoBackend) (be_base demoBackend) d) ''list'' ''namespaces''"
    by (simp add: clusterRules_def wrapConfig_def demoBackend_def impersonate_def)
  with d overtaken_reachable show ?thesis by blast
qed

section \<open>Witnesses\<close>

theorem preview_only_for_admins_witness:
  "\<exists>d. map_of (ss_sessions (ws_store overtakenState)) ''s1'' = Some d \<and> sd_impersonatingAs d = ''viewer@solar.local'' \<and>
     mayImpersonate clusterRules (sv_backend demoServer) d"
proof -
  obtain d where d: "map_of (ss_sessions (ws_store overtakenState)) ''s1'' = Some d" "sd_impersonatingAs d = ''viewer@solar.local''"
    using overtaken_session by (auto simp: map_option_case split: option.splits)
  from preview_only_for_admins [OF demo_store overtaken_reachable d(1)] d show ?thesis by auto
qed

definition askingState :: "web_response web_state" where
  "askingState = play demoEnv demoServer (login @ [Arrive (browse ''GET'' ''/api/auth/me'' ''''), Turn 0, Turn 0]) (startWeb demoStore)"

lemma asking_reachable: "(webStep clusterRules {serve demoServer r |r. True})\<^sup>*\<^sup>* (startWeb demoStore) askingState"
  unfolding askingState_def by (rule play_reachable [OF demo_honest])


theorem unauthenticated_refused_witness:
  "\<exists>f. serve demoServer (browse ''GET'' ''/api/namespaces/team-a/targets'' '''') = Locked f \<and>
     f demoStore = (demoStore, Done (failure ''{\"error\":\"unauthorized\"}'' 401))"
  by (rule unauthenticated_refused [where h = "ListRoute ''targets''" and vs = "[(''namespace'', ''team-a'')]"]) code_simp+

definition adminSession :: session_data where
  "adminSession = newSession ''admin@solar.local'' [''admins''] ''admin-token'' ''access''"

definition loggedIn :: session_store where
  "loggedIn = putSession ''s1'' adminSession demoStore"

theorem namespaces_filtered_witness:
  "runAct demoEnv (handleListNamespaces demoBackend (browse ''GET'' ''/api/namespaces'' '''')) loggedIn =
     (writeJSON (JResources (map (\<lambda>n. \<lparr>ko_namespace = '''', ko_name = n, ko_content = ''''\<rparr>) [''team-a'', ''team-b''])), loggedIn)"
proof -
  have "runAct demoEnv (handleListNamespaces demoBackend (browse ''GET'' ''/api/namespaces'' '''')) loggedIn =
    (writeJSON (JResources (sortSlice byName
       (filter (\<lambda>ns. hasSolarAccess (en_rules demoEnv (wrapConfig (be_provider demoBackend) (be_base demoBackend) adminSession) (ko_name ns)))
         demoNamespaces))), loggedIn)"
    by (rule namespaces_filtered) (simp add: demoBackend_def demoEnv_def demoNamespaces_def loggedIn_def putSession_def storeGet_def
      browse_def demoStore_def)+
  moreover have "sortSlice byName
      (filter (\<lambda>ns. hasSolarAccess (en_rules demoEnv (wrapConfig (be_provider demoBackend) (be_base demoBackend) adminSession) (ko_name ns)))
         demoNamespaces) = map (\<lambda>n. \<lparr>ko_namespace = '''', ko_name = n, ko_content = ''''\<rparr>) [''team-a'', ''team-b'']"
    by code_simp
  ultimately show ?thesis by simp
qed

theorem namespace_cache_sequential_witness:
  "cachesOk clusterRules (sv_backend demoServer)
     (snd (runAct demoEnv (serve demoServer (browse ''PUT'' ''/api/auth/impersonate'' ''viewer@solar.local''))
       (snd (runAct demoEnv (serve demoServer (browse ''GET'' ''/api/auth/me'' '''')) loggedIn))))"
proof -
  have step: "cachesOk clusterRules (sv_backend demoServer) (snd (runAct demoEnv (serve demoServer r) s))"
    if "cachesOk clusterRules (sv_backend demoServer) s" for r s
    using namespace_cache_sequential [OF that demo_honest] by (metis prod.collapse)
  have "cachesOk clusterRules (sv_backend demoServer) loggedIn"
    by (simp add: cachesOk_def loggedIn_def putSession_def demoStore_def adminSession_def newSession_def cacheOk_def)
  then show ?thesis by (intro step)
qed

theorem nameless_user_is_backend_witness:
  "wrapConfig (OIDCProvider (dexProvider authModeImpersonate)) backendConfig (newSession '''' [] ''token'' ''access'') = backendConfig"
  using nameless_user_is_backend [of "dexProvider authModeImpersonate" "\<lparr>tc_email = '''', tc_name = '''', tc_groups = []\<rparr>"
      backendConfig "''token''" "''access''"]
  by (simp add: dexProvider_def backendConfig_def claimedUser_def)

section \<open>A stream\<close>

definition targetWatch :: "gvr \<Rightarrow> go_error + watch_event list" where
  "targetWatch g =
     (if gvr_resource g = ''targets''
      then Inr [\<lparr>wv_type = ''ADDED'', wv_namespace = Some ''team-a''\<rparr>, \<lparr>wv_type = ''ERROR'', wv_namespace = None\<rparr>]
      else Inl (ErrorText ''forbidden''))"

definition forwardedSSE :: sse_state where
  "forwardedSSE = (startSSE '''' targetWatch)\<lparr>st_watches := [(''targets'', [\<lparr>wv_type = ''ERROR'', wv_namespace = None\<rparr>])],
     st_events := \<lparr>ch_capacity = 64, ch_buffer = [\<lparr>sse_type = ''ADDED'', sse_resource = ''targets'', sse_namespace = ''team-a''\<rparr>]\<rparr>\<rparr>"

definition writtenSSE :: sse_state where
  "writtenSSE = forwardedSSE\<lparr>st_events := \<lparr>ch_capacity = 64, ch_buffer = []\<rparr>,
     st_written := [\<lparr>sse_type = ''ADDED'', sse_resource = ''targets'', sse_namespace = ''team-a''\<rparr>]\<rparr>"

lemma stream_run: "sseStep\<^sup>*\<^sup>* (startSSE '''' targetWatch) writtenSSE"
proof -
  have forwarded: "forwardedSSE = (startSSE '''' targetWatch)\<lparr>
      st_watches := gomap_put ''targets'' [\<lparr>wv_type = ''ERROR'', wv_namespace = None\<rparr>] (st_watches (startSSE '''' targetWatch)),
      st_events := send (sseEvent (st_namespace (startSSE '''' targetWatch)) ''targets'' \<lparr>wv_type = ''ADDED'', wv_namespace = Some ''team-a''\<rparr>)
        (st_events (startSSE '''' targetWatch))\<rparr>"
    by code_simp
  have written: "writtenSSE = forwardedSSE\<lparr>st_events := (st_events forwardedSSE)\<lparr>ch_buffer := []\<rparr>,
      st_written := st_written forwardedSSE @ [\<lparr>sse_type = ''ADDED'', sse_resource = ''targets'', sse_namespace = ''team-a''\<rparr>]\<rparr>"
    by code_simp
  have "sseStep (startSSE '''' targetWatch) forwardedSSE" unfolding forwarded by (rule sse_forward) code_simp+
  moreover have "sseStep forwardedSSE writtenSSE" unfolding written by (rule sse_write) code_simp
  ultimately show ?thesis by (meson converse_rtranclp_into_rtranclp rtranclp.rtrancl_refl)
qed

theorem sse_in_order_witness:
  "length (st_written writtenSSE) = 1 \<and> length (ch_buffer (st_events writtenSSE)) \<le> 64 \<and>
   (\<exists>es rest. toCome ''targets'' (startSSE '''' targetWatch) = es @ rest \<and> sent ''targets'' writtenSSE = map (sseEvent '''' ''targets'') es \<and>
      (st_cancelled writtenSSE \<or> rest = toCome ''targets'' writtenSSE))"
  using sse_in_order [OF stream_run, of "''targets''"] by (simp add: writtenSSE_def)

end
