(* ===== verification/Storage.thy ===== *)
theory Storage
  imports Helpers
begin

text \<open>
  The storage strategies of the API server (\<open>api/solar/*_rest.go\<close>, \<open>api/solar/helpers.go\<close>): what the
  server does to an object before it stores it (the generation), which objects and which updates it
  refuses, what a status write may change, and the rows it prints. A strategy is the record of the methods
  that a resource gives the server; a method that the resource does not implement is \<open>None\<close>. The objects are those of
  \<open>Api_Types\<close>: the internal types have the fields of the versioned ones.

  \<open>apiequality.Semantic.DeepEqual\<close> is a parameter of the definitions that call it, and the age that
  \<open>duration.HumanDuration\<close> prints is the argument \<open>age\<close>. The server itself
  (\<open>go.opendefense.cloud/kit/apiserver\<close>) is the relation \<open>history\<close>: it calls \<open>PrepareForCreate\<close> and
  \<open>PrepareForUpdate\<close> before validation and stores nothing that validation refuses, and its
  function \<open>carry\<close> that completes the metadata of an update from the stored object is a parameter.
\<close>

section \<open>Errors, tables and strategies\<close>

datatype field_error =
    FieldRequired string string
  | FieldInvalid string int string
  | FieldForbidden string string

record column =
  col_name :: string
  col_type :: string
  col_format :: string

datatype cell = CellString string | CellBool bool | CellInt int

record 'o table =
  tab_columns :: "column list"
  tab_rows :: "(cell list \<times> 'o) list"

definition newTable :: "'o \<Rightarrow> column list \<Rightarrow> cell list \<Rightarrow> 'o table" where
  "newTable obj columns cells = \<lparr>tab_columns = columns, tab_rows = [(cells, obj)]\<rparr>"

abbreviation nameColumn :: column where
  "nameColumn \<equiv> \<lparr>col_name = ''Name'', col_type = ''string'', col_format = ''name''\<rparr>"

abbreviation plainColumn :: "string \<Rightarrow> string \<Rightarrow> column" where
  "plainColumn n ty \<equiv> \<lparr>col_name = n, col_type = ty, col_format = ''''\<rparr>"

abbreviation ageColumn :: column where
  "ageColumn \<equiv> plainColumn ''Age'' ''string''"

record ('spec, 'status) strategy =
  st_groupResource :: "string \<times> string"
  st_singularName :: string
  st_shortNames :: "string list"
  st_namespaceScoped :: bool
  st_prepareForCreate :: "('spec, 'status) object \<Rightarrow> ('spec, 'status) object"
  st_prepareForUpdate :: "('spec, 'status) object \<Rightarrow> ('spec, 'status) object \<Rightarrow> ('spec, 'status) object"
  st_copyStatusTo :: "(('spec, 'status) object \<Rightarrow> ('spec, 'status) object \<Rightarrow> ('spec, 'status) object) option"
  st_validate :: "(('spec, 'status) object \<Rightarrow> field_error list) option"
  st_validateUpdate :: "(('spec, 'status) object \<Rightarrow> ('spec, 'status) object \<Rightarrow> field_error list) option"
  st_convertToTable :: "(string \<Rightarrow> ('spec, 'status) object \<Rightarrow> ('spec, 'status) object table) option"

definition groupName :: string where "groupName = ''solar.opendefense.cloud''"

definition setGeneration :: "int \<Rightarrow> ('spec, 'status) object \<Rightarrow> ('spec, 'status) object" where
  "setGeneration g o' = o'\<lparr>metadata := (metadata o')\<lparr>om_generation := g\<rparr>\<rparr>"

definition incrementGenerationIfNotEqual ::
  "('a \<Rightarrow> 'a \<Rightarrow> bool) \<Rightarrow> ('spec, 'status) object \<Rightarrow> 'a \<Rightarrow> 'a \<Rightarrow> ('spec, 'status) object" where
  "incrementGenerationIfNotEqual deepEqual o' a b =
     (if \<not> deepEqual a b then
        let om = metadata o'; gen = om_generation om in setGeneration (int64_wrap (gen + 1)) o'
      else o')"

section \<open>Validation\<close>

definition validateRelease :: "release \<Rightarrow> field_error list" where
  "validateRelease o' =
     (if rel_componentVersionRef (spec o') = ''''
      then [FieldRequired ''spec.componentVersionRef.name'' ''componentVersionRef.name must not be empty''] else [])"

definition releaseValidateUpdate :: "release \<Rightarrow> release \<Rightarrow> field_error list" where
  "releaseValidateUpdate o' old =
     (let errors = validateRelease o' in
      if rel_uniqueName (spec o') \<noteq> rel_uniqueName (spec old)
      then errors @ [FieldForbidden ''spec.uniqueName'' ''uniqueName is immutable''] else errors)"

definition validateRegistry :: "registry \<Rightarrow> field_error list" where
  "validateRegistry o' =
     (let errs = (if reg_webhookPath (spec o') \<noteq> '''' \<and> reg_flavor (spec o') = ''''
                  then [FieldRequired ''spec.flavor'' ''flavor must be set when webhookPath is non-empty''] else [])
      in case reg_scanInterval (spec o') of
           None \<Rightarrow> errs
         | Some d \<Rightarrow> if d \<le> 0 then errs @ [FieldInvalid ''spec.scanInterval'' d ''scanInterval must be greater than 0''] else errs)"

definition registryValidateUpdate :: "registry \<Rightarrow> registry \<Rightarrow> field_error list" where
  "registryValidateUpdate o' old = validateRegistry o'"

text \<open>\<open>if value == "" \{ errs = append(errs, field.Required(spec.Child(...), ...)) \}\<close>.\<close>

definition requireField :: "string \<Rightarrow> string \<Rightarrow> field_error list" where
  "requireField field v = (if v = '''' then [FieldRequired (''spec.'' @ field) (field @ '' must not be empty'')] else [])"

definition validateRenderArtifact :: "render_artifact \<Rightarrow> field_error list" where
  "validateRenderArtifact o' =
     requireField ''baseURL'' (art_baseURL (spec o')) @ requireField ''repository'' (art_repository (spec o')) @
     requireField ''tag'' (art_tag (spec o')) @ requireField ''renderTaskRef'' (art_renderTaskRef (spec o'))"

definition renderArtifactValidateUpdate :: "render_artifact \<Rightarrow> render_artifact \<Rightarrow> field_error list" where
  "renderArtifactValidateUpdate o' old = validateRenderArtifact o'"

definition validateRenderBinding :: "render_binding \<Rightarrow> field_error list" where
  "validateRenderBinding o' =
     requireField ''renderArtifactRef.name'' (rb_renderArtifactRef (spec o')) @ requireField ''ownerKind'' (rb_ownerKind (spec o')) @
     requireField ''ownerName'' (rb_ownerName (spec o')) @ requireField ''ownerNamespace'' (rb_ownerNamespace (spec o'))"

definition renderBindingValidateUpdate :: "render_binding \<Rightarrow> render_binding \<Rightarrow> field_error list" where
  "renderBindingValidateUpdate o' old = validateRenderBinding o'"

definition renderTaskValidateUpdate ::
  "(renderer_config \<Rightarrow> renderer_config \<Rightarrow> bool) \<Rightarrow> render_task \<Rightarrow> render_task \<Rightarrow> field_error list" where
  "renderTaskValidateUpdate configEqual o' old =
     (if \<not> configEqual (rt_rendererConfig (spec o')) (rt_rendererConfig (spec old))
      then [FieldForbidden ''spec.rendererConfig'' ''rendererConfig is immutable''] else [])"

section \<open>The status columns\<close>

text \<open>The first \<open>ComponentVersionResolved\<close> condition of a release.\<close>

fun releaseStatusText :: "condition list \<Rightarrow> string" where
  "releaseStatusText [] = ''Unknown''"
| "releaseStatusText (c # cs) = (if cond_type c = ''ComponentVersionResolved'' then cond_reason c else releaseStatusText cs)"

text \<open>The loop over the conditions of a RenderTask, with its variables \<open>status\<close> and \<open>scheduledFalseReason\<close>.\<close>

fun taskStatusLoop :: "condition list \<Rightarrow> string \<Rightarrow> string \<Rightarrow> string \<times> string" where
  "taskStatusLoop [] st scheduledFalseReason = (st, scheduledFalseReason)"
| "taskStatusLoop (c # cs) st scheduledFalseReason =
     (if cond_status c = ConditionTrue then
        if cond_type c = ''JobSucceeded'' \<or> cond_type c = ''JobFailed'' then taskStatusLoop cs (cond_reason c) scheduledFalseReason
        else if cond_type c = ''JobScheduled'' then
          taskStatusLoop cs (if st = ''Unknown'' then cond_reason c else st) scheduledFalseReason
        else taskStatusLoop cs st scheduledFalseReason
      else if cond_type c = ''JobScheduled'' \<and> cond_status c = ConditionFalse then taskStatusLoop cs st (cond_reason c)
      else taskStatusLoop cs st scheduledFalseReason)"

definition renderTaskStatusText :: "condition list \<Rightarrow> string" where
  "renderTaskStatusText conds =
     (let (st, scheduledFalseReason) = taskStatusLoop conds ''Unknown'' '''' in
      if st = ''Unknown'' \<and> scheduledFalseReason \<noteq> '''' then scheduledFalseReason else st)"

section \<open>The resources\<close>

subsection \<open>\<open>Component\<close>\<close>

definition componentPrepareForCreate :: "component \<Rightarrow> component" where
  "componentPrepareForCreate o' = setGeneration 1 o'"

definition componentPrepareForUpdate :: "(component_spec \<Rightarrow> component_spec \<Rightarrow> bool) \<Rightarrow> component \<Rightarrow> component \<Rightarrow> component" where
  "componentPrepareForUpdate specEqual o' old = incrementGenerationIfNotEqual specEqual o' (spec o') (spec old)"

definition componentConvertToTable :: "string \<Rightarrow> component \<Rightarrow> component table" where
  "componentConvertToTable age o' =
     newTable o' [nameColumn, plainColumn ''Registry'' ''string'', plainColumn ''Repository'' ''string'', ageColumn]
       [CellString (om_name (metadata o')), CellString (comp_registry (spec o')), CellString (comp_repository (spec o')), CellString age]"

definition componentStrategy :: "(component_spec \<Rightarrow> component_spec \<Rightarrow> bool) \<Rightarrow> (component_spec, unit) strategy" where
  "componentStrategy specEqual =
     \<lparr>st_groupResource = (groupName, ''components''), st_singularName = ''component'', st_shortNames = [''comp''], st_namespaceScoped = True,
      st_prepareForCreate = componentPrepareForCreate, st_prepareForUpdate = componentPrepareForUpdate specEqual,
      st_copyStatusTo = None, st_validate = None, st_validateUpdate = None,
      st_convertToTable = Some componentConvertToTable\<rparr>"

subsection \<open>\<open>ComponentVersion\<close>\<close>

definition componentVersionPrepareForCreate :: "component_version \<Rightarrow> component_version" where
  "componentVersionPrepareForCreate o' = setGeneration 1 o'"

definition componentVersionPrepareForUpdate :: "(component_version_spec \<Rightarrow> component_version_spec \<Rightarrow> bool) \<Rightarrow> component_version \<Rightarrow> component_version \<Rightarrow> component_version" where
  "componentVersionPrepareForUpdate specEqual o' old = incrementGenerationIfNotEqual specEqual o' (spec o') (spec old)"

definition componentVersionConvertToTable :: "string \<Rightarrow> component_version \<Rightarrow> component_version table" where
  "componentVersionConvertToTable age o' =
     newTable o' [nameColumn, plainColumn ''Component Ref'' ''string'', plainColumn ''Tag'' ''string'', ageColumn]
       [CellString (om_name (metadata o')), CellString (cv_componentRef (spec o')), CellString (cv_tag (spec o')), CellString age]"

definition componentVersionStrategy :: "(component_version_spec \<Rightarrow> component_version_spec \<Rightarrow> bool) \<Rightarrow> (component_version_spec, unit) strategy" where
  "componentVersionStrategy specEqual =
     \<lparr>st_groupResource = (groupName, ''componentversions''), st_singularName = ''componentversion'', st_shortNames = [''cv''], st_namespaceScoped = True,
      st_prepareForCreate = componentVersionPrepareForCreate, st_prepareForUpdate = componentVersionPrepareForUpdate specEqual,
      st_copyStatusTo = None, st_validate = None, st_validateUpdate = None,
      st_convertToTable = Some componentVersionConvertToTable\<rparr>"

subsection \<open>\<open>Profile\<close>\<close>

definition profilePrepareForCreate :: "profile \<Rightarrow> profile" where
  "profilePrepareForCreate o' = setGeneration 1 o'"

definition profilePrepareForUpdate :: "(profile_spec \<Rightarrow> profile_spec \<Rightarrow> bool) \<Rightarrow> profile \<Rightarrow> profile \<Rightarrow> profile" where
  "profilePrepareForUpdate specEqual o' old = incrementGenerationIfNotEqual specEqual o' (spec o') (spec old)"

definition profileCopyStatusTo :: "profile \<Rightarrow> profile \<Rightarrow> profile" where
  "profileCopyStatusTo o' obj = obj\<lparr>status := status o'\<rparr>"

definition profileConvertToTable :: "string \<Rightarrow> profile \<Rightarrow> profile table" where
  "profileConvertToTable age o' =
     newTable o' [nameColumn, plainColumn ''Release Ref'' ''string'', plainColumn ''Matched Targets'' ''integer'', ageColumn]
       [CellString (om_name (metadata o')), CellString (prf_releaseRef (spec o')), CellInt (prf_matchedTargets (status o')), CellString age]"

definition profileStrategy :: "(profile_spec \<Rightarrow> profile_spec \<Rightarrow> bool) \<Rightarrow> (profile_spec, profile_status) strategy" where
  "profileStrategy specEqual =
     \<lparr>st_groupResource = (groupName, ''profiles''), st_singularName = ''profile'', st_shortNames = [''prf''], st_namespaceScoped = True,
      st_prepareForCreate = profilePrepareForCreate, st_prepareForUpdate = profilePrepareForUpdate specEqual,
      st_copyStatusTo = Some profileCopyStatusTo, st_validate = None, st_validateUpdate = None,
      st_convertToTable = Some profileConvertToTable\<rparr>"

subsection \<open>\<open>ReferenceGrant\<close>\<close>

definition referenceGrantPrepareForCreate :: "reference_grant \<Rightarrow> reference_grant" where
  "referenceGrantPrepareForCreate o' = setGeneration 1 o'"

definition referenceGrantPrepareForUpdate :: "(reference_grant_spec \<Rightarrow> reference_grant_spec \<Rightarrow> bool) \<Rightarrow> reference_grant \<Rightarrow> reference_grant \<Rightarrow> reference_grant" where
  "referenceGrantPrepareForUpdate specEqual o' old = incrementGenerationIfNotEqual specEqual o' (spec o') (spec old)"

definition referenceGrantStrategy :: "(reference_grant_spec \<Rightarrow> reference_grant_spec \<Rightarrow> bool) \<Rightarrow> (reference_grant_spec, unit) strategy" where
  "referenceGrantStrategy specEqual =
     \<lparr>st_groupResource = (groupName, ''referencegrants''), st_singularName = ''referencegrant'', st_shortNames = [''rg''], st_namespaceScoped = True,
      st_prepareForCreate = referenceGrantPrepareForCreate, st_prepareForUpdate = referenceGrantPrepareForUpdate specEqual,
      st_copyStatusTo = None, st_validate = None, st_validateUpdate = None,
      st_convertToTable = None\<rparr>"

subsection \<open>\<open>Registry\<close>\<close>

definition registryPrepareForCreate :: "registry \<Rightarrow> registry" where
  "registryPrepareForCreate o' = setGeneration 1 o'"

definition registryPrepareForUpdate :: "(registry_spec \<Rightarrow> registry_spec \<Rightarrow> bool) \<Rightarrow> registry \<Rightarrow> registry \<Rightarrow> registry" where
  "registryPrepareForUpdate specEqual o' old = incrementGenerationIfNotEqual specEqual o' (spec o') (spec old)"

definition registryConvertToTable :: "string \<Rightarrow> registry \<Rightarrow> registry table" where
  "registryConvertToTable age o' =
     newTable o' [nameColumn, plainColumn ''Hostname'' ''string'', plainColumn ''Plain HTTP'' ''boolean'', ageColumn]
       [CellString (om_name (metadata o')), CellString (reg_hostname (spec o')), CellBool (reg_plainHTTP (spec o')), CellString age]"

definition registryStrategy :: "(registry_spec \<Rightarrow> registry_spec \<Rightarrow> bool) \<Rightarrow> (registry_spec, registry_status) strategy" where
  "registryStrategy specEqual =
     \<lparr>st_groupResource = (groupName, ''registries''), st_singularName = ''registry'', st_shortNames = [''reg''], st_namespaceScoped = True,
      st_prepareForCreate = registryPrepareForCreate, st_prepareForUpdate = registryPrepareForUpdate specEqual,
      st_copyStatusTo = None, st_validate = Some validateRegistry, st_validateUpdate = Some registryValidateUpdate,
      st_convertToTable = Some registryConvertToTable\<rparr>"

subsection \<open>\<open>RegistryBinding\<close>\<close>

definition registryBindingPrepareForCreate :: "registry_binding \<Rightarrow> registry_binding" where
  "registryBindingPrepareForCreate o' = setGeneration 1 o'"

definition registryBindingPrepareForUpdate :: "(registry_binding_spec \<Rightarrow> registry_binding_spec \<Rightarrow> bool) \<Rightarrow> registry_binding \<Rightarrow> registry_binding \<Rightarrow> registry_binding" where
  "registryBindingPrepareForUpdate specEqual o' old = incrementGenerationIfNotEqual specEqual o' (spec o') (spec old)"

definition registryBindingConvertToTable :: "string \<Rightarrow> registry_binding \<Rightarrow> registry_binding table" where
  "registryBindingConvertToTable age o' =
     newTable o' [nameColumn, plainColumn ''Target'' ''string'', plainColumn ''Registry'' ''string'', ageColumn]
       [CellString (om_name (metadata o')), CellString (rgb_targetRef (spec o')), CellString (rgb_registryRef (spec o')), CellString age]"

definition registryBindingStrategy :: "(registry_binding_spec \<Rightarrow> registry_binding_spec \<Rightarrow> bool) \<Rightarrow> (registry_binding_spec, condition list) strategy" where
  "registryBindingStrategy specEqual =
     \<lparr>st_groupResource = (groupName, ''registrybindings''), st_singularName = ''registrybinding'', st_shortNames = [''rb''], st_namespaceScoped = True,
      st_prepareForCreate = registryBindingPrepareForCreate, st_prepareForUpdate = registryBindingPrepareForUpdate specEqual,
      st_copyStatusTo = None, st_validate = None, st_validateUpdate = None,
      st_convertToTable = Some registryBindingConvertToTable\<rparr>"

subsection \<open>\<open>Release\<close>\<close>

definition releasePrepareForCreate :: "release \<Rightarrow> release" where
  "releasePrepareForCreate o' = setGeneration 1 o'"

definition releasePrepareForUpdate :: "(release_spec \<Rightarrow> release_spec \<Rightarrow> bool) \<Rightarrow> release \<Rightarrow> release \<Rightarrow> release" where
  "releasePrepareForUpdate specEqual o' old = incrementGenerationIfNotEqual specEqual o' (spec o') (spec old)"

definition releaseCopyStatusTo :: "release \<Rightarrow> release \<Rightarrow> release" where
  "releaseCopyStatusTo o' obj = obj\<lparr>status := status o'\<rparr>"

definition releaseConvertToTable :: "string \<Rightarrow> release \<Rightarrow> release table" where
  "releaseConvertToTable age o' =
     newTable o' [nameColumn, plainColumn ''ComponentVersion Ref'' ''string'', plainColumn ''Status'' ''string'', ageColumn]
       [CellString (om_name (metadata o')), CellString (rel_componentVersionRef (spec o')), CellString (releaseStatusText (rel_conditions (status o'))), CellString age]"

definition releaseStrategy :: "(release_spec \<Rightarrow> release_spec \<Rightarrow> bool) \<Rightarrow> (release_spec, release_status) strategy" where
  "releaseStrategy specEqual =
     \<lparr>st_groupResource = (groupName, ''releases''), st_singularName = ''release'', st_shortNames = [''rel''], st_namespaceScoped = True,
      st_prepareForCreate = releasePrepareForCreate, st_prepareForUpdate = releasePrepareForUpdate specEqual,
      st_copyStatusTo = Some releaseCopyStatusTo, st_validate = Some validateRelease, st_validateUpdate = Some releaseValidateUpdate,
      st_convertToTable = Some releaseConvertToTable\<rparr>"

subsection \<open>\<open>ReleaseBinding\<close>\<close>

definition releaseBindingPrepareForCreate :: "release_binding \<Rightarrow> release_binding" where
  "releaseBindingPrepareForCreate o' = setGeneration 1 o'"

definition releaseBindingPrepareForUpdate :: "(release_binding_spec \<Rightarrow> release_binding_spec \<Rightarrow> bool) \<Rightarrow> release_binding \<Rightarrow> release_binding \<Rightarrow> release_binding" where
  "releaseBindingPrepareForUpdate specEqual o' old = incrementGenerationIfNotEqual specEqual o' (spec o') (spec old)"

definition releaseBindingConvertToTable :: "string \<Rightarrow> release_binding \<Rightarrow> release_binding table" where
  "releaseBindingConvertToTable age o' =
     newTable o' [nameColumn, plainColumn ''Target'' ''string'', plainColumn ''Release'' ''string'', ageColumn]
       [CellString (om_name (metadata o')), CellString (rlb_targetRef (spec o')), CellString (rlb_releaseRef (spec o')), CellString age]"

definition releaseBindingStrategy :: "(release_binding_spec \<Rightarrow> release_binding_spec \<Rightarrow> bool) \<Rightarrow> (release_binding_spec, condition list) strategy" where
  "releaseBindingStrategy specEqual =
     \<lparr>st_groupResource = (groupName, ''releasebindings''), st_singularName = ''releasebinding'', st_shortNames = [''rlb''], st_namespaceScoped = True,
      st_prepareForCreate = releaseBindingPrepareForCreate, st_prepareForUpdate = releaseBindingPrepareForUpdate specEqual,
      st_copyStatusTo = None, st_validate = None, st_validateUpdate = None,
      st_convertToTable = Some releaseBindingConvertToTable\<rparr>"

subsection \<open>\<open>RenderArtifact\<close>\<close>

definition renderArtifactPrepareForCreate :: "render_artifact \<Rightarrow> render_artifact" where
  "renderArtifactPrepareForCreate o' = setGeneration 1 o'"

definition renderArtifactPrepareForUpdate :: "(render_artifact_spec \<Rightarrow> render_artifact_spec \<Rightarrow> bool) \<Rightarrow> render_artifact \<Rightarrow> render_artifact \<Rightarrow> render_artifact" where
  "renderArtifactPrepareForUpdate specEqual o' old = incrementGenerationIfNotEqual specEqual o' (spec o') (spec old)"

definition renderArtifactCopyStatusTo :: "render_artifact \<Rightarrow> render_artifact \<Rightarrow> render_artifact" where
  "renderArtifactCopyStatusTo o' obj = obj\<lparr>status := status o'\<rparr>"

definition renderArtifactConvertToTable :: "string \<Rightarrow> render_artifact \<Rightarrow> render_artifact table" where
  "renderArtifactConvertToTable age o' =
     newTable o' [nameColumn, plainColumn ''Repository'' ''string'', plainColumn ''Tag'' ''string'', plainColumn ''ChartURL'' ''string'', ageColumn]
       [CellString (om_name (metadata o')), CellString (art_repository (spec o')), CellString (art_tag (spec o')), CellString (art_chartURL (status o')), CellString age]"

definition renderArtifactStrategy :: "(render_artifact_spec \<Rightarrow> render_artifact_spec \<Rightarrow> bool) \<Rightarrow> (render_artifact_spec, render_artifact_status) strategy" where
  "renderArtifactStrategy specEqual =
     \<lparr>st_groupResource = (groupName, ''renderartifacts''), st_singularName = ''renderartifact'', st_shortNames = [''ra''], st_namespaceScoped = True,
      st_prepareForCreate = renderArtifactPrepareForCreate, st_prepareForUpdate = renderArtifactPrepareForUpdate specEqual,
      st_copyStatusTo = Some renderArtifactCopyStatusTo, st_validate = Some validateRenderArtifact, st_validateUpdate = Some renderArtifactValidateUpdate,
      st_convertToTable = Some renderArtifactConvertToTable\<rparr>"

subsection \<open>\<open>RenderBinding\<close>\<close>

definition renderBindingPrepareForCreate :: "render_binding \<Rightarrow> render_binding" where
  "renderBindingPrepareForCreate o' = setGeneration 1 o'"

definition renderBindingPrepareForUpdate :: "(render_binding_spec \<Rightarrow> render_binding_spec \<Rightarrow> bool) \<Rightarrow> render_binding \<Rightarrow> render_binding \<Rightarrow> render_binding" where
  "renderBindingPrepareForUpdate specEqual o' old = incrementGenerationIfNotEqual specEqual o' (spec o') (spec old)"

definition renderBindingConvertToTable :: "string \<Rightarrow> render_binding \<Rightarrow> render_binding table" where
  "renderBindingConvertToTable age o' =
     newTable o' [nameColumn, plainColumn ''Artifact'' ''string'', plainColumn ''OwnerKind'' ''string'', plainColumn ''OwnerName'' ''string'', ageColumn]
       [CellString (om_name (metadata o')), CellString (rb_renderArtifactRef (spec o')), CellString (rb_ownerKind (spec o')), CellString (rb_ownerName (spec o')), CellString age]"

definition renderBindingStrategy :: "(render_binding_spec \<Rightarrow> render_binding_spec \<Rightarrow> bool) \<Rightarrow> (render_binding_spec, unit) strategy" where
  "renderBindingStrategy specEqual =
     \<lparr>st_groupResource = (groupName, ''renderbindings''), st_singularName = ''renderbinding'', st_shortNames = [''rbin''], st_namespaceScoped = True,
      st_prepareForCreate = renderBindingPrepareForCreate, st_prepareForUpdate = renderBindingPrepareForUpdate specEqual,
      st_copyStatusTo = None, st_validate = Some validateRenderBinding, st_validateUpdate = Some renderBindingValidateUpdate,
      st_convertToTable = Some renderBindingConvertToTable\<rparr>"

subsection \<open>\<open>RenderTask\<close>\<close>

definition renderTaskPrepareForCreate :: "render_task \<Rightarrow> render_task" where
  "renderTaskPrepareForCreate o' = setGeneration 1 o'"

definition renderTaskPrepareForUpdate :: "(render_task_spec \<Rightarrow> render_task_spec \<Rightarrow> bool) \<Rightarrow> render_task \<Rightarrow> render_task \<Rightarrow> render_task" where
  "renderTaskPrepareForUpdate specEqual o' old = incrementGenerationIfNotEqual specEqual o' (spec o') (spec old)"

definition renderTaskCopyStatusTo :: "render_task \<Rightarrow> render_task \<Rightarrow> render_task" where
  "renderTaskCopyStatusTo o' obj = obj\<lparr>status := status o'\<rparr>"

definition renderTaskConvertToTable :: "string \<Rightarrow> render_task \<Rightarrow> render_task table" where
  "renderTaskConvertToTable age o' =
     newTable o' [nameColumn, plainColumn ''Owner Kind'' ''string'', plainColumn ''Owner Name'' ''string'', plainColumn ''Status'' ''string'', ageColumn]
       [CellString (om_name (metadata o')), CellString (rt_ownerKind (spec o')), CellString (rt_ownerName (spec o')), CellString (renderTaskStatusText (rt_conditions (status o'))), CellString age]"

definition renderTaskStrategy :: "(render_task_spec \<Rightarrow> render_task_spec \<Rightarrow> bool) \<Rightarrow> (renderer_config \<Rightarrow> renderer_config \<Rightarrow> bool) \<Rightarrow> (render_task_spec, render_task_status) strategy" where
  "renderTaskStrategy specEqual configEqual =
     \<lparr>st_groupResource = (groupName, ''rendertasks''), st_singularName = ''rendertask'', st_shortNames = [''rt''], st_namespaceScoped = True,
      st_prepareForCreate = renderTaskPrepareForCreate, st_prepareForUpdate = renderTaskPrepareForUpdate specEqual,
      st_copyStatusTo = Some renderTaskCopyStatusTo, st_validate = None, st_validateUpdate = Some (renderTaskValidateUpdate configEqual),
      st_convertToTable = Some renderTaskConvertToTable\<rparr>"

subsection \<open>\<open>Target\<close>\<close>

definition targetPrepareForCreate :: "target \<Rightarrow> target" where
  "targetPrepareForCreate o' = setGeneration 1 o'"

definition targetPrepareForUpdate :: "(target_spec \<Rightarrow> target_spec \<Rightarrow> bool) \<Rightarrow> target \<Rightarrow> target \<Rightarrow> target" where
  "targetPrepareForUpdate specEqual o' old = incrementGenerationIfNotEqual specEqual o' (spec o') (spec old)"

definition targetCopyStatusTo :: "target \<Rightarrow> target \<Rightarrow> target" where
  "targetCopyStatusTo o' obj = obj\<lparr>status := status o'\<rparr>"

definition targetConvertToTable :: "string \<Rightarrow> target \<Rightarrow> target table" where
  "targetConvertToTable age o' =
     newTable o' [nameColumn, plainColumn ''Render Registry'' ''string'', plainColumn ''Bootstrap Version'' ''integer'', ageColumn]
       [CellString (om_name (metadata o')), CellString (tgt_renderRegistryRef (spec o')), CellInt (tgt_bootstrapVersion (status o')), CellString age]"

definition targetStrategy :: "(target_spec \<Rightarrow> target_spec \<Rightarrow> bool) \<Rightarrow> (target_spec, target_status) strategy" where
  "targetStrategy specEqual =
     \<lparr>st_groupResource = (groupName, ''targets''), st_singularName = ''target'', st_shortNames = [''tgt''], st_namespaceScoped = True,
      st_prepareForCreate = targetPrepareForCreate, st_prepareForUpdate = targetPrepareForUpdate specEqual,
      st_copyStatusTo = Some targetCopyStatusTo, st_validate = None, st_validateUpdate = None,
      st_convertToTable = Some targetConvertToTable\<rparr>"

section \<open>The server\<close>

text \<open>What the server does with a strategy: the versions of one object, the latest first. A create and an
  update are prepared first and then validated; a write to the status subresource goes through
  \<open>CopyStatusTo\<close> on the stored object, and exists only for resources that implement it.\<close>

definition admitsCreate :: "('spec, 'status) strategy \<Rightarrow> ('spec, 'status) object \<Rightarrow> bool" where
  "admitsCreate S o' \<longleftrightarrow> (case st_validate S of None \<Rightarrow> True | Some validate \<Rightarrow> validate o' = [])"

definition admitsUpdate :: "('spec, 'status) strategy \<Rightarrow> ('spec, 'status) object \<Rightarrow> ('spec, 'status) object \<Rightarrow> bool" where
  "admitsUpdate S o' old \<longleftrightarrow> (case st_validateUpdate S of None \<Rightarrow> True | Some validate \<Rightarrow> validate o' old = [])"

inductive history ::
  "('spec, 'status) strategy \<Rightarrow> (('spec, 'status) object \<Rightarrow> ('spec, 'status) object \<Rightarrow> ('spec, 'status) object) \<Rightarrow>
   ('spec, 'status) object list \<Rightarrow> bool"
  for S carry where
  hist_create: "new = st_prepareForCreate S req \<Longrightarrow> admitsCreate S new \<Longrightarrow> history S carry [new]"
| hist_update: "history S carry (old # older) \<Longrightarrow> new = st_prepareForUpdate S (carry old req) old \<Longrightarrow>
    admitsUpdate S new old \<Longrightarrow> history S carry (new # old # older)"
| hist_status: "history S carry (old # older) \<Longrightarrow> st_copyStatusTo S = Some copy \<Longrightarrow> new = copy req old \<Longrightarrow>
    history S carry (new # old # older)"

text \<open>The generation is not the client's to set: an update starts from the stored one.\<close>

definition carriesGeneration :: "(('spec, 'status) object \<Rightarrow> ('spec, 'status) object \<Rightarrow> ('spec, 'status) object) \<Rightarrow> bool" where
  "carriesGeneration carry \<longleftrightarrow> (\<forall>old req. om_generation (metadata (carry old req)) = om_generation (metadata old))"

fun specChanges :: "('spec \<Rightarrow> 'spec \<Rightarrow> bool) \<Rightarrow> ('spec, 'status) object list \<Rightarrow> nat" where
  "specChanges specEqual (new # old # older) =
     (if specEqual (spec new) (spec old) then 0 else 1) + specChanges specEqual (old # older)"
| "specChanges specEqual _ = 0"

section \<open>Contracts of a strategy\<close>

lemma setGeneration_frame [simp]:
  "spec (setGeneration g o') = spec o'" "status (setGeneration g o') = status o'"
  "om_generation (metadata (setGeneration g o')) = g" "objectKey (setGeneration g o') = objectKey o'"
  by (simp_all add: setGeneration_def objectKey_def)

lemma incrementGeneration_simps [simp]:
  "spec (incrementGenerationIfNotEqual eq o' a b) = spec o'"
  "om_generation (metadata (incrementGenerationIfNotEqual eq o' a b)) =
     (if eq a b then om_generation (metadata o') else int64_wrap (om_generation (metadata o') + 1))"
  by (simp_all add: incrementGenerationIfNotEqual_def Let_def)

lemma int64_wrap_Suc: "int64_wrap (int64_wrap i + 1) = int64_wrap (i + 1)"
proof -
  have "((i + 2 ^ 63) mod 2 ^ 64 + 1) mod 2 ^ 64 = (i + 2 ^ 63 + 1) mod (2 ^ 64 :: int)" by (rule mod_add_left_eq)
  then show ?thesis by (simp add: int64_wrap_def algebra_simps)
qed

lemma int64_wrap_count: "n < 2 ^ 63 - 1 \<Longrightarrow> int64_wrap (1 + int n) = 1 + int n"
proof (rule int64_wrap_id)
  assume "n < 2 ^ 63 - 1"
  then have "int n < int (2 ^ 63 - 1)" by (simp only: of_nat_less_iff)
  then show "1 + int n < 2 ^ 63" by simp
qed simp

text \<open>A status write leaves the metadata and the spec as they are.\<close>

locale status_strategy =
  fixes S :: "('spec, 'status) strategy"
  assumes status_only: "st_copyStatusTo S = Some copy \<Longrightarrow> metadata (copy req old) = metadata old \<and> spec (copy req old) = spec old"

text \<open>The generation starts at 1 and is incremented with the spec.\<close>

locale generation_strategy = status_strategy S
  for S :: "('spec, 'status) strategy" +
  fixes specEqual :: "'spec \<Rightarrow> 'spec \<Rightarrow> bool"
  assumes create_first: "om_generation (metadata (st_prepareForCreate S req)) = 1"
    and update_counts: "st_prepareForUpdate S req old = incrementGenerationIfNotEqual specEqual req (spec req) (spec old)"
begin

lemma generation_counts:
  assumes "history S carry vs" "carriesGeneration carry" "reflp specEqual"
  shows "\<exists>v older. vs = v # older \<and> om_generation (metadata v) = int64_wrap (1 + int (specChanges specEqual vs))"
  using assms(1)
proof induction
  case (hist_create new req)
  then show ?case using create_first by simp
next
  case (hist_update old older new req)
  then show ?case using assms(2) int64_wrap_Suc [of "1 + int (specChanges specEqual (old # older))"]
    by (auto simp: update_counts carriesGeneration_def add.assoc add.commute)
next
  case (hist_status old older copy new req)
  then show ?case using status_only [OF hist_status.hyps(2)] assms(3) by (auto dest: reflpD)
qed

end

lemma history_suffix: "history S carry (vs @ v # older) \<Longrightarrow> history S carry (v # older)"
proof (induction vs)
  case (Cons w vs)
  from Cons.prems show ?case
  proof cases
    case (hist_update old older' req)
    with Cons show ?thesis by (metis append_Cons list.inject)
  next
    case (hist_status old older' copy req)
    with Cons show ?thesis by (metis append_Cons list.inject)
  qed simp
qed simp

lemma specChanges_le: "specChanges eq vs \<le> length vs - 1"
  by (induction eq vs rule: specChanges.induct) auto

lemma specChanges_suffix: "specChanges eq (v # older) \<le> specChanges eq (vs @ v # older)"
proof (induction vs)
  case (Cons w vs)
  then show ?case by (cases "vs @ v # older") auto
qed simp

text \<open>No change between two versions: their specs are equal.\<close>

lemma specChanges_none:
  assumes "equivp eq"
  shows "specChanges eq (w # vs @ v # older) = specChanges eq (v # older) \<Longrightarrow> eq (spec w) (spec v)"
proof (induction vs arbitrary: w)
  case Nil
  then show ?case by (auto split: if_splits)
next
  case (Cons x vs)
  have "specChanges eq (v # older) \<le> specChanges eq (x # vs @ v # older)"
    using specChanges_suffix [of eq v older "x # vs"] by simp
  then have "eq (spec w) (spec x)" "eq (spec x) (spec v)" using Cons by (auto split: if_splits)
  then show ?case using assms by (metis equivp_transp)
qed

context generation_strategy begin

text \<open>Two versions of an object with the same generation have the same spec.\<close>

lemma same_generation_same_spec:
  assumes "history S carry (w # vs @ v # older)" "carriesGeneration carry" "equivp specEqual"
    and "length (w # vs @ v # older) < 2 ^ 63"
    and "om_generation (metadata w) = om_generation (metadata v)"
  shows "specEqual (spec w) (spec v)"
proof -
  have refl: "reflp specEqual" using assms(3) by (simp add: equivp_reflp_symp_transp)
  have "history S carry (v # older)" using history_suffix [of S carry "w # vs" v older] assms(1) by simp
  note gens = generation_counts [OF assms(1,2) refl] generation_counts [OF this assms(2) refl]
  have le: "specChanges specEqual (w # vs @ v # older) < 2 ^ 63 - 1" "specChanges specEqual (v # older) < 2 ^ 63 - 1"
    using specChanges_le [of specEqual "w # vs @ v # older"] specChanges_le [of specEqual "v # older"] assms(4) by auto
  then have "specChanges specEqual (w # vs @ v # older) = specChanges specEqual (v # older)"
    using gens le assms(5) by (auto simp: int64_wrap_count)
  then show ?thesis by (rule specChanges_none [OF assms(3)])
qed

end

text \<open>What validation of updates keeps of a spec, from version to version; \<open>R\<close> is the comparison it makes.\<close>

locale immutable_field = status_strategy S
  for S :: "('spec, 'status) strategy" +
  fixes field :: "'spec \<Rightarrow> 'f" and R :: "'f \<Rightarrow> 'f \<Rightarrow> bool"
  assumes kept: "admitsUpdate S new old \<Longrightarrow> R (field (spec new)) (field (spec old))"
begin

lemma field_history:
  assumes "history S carry vs" "reflp R" "transp R"
  shows "\<exists>v older. vs = v # older \<and> (\<forall>old \<in> set vs. R (field (spec v)) (field (spec old)))"
  using assms(1)
proof induction
  case (hist_create new req)
  then show ?case using assms(2) by (auto dest: reflpD)
next
  case (hist_update old older new req)
  then show ?case using kept [OF hist_update.hyps(3)] assms(2,3) by (auto dest: reflpD transpD)
next
  case (hist_status old older copy new req)
  then show ?case using status_only [OF hist_status.hyps(2)] assms(2) by (auto dest: reflpD)
qed

end

text \<open>What validation demands of a spec holds of every stored version.\<close>

locale validated = status_strategy S
  for S :: "('spec, 'status) strategy" +
  fixes valid :: "'spec \<Rightarrow> bool"
  assumes create_valid: "admitsCreate S new \<Longrightarrow> valid (spec new)"
    and update_valid: "admitsUpdate S new old \<Longrightarrow> valid (spec new)"
begin

lemma stored_valid: "history S carry vs \<Longrightarrow> \<exists>v older. vs = v # older \<and> valid (spec v)"
proof (induction rule: history.induct)
  case (hist_create new req)
  then show ?case using create_valid by simp
next
  case (hist_update old older new req)
  then show ?case using update_valid by simp
next
  case (hist_status old older copy new req)
  then show ?case using status_only [OF hist_status.hyps(2)] by auto
qed

end

section \<open>The contracts of the twelve resources\<close>

lemmas prepare_defs = componentPrepareForCreate_def componentPrepareForUpdate_def componentVersionPrepareForCreate_def componentVersionPrepareForUpdate_def profilePrepareForCreate_def profilePrepareForUpdate_def referenceGrantPrepareForCreate_def referenceGrantPrepareForUpdate_def registryPrepareForCreate_def registryPrepareForUpdate_def registryBindingPrepareForCreate_def registryBindingPrepareForUpdate_def releasePrepareForCreate_def releasePrepareForUpdate_def releaseBindingPrepareForCreate_def releaseBindingPrepareForUpdate_def renderArtifactPrepareForCreate_def renderArtifactPrepareForUpdate_def renderBindingPrepareForCreate_def renderBindingPrepareForUpdate_def renderTaskPrepareForCreate_def renderTaskPrepareForUpdate_def targetPrepareForCreate_def targetPrepareForUpdate_def

lemmas copy_defs = profileCopyStatusTo_def releaseCopyStatusTo_def renderArtifactCopyStatusTo_def renderTaskCopyStatusTo_def targetCopyStatusTo_def

lemmas strategy_defs = componentStrategy_def componentVersionStrategy_def profileStrategy_def referenceGrantStrategy_def registryStrategy_def registryBindingStrategy_def releaseStrategy_def releaseBindingStrategy_def renderArtifactStrategy_def renderBindingStrategy_def renderTaskStrategy_def targetStrategy_def

interpretation componentS: generation_strategy "componentStrategy eq" eq for eq
  by unfold_locales (auto simp: componentStrategy_def prepare_defs copy_defs)

interpretation componentVersionS: generation_strategy "componentVersionStrategy eq" eq for eq
  by unfold_locales (auto simp: componentVersionStrategy_def prepare_defs copy_defs)

interpretation profileS: generation_strategy "profileStrategy eq" eq for eq
  by unfold_locales (auto simp: profileStrategy_def prepare_defs copy_defs)

interpretation referenceGrantS: generation_strategy "referenceGrantStrategy eq" eq for eq
  by unfold_locales (auto simp: referenceGrantStrategy_def prepare_defs copy_defs)

interpretation registryS: generation_strategy "registryStrategy eq" eq for eq
  by unfold_locales (auto simp: registryStrategy_def prepare_defs copy_defs)

interpretation registryBindingS: generation_strategy "registryBindingStrategy eq" eq for eq
  by unfold_locales (auto simp: registryBindingStrategy_def prepare_defs copy_defs)

interpretation releaseS: generation_strategy "releaseStrategy eq" eq for eq
  by unfold_locales (auto simp: releaseStrategy_def prepare_defs copy_defs)

interpretation releaseBindingS: generation_strategy "releaseBindingStrategy eq" eq for eq
  by unfold_locales (auto simp: releaseBindingStrategy_def prepare_defs copy_defs)

interpretation renderArtifactS: generation_strategy "renderArtifactStrategy eq" eq for eq
  by unfold_locales (auto simp: renderArtifactStrategy_def prepare_defs copy_defs)

interpretation renderBindingS: generation_strategy "renderBindingStrategy eq" eq for eq
  by unfold_locales (auto simp: renderBindingStrategy_def prepare_defs copy_defs)

interpretation renderTaskS: generation_strategy "renderTaskStrategy eq cfg" eq for eq cfg
  by unfold_locales (auto simp: renderTaskStrategy_def prepare_defs copy_defs)

interpretation targetS: generation_strategy "targetStrategy eq" eq for eq
  by unfold_locales (auto simp: targetStrategy_def prepare_defs copy_defs)

lemmas validate_defs = admitsCreate_def admitsUpdate_def validateRelease_def releaseValidateUpdate_def validateRegistry_def
  registryValidateUpdate_def validateRenderArtifact_def renderArtifactValidateUpdate_def validateRenderBinding_def
  renderBindingValidateUpdate_def renderTaskValidateUpdate_def requireField_def

text \<open>What every stored spec of a kind satisfies.\<close>

definition validReleaseSpec :: "release_spec \<Rightarrow> bool" where
  "validReleaseSpec sp \<longleftrightarrow> rel_componentVersionRef sp \<noteq> ''''"

definition validRegistrySpec :: "registry_spec \<Rightarrow> bool" where
  "validRegistrySpec sp \<longleftrightarrow> (reg_webhookPath sp = '''' \<or> reg_flavor sp \<noteq> '''') \<and>
     (case reg_scanInterval sp of None \<Rightarrow> True | Some d \<Rightarrow> 0 < d)"

definition validRenderArtifactSpec :: "render_artifact_spec \<Rightarrow> bool" where
  "validRenderArtifactSpec sp \<longleftrightarrow>
     art_baseURL sp \<noteq> '''' \<and> art_repository sp \<noteq> '''' \<and> art_tag sp \<noteq> '''' \<and> art_renderTaskRef sp \<noteq> ''''"

definition validRenderBindingSpec :: "render_binding_spec \<Rightarrow> bool" where
  "validRenderBindingSpec sp \<longleftrightarrow> rb_renderArtifactRef sp \<noteq> '''' \<and> rb_ownerKind sp \<noteq> '''' \<and>
     rb_ownerName sp \<noteq> '''' \<and> rb_ownerNamespace sp \<noteq> ''''"

lemmas valid_defs = validReleaseSpec_def validRegistrySpec_def validRenderArtifactSpec_def validRenderBindingSpec_def

lemma validate_iff:
  "validateRelease rel = [] \<longleftrightarrow> validReleaseSpec (spec rel)" "validateRegistry reg = [] \<longleftrightarrow> validRegistrySpec (spec reg)"
  "validateRenderArtifact a = [] \<longleftrightarrow> validRenderArtifactSpec (spec a)"
  "validateRenderBinding b = [] \<longleftrightarrow> validRenderBindingSpec (spec b)"
  by (auto simp: validate_defs valid_defs Let_def split: option.splits)

interpretation releaseV: validated "releaseStrategy eq" validReleaseSpec for eq
  by unfold_locales (auto simp: releaseStrategy_def admitsCreate_def admitsUpdate_def releaseValidateUpdate_def registryValidateUpdate_def
    renderArtifactValidateUpdate_def renderBindingValidateUpdate_def Let_def validate_iff split: if_splits)

interpretation registryV: validated "registryStrategy eq" validRegistrySpec for eq
  by unfold_locales (auto simp: registryStrategy_def admitsCreate_def admitsUpdate_def releaseValidateUpdate_def registryValidateUpdate_def
    renderArtifactValidateUpdate_def renderBindingValidateUpdate_def Let_def validate_iff split: if_splits)

interpretation renderArtifactV: validated "renderArtifactStrategy eq" validRenderArtifactSpec for eq
  by unfold_locales (auto simp: renderArtifactStrategy_def admitsCreate_def admitsUpdate_def releaseValidateUpdate_def registryValidateUpdate_def
    renderArtifactValidateUpdate_def renderBindingValidateUpdate_def Let_def validate_iff split: if_splits)

interpretation renderBindingV: validated "renderBindingStrategy eq" validRenderBindingSpec for eq
  by unfold_locales (auto simp: renderBindingStrategy_def admitsCreate_def admitsUpdate_def releaseValidateUpdate_def registryValidateUpdate_def
    renderArtifactValidateUpdate_def renderBindingValidateUpdate_def Let_def validate_iff split: if_splits)

interpretation uniqueName: immutable_field "releaseStrategy eq" rel_uniqueName "(=)" for eq
  by unfold_locales (auto simp: releaseStrategy_def validate_defs Let_def split: if_splits)

interpretation rendererConfig: immutable_field "renderTaskStrategy eq cfg" rt_rendererConfig cfg for eq cfg
  by unfold_locales (auto simp: renderTaskStrategy_def validate_defs split: if_splits)

end
