(* ===== verification/StorageProperties.thy ===== *)
theory StorageProperties
  imports Storage TargetProperties DiscoveryPipeline Naming
begin

text \<open>
  What the storage strategies give the components that rely on them: the generation as a name for the spec of a
  release, which the tags of rendered charts are built from; the immutable fields; validation
  against what the Target controller creates and what the discovery pipeline accepts.
\<close>

section \<open>Validation in front of the client\<close>

text \<open>The client of a server that validates: a create of an object that its strategy refuses fails.\<close>

definition guardCreate ::
  "(('spec, 'status) object \<Rightarrow> field_error list) \<Rightarrow> ('s, 'spec, 'status) resource \<Rightarrow> ('s, 'spec, 'status) resource" where
  "guardCreate validate R =
     R\<lparr>res_create := (\<lambda>o'. if validate o' = [] then res_create R o' else ret (Inl (OtherApi (om_name (metadata o') @ '' is invalid''))))\<rparr>"

definition admission :: "'s kube \<Rightarrow> 's kube" where
  "admission e = e\<lparr>k_registries := guardCreate validateRegistry (k_registries e),
     k_releases := guardCreate validateRelease (k_releases e),
     k_renderartifacts := guardCreate validateRenderArtifact (k_renderartifacts e),
     k_renderbindings := guardCreate validateRenderBinding (k_renderbindings e)\<rparr>"

lemma guardCreate_simps [simp]:
  "res_get (guardCreate validate R) = res_get R"
  "res_create (guardCreate validate R) x =
     (if validate x = [] then res_create R x else ret (Inl (OtherApi (om_name (metadata x) @ '' is invalid''))))"
  by (simp_all add: guardCreate_def)

lemma admission_simps [simp]:
  "k_renderartifacts (admission e) = guardCreate validateRenderArtifact (k_renderartifacts e)"
  "k_renderbindings (admission e) = guardCreate validateRenderBinding (k_renderbindings e)"
  "k_testMode (admission e) = k_testMode e"
  by (simp_all add: admission_def)

lemma ensure_admitted:
  assumes "om_name (metadata tgt) \<noteq> ''''" "om_namespace (metadata tgt) \<noteq> ''''" "aName \<noteq> ''''"
  shows "ensureRenderBinding (admission e) tgt aName bName = ensureRenderBinding e tgt aName bName"
  using assms by (simp add: ensureRenderBinding_def validate_iff validRenderBindingSpec_def cong: sum.case_cong if_cong)

lemma ensure_artifact_admitted:
  assumes "rt_baseURL (spec rt) \<noteq> ''''" "rt_repository (spec rt) \<noteq> ''''" "rt_tag (spec rt) \<noteq> ''''" "om_name (metadata rt) \<noteq> ''''"
  shows "ensureRenderArtifact (admission e) aName rt flavor ns = ensureRenderArtifact e aName rt flavor ns"
  using assms by (simp add: ensureRenderArtifact_def validate_iff validRenderArtifactSpec_def cong: sum.case_cong if_cong)

lemma release_spec_coordinates:
  assumes "computeReleaseRenderTaskSpec strict rel cv reg tgt pullSecrets = Inr sp"
  obtains resolved where "resolveResources (cv_resources (spec cv)) pullSecrets strict = Inr resolved"
    and "rt_baseURL sp = reg_hostname (spec reg)"
    and "rt_repository sp = om_namespace (metadata tgt) @ ''/'' @ om_namespace (metadata rel) @ ''/'' @ releaseChartName rel"
    and "rt_tag sp = ''v0.0.'' @ itoa (om_generation (metadata rel)) @ ''-'' @ pullSecretsTag resolved"
  using assms by (auto simp: computeReleaseRenderTaskSpec_def Let_def split: sum.splits)

lemma bootstrap_spec_coordinates:
  assumes "computeBootstrapRenderTaskSpec parseReference tgt releases reg v = Inr sp"
  shows "rt_baseURL sp = reg_hostname (spec reg)"
    and "rt_repository sp = om_namespace (metadata tgt) @ ''/bootstrap-'' @ om_name (metadata tgt)"
    and "rt_tag sp = ''v0.0.'' @ itoa v"
  using assms by (auto simp: computeBootstrapRenderTaskSpec_def Let_def split: sum.splits)

text \<open>(C31) The server's validation refuses nothing that the Target controller creates for a rendered chart: for a RenderTask
  with the spec of a release or of a bootstrap chart, linking the chart runs the same with validation in front of
  the server, provided that the registry has a hostname and the objects have names.\<close>

theorem linked_objects_admitted:
  assumes "computeReleaseRenderTaskSpec strict rel cv reg tgt pullSecrets = Inr (spec rt) \<or>
      computeBootstrapRenderTaskSpec parseReference tgt releases reg v = Inr (spec rt)"
    and "reg_hostname (spec reg) \<noteq> ''''" "om_name (metadata rt) \<noteq> ''''"
    and "om_name (metadata tgt) \<noteq> ''''" "om_namespace (metadata tgt) \<noteq> ''''"
  shows "linkArtifact (admission e) tgt reg rt what = linkArtifact e tgt reg rt what"
proof -
  have "rt_baseURL (spec rt) \<noteq> ''''" "rt_repository (spec rt) \<noteq> ''''" "rt_tag (spec rt) \<noteq> ''''"
    using assms(1,2,5) by (auto elim: release_spec_coordinates simp: bootstrap_spec_coordinates)
  moreover have "renderArtifactName ns base repo tag \<noteq> ''''" for ns base repo tag
    by (simp add: renderArtifactName_def)
  ultimately show ?thesis
    using assms(3-5) by (simp add: linkArtifact_def wrapReturn_def ensure_admitted ensure_artifact_admitted Let_def)
qed

section \<open>Generations and tags\<close>

text \<open>(C22) The versions of a Release: its generation is one more than the number of changes of its spec, two versions with
  the same generation have the same spec, the unique name never changes, and every stored version refers to
  a component version.\<close>

theorem release_versions:
  assumes "equivp specEqual" "carriesGeneration carry"
    and "history (releaseStrategy specEqual) carry (rel # newer @ old # older)"
    and "length (rel # newer @ old # older) < 2 ^ 63"
  shows "om_generation (metadata rel) = 1 + int (specChanges specEqual (rel # newer @ old # older)) \<and>
    (om_generation (metadata rel) = om_generation (metadata old) \<longrightarrow> specEqual (spec rel) (spec old)) \<and>
    rel_uniqueName (spec rel) = rel_uniqueName (spec old) \<and> rel_componentVersionRef (spec rel) \<noteq> ''''"
proof -
  have "specChanges specEqual (rel # newer @ old # older) < 2 ^ 63 - 1"
    using specChanges_le [of specEqual "rel # newer @ old # older"] assms(4) by simp
  then have "om_generation (metadata rel) = 1 + int (specChanges specEqual (rel # newer @ old # older))"
    using releaseS.generation_counts [OF assms(3,2)] assms(1) by (auto simp: int64_wrap_count equivp_reflp_symp_transp)
  moreover have "rel_uniqueName (spec rel) = rel_uniqueName (spec old)"
    using uniqueName.field_history [OF assms(3)] by auto
  moreover have "rel_componentVersionRef (spec rel) \<noteq> ''''"
    using releaseV.stored_valid [OF assms(3)] by (simp add: validReleaseSpec_def)
  ultimately show ?thesis using releaseS.same_generation_same_spec [OF assms(3,2,1,4)] by blast
qed

lemma release_generation_positive:
  assumes "equivp specEqual" "carriesGeneration carry" "history (releaseStrategy specEqual) carry (v # older)"
    and "length (v # older) < 2 ^ 63"
  shows "1 \<le> om_generation (metadata v)"
  using releaseS.generation_counts [OF assms(3,2)] specChanges_le [of specEqual "v # older"] assms(1,4)
  by (auto simp: int64_wrap_count equivp_reflp_symp_transp)

text \<open>(C19) A changed release is rendered under a new tag: two versions of a Release whose specs differ never give
  RenderTasks with the same chart tag, whatever their component versions, registries, targets and pull secrets are.\<close>

theorem changed_release_new_tag:
  assumes "equivp specEqual" "carriesGeneration carry"
    and "history (releaseStrategy specEqual) carry (rel # newer @ old # older)"
    and "length (rel # newer @ old # older) < 2 ^ 63"
    and "\<not> specEqual (spec rel) (spec old)"
    and "computeReleaseRenderTaskSpec strict rel cv reg tgt pullSecrets = Inr sp"
    and "computeReleaseRenderTaskSpec strict' old cv' reg' tgt' pullSecrets' = Inr sp'"
  shows "rt_tag sp \<noteq> rt_tag sp'"
proof
  assume eq: "rt_tag sp = rt_tag sp'"
  obtain resolved where "rt_tag sp = ''v0.0.'' @ itoa (om_generation (metadata rel)) @ ''-'' @ pullSecretsTag resolved"
    using assms(6) by (rule release_spec_coordinates)
  moreover obtain resolved' where "rt_tag sp' = ''v0.0.'' @ itoa (om_generation (metadata old)) @ ''-'' @ pullSecretsTag resolved'"
    using assms(7) by (rule release_spec_coordinates)
  ultimately have tags: "itoa (om_generation (metadata rel)) @ ''-'' @ pullSecretsTag resolved =
      itoa (om_generation (metadata old)) @ ''-'' @ pullSecretsTag resolved'" using eq by simp
  have "history (releaseStrategy specEqual) carry (old # older)"
    using history_suffix [of _ carry "rel # newer" old older] assms(3) by simp
  then have pos: "1 \<le> om_generation (metadata rel)" "1 \<le> om_generation (metadata old)"
    using release_generation_positive [OF assms(1,2)] assms(3,4) by auto
  have "itoa (om_generation (metadata rel)) = itoa (om_generation (metadata old))"
    using split_first [OF tags] itoa_no_dash pos by simp
  then have "om_generation (metadata rel) = om_generation (metadata old)" using pos by (intro itoa_inj_nonneg) auto
  with releaseS.same_generation_same_spec [OF assms(3,2,1,4)] assms(5) show False by simp
qed

text \<open>The configuration of a RenderTask never changes: every stored version has a configuration equal to that of each
  earlier one, while its generation counts the changes of the rest of its spec.\<close>

theorem render_task_versions:
  assumes "equivp specEqual" "equivp configEqual" "carriesGeneration carry"
    and "history (renderTaskStrategy specEqual configEqual) carry (task # newer @ old # older)"
    and "length (task # newer @ old # older) < 2 ^ 63"
  shows "configEqual (rt_rendererConfig (spec task)) (rt_rendererConfig (spec old)) \<and>
    om_generation (metadata task) = 1 + int (specChanges specEqual (task # newer @ old # older))"
proof -
  have "specChanges specEqual (task # newer @ old # older) < 2 ^ 63 - 1"
    using specChanges_le [of specEqual "task # newer @ old # older"] assms(5) by simp
  moreover have "reflp specEqual" "reflp configEqual" "transp configEqual"
    using assms(1,2) by (simp_all add: equivp_reflp_symp_transp)
  ultimately show ?thesis
    using renderTaskS.generation_counts [OF assms(4,3)] rendererConfig.field_history [OF assms(4)]
    by (auto simp: int64_wrap_count)
qed

section \<open>Validation and the discovery pipeline\<close>

lemma addWebhook_succeeds:
  assumes "reg_webhookPath (spec reg) \<noteq> '''' \<Longrightarrow>
    map_of registered (reg_flavor (spec reg)) \<noteq> None \<and> routes src (reg_webhookPath (spec reg)) = None"
  shows "\<exists>src'. addWebhook registered reg src = Inr src'"
proof (cases "reg_webhookPath (spec reg) = ''''")
  case False
  then show ?thesis using assms
    by (auto simp: addWebhook_def registerPath_def routes_def newWebhookRouter_def Let_def split: option.splits)
qed (simp add: addWebhook_def)

lemma addRegistries_succeeds:
  assumes "\<And>reg. reg \<in> set regs \<Longrightarrow> reg_webhookPath (spec reg) \<noteq> '''' \<Longrightarrow>
      map_of registered (reg_flavor (spec reg)) \<noteq> None \<and> routes src (reg_webhookPath (spec reg)) = None"
    and "distinct (map (\<lambda>reg. reg_webhookPath (spec reg)) (filter (\<lambda>reg. reg_webhookPath (spec reg) \<noteq> '''') regs))"
  shows "\<exists>src'. addRegistries registered p regs src = Inr src'"
  using assms
proof (induction registered p regs src rule: addRegistries.induct)
  case (2 registered p reg regs src)
  obtain src1 where src1: "addWebhook registered reg src = Inr src1"
    using addWebhook_succeeds [of reg registered src] "2.prems"(1) [of reg] by auto
  have "\<exists>src'. addRegistries registered p regs (addScanner p reg src1) = Inr src'"
  proof (rule "2.IH" [OF src1])
    fix reg' assume reg': "reg' \<in> set regs" "reg_webhookPath (spec reg') \<noteq> ''''"
    then have "map_of registered (reg_flavor (spec reg')) \<noteq> None" "routes src (reg_webhookPath (spec reg')) = None"
      using "2.prems"(1) [of reg'] by auto
    moreover have "reg_webhookPath (spec reg) \<noteq> reg_webhookPath (spec reg')" if "reg_webhookPath (spec reg) \<noteq> ''''"
      using "2.prems"(2) reg' that by force
    ultimately show "map_of registered (reg_flavor (spec reg')) \<noteq> None \<and>
        routes (addScanner p reg src1) (reg_webhookPath (spec reg')) = None"
      using addWebhook_cases [OF src1] by auto
  qed (use "2.prems"(2) in \<open>simp split: if_splits\<close>)
  then show ?case using src1 by simp
qed simp

text \<open>(C33) The pipeline of the discovery binary can be built exactly when every registry with a webhook path
  has the Zot flavor and no two of them share a path. Validation of registries asks only for some flavor,
  so a single stored registry can keep the discovery of all registries from starting.\<close>

theorem pipeline_built_iff:
  assumes "linkedHandlers c = Finished registered"
  shows "(\<exists>src. newPipeline registered p = Inr src) \<longleftrightarrow>
    (\<forall>reg \<in> set (getAll p). reg_webhookPath (spec reg) = '''' \<or> reg_flavor (spec reg) = ''zot'') \<and>
    distinct (map (\<lambda>reg. reg_webhookPath (spec reg)) (filter (\<lambda>reg. reg_webhookPath (spec reg) \<noteq> '''') (getAll p)))"
proof -
  have r: "registered = [(''zot'', zotServeHTTP c)]" using assms by (simp add: linkedHandlers_zot)
  have "reg_flavor (spec reg) = ''zot''"
    if "newPipeline registered p = Inr src" "reg \<in> set (getAll p)" "reg_webhookPath (spec reg) \<noteq> ''''" for src reg
    using addRegistries_sources [OF that(1) [unfolded newPipeline_def]] that(2,3) by (fastforce simp: served_def r split: if_splits)
  moreover have "\<exists>src. newPipeline registered p = Inr src"
    if "\<forall>reg \<in> set (getAll p). reg_webhookPath (spec reg) = '''' \<or> reg_flavor (spec reg) = ''zot''"
      and "distinct (map (\<lambda>reg. reg_webhookPath (spec reg)) (filter (\<lambda>reg. reg_webhookPath (spec reg) \<noteq> '''') (getAll p)))"
    unfolding newPipeline_def by (rule addRegistries_succeeds) (use that in \<open>auto simp: r routes_def\<close>)
  ultimately show ?thesis using addRegistries_distinct unfolding newPipeline_def by blast
qed

section \<open>The status column of RenderTasks\<close>

definition finished :: "condition \<Rightarrow> bool" where
  "finished c \<longleftrightarrow> cond_status c = ConditionTrue \<and> (cond_type c = ''JobSucceeded'' \<or> cond_type c = ''JobFailed'')"

definition scheduledIs :: "condition_status \<Rightarrow> condition \<Rightarrow> bool" where
  "scheduledIs st c \<longleftrightarrow> cond_status c = st \<and> cond_type c = ''JobScheduled''"

text \<open>What the column means: the outcome of the job when it has one, otherwise how its scheduling stands.\<close>

definition taskStanding :: "condition list \<Rightarrow> string" where
  "taskStanding conds =
     (case filter finished conds of c # _ \<Rightarrow> cond_reason c
      | [] \<Rightarrow> (case filter (scheduledIs ConditionTrue) conds of c # _ \<Rightarrow> cond_reason c
      | [] \<Rightarrow> (case filter (scheduledIs ConditionFalse) conds of
                 c # _ \<Rightarrow> if cond_reason c = '''' then ''Unknown'' else cond_reason c
               | [] \<Rightarrow> ''Unknown'')))"

lemma loop_append:
  "taskStatusLoop (xs @ ys) st r = (case taskStatusLoop xs st r of (st', r') \<Rightarrow> taskStatusLoop ys st' r')"
  by (induction xs st r rule: taskStatusLoop.induct) auto

text \<open>Without an outcome a known status stays; the scheduling conditions are unique.\<close>

lemma loop_known: "filter finished cs = [] \<Longrightarrow> st \<noteq> ''Unknown'' \<Longrightarrow> fst (taskStatusLoop cs st r) = st"
  by (induction cs st r rule: taskStatusLoop.induct) (auto simp: finished_def split: if_splits)

lemma loop_unscheduled:
  "filter finished cs = [] \<Longrightarrow> \<forall>c \<in> set cs. cond_type c \<noteq> ''JobScheduled'' \<Longrightarrow> taskStatusLoop cs st r = (st, r)"
  by (induction cs st r rule: taskStatusLoop.induct) (auto simp: finished_def split: if_splits)

lemma loop_scheduled:
  assumes "filter finished cs = []" "distinct (map cond_type cs)"
  shows "taskStatusLoop cs ''Unknown'' '''' =
    (case filter (scheduledIs ConditionTrue) cs of c # _ \<Rightarrow> cond_reason c | [] \<Rightarrow> ''Unknown'',
     case filter (scheduledIs ConditionFalse) cs of c # _ \<Rightarrow> cond_reason c | [] \<Rightarrow> '''')"
proof (cases "\<exists>c \<in> set cs. cond_type c = ''JobScheduled''")
  case True
  then obtain xs c ys where cs: "cs = xs @ c # ys" "cond_type c = ''JobScheduled''" by (meson split_list)
  with assms(2) have others: "\<forall>c \<in> set xs. cond_type c \<noteq> ''JobScheduled''" "\<forall>c \<in> set ys. cond_type c \<noteq> ''JobScheduled''"
    by (auto simp: image_iff)
  have none: "filter finished xs = []" "filter finished ys = []" using assms(1) cs by (auto split: if_splits)
  have "filter (scheduledIs st) xs = []" "filter (scheduledIs st) ys = []" for st
    using others by (auto simp: scheduledIs_def filter_empty_conv)
  then show ?thesis
    using none others cs by (cases "cond_status c") (simp_all add: loop_append loop_unscheduled scheduledIs_def)
next
  case False
  then have "filter (scheduledIs st) cs = []" for st by (auto simp: scheduledIs_def filter_empty_conv)
  then show ?thesis using False assms(1) by (simp add: loop_unscheduled)
qed

text \<open>(C38) For conditions of distinct types, as the API keeps them, and a job with at most one outcome, whose reason is not
  \<open>Unknown\<close>, the printed status is the standing of the task: it does not depend on the order of the conditions.\<close>

theorem render_task_status_exact:
  assumes "distinct (map cond_type conds)" "length (filter finished conds) \<le> 1"
    and "\<forall>c \<in> set conds. finished c \<longrightarrow> cond_reason c \<noteq> ''Unknown''"
  shows "renderTaskStatusText conds = taskStanding conds"
proof (cases "filter finished conds")
  case Nil
  have "x = y" if "x \<in> set conds" "y \<in> set conds" "cond_type x = cond_type y" for x y
    using assms(1) that by (auto simp: distinct_map dest: inj_onD)
  then have "filter (scheduledIs ConditionTrue) conds = [] \<or> filter (scheduledIs ConditionFalse) conds = []"
    unfolding filter_empty_conv scheduledIs_def by (metis condition_status.distinct(1))
  then show ?thesis using loop_scheduled [OF Nil assms(1)]
    by (auto simp: renderTaskStatusText_def taskStanding_def Nil split: list.splits)
next
  case (Cons c cs)
  obtain xs ys where conds: "conds = xs @ c # ys" "finished c" "filter finished ys = cs"
    using filter_eq_ConsD [OF Cons] by blast
  moreover have "cs = []" using assms(2) Cons by simp
  moreover have "cond_reason c \<noteq> ''Unknown''" using assms(3) conds by simp
  ultimately have "taskStatusLoop conds ''Unknown'' '''' = taskStatusLoop ys (cond_reason c) (snd (taskStatusLoop xs ''Unknown'' ''''))"
    "filter finished ys = []" "cond_reason c \<noteq> ''Unknown''"
    by (simp_all add: loop_append finished_def split: prod.splits)
  then have "fst (taskStatusLoop conds ''Unknown'' '''') = cond_reason c" using loop_known [of ys "cond_reason c"] by simp
  then show ?thesis using Cons \<open>cond_reason c \<noteq> ''Unknown''\<close>
    by (auto simp: renderTaskStatusText_def taskStanding_def split: prod.splits)
qed

end
