(* ===== verification/Renderer.thy ===== *)
theory Renderer
  imports Helpers
begin

text \<open>
  The renderer (\<open>pkg/renderer\<close>, \<open>cmd/solar-renderer\<close>): the program that a renderer Job runs. It reads its
  configuration, looks whether the chart is already in the registry, otherwise executes the embedded
  chart templates into a temporary directory, packages the directory and pushes the package.

  The operating system, \<open>text/template\<close>, the YAML codec and the Helm and OCI clients are the operations of the
  record \<open>render_lib\<close> over a state of any type \<open>'s\<close>. What they document is the locale \<open>render_laws\<close>: the
  temporary directories that exist and the charts of the registry, as views of that state. A client is named by the
  options it was created with, an open file by its path, and \<open>defer\<close> runs on every way out
  of the function. Paths are joined without cleaning, which is exact for the clean paths used here.
\<close>

section \<open>The libraries\<close>

datatype client_option = ClientOptPlainHTTP | ClientOptBasicAuth string string | ClientOptCredentialsFile string

datatype render_data = ReleaseData release_config | BootstrapData bootstrap_config

datatype template_func =
    SprigFunc string | ToYaml | MustToYaml | FromYaml | FromYamlArray | ToJson | MustToJson | FromJson | FromJsonArray

text \<open>What \<open>fs.WalkDir\<close> passes to its callback: an error, or a path and whether it is a regular file.\<close>

datatype walk_entry = WalkError go_error | WalkEntry string bool

text \<open>A parsed template maps the data to the text it writes and the error that stopped it.\<close>

record template_fs =
  tf_walk :: "string \<Rightarrow> walk_entry list"
  tf_parse :: "template_func gomap \<Rightarrow> string \<Rightarrow> go_error + (render_data \<Rightarrow> string \<times> go_error option)"

record 's render_lib =
  rl_readFile :: "string \<Rightarrow> ('s, go_error + string) state"
  rl_stat :: "string \<Rightarrow> ('s, go_error option) state"
  rl_mkdirTemp :: "string \<Rightarrow> ('s, go_error + string) state"
  rl_mkdirAll :: "string \<Rightarrow> ('s, unit) state"
  rl_create :: "string \<Rightarrow> ('s, go_error + unit) state"
  rl_write :: "string \<Rightarrow> string \<Rightarrow> ('s, go_error option) state"
  rl_removeAll :: "string \<Rightarrow> ('s, unit) state"
  rl_print :: "string \<Rightarrow> ('s, unit) state"
  rl_scanln :: "('s, go_error + string) state"
  rl_getenv :: "string \<Rightarrow> string"
  rl_userHomeDir :: string
  rl_unmarshalConfig :: "string \<Rightarrow> go_error + renderer_config"
  rl_chartVersion :: "string \<Rightarrow> go_error + string option"
  rl_sprig :: "string list"
  rl_releaseFS :: template_fs
  rl_bootstrapFS :: template_fs
  rl_package :: "string \<Rightarrow> string \<Rightarrow> string \<Rightarrow> ('s, go_error + string) state"
  rl_parseReference :: "string \<Rightarrow> go_error + string \<times> string"
  rl_newClient :: "client_option list \<Rightarrow> go_error option"
  rl_tags :: "client_option list \<Rightarrow> string \<Rightarrow> ('s, go_error + string list) state"
  rl_push :: "client_option list \<Rightarrow> string \<Rightarrow> string \<Rightarrow> ('s, go_error + string) state"

definition pathJoin :: "string \<Rightarrow> string \<Rightarrow> string" where
  "pathJoin a b = (if a = '''' then b else a @ ''/'' @ b)"

text \<open>\<open>filepath.Dir\<close> of a clean relative path.\<close>

definition pathDir :: "string \<Rightarrow> string" where
  "pathDir p = (if CHR ''/'' \<in> set p then rev (tl (dropWhile (\<lambda>c. c \<noteq> CHR ''/'') (rev p))) else ''.'')"

section \<open>Template functions\<close>

definition toYAML :: "('v \<Rightarrow> go_error + string) \<Rightarrow> 'v \<Rightarrow> string" where
  "toYAML marshal v = (case marshal v of Inl _ \<Rightarrow> '''' | Inr data \<Rightarrow> trimSuffix data ''\<newline>'')"

text \<open>The functions that panic on an error; the text of the panic is the error.\<close>

definition mustToYAML :: "('v \<Rightarrow> go_error + string) \<Rightarrow> 'v \<Rightarrow> go_error + string" where
  "mustToYAML marshal v = (case marshal v of Inl err \<Rightarrow> Inl err | Inr data \<Rightarrow> Inr (trimSuffix data ''\<newline>''))"

text \<open>\<open>json.Unmarshal\<close> and \<open>yaml.Unmarshal\<close> into a map or a slice may fill in part of the value before they fail.\<close>

definition fromYAML :: "(string \<Rightarrow> 'v gomap \<times> go_error option) \<Rightarrow> (string \<Rightarrow> 'v) \<Rightarrow> string \<Rightarrow> 'v gomap" where
  "fromYAML unmarshal text str =
     (case unmarshal str of (m, None) \<Rightarrow> m | (m, Some err) \<Rightarrow> gomap_put ''Error'' (text (error_text err)) m)"

definition fromYAMLArray :: "(string \<Rightarrow> 'v list \<times> go_error option) \<Rightarrow> (string \<Rightarrow> 'v) \<Rightarrow> string \<Rightarrow> 'v list" where
  "fromYAMLArray unmarshal text str = (case unmarshal str of (a, None) \<Rightarrow> a | (a, Some err) \<Rightarrow> [text (error_text err)])"

definition toJSON :: "('v \<Rightarrow> go_error + string) \<Rightarrow> 'v \<Rightarrow> string" where
  "toJSON marshal v = (case marshal v of Inl _ \<Rightarrow> '''' | Inr data \<Rightarrow> data)"

definition mustToJSON :: "('v \<Rightarrow> go_error + string) \<Rightarrow> 'v \<Rightarrow> go_error + string" where
  "mustToJSON marshal v = (case marshal v of Inl err \<Rightarrow> Inl err | Inr data \<Rightarrow> Inr data)"

definition fromJSON :: "(string \<Rightarrow> 'v gomap \<times> go_error option) \<Rightarrow> (string \<Rightarrow> 'v) \<Rightarrow> string \<Rightarrow> 'v gomap" where
  "fromJSON unmarshal text str =
     (case unmarshal str of (m, None) \<Rightarrow> m | (m, Some err) \<Rightarrow> gomap_put ''Error'' (text (error_text err)) m)"

definition fromJSONArray :: "(string \<Rightarrow> 'v list \<times> go_error option) \<Rightarrow> (string \<Rightarrow> 'v) \<Rightarrow> string \<Rightarrow> 'v list" where
  "fromJSONArray unmarshal text str = (case unmarshal str of (a, None) \<Rightarrow> a | (a, Some err) \<Rightarrow> [text (error_text err)])"

text \<open>\<open>sprig.TxtFuncMap()\<close> without the functions that read the environment, then the functions above.\<close>

definition extraFuncs :: "template_func gomap" where
  "extraFuncs = [(''toYaml'', ToYaml), (''mustToYaml'', MustToYaml), (''fromYaml'', FromYaml), (''fromYamlArray'', FromYamlArray),
     (''toJson'', ToJson), (''mustToJson'', MustToJson), (''fromJson'', FromJson), (''fromJsonArray'', FromJsonArray)]"

definition funcMap :: "string list \<Rightarrow> template_func gomap" where
  "funcMap sprig =
     (let f = filter (\<lambda>(name, _). name \<noteq> ''env'' \<and> name \<noteq> ''expandenv'') (map (\<lambda>name. (name, SprigFunc name)) sprig)
      in fold (\<lambda>(name, fn) m. gomap_put name fn m) extraFuncs f)"

section \<open>Rendering\<close>

record renderer =
  r_outputName :: string
  r_templateFS :: template_fs
  r_templateDir :: string
  r_data :: render_data

text \<open>The callback of \<open>fs.WalkDir\<close>, which collects the regular files.\<close>

fun walkFiles :: "string \<Rightarrow> walk_entry list \<Rightarrow> string list \<Rightarrow> go_error + string list" where
  "walkFiles dir [] files = Inr files"
| "walkFiles dir (WalkError err # es) files = Inl err"
| "walkFiles dir (WalkEntry path regular # es) files =
     walkFiles dir es (if regular then files @ [trimPrefix path (dir @ ''/'')] else files)"

definition renderFile :: "'s render_lib \<Rightarrow> renderer \<Rightarrow> string \<Rightarrow> string \<Rightarrow> ('s, go_error + unit) state" where
  "renderFile L r dest name =
     (case tf_parse (r_templateFS r) (funcMap (rl_sprig L)) (pathJoin (r_templateDir r) name) of
        Inl err \<Rightarrow> ret (Inl err)
      | Inr tpl \<Rightarrow> do {
          let outputPath = pathJoin dest name;
          (if pathDir name \<noteq> ''.'' then rl_mkdirAll L (pathJoin dest (pathDir name)) else ret ());
          andThen (rl_create L outputPath) (\<lambda>_.
            case tpl (r_data r) of (out, stopped) \<Rightarrow> do {
              failed \<leftarrow> rl_write L outputPath out;
              ret (case failed of Some err \<Rightarrow> Inl err
                   | None \<Rightarrow> (case stopped of Some err \<Rightarrow> Inl err | None \<Rightarrow> Inr ()))
            })
        })"

text \<open>The directory is removed when a file cannot be rendered; it stays when the walk fails.\<close>

definition render :: "'s render_lib \<Rightarrow> renderer \<Rightarrow> ('s, go_error + string) state" where
  "render L r =
     andThen (rl_mkdirTemp L (r_outputName r)) (\<lambda>tmp.
       case walkFiles (r_templateDir r) (tf_walk (r_templateFS r) (r_templateDir r)) [] of
         Inl err \<Rightarrow> ret (Inl err)
       | Inr files \<Rightarrow> do {
           res \<leftarrow> forEach (renderFile L r tmp) files;
           (case res of
              Inl err \<Rightarrow> do { rl_removeAll L tmp; ret (Inl err) }
            | Inr _ \<Rightarrow> ret (Inr tmp))
         })"

definition RenderRelease :: "'s render_lib \<Rightarrow> release_config \<Rightarrow> ('s, go_error + string) state" where
  "RenderRelease L c = render L \<lparr>r_outputName = ''solar-release'', r_templateFS = rl_releaseFS L,
     r_templateDir = ''template/release'', r_data = ReleaseData c\<rparr>"

definition RenderBootstrap :: "'s render_lib \<Rightarrow> bootstrap_config \<Rightarrow> ('s, go_error + string) state" where
  "RenderBootstrap L c = render L \<lparr>r_outputName = ''solar-bootstrap'', r_templateFS = rl_bootstrapFS L,
     r_templateDir = ''template/bootstrap'', r_data = BootstrapData c\<rparr>"

section \<open>Pushing\<close>

record push_options =
  po_reference :: string
  po_clientOptions :: "client_option list"

definition packageChart :: "'s render_lib \<Rightarrow> string \<Rightarrow> string \<Rightarrow> string \<Rightarrow> ('s, go_error + string) state" where
  "packageChart L chartDir outputDir version =
     bindM (rl_package L chartDir outputDir version) (\<lambda>r. case r of
       Inl err \<Rightarrow> ret (Inl (Wrapped ''helm package failed'' err)) | Inr packagedPath \<Rightarrow> ret (Inr packagedPath))"

definition chartExists :: "'s render_lib \<Rightarrow> push_options \<Rightarrow> ('s, go_error + bool) state" where
  "chartExists L opts =
     (if po_reference opts = '''' then ret (Inl (ErrorText ''registry reference is required''))
      else case rl_parseReference L (trimPrefix (po_reference opts) ''oci://'') of
        Inl err \<Rightarrow> ret (Inl (Wrapped (''failed to parse reference '' @ po_reference opts) err))
      | Inr (repoRef, tag) \<Rightarrow>
          (case rl_newClient L (po_clientOptions opts) of
             Some err \<Rightarrow> ret (Inl (Wrapped ''failed to create registry client'' err))
           | None \<Rightarrow> bindM (rl_tags L (po_clientOptions opts) repoRef) (\<lambda>r. case r of
               Inl _ \<Rightarrow> ret (Inr False)
             | Inr tags \<Rightarrow> ret (Inr (tag \<in> set tags)))))"

definition performPush :: "'s render_lib \<Rightarrow> string \<Rightarrow> push_options \<Rightarrow> ('s, go_error + string) state" where
  "performPush L packagePath opts =
     bindM (rl_readFile L packagePath) (\<lambda>r. case r of
       Inl err \<Rightarrow> ret (Inl (Wrapped ''failed to read packaged chart'' err))
     | Inr chartData \<Rightarrow> bindM (rl_push L (po_clientOptions opts) chartData (po_reference opts)) (\<lambda>p. case p of
         Inl err \<Rightarrow> ret (Inl (Wrapped ''failed to push to registry'' err))
       | Inr ref \<Rightarrow> ret (Inr ref)))"

definition pushChartToRegistry :: "'s render_lib \<Rightarrow> string \<Rightarrow> push_options \<Rightarrow> ('s, go_error + string) state" where
  "pushChartToRegistry L packagePath opts =
     (case rl_newClient L (po_clientOptions opts) of
        Some err \<Rightarrow> ret (Inl (Wrapped ''failed to create registry client'' err))
      | None \<Rightarrow> performPush L packagePath opts)"

text \<open>\<open>PushChart\<close> from the creation of the directory for the package on, which is removed on every way out.\<close>

definition packageAndPush :: "'s render_lib \<Rightarrow> string \<Rightarrow> string \<Rightarrow> push_options \<Rightarrow> ('s, go_error + string) state" where
  "packageAndPush L dir version opts =
     bindM (rl_mkdirTemp L ''helm-package'') (\<lambda>t. case t of
       Inl err \<Rightarrow> ret (Inl (Wrapped ''failed to create temporary directory'' err))
     | Inr tmpDir \<Rightarrow> do {
         res \<leftarrow> bindM (packageChart L dir tmpDir version) (\<lambda>p. case p of
           Inl err \<Rightarrow> ret (Inl (Wrapped ''failed to package chart'' err))
         | Inr packagePath \<Rightarrow> bindM (pushChartToRegistry L packagePath opts) (\<lambda>q. case q of
             Inl err \<Rightarrow> ret (Inl (Wrapped ''failed to push chart to registry'' err))
           | Inr ref \<Rightarrow> ret (Inr ref)));
         rl_removeAll L tmpDir;
         ret res
       })"

definition pushChart :: "'s render_lib \<Rightarrow> string option \<Rightarrow> push_options \<Rightarrow> ('s, go_error + string) state" where
  "pushChart L result opts =
     (case result of
        None \<Rightarrow> ret (Inl (ErrorText ''invalid RenderResult: directory is empty''))
      | Some dir \<Rightarrow>
          if dir = '''' then ret (Inl (ErrorText ''invalid RenderResult: directory is empty''))
          else if po_reference opts = '''' then ret (Inl (ErrorText ''registry reference is required''))
          else do {
            let chartYamlPath = pathJoin dir ''Chart.yaml'';
            st \<leftarrow> rl_stat L chartYamlPath;
            (case st of
               Some err \<Rightarrow> ret (Inl (Wrapped ''chart directory is invalid: Chart.yaml not found'' err))
             | None \<Rightarrow> bindM (rl_readFile L chartYamlPath) (\<lambda>r. case r of
                 Inl err \<Rightarrow> ret (Inl (Wrapped ''failed to read Chart.yaml'' err))
               | Inr chartYamlData \<Rightarrow>
                   (case rl_chartVersion L chartYamlData of
                      Inl err \<Rightarrow> ret (Inl (Wrapped ''failed to parse Chart.yaml'' err))
                    | Inr version \<Rightarrow>
                        if version = None \<or> version = Some '''' then ret (Inl (ErrorText ''chart version not found in Chart.yaml''))
                        else packageAndPush L dir (the version) opts)))
          })"

section \<open>The command\<close>

record renderer_flags =
  fl_skipPush :: bool
  fl_url :: string
  fl_username :: string
  fl_password :: string
  fl_passwordStdIn :: bool
  fl_plainHTTP :: bool

fun configTypeText :: "renderer_config_type \<Rightarrow> string" where
  "configTypeText TypeBootstrap = ''bootstrap''"
| "configTypeText TypeRelease = ''release''"
| "configTypeText TypeProfile = ''profile''"
| "configTypeText TypeUnset = ''''"

definition renderConfig :: "'s render_lib \<Rightarrow> renderer_config \<Rightarrow> ('s, go_error + string) state" where
  "renderConfig L config =
     (case cfg_type config of
        TypeRelease \<Rightarrow> RenderRelease L (cfg_release config)
      | TypeBootstrap \<Rightarrow> RenderBootstrap L (cfg_bootstrap config)
      | ty \<Rightarrow> ret (Inl (ErrorText (''unknown type specified in config: '' @ configTypeText ty))))"

definition buildPushOptions :: "'s render_lib \<Rightarrow> renderer_flags \<Rightarrow> push_options" where
  "buildPushOptions L fl =
     (let dockerconfig = (if rl_getenv L ''DOCKER_CONFIG'' = '''' then pathJoin (rl_userHomeDir L) ''.docker/config.json''
                          else rl_getenv L ''DOCKER_CONFIG'');
          plain = (if fl_plainHTTP fl then [ClientOptPlainHTTP] else []);
          username = (if fl_username fl = '''' then rl_getenv L ''REGISTRY_USERNAME'' else fl_username fl);
          password = (if fl_password fl = '''' then rl_getenv L ''REGISTRY_PASSWORD'' else fl_password fl)
      in \<lparr>po_reference = fl_url fl,
          po_clientOptions = plain @ (if username \<noteq> '''' \<and> password \<noteq> '''' then [ClientOptBasicAuth username password]
                                      else [ClientOptCredentialsFile dockerconfig])\<rparr>)"

definition renderOnly :: "'s render_lib \<Rightarrow> renderer_config \<Rightarrow> ('s, go_error + unit) state" where
  "renderOnly L config =
     bindM (renderConfig L config) (\<lambda>r. case r of
       Inl err \<Rightarrow> ret (Inl (Wrapped (''failed to render '' @ configTypeText (cfg_type config)) err))
     | Inr dir \<Rightarrow> do {
         rl_print L (''Rendered '' @ configTypeText (cfg_type config) @ '' to '' @ dir @ '' (skip-push)'');
         rl_removeAll L dir;
         ret (Inr ())
       })"

text \<open>\<open>rootFunc\<close> from the call of \<open>render\<close> on, with the deferred removal of the rendered directory.\<close>

definition renderAndPush :: "'s render_lib \<Rightarrow> renderer_config \<Rightarrow> push_options \<Rightarrow> ('s, go_error + unit) state" where
  "renderAndPush L config opts =
     andThen (renderConfig L config) (\<lambda>dir. do {
       rl_print L (''Rendered '' @ configTypeText (cfg_type config) @ '' to '' @ dir);
       p \<leftarrow> pushChart L (Some dir) opts;
       res \<leftarrow> (case p of
         Inl err \<Rightarrow> ret (Inl (Wrapped ''failed to push result'' err))
       | Inr ref \<Rightarrow> do { rl_print L (''Pushed result to '' @ ref); ret (Inr ()) });
       rl_removeAll L dir;
       ret res
     })"

definition checkAndRender :: "'s render_lib \<Rightarrow> renderer_config \<Rightarrow> push_options \<Rightarrow> ('s, go_error + unit) state" where
  "checkAndRender L config opts = do {
     ex \<leftarrow> chartExists L opts;
     (case ex of
        Inl err \<Rightarrow> do {
          rl_print L (''Could not check for existing chart, proceeding with render: '' @ error_text err);
          renderAndPush L config opts
        }
      | Inr True \<Rightarrow> do {
          rl_print L (''Chart already exists at '' @ po_reference opts @ '', skipping render and push'');
          ret (Inr ())
        }
      | Inr False \<Rightarrow> renderAndPush L config opts)
   }"

definition rootFunc :: "'s render_lib \<Rightarrow> renderer_flags \<Rightarrow> string \<Rightarrow> ('s, go_error + unit) state" where
  "rootFunc L fl configFile =
     bindM (rl_readFile L configFile) (\<lambda>r. case r of
       Inl err \<Rightarrow> ret (Inl (Wrapped ''failed to read config-file'' err))
     | Inr data \<Rightarrow> (case rl_unmarshalConfig L data of
         Inl err \<Rightarrow> ret (Inl (Wrapped ''failed to parse config-file'' err))
       | Inr config \<Rightarrow>
           if fl_skipPush fl then renderOnly L config
           else if fl_passwordStdIn fl then
             andThen (rl_scanln L) (\<lambda>password. checkAndRender L config (buildPushOptions L (fl\<lparr>fl_password := password\<rparr>)))
           else checkAndRender L config (buildPushOptions L fl)))"

end
