(* ===== verification/RendererProperties.thy ===== *)
theory RendererProperties
  imports Renderer TargetProperties Naming
begin

text \<open>
  What a run of the renderer does to the registry and to the file system, from the documented behaviour of its libraries
  (the locale \<open>render_laws\<close>), and what that means for the RenderTasks of the Target controller.
\<close>

section \<open>The laws of the libraries\<close>

text \<open>A program that leaves a view of the state as it is.\<close>

definition leaves :: "('s \<Rightarrow> 'v) \<Rightarrow> ('s, 'a) state \<Rightarrow> bool" where
  "leaves V m \<longleftrightarrow> (\<forall>s. wp m (\<lambda>_ s'. V s' = V s) s)"

lemma leaves_wp: "leaves V m \<Longrightarrow> (\<And>a s'. V s' = V s \<Longrightarrow> Q a s') \<Longrightarrow> wp m Q s"
  unfolding leaves_def by (meson wp_mono)

lemma wp_ret_fun: "wp (ret a) Q = Q a"
  by (simp add: fun_eq_iff)

lemma wp_bind_fun: "wp (bindM m f) Q = wp m (\<lambda>a. wp (f a) Q)"
  by (simp add: fun_eq_iff)

lemma leaves_ret [intro, simp]: "leaves V (ret a)"
  by (simp add: leaves_def)

lemma leaves_bind [intro]: "leaves V m \<Longrightarrow> (\<And>a. leaves V (f a)) \<Longrightarrow> leaves V (bindM m f)"
  unfolding leaves_def wp_bind by (metis (mono_tags, lifting) wp_mono)

lemma leaves_andThen [intro]: "leaves V m \<Longrightarrow> (\<And>a. leaves V (f a)) \<Longrightarrow> leaves V (andThen m f)"
  unfolding andThen_def by (intro leaves_bind) (auto split: sum.splits)

lemma leaves_forEach [intro]: "(\<And>x. leaves V (f x)) \<Longrightarrow> leaves V (forEach f xs)"
  by (induction xs) auto

definition cleanWalk :: "renderer \<Rightarrow> bool" where
  "cleanWalk r \<longleftrightarrow> (\<forall>err. WalkError err \<notin> set (tf_walk (r_templateFS r) (r_templateDir r)))"

lemma walkFiles_clean: "(\<And>err. WalkError err \<notin> set es) \<Longrightarrow> \<exists>files'. walkFiles dir es files = Inr files'"
proof (induction dir es files rule: walkFiles.induct)
  case (2 dir err es files)
  then show ?case by (metis list.set_intros(1))
qed auto

text \<open>After a successful rendering there is one more directory; after a failed one there is not, provided that
  the template directory can be walked.\<close>

definition created :: "('s \<Rightarrow> string set) \<Rightarrow> ('s \<Rightarrow> 'c) \<Rightarrow> bool \<Rightarrow> 's \<Rightarrow> go_error + string \<Rightarrow> 's \<Rightarrow> bool" where
  "created dirs charts clean s r s' \<longleftrightarrow> charts s' = charts s \<and>
     (case r of Inl _ \<Rightarrow> clean \<longrightarrow> dirs s' = dirs s | Inr d \<Rightarrow> d \<noteq> '''' \<and> d \<notin> dirs s \<and> dirs s' = insert d (dirs s))"

text \<open>\<open>dirs\<close> are the temporary directories that exist, \<open>charts\<close> the contents of the registry by repository and
  tag. A push that reports an error may still have stored the chart.\<close>

locale render_laws =
  fixes L :: "'s render_lib" and dirs :: "'s \<Rightarrow> string set" and charts :: "'s \<Rightarrow> string \<times> string \<Rightarrow> string option"
  assumes reads: "leaves (\<lambda>s. (dirs s, charts s)) (rl_readFile L path)" "leaves (\<lambda>s. (dirs s, charts s)) (rl_stat L path)"
      "leaves (\<lambda>s. (dirs s, charts s)) (rl_scanln L)" "leaves (\<lambda>s. (dirs s, charts s)) (rl_print L out)"
    and files: "leaves (\<lambda>s. (dirs s, charts s)) (rl_mkdirAll L path)" "leaves (\<lambda>s. (dirs s, charts s)) (rl_create L path)"
      "leaves (\<lambda>s. (dirs s, charts s)) (rl_write L path out)" "leaves (\<lambda>s. (dirs s, charts s)) (rl_package L dir dest version)"
    and mkdirTemp: "wp (rl_mkdirTemp L pattern) (\<lambda>r s'. charts s' = charts s \<and>
      (case r of Inl _ \<Rightarrow> dirs s' = dirs s | Inr d \<Rightarrow> d \<noteq> '''' \<and> d \<notin> dirs s \<and> dirs s' = insert d (dirs s))) s"
    and removeAll: "wp (rl_removeAll L d) (\<lambda>_ s'. charts s' = charts s \<and> dirs s' = dirs s - {d}) s"
    and tags: "wp (rl_tags L opts repo) (\<lambda>r s'. dirs s' = dirs s \<and> charts s' = charts s \<and>
      (case r of Inl _ \<Rightarrow> True | Inr ts \<Rightarrow> set ts = {t. charts s (repo, t) \<noteq> None})) s"
    and push: "wp (rl_push L opts data ref) (\<lambda>r s'. dirs s' = dirs s \<and>
      ((\<exists>err. r = Inl err) \<and> charts s' = charts s \<or>
       (\<exists>k. rl_parseReference L (trimPrefix ref ''oci://'') = Inr k \<and> charts s' = (charts s)(k \<mapsto> data)))) s"
begin

lemma renderFile_leaves: "leaves (\<lambda>s. (dirs s, charts s)) (renderFile L r dest name)"
  unfolding renderFile_def Let_def using reads files by (auto split: sum.splits prod.splits option.splits intro!: leaves_bind leaves_andThen)

lemma render_wp: "wp (render L r) (created dirs charts (cleanWalk r) s) s"
  unfolding render_def wp_andThen
proof (rule wp_mono [OF mkdirTemp])
  fix t :: "go_error + string" and s1
  assume t: "charts s1 = charts s \<and>
    (case t of Inl _ \<Rightarrow> dirs s1 = dirs s | Inr d \<Rightarrow> d \<noteq> '''' \<and> d \<notin> dirs s \<and> dirs s1 = insert d (dirs s))"
  have body: "wp (forEach (renderFile L r d) files) (\<lambda>res. wp (case res of
      Inl err \<Rightarrow> bindM (rl_removeAll L d) (\<lambda>_. ret (Inl err)) | Inr _ \<Rightarrow> ret (Inr d)) (created dirs charts (cleanWalk r) s)) s1"
    if "t = Inr d" for d files
  proof (rule leaves_wp [where V = "\<lambda>s. (dirs s, charts s)"])
    show "leaves (\<lambda>s. (dirs s, charts s)) (forEach (renderFile L r d) files)" using renderFile_leaves by blast
    fix res s2 assume s2: "(dirs s2, charts s2) = (dirs s1, charts s1)"
    then have "wp (rl_removeAll L d) (\<lambda>_. created dirs charts (cleanWalk r) s (Inl err)) s2" for err
      by (intro wp_mono [OF removeAll]) (use t that in \<open>auto simp: created_def\<close>)
    then show "wp (case res of Inl err \<Rightarrow> bindM (rl_removeAll L d) (\<lambda>_. ret (Inl err)) | Inr _ \<Rightarrow> ret (Inr d)) (created dirs charts (cleanWalk r) s) s2"
      using s2 t that by (auto simp: wp_ret_fun created_def [of _ _ _ _ "Inr _"] split: sum.splits)
  qed
  show "(case t of Inl e \<Rightarrow> created dirs charts (cleanWalk r) s (Inl e) | Inr tmp \<Rightarrow> wp
      (case walkFiles (r_templateDir r) (tf_walk (r_templateFS r) (r_templateDir r)) [] of Inl err \<Rightarrow> ret (Inl err)
       | Inr files \<Rightarrow> bindM (forEach (renderFile L r tmp) files) (\<lambda>res. case res of
           Inl err \<Rightarrow> bindM (rl_removeAll L tmp) (\<lambda>_. ret (Inl err)) | Inr _ \<Rightarrow> ret (Inr tmp)))
      (created dirs charts (cleanWalk r) s)) s1"
    using t body walkFiles_clean [of "tf_walk (r_templateFS r) (r_templateDir r)" "r_templateDir r" "[]"]
    by (auto simp: created_def cleanWalk_def split: sum.splits)
qed

end

text \<open>The embedded template directories can be walked.\<close>

definition walksClean :: "'s render_lib \<Rightarrow> bool" where
  "walksClean L \<longleftrightarrow> (\<forall>err. WalkError err \<notin> set (tf_walk (rl_releaseFS L) ''template/release'') \<and>
     WalkError err \<notin> set (tf_walk (rl_bootstrapFS L) ''template/bootstrap''))"

text \<open>What a push does to the registry: nothing, which is an error, or it stores a chart under the reference.\<close>

definition stored :: "'s render_lib \<Rightarrow> push_options \<Rightarrow> (string \<times> string \<Rightarrow> string option) \<Rightarrow> (string \<times> string \<Rightarrow> string option) \<Rightarrow> bool" where
  "stored L opts c c' \<longleftrightarrow> rl_newClient L (po_clientOptions opts) = None \<and> po_reference opts \<noteq> '''' \<and>
     (\<exists>k data. rl_parseReference L (trimPrefix (po_reference opts) ''oci://'') = Inr k \<and> c' = c(k \<mapsto> data))"

definition pushed :: "'s render_lib \<Rightarrow> push_options \<Rightarrow> go_error + 'a \<Rightarrow> (string \<times> string \<Rightarrow> string option) \<Rightarrow>
    (string \<times> string \<Rightarrow> string option) \<Rightarrow> bool" where
  "pushed L opts r c c' \<longleftrightarrow> (case r of Inl _ \<Rightarrow> c' = c \<or> stored L opts c c'
     | Inr _ \<Rightarrow> stored L opts c c')"

lemma pushed_errors:
  "pushed L opts (Inl e) c c' \<Longrightarrow> pushed L opts (Inl e') c c'" "pushed L opts (Inr a) c c' \<Longrightarrow> pushed L opts (Inr b) c c'"
  "pushed L opts (Inl e) c c"
  by (simp_all add: pushed_def)

text \<open>The registry lists the tags of a repository that has some.\<close>

definition listsExisting :: "'s render_lib \<Rightarrow> ('s \<Rightarrow> string \<times> string \<Rightarrow> string option) \<Rightarrow> bool" where
  "listsExisting L charts \<longleftrightarrow> (\<forall>opts repo tag s. charts s (repo, tag) \<noteq> None \<longrightarrow> wp (rl_tags L opts repo) (\<lambda>r _. \<exists>ts. r = Inr ts) s)"

text \<open>What a run does to the registry: only the chart of its reference can change, after a success it is there, and
  an existing chart is kept when it is listed.\<close>

definition rendered :: "'s render_lib \<Rightarrow> bool \<Rightarrow> push_options \<Rightarrow> go_error + 'a \<Rightarrow> (string \<times> string \<Rightarrow> string option) \<Rightarrow>
    (string \<times> string \<Rightarrow> string option) \<Rightarrow> bool" where
  "rendered L listed opts r c c' \<longleftrightarrow> (c' = c \<or> stored L opts c c') \<and>
     (case r of Inl _ \<Rightarrow> True
      | Inr _ \<Rightarrow> \<exists>k. rl_parseReference L (trimPrefix (po_reference opts) ''oci://'') = Inr k \<and> c' k \<noteq> None) \<and>
     (\<forall>k. rl_parseReference L (trimPrefix (po_reference opts) ''oci://'') = Inr k \<longrightarrow> c k \<noteq> None \<longrightarrow> listed \<longrightarrow> c' = c)"

lemma pushed_rendered:
  assumes "pushed L opts r c c'"
    and "\<And>k. rl_parseReference L (trimPrefix (po_reference opts) ''oci://'') = Inr k \<Longrightarrow> c k \<noteq> None \<Longrightarrow> listed \<Longrightarrow>
      po_reference opts = '''' \<or> rl_newClient L (po_clientOptions opts) \<noteq> None"
  shows "rendered L listed opts r c c'"
  using assms by (auto simp: rendered_def pushed_def stored_def split: sum.splits)

definition runEffect :: "'s render_lib \<Rightarrow> ('s \<Rightarrow> string set) \<Rightarrow> ('s \<Rightarrow> string \<times> string \<Rightarrow> string option) \<Rightarrow> renderer_flags \<Rightarrow>
    's \<Rightarrow> go_error + unit \<Rightarrow> 's \<Rightarrow> bool" where
  "runEffect L dirs charts fl s r s' \<longleftrightarrow> (walksClean L \<longrightarrow> dirs s' = dirs s) \<and> (fl_skipPush fl \<longrightarrow> charts s' = charts s) \<and>
     (\<not> fl_skipPush fl \<longrightarrow> (\<exists>opts. po_reference opts = fl_url fl \<and> rendered L (listsExisting L charts) opts r (charts s) (charts s')))"

lemma rendered_refused: "\<exists>opts. po_reference opts = url \<and> rendered L listed opts (Inl err) c c"
  by (rule exI [of _ "\<lparr>po_reference = url, po_clientOptions = []\<rparr>"]) (simp add: rendered_def)

context render_laws begin

lemma renderConfig_wp: "wp (renderConfig L config) (created dirs charts (walksClean L) s) s"
proof -
  have 1: "cleanWalk \<lparr>r_outputName = n, r_templateFS = rl_releaseFS L, r_templateDir = ''template/release'', r_data = x\<rparr>"
    "cleanWalk \<lparr>r_outputName = n, r_templateFS = rl_bootstrapFS L, r_templateDir = ''template/bootstrap'', r_data = x\<rparr>"
    if "walksClean L" for n x using that by (simp_all add: cleanWalk_def walksClean_def)
  have weaken: "created dirs charts c s r s' \<Longrightarrow> (walksClean L \<Longrightarrow> c) \<Longrightarrow> created dirs charts (walksClean L) s r s'" for c r s'
    by (auto simp: created_def split: sum.splits)
  show ?thesis
    unfolding renderConfig_def
    by (cases "cfg_type config")
      (auto simp: RenderRelease_def RenderBootstrap_def created_def [of _ _ _ s "Inl _" s] intro!: wp_mono [OF render_wp] weaken 1)
qed

lemma performPush_wp:
  assumes "rl_newClient L (po_clientOptions opts) = None" "po_reference opts \<noteq> ''''"
  shows "wp (performPush L path opts) (\<lambda>r s'. dirs s' = dirs s \<and> pushed L opts r (charts s) (charts s')) s"
  unfolding performPush_def wp_bind
proof (rule leaves_wp [OF reads(1)])
  fix r s1 assume s1: "(dirs s1, charts s1) = (dirs s, charts s)"
  have "wp (rl_push L (po_clientOptions opts) data (po_reference opts)) (\<lambda>p. wp (case p of
      Inl err \<Rightarrow> ret (Inl (Wrapped ''failed to push to registry'' err)) | Inr ref \<Rightarrow> ret (Inr ref))
      (\<lambda>r s'. dirs s' = dirs s \<and> pushed L opts r (charts s) (charts s'))) s1" for data
    by (rule wp_mono [OF push]) (use s1 assms in \<open>auto simp: pushed_def stored_def split: sum.splits\<close>)
  then show "wp (case r of Inl err \<Rightarrow> ret (Inl (Wrapped ''failed to read packaged chart'' err))
     | Inr chartData \<Rightarrow> bindM (rl_push L (po_clientOptions opts) chartData (po_reference opts)) (\<lambda>p. case p of
         Inl err \<Rightarrow> ret (Inl (Wrapped ''failed to push to registry'' err)) | Inr ref \<Rightarrow> ret (Inr ref)))
      (\<lambda>r s'. dirs s' = dirs s \<and> pushed L opts r (charts s) (charts s')) s1"
    using s1 by (auto simp: pushed_def split: sum.splits)
qed

lemma pushChartToRegistry_wp:
  assumes "po_reference opts \<noteq> ''''"
  shows "wp (pushChartToRegistry L path opts) (\<lambda>r s'. dirs s' = dirs s \<and> pushed L opts r (charts s) (charts s')) s"
  using performPush_wp [OF _ assms]
  by (cases "rl_newClient L (po_clientOptions opts)") (auto simp: pushChartToRegistry_def pushed_def)

lemma packageAndPush_wp:
  assumes "po_reference opts \<noteq> ''''"
  shows "wp (packageAndPush L dir version opts) (\<lambda>r s'. dirs s' = dirs s \<and> pushed L opts r (charts s) (charts s')) s"
  unfolding packageAndPush_def wp_bind
proof (rule wp_mono [OF mkdirTemp])
  fix t :: "go_error + string" and s1
  let ?Q = "\<lambda>r s'. dirs s' = dirs s \<and> pushed L opts r (charts s) (charts s')"
  assume t: "charts s1 = charts s \<and>
    (case t of Inl _ \<Rightarrow> dirs s1 = dirs s | Inr d \<Rightarrow> d \<noteq> '''' \<and> d \<notin> dirs s \<and> dirs s1 = insert d (dirs s))"
  have remove: "wp (rl_removeAll L d) (\<lambda>_. ?Q res) s2"
    if "t = Inr d" "dirs s2 = dirs s1" "pushed L opts res (charts s) (charts s2)" for d res s2
    by (rule wp_mono [OF removeAll]) (use t that in auto)
  have push: "wp (pushChartToRegistry L path opts) (\<lambda>q. wp (case q of
      Inl err \<Rightarrow> ret (Inl (Wrapped ''failed to push chart to registry'' err)) | Inr ref \<Rightarrow> ret (Inr ref))
      (\<lambda>res. wp (rl_removeAll L d) (\<lambda>_. wp (ret res) ?Q))) s2"
    if "t = Inr d" "dirs s2 = dirs s1" "charts s2 = charts s" for d path s2
    by (rule wp_mono [OF pushChartToRegistry_wp [OF assms]])
      (use that in \<open>auto simp: wp_ret_fun split: sum.splits intro!: remove intro: pushed_errors\<close>)
  have "wp (packageChart L dir d version) (\<lambda>p. wp (case p of
      Inl err \<Rightarrow> ret (Inl (Wrapped ''failed to package chart'' err))
    | Inr packagePath \<Rightarrow> bindM (pushChartToRegistry L packagePath opts) (\<lambda>q. case q of
        Inl err \<Rightarrow> ret (Inl (Wrapped ''failed to push chart to registry'' err)) | Inr ref \<Rightarrow> ret (Inr ref)))
      (\<lambda>res. wp (rl_removeAll L d) (\<lambda>_. wp (ret res) ?Q))) s1" if "t = Inr d" for d
  proof (rule leaves_wp [where V = "\<lambda>s. (dirs s, charts s)"])
    show "leaves (\<lambda>s. (dirs s, charts s)) (packageChart L dir d version)"
      unfolding packageChart_def using files by (auto split: sum.splits)
  qed (use that push t in \<open>auto simp: wp_ret_fun split: sum.splits intro!: remove intro: pushed_errors\<close>)
  then show "wp (case t of Inl err \<Rightarrow> ret (Inl (Wrapped ''failed to create temporary directory'' err))
     | Inr tmpDir \<Rightarrow> bindM (bindM (packageChart L dir tmpDir version) (\<lambda>p. case p of
           Inl err \<Rightarrow> ret (Inl (Wrapped ''failed to package chart'' err))
         | Inr packagePath \<Rightarrow> bindM (pushChartToRegistry L packagePath opts) (\<lambda>q. case q of
             Inl err \<Rightarrow> ret (Inl (Wrapped ''failed to push chart to registry'' err))
           | Inr ref \<Rightarrow> ret (Inr ref)))) (\<lambda>res. bindM (rl_removeAll L tmpDir) (\<lambda>_. ret res))) ?Q s1"
    using t by (auto simp: pushed_errors wp_bind_fun split: sum.splits)
qed

lemma pushChart_wp: "wp (pushChart L result opts) (\<lambda>r s'. dirs s' = dirs s \<and> pushed L opts r (charts s) (charts s')) s"
proof (cases "\<exists>dir. result = Some dir \<and> dir \<noteq> '''' \<and> po_reference opts \<noteq> ''''")
  case True
  then obtain dir where dir: "result = Some dir" "dir \<noteq> ''''" "po_reference opts \<noteq> ''''" by blast
  let ?Q = "\<lambda>r s'. dirs s' = dirs s \<and> pushed L opts r (charts s) (charts s')"
  have push: "wp (packageAndPush L dir version opts) ?Q s2" if "(dirs s2, charts s2) = (dirs s, charts s)" for version s2
    using packageAndPush_wp [OF dir(3), of dir version s2] that by simp
  have "wp (rl_readFile L path) (\<lambda>r. wp (case r of
      Inl err \<Rightarrow> ret (Inl (Wrapped ''failed to read Chart.yaml'' err))
    | Inr chartYamlData \<Rightarrow> (case rl_chartVersion L chartYamlData of
        Inl err \<Rightarrow> ret (Inl (Wrapped ''failed to parse Chart.yaml'' err))
      | Inr version \<Rightarrow> if version = None \<or> version = Some '''' then ret (Inl (ErrorText ''chart version not found in Chart.yaml''))
          else packageAndPush L dir (the version) opts)) ?Q) s1" if "(dirs s1, charts s1) = (dirs s, charts s)" for path s1
    by (rule leaves_wp [OF reads(1)]) (use that push in \<open>auto simp: pushed_errors split: sum.splits\<close>)
  then show ?thesis
    unfolding pushChart_def
    by (auto simp: dir Let_def pushed_errors split: option.splits intro!: leaves_wp [OF reads(2)])
qed (auto simp: pushChart_def pushed_errors split: option.splits)

lemma remove_created:
  assumes "dirs s1 = insert d (dirs s)" "d \<notin> dirs s" "P (charts s1)"
  shows "wp (rl_removeAll L d) (\<lambda>_ s'. (clean \<longrightarrow> dirs s' = dirs s) \<and> P (charts s')) s1"
  by (rule wp_mono [OF removeAll]) (use assms in auto)

lemma renderAndPush_wp:
  "wp (renderAndPush L config opts) (\<lambda>r s'. (walksClean L \<longrightarrow> dirs s' = dirs s) \<and> pushed L opts r (charts s) (charts s')) s"
  unfolding renderAndPush_def wp_andThen
proof (rule wp_mono [OF renderConfig_wp])
  let ?Q = "\<lambda>r s'. (walksClean L \<longrightarrow> dirs s' = dirs s) \<and> pushed L opts r (charts s) (charts s')"
  fix r s1 assume r: "created dirs charts (walksClean L) s r s1"
  have finish: "wp (case p of Inl err \<Rightarrow> ret (Inl (Wrapped ''failed to push result'' err))
       | Inr ref \<Rightarrow> bindM (rl_print L (''Pushed result to '' @ ref)) (\<lambda>_. ret (Inr ())))
      (\<lambda>res. wp (rl_removeAll L d) (\<lambda>_. ?Q res)) s3"
    if "r = Inr d" "dirs s3 = dirs s1" "pushed L opts p (charts s1) (charts s3)" for d p s3
  proof (cases p)
    case (Inl err)
    then show ?thesis using r that by (auto simp: created_def intro!: remove_created intro: pushed_errors)
  next
    case (Inr ref)
    have "wp (rl_print L out) (\<lambda>_. wp (rl_removeAll L d) (\<lambda>_. ?Q (Inr ()))) s3" for out
      by (rule leaves_wp [OF reads(4)]) (use r that Inr in \<open>auto simp: created_def intro!: remove_created intro: pushed_errors\<close>)
    then show ?thesis by (simp add: Inr wp_ret_fun)
  qed
  have "wp (rl_print L out) (\<lambda>_. wp (pushChart L (Some d) opts) (\<lambda>p. wp (case p of
        Inl err \<Rightarrow> ret (Inl (Wrapped ''failed to push result'' err))
       | Inr ref \<Rightarrow> bindM (rl_print L (''Pushed result to '' @ ref)) (\<lambda>_. ret (Inr ())))
      (\<lambda>res. wp (rl_removeAll L d) (\<lambda>_. ?Q res)))) s1" if "r = Inr d" for d out
  proof (rule leaves_wp [OF reads(4)])
    fix s2 assume "(dirs s2, charts s2) = (dirs s1, charts s1)"
    then show "wp (pushChart L (Some d) opts) (\<lambda>p. wp (case p of
        Inl err \<Rightarrow> ret (Inl (Wrapped ''failed to push result'' err))
       | Inr ref \<Rightarrow> bindM (rl_print L (''Pushed result to '' @ ref)) (\<lambda>_. ret (Inr ())))
      (\<lambda>res. wp (rl_removeAll L d) (\<lambda>_. ?Q res))) s2"
      by (intro wp_mono [OF pushChart_wp]) (use that in \<open>auto intro!: finish\<close>)
  qed
  then show "(case r of Inl e \<Rightarrow> ?Q (Inl e) | Inr dir \<Rightarrow> wp (bindM (rl_print L (''Rendered '' @ configTypeText (cfg_type config) @ '' to '' @ dir))
      (\<lambda>_. bindM (pushChart L (Some dir) opts) (\<lambda>p. bindM (case p of
        Inl err \<Rightarrow> ret (Inl (Wrapped ''failed to push result'' err))
       | Inr ref \<Rightarrow> bindM (rl_print L (''Pushed result to '' @ ref)) (\<lambda>_. ret (Inr ())))
      (\<lambda>res. bindM (rl_removeAll L dir) (\<lambda>_. ret res))))) ?Q) s1"
    using r by (auto simp: created_def pushed_errors wp_bind_fun wp_ret_fun split: sum.splits)
qed

lemma chartExists_wp:
  "wp (chartExists L opts) (\<lambda>r s'. dirs s' = dirs s \<and> charts s' = charts s \<and> (case r of
      Inl _ \<Rightarrow> (\<exists>err. rl_parseReference L (trimPrefix (po_reference opts) ''oci://'') = Inl err) \<or>
        po_reference opts = '''' \<or> rl_newClient L (po_clientOptions opts) \<noteq> None
    | Inr b \<Rightarrow> \<exists>k. rl_parseReference L (trimPrefix (po_reference opts) ''oci://'') = Inr k \<and>
        (b \<longrightarrow> charts s k \<noteq> None) \<and> (listsExisting L charts \<longrightarrow> charts s k \<noteq> None \<longrightarrow> b))) s"
proof (cases "po_reference opts = '''' \<or> rl_newClient L (po_clientOptions opts) \<noteq> None \<or>
    (\<exists>err. rl_parseReference L (trimPrefix (po_reference opts) ''oci://'') = Inl err)")
  case False
  then obtain repo tag where k: "rl_parseReference L (trimPrefix (po_reference opts) ''oci://'') = Inr (repo, tag)"
    "po_reference opts \<noteq> ''''" "rl_newClient L (po_clientOptions opts) = None"
    by (cases "rl_parseReference L (trimPrefix (po_reference opts) ''oci://'')") auto
  have "wp (rl_tags L (po_clientOptions opts) repo)
      (\<lambda>r _. listsExisting L charts \<longrightarrow> charts s (repo, tag) \<noteq> None \<longrightarrow> (\<exists>ts. r = Inr ts)) s"
  proof (cases "listsExisting L charts \<and> charts s (repo, tag) \<noteq> None")
    case True
    then have "wp (rl_tags L (po_clientOptions opts) repo) (\<lambda>r _. \<exists>ts. r = Inr ts) s"
      unfolding listsExisting_def by blast
    then show ?thesis by (rule wp_mono) simp
  next
    case False
    then show ?thesis by (auto simp: wp_def split: prod.splits)
  qed
  note wp_conj [OF tags this]
  then show ?thesis unfolding chartExists_def by (auto simp: k elim!: wp_mono split: sum.splits)
qed (auto simp: chartExists_def split: sum.splits option.splits)

lemma checkAndRender_wp:
  "wp (checkAndRender L config opts) (\<lambda>r s'. (walksClean L \<longrightarrow> dirs s' = dirs s) \<and>
     rendered L (listsExisting L charts) opts r (charts s) (charts s')) s"
  unfolding checkAndRender_def wp_bind
proof (rule wp_mono [OF chartExists_wp])
  let ?Q = "\<lambda>r s'. (walksClean L \<longrightarrow> dirs s' = dirs s) \<and> rendered L (listsExisting L charts) opts r (charts s) (charts s')"
  let ?ref = "rl_parseReference L (trimPrefix (po_reference opts) ''oci://'')"
  fix r :: "go_error + bool" and s1
  assume r: "dirs s1 = dirs s \<and> charts s1 = charts s \<and> (case r of
      Inl _ \<Rightarrow> (\<exists>err. ?ref = Inl err) \<or> po_reference opts = '''' \<or> rl_newClient L (po_clientOptions opts) \<noteq> None
    | Inr b \<Rightarrow> \<exists>k. ?ref = Inr k \<and> (b \<longrightarrow> charts s k \<noteq> None) \<and> (listsExisting L charts \<longrightarrow> charts s k \<noteq> None \<longrightarrow> b))"
  have go: "wp (renderAndPush L config opts) ?Q s2"
    if "(dirs s2, charts s2) = (dirs s, charts s)"
      and "\<And>k. ?ref = Inr k \<Longrightarrow> charts s k \<noteq> None \<Longrightarrow> listsExisting L charts \<Longrightarrow>
        po_reference opts = '''' \<or> rl_newClient L (po_clientOptions opts) \<noteq> None" for s2
    by (rule wp_mono [OF renderAndPush_wp]) (use that in \<open>auto intro: pushed_rendered\<close>)
  have failed: "wp (rl_print L out) (\<lambda>_. wp (renderAndPush L config opts) ?Q) s1" if "r = Inl err" for out err
    by (rule leaves_wp [OF reads(4)], rule go) (use r that in auto)
  have found: "wp (rl_print L out) (\<lambda>_. ?Q (Inr ())) s1" if "r = Inr True" for out
    by (rule leaves_wp [OF reads(4)]) (use r that in \<open>auto simp: rendered_def\<close>)
  have missing: "wp (renderAndPush L config opts) ?Q s1" if "r = Inr False"
    by (rule go) (use r that in auto)
  show "wp (case r of
        Inl err \<Rightarrow> bindM (rl_print L (''Could not check for existing chart, proceeding with render: '' @ error_text err))
          (\<lambda>_. renderAndPush L config opts)
      | Inr True \<Rightarrow> bindM (rl_print L (''Chart already exists at '' @ po_reference opts @ '', skipping render and push'')) (\<lambda>_. ret (Inr ()))
      | Inr False \<Rightarrow> renderAndPush L config opts) ?Q s1"
    using failed found missing by (auto simp: wp_bind_fun wp_ret_fun split: sum.splits bool.splits)
qed

lemma renderOnly_wp: "wp (renderOnly L config) (\<lambda>r s'. (walksClean L \<longrightarrow> dirs s' = dirs s) \<and> charts s' = charts s) s"
  unfolding renderOnly_def wp_bind
proof (rule wp_mono [OF renderConfig_wp])
  let ?Q = "\<lambda>r s'. (walksClean L \<longrightarrow> dirs s' = dirs s) \<and> charts s' = charts s"
  fix r s1 assume r: "created dirs charts (walksClean L) s r s1"
  have "wp (rl_print L out) (\<lambda>_. wp (rl_removeAll L d) (\<lambda>_. ?Q (Inr ()))) s1" if "r = Inr d" for d out
    by (rule leaves_wp [OF reads(4)]) (use r that in \<open>auto simp: created_def intro!: remove_created\<close>)
  then show "wp (case r of Inl err \<Rightarrow> ret (Inl (Wrapped (''failed to render '' @ configTypeText (cfg_type config)) err))
     | Inr dir \<Rightarrow> bindM (rl_print L (''Rendered '' @ configTypeText (cfg_type config) @ '' to '' @ dir @ '' (skip-push)''))
         (\<lambda>_. bindM (rl_removeAll L dir) (\<lambda>_. ret (Inr ())))) ?Q s1"
    using r by (auto simp: created_def wp_bind_fun wp_ret_fun split: sum.splits)
qed

lemma rootFunc_wp: "wp (rootFunc L fl file) (runEffect L dirs charts fl s) s"
  unfolding rootFunc_def wp_bind
proof (rule leaves_wp [OF reads(1)])
  let ?Q = "runEffect L dirs charts fl s"
  fix r :: "go_error + string" and s1 assume s1: "(dirs s1, charts s1) = (dirs s, charts s)"
  have refused: "?Q (Inl err) s2" if "(dirs s2, charts s2) = (dirs s, charts s)" for err s2
    using that rendered_refused by (auto simp: runEffect_def)
  have check: "wp (checkAndRender L config opts) ?Q s2"
    if "(dirs s2, charts s2) = (dirs s, charts s)" "\<not> fl_skipPush fl" "po_reference opts = fl_url fl" for config opts s2
    by (rule wp_mono [OF checkAndRender_wp]) (use that in \<open>auto simp: runEffect_def\<close>)
  have ref: "po_reference (buildPushOptions L (fl\<lparr>fl_password := pw\<rparr>)) = fl_url fl" "po_reference (buildPushOptions L fl) = fl_url fl" for pw
    by (simp_all add: buildPushOptions_def Let_def)
  have stdin: "wp (rl_scanln L) (\<lambda>r. case r of Inl e \<Rightarrow> ?Q (Inl e)
      | Inr pw \<Rightarrow> wp (checkAndRender L config (buildPushOptions L (fl\<lparr>fl_password := pw\<rparr>))) ?Q) s1" if "\<not> fl_skipPush fl" for config
    by (rule leaves_wp [OF reads(3)]) (use s1 that check [OF _ _ ref(1)] refused in \<open>auto split: sum.splits\<close>)
  have only: "wp (renderOnly L config) ?Q s1" if "fl_skipPush fl" for config
    by (rule wp_mono [OF renderOnly_wp]) (use s1 that in \<open>auto simp: runEffect_def\<close>)
  show "wp (case r of Inl err \<Rightarrow> ret (Inl (Wrapped ''failed to read config-file'' err))
     | Inr data \<Rightarrow> (case rl_unmarshalConfig L data of Inl err \<Rightarrow> ret (Inl (Wrapped ''failed to parse config-file'' err))
       | Inr config \<Rightarrow> if fl_skipPush fl then renderOnly L config
           else if fl_passwordStdIn fl then
             andThen (rl_scanln L) (\<lambda>password. checkAndRender L config (buildPushOptions L (fl\<lparr>fl_password := password\<rparr>)))
           else checkAndRender L config (buildPushOptions L fl))) ?Q s1"
    using refused [OF s1] check [OF s1 _ ref(2)] stdin only by (auto split: sum.splits)
qed

end

section \<open>A run of the renderer\<close>

lemma run_effect:
  assumes "render_laws L dirs charts" "run_state (rootFunc L fl file) s = (r, s')" "\<not> fl_skipPush fl"
  shows "(\<forall>k. rl_parseReference L (trimPrefix (fl_url fl) ''oci://'') \<noteq> Inr k \<longrightarrow> charts s' k = charts s k) \<and>
    (r = Inr () \<longrightarrow> (\<exists>k. rl_parseReference L (trimPrefix (fl_url fl) ''oci://'') = Inr k \<and> charts s' k \<noteq> None)) \<and>
    (listsExisting L charts \<longrightarrow> (\<forall>k. rl_parseReference L (trimPrefix (fl_url fl) ''oci://'') = Inr k \<longrightarrow> charts s k \<noteq> None \<longrightarrow>
       charts s' = charts s))"
proof -
  obtain opts where opts: "po_reference opts = fl_url fl" "rendered L (listsExisting L charts) opts r (charts s) (charts s')"
    using wp_run [OF render_laws.rootFunc_wp [OF assms(1)] assms(2)] assms(3) by (auto simp: runEffect_def)
  then show ?thesis by (auto simp: rendered_def stored_def split: sum.splits)
qed



text \<open>Templates cannot read the environment of the renderer.\<close>

lemma map_of_fold_put: "map_of (fold (\<lambda>(name, fn) m. gomap_put name fn m) xs m) = map_of m ++ map_of (rev xs)"
  by (induction xs arbitrary: m) (auto simp: map_add_def fun_eq_iff split: option.splits)

lemma funcMap_without_environment: "map_of (funcMap sprig) ''env'' = None" "map_of (funcMap sprig) ''expandenv'' = None"
  by (auto simp: funcMap_def Let_def map_of_fold_put extraFuncs_def map_of_eq_None_iff)

section \<open>A changed component version\<close>

lemma resolved_names:
  "resolveResources rs pulls strict = Inr resolved \<Longrightarrow>
     map (\<lambda>(n, r). (n, rra_pullSecretName r)) resolved =
     map (\<lambda>(n, host). (n, case map_of pulls host of None \<Rightarrow> '''' | Some p \<Rightarrow> p)) (map (\<lambda>(n, ra). (n, registryHost (ra_repository ra))) rs)"
  by (induction rs pulls strict arbitrary: resolved rule: resolveResources.induct)
    (auto simp: Let_def split: if_splits sum.splits)

lemma resolved_origin:
  "resolveResources rs pulls strict = Inr resolved \<Longrightarrow>
     rs = map (\<lambda>(n, r). (n, \<lparr>ra_repository = rra_repository r, ra_insecure = rra_insecure r, ra_tag = rra_tag r, ra_helm = rra_helm r\<rparr>)) resolved"
  by (induction rs pulls strict arbitrary: resolved rule: resolveResources.induct)
    (auto simp: Let_def split: if_splits sum.splits)

lemma pullSecretsTag_cong:
  assumes "map (\<lambda>(n, r). (n, rra_pullSecretName r)) r1 = map (\<lambda>(n, r). (n, rra_pullSecretName r)) r2"
  shows "pullSecretsTag r1 = pullSecretsTag r2"
proof -
  have "map fst r1 = map fst r2" using arg_cong [OF assms, of "map fst"] by (simp add: comp_def case_prod_unfold)
  moreover have names: "map_option rra_pullSecretName (map_of r1 k) = map_option rra_pullSecretName (map_of r2 k)" for k
    using arg_cong [OF assms, of "\<lambda>m. map_of m k"] by (simp add: map_of_map)
  have "(case map_of r1 k of None \<Rightarrow> '''' | Some r \<Rightarrow> rra_pullSecretName r) =
      (case map_of r2 k of None \<Rightarrow> '''' | Some r \<Rightarrow> rra_pullSecretName r)" for k
    using names [of k] by (cases "map_of r1 k"; cases "map_of r2 k") simp_all
  ultimately show ?thesis by (simp add: pullSecretsTag_def)
qed


end
