(* ===== verification/RenderingScenarios.thy ===== *)
theory RenderingScenarios
  imports StorageProperties RendererProperties DiscoveryScenarios TargetScenarios
begin

text \<open>
  Concrete histories of stored objects and runs of the renderer over an in-memory disk and registry, with the guarantees of
  \<open>StorageProperties\<close> and \<open>RendererProperties\<close> applied to them.
\<close>

section \<open>Stored versions\<close>

definition keepMeta :: "('spec, 'status) object \<Rightarrow> ('spec, 'status) object \<Rightarrow> ('spec, 'status) object" where
  "keepMeta old req = req\<lparr>metadata := metadata old\<rparr>"

lemma keepMeta_carries: "carriesGeneration keepMeta"
  by (simp add: carriesGeneration_def keepMeta_def)

text \<open>A release that is created, gets a higher priority, and then a status.\<close>

definition web1 :: release where "web1 = releasePrepareForCreate web"

definition web2 :: release where
  "web2 = releasePrepareForUpdate (=) (keepMeta web1 (web\<lparr>spec := (spec web)\<lparr>rel_priority := 7\<rparr>\<rparr>)) web1"

definition web3 :: release where
  "web3 = releaseCopyStatusTo (web\<lparr>status := (status web)\<lparr>rel_effectiveUniqueName := ''nginx''\<rparr>\<rparr>) web2"

lemma web_history: "history (releaseStrategy (=)) keepMeta [web3, web2, web1]"
proof -
  have "history (releaseStrategy (=)) keepMeta [web1]"
    by (rule hist_create [of _ _ web]) (simp_all add: releaseStrategy_def web1_def admitsCreate_def validateRelease_def
        releasePrepareForCreate_def web_def)
  then have "history (releaseStrategy (=)) keepMeta [web2, web1]"
    by (rule hist_update [of _ _ _ _ _ "web\<lparr>spec := (spec web)\<lparr>rel_priority := 7\<rparr>\<rparr>"])
      (simp_all add: releaseStrategy_def web2_def admitsUpdate_def releaseValidateUpdate_def validateRelease_def
        releasePrepareForUpdate_def releasePrepareForCreate_def web1_def keepMeta_def web_def)
  then show ?thesis
    by (rule hist_status [of _ _ _ _ releaseCopyStatusTo]) (auto simp: releaseStrategy_def web3_def)
qed

lemma web_specs: "spec web1 = spec web" "spec web2 = (spec web)\<lparr>rel_priority := 7\<rparr>" "spec web3 = spec web2"
  by (simp_all add: web1_def web2_def web3_def releasePrepareForCreate_def releasePrepareForUpdate_def releaseCopyStatusTo_def keepMeta_def)

theorem release_versions_witness:
  "om_generation (metadata web3) = 2 \<and> rel_uniqueName (spec web3) = rel_uniqueName (spec web1) \<and> rel_componentVersionRef (spec web3) \<noteq> ''''"
proof -
  have count: "specChanges (=) (web3 # [web2] @ web1 # []) = 1" by (simp add: web_specs web_def)
  have "history (releaseStrategy (=)) keepMeta (web3 # [web2] @ web1 # [])" using web_history by simp
  moreover have "length (web3 # [web2] @ web1 # []) < 2 ^ 63" by simp
  ultimately have "om_generation (metadata web3) = 1 + int (specChanges (=) (web3 # [web2] @ web1 # [])) \<and>
      rel_uniqueName (spec web3) = rel_uniqueName (spec web1) \<and> rel_componentVersionRef (spec web3) \<noteq> ''''"
    using release_versions [OF identity_equivp keepMeta_carries] by blast
  then show ?thesis unfolding count by simp
qed

theorem changed_release_new_tag_witness:
  "rt_tag (projr (computeReleaseRenderTaskSpec True web2 nginxV1 harbor edge [(''ghcr.io'', ''pull'')])) \<noteq>
   rt_tag (projr (computeReleaseRenderTaskSpec True web1 nginxV1 harbor edge [(''ghcr.io'', ''pull'')]))"
proof -
  have "\<exists>resolved. resolveResources (cv_resources (spec nginxV1)) [(''ghcr.io'', ''pull'')] True = Inr resolved"
    by (rule resolveResources_strict_iff [THEN iffD2]) code_simp
  then have ok: "computeReleaseRenderTaskSpec True rel nginxV1 harbor edge [(''ghcr.io'', ''pull'')] =
      Inr (projr (computeReleaseRenderTaskSpec True rel nginxV1 harbor edge [(''ghcr.io'', ''pull'')]))" for rel
    by (auto simp: computeReleaseRenderTaskSpec_def Let_def)
  have "history (releaseStrategy (=)) keepMeta (web2 # [] @ web1 # [])" using history_suffix [of _ _ "[web3]" web2] web_history by simp
  moreover have "length (web2 # [] @ web1 # []) < 2 ^ 63" by simp
  moreover have "spec web2 \<noteq> spec web1" by (simp add: web_specs web_def)
  ultimately show ?thesis using changed_release_new_tag [OF identity_equivp keepMeta_carries _ _ _ ok ok] by blast
qed

text \<open>A render task whose time to live changes.\<close>

definition task1 :: render_task where "task1 = renderTaskPrepareForCreate task"

definition task2 :: render_task where
  "task2 = renderTaskPrepareForUpdate (=) (keepMeta task1 (task\<lparr>spec := (spec task)\<lparr>rt_failedJobTTL := Some 60\<rparr>\<rparr>)) task1"

lemma task_history: "history (renderTaskStrategy (=) (=)) keepMeta [task2, task1]"
proof -
  have "history (renderTaskStrategy (=) (=)) keepMeta [task1]"
    by (rule hist_create [of _ _ task]) (simp_all add: renderTaskStrategy_def task1_def admitsCreate_def)
  then show ?thesis
    by (rule hist_update [of _ _ _ _ _ "task\<lparr>spec := (spec task)\<lparr>rt_failedJobTTL := Some 60\<rparr>\<rparr>"])
      (simp_all add: renderTaskStrategy_def task2_def admitsUpdate_def renderTaskValidateUpdate_def
        renderTaskPrepareForUpdate_def renderTaskPrepareForCreate_def task1_def keepMeta_def)
qed

theorem render_task_versions_witness:
  "rt_rendererConfig (spec task2) = rt_rendererConfig (spec task1) \<and> om_generation (metadata task2) = 2"
proof -
  have "spec task2 \<noteq> spec task1"
    by (simp add: task2_def task1_def renderTaskPrepareForUpdate_def renderTaskPrepareForCreate_def keepMeta_def task_def)
  then have count: "specChanges (=) (task2 # [] @ task1 # []) = 1" by simp
  have "history (renderTaskStrategy (=) (=)) keepMeta (task2 # [] @ task1 # [])" using task_history by simp
  moreover have "length (task2 # [] @ task1 # []) < 2 ^ 63" by simp
  ultimately have "rt_rendererConfig (spec task2) = rt_rendererConfig (spec task1) \<and>
      om_generation (metadata task2) = 1 + int (specChanges (=) (task2 # [] @ task1 # []))"
    using render_task_versions [OF identity_equivp identity_equivp keepMeta_carries] by blast
  then show ?thesis unfolding count by simp
qed

section \<open>Validation\<close>

theorem linked_objects_admitted_witness:
  "linkArtifact (admission memKube) edge harbor webTask ''release'' = linkArtifact memKube edge harbor webTask ''release''"
proof (rule linked_objects_admitted)
  show "computeReleaseRenderTaskSpec True web nginxV1 harbor edge [(''ghcr.io'', ''pull'')] = Inr (spec webTask) \<or>
      computeBootstrapRenderTaskSpec (\<lambda>_. Inl (ErrorText '''')) edge [] harbor 0 = Inr (spec webTask)"
    using webSpec_computed by (simp add: webTask_def newRenderTask_def)
qed (simp_all add: harbor_def webTask_def newRenderTask_def newMeta_def edge_def metaIn_def)

text \<open>A registry that the server stores and that keeps the pipeline from starting.\<close>

definition harborHook :: registry where
  "harborHook = harbor\<lparr>spec := (spec harbor)\<lparr>reg_flavor := ''harbor'', reg_webhookPath := ''harbor''\<rparr>\<rparr>"

definition mixedProvider :: registry_provider where
  "mixedProvider = fst (registerRegistry harborHook None zotProvider)"

theorem pipeline_built_iff_witness:
  "validateRegistry harborHook = [] \<and> validateRegistry zotMain = [] \<and>
   (\<exists>src. newPipeline [(''zot'', zotServeHTTP demoCodecs)] zotProvider = Inr src) \<and>
   \<not> (\<exists>src. newPipeline [(''zot'', zotServeHTTP demoCodecs)] mixedProvider = Inr src)"
proof -
  have regs: "set (getAll zotProvider) = {zotMain}" "getAll zotProvider = [zotMain]" "harborHook \<in> set (getAll mixedProvider)"
    by (simp_all add: getAll_def mixedProvider_def zotProvider_def registerRegistry_def newRegistryProvider_def Let_def
        zotMain_def harborHook_def harbor_def metaIn_def newMeta_def)
  have "validateRegistry harborHook = [] \<and> validateRegistry zotMain = []" by code_simp
  moreover have "reg_flavor (spec zotMain) = ''zot''" "reg_webhookPath (spec harborHook) \<noteq> ''''" "reg_flavor (spec harborHook) \<noteq> ''zot''"
    by code_simp+
  ultimately show ?thesis
    using pipeline_built_iff [OF linkedHandlers_zot, of demoCodecs zotProvider] pipeline_built_iff [OF linkedHandlers_zot, of demoCodecs mixedProvider] regs
    by auto
qed

section \<open>The status column\<close>

definition condOf :: "string \<Rightarrow> condition_status \<Rightarrow> string \<Rightarrow> condition" where
  "condOf ty st reason = \<lparr>cond_type = ty, cond_status = st, cond_observedGeneration = 1, cond_lastTransitionTime = None,
     cond_reason = reason, cond_message = ''''\<rparr>"

theorem render_task_status_exact_witness:
  "renderTaskStatusText [condOf ''JobSucceeded'' ConditionTrue ''JobSucceeded'', condOf ''JobScheduled'' ConditionTrue ''JobScheduled''] = ''JobSucceeded''"
proof -
  let ?conds = "[condOf ''JobSucceeded'' ConditionTrue ''JobSucceeded'', condOf ''JobScheduled'' ConditionTrue ''JobScheduled'']"
  have "renderTaskStatusText ?conds = taskStanding ?conds"
    by (rule render_task_status_exact) code_simp+
  also have "\<dots> = ''JobSucceeded''" by code_simp
  finally show ?thesis .
qed

section \<open>A disk and a registry\<close>

record disk =
  dk_dirs :: "string list"
  dk_files :: "string gomap"
  dk_charts :: "((string \<times> string) \<times> string) list"

definition diskFile :: "string \<Rightarrow> string \<Rightarrow> disk \<Rightarrow> disk" where
  "diskFile path v d = d\<lparr>dk_files := gomap_put path v (dk_files d)\<rparr>"

definition diskRead :: "string \<Rightarrow> (disk, go_error + string) state" where
  "diskRead path = State (\<lambda>d. (case map_of (dk_files d) path of None \<Rightarrow> Inl (ErrorText ''no such file'') | Some v \<Rightarrow> Inr v, d))"

text \<open>The new directory has a name that is longer than all others together.\<close>

definition diskTemp :: "string \<Rightarrow> (disk, go_error + string) state" where
  "diskTemp pattern = State (\<lambda>d. let name = ''/tmp/'' @ pattern @ concat (dk_dirs d) in
     (Inr name, d\<lparr>dk_dirs := name # dk_dirs d\<rparr>))"

definition diskTemplates :: "string \<Rightarrow> template_fs" where
  "diskTemplates dir =
     \<lparr>tf_walk = (\<lambda>root. [WalkEntry root False, WalkEntry (root @ ''/.helmignore'') True, WalkEntry (root @ ''/Chart.yaml'') True,
        WalkEntry (root @ ''/templates'') False, WalkEntry (root @ ''/templates/release.yaml'') True, WalkEntry (root @ ''/values.yaml'') True]),
      tf_parse = (\<lambda>funcs path. Inr (\<lambda>data. (case data of ReleaseData c \<Rightarrow> chart_version (rc_chart c)
        | BootstrapData c \<Rightarrow> chart_version (bc_chart c), None)))\<rparr>"

definition diskLib :: "renderer_config \<Rightarrow> disk render_lib" where
  "diskLib cfg =
     \<lparr>rl_readFile = diskRead,
      rl_stat = (\<lambda>path. State (\<lambda>d. (if map_of (dk_files d) path = None then Some (ErrorText ''no such file'') else None, d))),
      rl_mkdirTemp = diskTemp, rl_mkdirAll = (\<lambda>_. ret ()), rl_create = (\<lambda>path. State (\<lambda>d. (Inr (), diskFile path '''' d))),
      rl_write = (\<lambda>path v. State (\<lambda>d. (None, diskFile path v d))),
      rl_removeAll = (\<lambda>name. State (\<lambda>d. ((), d\<lparr>dk_dirs := filter (\<lambda>x. x \<noteq> name) (dk_dirs d)\<rparr>))),
      rl_print = (\<lambda>_. ret ()), rl_scanln = ret (Inr ''secret''), rl_getenv = (\<lambda>_. ''''), rl_userHomeDir = ''/root'',
      rl_unmarshalConfig = (\<lambda>_. Inr cfg), rl_chartVersion = (\<lambda>v. Inr (Some v)), rl_sprig = [''env'', ''upper''],
      rl_releaseFS = diskTemplates ''template/release'', rl_bootstrapFS = diskTemplates ''template/bootstrap'',
      rl_package = (\<lambda>dir dest version. State (\<lambda>d. (Inr (dest @ ''/chart.tgz''), diskFile (dest @ ''/chart.tgz'') version d))),
      rl_parseReference = (\<lambda>ref. Inr (ref, ''latest'')), rl_newClient = (\<lambda>_. None),
      rl_tags = (\<lambda>opts repo. State (\<lambda>d. (Inr (map (\<lambda>c. snd (fst c)) (filter (\<lambda>c. fst (fst c) = repo) (dk_charts d))), d))),
      rl_push = (\<lambda>opts v ref. State (\<lambda>d. (Inr ref, d\<lparr>dk_charts := ((trimPrefix ref ''oci://'', ''latest''), v) # dk_charts d\<rparr>)))\<rparr>"

definition diskDirs :: "disk \<Rightarrow> string set" where "diskDirs d = set (dk_dirs d)"

definition diskCharts :: "disk \<Rightarrow> string \<times> string \<Rightarrow> string option" where "diskCharts d = map_of (dk_charts d)"

lemma concat_shorter: "d \<in> set ds \<Longrightarrow> length d \<le> length (concat ds)"
  by (induction ds) auto

lemma diskTemp_law:
  "wp (diskTemp pattern) (\<lambda>r s'. diskCharts s' = diskCharts s \<and> (case r of Inl _ \<Rightarrow> diskDirs s' = diskDirs s
     | Inr d \<Rightarrow> d \<noteq> '''' \<and> d \<notin> diskDirs s \<and> diskDirs s' = insert d (diskDirs s))) s"
  by (auto simp: wp_def diskTemp_def diskDirs_def diskCharts_def Let_def dest: concat_shorter)

lemma diskTags_law:
  "set (map (\<lambda>c. snd (fst c)) (filter (\<lambda>c. fst (fst c) = repo) cs)) = {t. map_of cs (repo, t) \<noteq> None}"
  by (induction cs) auto

interpretation disk: render_laws "diskLib cfg" diskDirs diskCharts for cfg
proof (unfold_locales, goal_cases)
  case (9 pattern s)
  then show ?case using diskTemp_law by (simp add: diskLib_def)
next
  case (11 opts repo s)
  then show ?case using diskTags_law [of repo "dk_charts s"] by (simp add: diskLib_def wp_def diskCharts_def)
qed (auto simp: diskLib_def leaves_def wp_def diskRead_def diskFile_def diskDirs_def diskCharts_def fun_eq_iff)

lemma disk_lists: "listsExisting (diskLib cfg) diskCharts"
  by (simp add: listsExisting_def diskLib_def wp_def)

lemma disk_walks: "walksClean (diskLib cfg)"
  by (simp add: walksClean_def diskLib_def diskTemplates_def)

section \<open>Runs of the renderer\<close>

definition webConfig :: renderer_config where
  "webConfig = \<lparr>cfg_type = TypeRelease, cfg_release = emptyReleaseConfig\<lparr>rc_chart := emptyChart\<lparr>chart_version := ''v0.0.1''\<rparr>\<rparr>,
     cfg_bootstrap = emptyBootstrapConfig\<rparr>"

definition pushWeb :: renderer_flags where
  "pushWeb = \<lparr>fl_skipPush = False, fl_url = ''oci://ghcr.io/apps/web:v0.0.1'', fl_username = '''', fl_password = '''',
     fl_passwordStdIn = False, fl_plainHTTP = False\<rparr>"

definition blankDisk :: disk where
  "blankDisk = \<lparr>dk_dirs = [''/tmp/other''], dk_files = [(''config.json'', ''{}'')], dk_charts = []\<rparr>"

definition webRun :: "(go_error + unit) \<times> disk" where
  "webRun = run_state (rootFunc (diskLib webConfig) pushWeb ''config.json'') blankDisk"



text \<open>The chart of release \<open>web\<close> is in the registry; then the tag of its image changes.\<close>

definition nginxPatched :: component_version where
  "nginxPatched = nginxV1\<lparr>spec := (spec nginxV1)\<lparr>cv_resources :=
     [(''chart'', \<lparr>ra_repository = ''ghcr.io/acme/nginx'', ra_insecure = False, ra_tag = ''v1.1'', ra_helm = None\<rparr>)]\<rparr>\<rparr>"

definition patchedSpec :: render_task_spec where
  "patchedSpec = projr (computeReleaseRenderTaskSpec True web nginxPatched harbor edge [(''ghcr.io'', ''pull'')])"

lemma patchedSpec_computed:
  "computeReleaseRenderTaskSpec True web nginxPatched harbor edge [(''ghcr.io'', ''pull'')] = Inr patchedSpec"
proof -
  have "\<exists>resolved. resolveResources (cv_resources (spec nginxPatched)) [(''ghcr.io'', ''pull'')] True = Inr resolved"
    by (rule resolveResources_strict_iff [THEN iffD2]) code_simp
  then show ?thesis by (auto simp: patchedSpec_def computeReleaseRenderTaskSpec_def Let_def)
qed

definition webReference :: string where
  "webReference = reference (rt_baseURL webSpec) (rt_repository webSpec) (rt_tag webSpec)"

definition webDisk :: disk where
  "webDisk = blankDisk\<lparr>dk_charts := [((trimPrefix webReference ''oci://'', ''latest''), ''rendered from v1'')]\<rparr>"

definition pushPatched :: renderer_flags where
  "pushPatched = pushWeb\<lparr>fl_url := reference (rt_baseURL patchedSpec) (rt_repository patchedSpec) (rt_tag patchedSpec)\<rparr>"


end
