(* ===== verification/Lifecycle.thy ===== *)
theory Lifecycle
  imports DiscoveryPipeline
begin

text \<open>
  Starting and stopping the discovery: the goroutines of \<open>Runner\<close> (\<open>pkg/discovery/runner.go\<close>) and of
  \<open>RegistryScanner\<close> (\<open>pkg/discovery/scanner/registry_scanner.go\<close>) with their mutex, stop channel and wait group as a
  step relation, and the order in which \<open>Pipeline.Start\<close>, \<open>Pipeline.Stop\<close> and the command
  (\<open>cmd/solar-discovery/main.go\<close>) start and stop the parts, as the sequence of their calls.
\<close>

section \<open>One service\<close>

text \<open>A loop goroutine waits in \<open>select\<close> or works (on an event, or on the first scan). A call of \<open>Stop\<close> waits for the
  mutex, then holds it in \<open>wg.Wait\<close>, then has returned. The ticker of a scanner starts scans of their own,
  which the wait group does not count.\<close>

datatype service_kind = RunnerService | ScannerService

datatype loop_pc = AtSelect | Working

datatype stop_pc = Requesting | Waiting | Returned

record service =
  sv_loops :: "loop_pc list"
  sv_scans :: nat
  sv_wg :: nat
  sv_stopped :: bool
  sv_closed :: bool
  sv_locked :: bool
  sv_stops :: "stop_pc list"
  sv_cancelled :: bool
  sv_panicked :: bool

definition newService :: service where
  "newService = \<lparr>sv_loops = [], sv_scans = 0, sv_wg = 0, sv_stopped = False, sv_closed = False, sv_locked = False, sv_stops = [],
     sv_cancelled = False, sv_panicked = False\<rparr>"

definition startService :: "service_kind \<Rightarrow> service \<Rightarrow> service" where
  "startService k v = v\<lparr>sv_wg := sv_wg v + 1,
     sv_loops := sv_loops v @ [case k of RunnerService \<Rightarrow> AtSelect | ScannerService \<Rightarrow> Working]\<rparr>"

text \<open>\<open>Stop\<close> once it has the mutex: a second call returns at once, the first one closes the channel (which panics when it
  is closed already) and waits.\<close>

definition stopLocked :: "nat \<Rightarrow> service \<Rightarrow> service" where
  "stopLocked j v =
     (if sv_stopped v then v\<lparr>sv_stops := (sv_stops v)[j := Returned]\<rparr>
      else v\<lparr>sv_locked := True, sv_stopped := True, sv_panicked := sv_panicked v \<or> sv_closed v, sv_closed := True,
             sv_stops := (sv_stops v)[j := Waiting]\<rparr>)"

text \<open>The steps of the goroutines themselves (\<open>drain\<close>), and those that bring new work: a received event, a tick.\<close>

inductive drain :: "service \<Rightarrow> service \<Rightarrow> bool" where
  work_done: "i < length (sv_loops v) \<Longrightarrow> sv_loops v ! i = Working \<Longrightarrow> drain v (v\<lparr>sv_loops := (sv_loops v)[i := AtSelect]\<rparr>)"
| scan_done: "sv_scans v > 0 \<Longrightarrow> drain v (v\<lparr>sv_scans := sv_scans v - 1\<rparr>)"
| loop_exit: "i < length (sv_loops v) \<Longrightarrow> sv_loops v ! i = AtSelect \<Longrightarrow> sv_closed v \<or> sv_cancelled v \<Longrightarrow>
    drain v (v\<lparr>sv_loops := take i (sv_loops v) @ drop (Suc i) (sv_loops v), sv_wg := sv_wg v - 1\<rparr>)"
| stop_lock: "j < length (sv_stops v) \<Longrightarrow> sv_stops v ! j = Requesting \<Longrightarrow> \<not> sv_locked v \<Longrightarrow> drain v (stopLocked j v)"
| stop_return: "j < length (sv_stops v) \<Longrightarrow> sv_stops v ! j = Waiting \<Longrightarrow> sv_wg v = 0 \<Longrightarrow>
    drain v (v\<lparr>sv_locked := False, sv_stops := (sv_stops v)[j := Returned]\<rparr>)"

inductive running :: "service_kind \<Rightarrow> service \<Rightarrow> service \<Rightarrow> bool" for k where
  run_drain: "drain v v' \<Longrightarrow> running k v v'"
| run_event: "k = RunnerService \<Longrightarrow> i < length (sv_loops v) \<Longrightarrow> sv_loops v ! i = AtSelect \<Longrightarrow>
    running k v (v\<lparr>sv_loops := (sv_loops v)[i := Working]\<rparr>)"
| run_tick: "k = ScannerService \<Longrightarrow> AtSelect \<in> set (sv_loops v) \<Longrightarrow> running k v (v\<lparr>sv_scans := sv_scans v + 1\<rparr>)"
| run_cancel: "running k v (v\<lparr>sv_cancelled := True\<rparr>)"
| run_stop: "running k v (v\<lparr>sv_stops := sv_stops v @ [Requesting]\<rparr>)"

inductive lifetime :: "service_kind \<Rightarrow> service \<Rightarrow> service \<Rightarrow> bool" for k where
  life_start: "lifetime k v (startService k v)"
| life_run: "running k v v' \<Longrightarrow> lifetime k v v'"

section \<open>The invariant of a service\<close>

definition serviceInv :: "service \<Rightarrow> bool" where
  "serviceInv v \<longleftrightarrow> sv_wg v = length (sv_loops v) \<and> sv_closed v = sv_stopped v \<and> \<not> sv_panicked v \<and>
     count_list (sv_stops v) Waiting = (if sv_locked v then 1 else 0) \<and> (Returned \<in> set (sv_stops v) \<or> sv_locked v \<longrightarrow> sv_stopped v)"

lemma count_list_update:
  "j < length xs \<Longrightarrow> count_list (xs[j := y]) x + (if xs ! j = x then 1 else 0) = count_list xs x + (if y = x then 1 else 0)"
proof (induction xs arbitrary: j)
  case (Cons a xs)
  show ?case
  proof (cases j)
    case (Suc i)
    with Cons.IH [of i] Cons.prems show ?thesis by auto
  qed auto
qed simp

lemma waiting_locked: "serviceInv v \<Longrightarrow> j < length (sv_stops v) \<Longrightarrow> sv_stops v ! j = Waiting \<Longrightarrow> sv_locked v"
  using nth_mem [of j "sv_stops v"] by (auto simp: serviceInv_def count_list_0_iff split: if_splits)

lemma serviceInv_drain: "drain v v' \<Longrightarrow> serviceInv v \<Longrightarrow> serviceInv v'"
proof (induction rule: drain.induct)
  case (stop_lock j v)
  show ?case
  proof (cases "sv_stopped v")
    case True
    then show ?thesis using stop_lock count_list_update [of j "sv_stops v" Returned Waiting]
      by (auto simp: serviceInv_def stopLocked_def)
  next
    case False
    then have "Returned \<notin> set ((sv_stops v)[j := Waiting])"
      using stop_lock set_update_subset_insert [of "sv_stops v" j Waiting] by (auto simp: serviceInv_def)
    then show ?thesis using False stop_lock count_list_update [of j "sv_stops v" Waiting Waiting]
      by (auto simp: serviceInv_def stopLocked_def)
  qed
next
  case (stop_return j v)
  then have "sv_locked v" by (intro waiting_locked)
  then show ?case using stop_return count_list_update [of j "sv_stops v" Returned Waiting] by (auto simp: serviceInv_def)
qed (auto simp: serviceInv_def)

lemma serviceInv_step: "lifetime k v v' \<Longrightarrow> serviceInv v \<Longrightarrow> serviceInv v'"
proof (induction rule: lifetime.induct)
  case (life_start v)
  then show ?case by (simp add: serviceInv_def startService_def)
next
  case (life_run v v')
  then show ?case
  proof (cases rule: running.cases)
    case run_drain
    then show ?thesis using life_run.prems by (rule serviceInv_drain)
  qed (use life_run.prems in \<open>simp_all add: serviceInv_def\<close>)
qed

lemma serviceInv_reachable: "(lifetime k)\<^sup>*\<^sup>* newService v \<Longrightarrow> serviceInv v"
proof (induction rule: rtranclp_induct)
  case base
  show ?case by (simp add: serviceInv_def newService_def)
qed (rule serviceInv_step)

section \<open>Stopping\<close>

text \<open>After the first call of \<open>Stop\<close> the loops only disappear.\<close>

definition stopping :: "service \<Rightarrow> bool" where
  "stopping v \<longleftrightarrow> (sv_stopped v \<and> \<not> sv_locked v \<longrightarrow> sv_loops v = []) \<and> (Returned \<in> set (sv_stops v) \<longrightarrow> sv_loops v = [])"

lemma stopping_drain: "drain v v' \<Longrightarrow> serviceInv v \<Longrightarrow> stopping v \<Longrightarrow> stopping v'"
proof (induction rule: drain.induct)
  case (stop_lock j v)
  then show ?case
    using set_update_subset_insert [of "sv_stops v" j Waiting]
    by (cases "sv_stopped v") (auto simp: stopping_def stopLocked_def)
next
  case (stop_return j v)
  then show ?case by (simp add: stopping_def serviceInv_def)
qed (auto simp: stopping_def)

lemma stopping_running: "running k v v' \<Longrightarrow> serviceInv v \<Longrightarrow> stopping v \<Longrightarrow> stopping v'"
  by (erule running.cases) (auto simp: stopping_drain, auto simp: stopping_def)

lemma stopping_run:
  assumes "(running k)\<^sup>*\<^sup>* v v'" "serviceInv v" "stopping v"
  shows "serviceInv v' \<and> stopping v'"
  using assms(1)
proof (induction rule: rtranclp_induct)
  case (step y z)
  then show ?case using stopping_running serviceInv_step life_run by blast
qed (use assms in simp)

text \<open>(C24) A call of \<open>Stop\<close> that has returned has waited for the goroutines: when no service is started again after the first call of
  \<open>Stop\<close>, then once any of possibly many concurrent calls has returned, no loop is left that could take an event,
  and the stop channel is never closed twice.\<close>

theorem stopped_service_quiet:
  assumes "(lifetime k)\<^sup>*\<^sup>* newService v" "\<not> sv_stopped v" "(running k)\<^sup>*\<^sup>* v v'"
  shows "\<not> sv_panicked v' \<and> (Returned \<in> set (sv_stops v') \<longrightarrow> sv_loops v' = [] \<and> sv_wg v' = 0)"
proof -
  have inv: "serviceInv v" using assms(1) by (rule serviceInv_reachable)
  then have "stopping v" using assms(2) by (auto simp: stopping_def serviceInv_def)
  then have "serviceInv v' \<and> stopping v'" using stopping_run [OF assms(3) inv] by blast
  then show ?thesis by (auto simp: serviceInv_def stopping_def)
qed

text \<open>The work left in a service.\<close>

definition workLeft :: "service \<Rightarrow> nat" where
  "workLeft v = length (sv_loops v) + count_list (sv_loops v) Working + sv_scans v +
     2 * count_list (sv_stops v) Requesting + count_list (sv_stops v) Waiting"

lemma drain_decreases: "drain v v' \<Longrightarrow> serviceInv v \<Longrightarrow> workLeft v' < workLeft v"
proof (induction rule: drain.induct)
  case (work_done i v)
  then show ?case using count_list_update [of i "sv_loops v" AtSelect Working] by (simp add: workLeft_def)
next
  case (loop_exit i v)
  have "count_list (sv_loops v) Working = count_list (take i (sv_loops v)) Working + count_list (sv_loops v ! i # drop (Suc i) (sv_loops v)) Working"
    using id_take_nth_drop [OF loop_exit(1)] by (metis count_list_append)
  then show ?case using loop_exit by (simp add: workLeft_def)
next
  case (stop_lock j v)
  then show ?case
    using count_list_update [of j "sv_stops v" Returned Requesting] count_list_update [of j "sv_stops v" Returned Waiting]
      count_list_update [of j "sv_stops v" Waiting Requesting] count_list_update [of j "sv_stops v" Waiting Waiting]
    by (cases "sv_stopped v") (simp_all add: workLeft_def stopLocked_def)
next
  case (stop_return j v)
  then show ?case
    using count_list_update [of j "sv_stops v" Returned Requesting] count_list_update [of j "sv_stops v" Returned Waiting]
    by (simp add: workLeft_def)
qed (simp add: workLeft_def)

lemma stuck_returned:
  assumes "serviceInv v" "\<nexists>v'. drain v v'"
  shows "set (sv_stops v) \<subseteq> {Returned}"
proof -
  have "Working \<notin> set (sv_loops v)" using assms(2) work_done by (metis in_set_conv_nth)
  have idle: "sv_closed v \<longrightarrow> sv_loops v = []"
  proof (rule impI, rule ccontr)
    assume closed: "sv_closed v" and "sv_loops v \<noteq> []"
    then have "0 < length (sv_loops v)" by simp
    moreover from this have "sv_loops v ! 0 \<noteq> Working"
      using \<open>Working \<notin> set (sv_loops v)\<close> nth_mem by metis
    then have "sv_loops v ! 0 = AtSelect" by (cases "sv_loops v ! 0") simp_all
    ultimately have "0 < length (sv_loops v)" "sv_loops v ! 0 = AtSelect" by simp_all
    then show False using assms(2) loop_exit [of 0 v] closed by blast
  qed
  have "Waiting \<notin> set (sv_stops v)"
  proof
    assume "Waiting \<in> set (sv_stops v)"
    then obtain j where j: "j < length (sv_stops v)" "sv_stops v ! j = Waiting" by (auto simp: in_set_conv_nth)
    then have "sv_locked v" using waiting_locked assms(1) by blast
    then have "sv_wg v = 0" using idle assms(1) by (auto simp: serviceInv_def)
    then show False using assms(2) stop_return j by blast
  qed
  moreover from this have "\<not> sv_locked v" using assms(1) by (auto simp: serviceInv_def count_list_0_iff split: if_splits)
  then have "Requesting \<notin> set (sv_stops v)" using assms(2) stop_lock by (metis in_set_conv_nth)
  ultimately have "x = Returned" if "x \<in> set (sv_stops v)" for x using that by (cases x) auto
  then show ?thesis by blast
qed

text \<open>(C25) \<open>Stop\<close> never hangs: from every reachable state the goroutines can take only finitely many steps without receiving new
  work, and when none is left to take, every call of \<open>Stop\<close> has returned.\<close>

theorem stop_terminates:
  assumes "(lifetime k)\<^sup>*\<^sup>* newService v" "(drain ^^ n) v w"
  shows "n + workLeft w \<le> workLeft v \<and> ((\<nexists>w'. drain w w') \<longrightarrow> set (sv_stops w) \<subseteq> {Returned})"
proof -
  have "serviceInv w \<and> n + workLeft w \<le> workLeft v"
    using assms(2)
  proof (induction n arbitrary: w)
    case 0
    then show ?case using serviceInv_reachable [OF assms(1)] by simp
  next
    case (Suc n)
    then obtain y where y: "(drain ^^ n) v y" "drain y w" by auto
    then show ?case using Suc.IH [OF y(1)] drain_decreases [OF y(2)] serviceInv_drain [OF y(2)] by simp
  qed
  then show ?thesis using stuck_returned by blast
qed

section \<open>Concrete lives\<close>

text \<open>A runner that is stopped twice while it works on an event, and a scanner that is stopped during a scan of its ticker.\<close>

definition startedRunner :: service where "startedRunner = startService RunnerService newService"

lemma startedRunner_life: "(lifetime RunnerService)\<^sup>*\<^sup>* newService startedRunner"
  unfolding startedRunner_def by (blast intro: life_start)

definition busyRunner :: service where
  "busyRunner = newService\<lparr>sv_loops := [Working], sv_wg := 1, sv_locked := True, sv_stopped := True, sv_closed := True, sv_stops := [Waiting, Requesting]\<rparr>"

definition doneRunner :: service where
  "doneRunner = newService\<lparr>sv_stopped := True, sv_closed := True, sv_stops := [Returned, Requesting]\<rparr>"

lemma busyRunner_run: "(running RunnerService)\<^sup>*\<^sup>* startedRunner busyRunner"
proof -
  let ?v1 = "newService\<lparr>sv_loops := [Working], sv_wg := 1\<rparr>" and ?v2 = "newService\<lparr>sv_loops := [Working], sv_wg := 1, sv_stops := [Requesting]\<rparr>"
  let ?v3 = "newService\<lparr>sv_loops := [Working], sv_wg := 1, sv_stops := [Requesting, Requesting]\<rparr>"
  have "running RunnerService startedRunner ?v1"
    using run_event [of RunnerService 0 startedRunner] by (simp add: startedRunner_def startService_def newService_def)
  moreover have "running RunnerService ?v1 ?v2" "running RunnerService ?v2 ?v3"
    using run_stop [of RunnerService ?v1] run_stop [of RunnerService ?v2] by (simp_all add: newService_def)
  moreover have "running RunnerService ?v3 busyRunner"
    using run_drain [OF stop_lock [of 0 ?v3]] by (simp add: newService_def busyRunner_def stopLocked_def)
  ultimately show ?thesis by (meson converse_rtranclp_into_rtranclp rtranclp.rtrancl_refl)
qed

lemma doneRunner_drain: "(drain ^^ 3) busyRunner doneRunner"
proof -
  let ?v1 = "busyRunner\<lparr>sv_loops := [AtSelect]\<rparr>" and ?v2 = "busyRunner\<lparr>sv_loops := [], sv_wg := 0\<rparr>"
  have "drain busyRunner ?v1" using work_done [of 0 busyRunner] by (simp add: busyRunner_def newService_def)
  moreover have "drain ?v1 ?v2" using loop_exit [of 0 ?v1] by (simp add: busyRunner_def newService_def)
  moreover have "drain ?v2 doneRunner" using stop_return [of 0 ?v2] by (simp add: busyRunner_def doneRunner_def newService_def)
  ultimately show ?thesis by (auto simp: numeral_3_eq_3 relcompp_apply)
qed

theorem stopped_service_quiet_witness:
  "Returned \<in> set (sv_stops doneRunner) \<and> Requesting \<in> set (sv_stops doneRunner) \<and> sv_loops doneRunner = [] \<and> \<not> sv_panicked doneRunner"
proof -
  have "drain\<^sup>*\<^sup>* busyRunner doneRunner" using doneRunner_drain by (rule relpowp_imp_rtranclp)
  then have "(running RunnerService)\<^sup>*\<^sup>* busyRunner doneRunner" by (rule mono_rtranclp [rule_format, rotated]) (rule run_drain)
  then have "(running RunnerService)\<^sup>*\<^sup>* startedRunner doneRunner" using busyRunner_run by (rule rtranclp_trans [rotated])
  moreover have "\<not> sv_stopped startedRunner" by (simp add: startedRunner_def startService_def newService_def)
  moreover have "Returned \<in> set (sv_stops doneRunner) \<and> Requesting \<in> set (sv_stops doneRunner)" by (simp add: doneRunner_def)
  ultimately show ?thesis using stopped_service_quiet [OF startedRunner_life] by blast
qed

theorem stop_terminates_witness:
  "3 + workLeft doneRunner \<le> workLeft busyRunner"
proof -
  have "(lifetime RunnerService)\<^sup>*\<^sup>* startedRunner busyRunner"
    using busyRunner_run by (rule mono_rtranclp [rule_format, rotated]) (rule life_run)
  then have "(lifetime RunnerService)\<^sup>*\<^sup>* newService busyRunner" using startedRunner_life by (rule rtranclp_trans [rotated])
  from stop_terminates [OF this doneRunner_drain] show ?thesis by blast
qed

text \<open>(C40) A scan that the ticker has started is not waited for: it can still be running, and publish events, after \<open>Stop\<close> of
  the scanner has returned.\<close>

theorem scan_outlives_stop:
  "\<exists>v v'. (lifetime ScannerService)\<^sup>*\<^sup>* newService v \<and> \<not> sv_stopped v \<and> (running ScannerService)\<^sup>*\<^sup>* v v' \<and>
     set (sv_stops v') = {Returned} \<and> sv_loops v' = [] \<and> sv_scans v' = 1"
proof (intro exI conjI)
  let ?v0 = "startService ScannerService newService"
  let ?v1 = "newService\<lparr>sv_loops := [AtSelect], sv_wg := 1\<rparr>" and ?v2 = "newService\<lparr>sv_loops := [AtSelect], sv_wg := 1, sv_scans := 1\<rparr>"
  let ?v3 = "?v2\<lparr>sv_stops := [Requesting]\<rparr>" and ?v4 = "?v2\<lparr>sv_locked := True, sv_stopped := True, sv_closed := True, sv_stops := [Waiting]\<rparr>"
  let ?v5 = "?v4\<lparr>sv_loops := [], sv_wg := 0\<rparr>" and ?v6 = "newService\<lparr>sv_scans := 1, sv_stopped := True, sv_closed := True, sv_stops := [Returned]\<rparr>"
  show "(lifetime ScannerService)\<^sup>*\<^sup>* newService ?v0" by (blast intro: life_start)
  have "running ScannerService ?v0 ?v1" using run_drain [OF work_done [of 0 ?v0]] by (simp add: startService_def newService_def)
  moreover have "running ScannerService ?v1 ?v2" using run_tick [of ScannerService ?v1] by (simp add: newService_def)
  moreover have "running ScannerService ?v2 ?v3" using run_stop [of ScannerService ?v2] by (simp add: newService_def)
  moreover have "running ScannerService ?v3 ?v4" using run_drain [OF stop_lock [of 0 ?v3]] by (simp add: newService_def stopLocked_def)
  moreover have "running ScannerService ?v4 ?v5" using run_drain [OF loop_exit [of 0 ?v4]] by (simp add: newService_def)
  moreover have "running ScannerService ?v5 ?v6" using run_drain [OF stop_return [of 0 ?v5]] by (simp add: newService_def)
  ultimately show "(running ScannerService)\<^sup>*\<^sup>* ?v0 ?v6" by (meson converse_rtranclp_into_rtranclp rtranclp.rtrancl_refl)
qed (simp_all add: startService_def newService_def)

section \<open>The pipeline and the command\<close>

text \<open>The parts of a pipeline in the order in which they are started, and the calls that are made. The \<open>Start\<close> of a
  part may fail (\<open>startErr\<close>); so may the shutdown of the webhook server (\<open>shutdownErr\<close>).\<close>

datatype part = WebhookServerPart | ScannerPart nat | QualifierPart | FilterPart | HandlerPart | WriterPart

datatype part_call = StartCall part | StopCall part

definition pipelineParts :: "sources \<Rightarrow> part list" where
  "pipelineParts src = (case src_router src of None \<Rightarrow> [] | Some _ \<Rightarrow> [WebhookServerPart]) @
     map ScannerPart [0..<length (src_scanners src)] @ [QualifierPart, FilterPart, HandlerPart, WriterPart]"

definition pipelineStop :: "go_error option \<Rightarrow> sources \<Rightarrow> part_call list \<times> go_error option" where
  "pipelineStop shutdownErr src =
     (map StopCall (pipelineParts src), if src_router src = None then None else shutdownErr)"

fun startParts :: "(part \<Rightarrow> go_error option) \<Rightarrow> part list \<Rightarrow> part_call list \<times> go_error option" where
  "startParts startErr [] = ([], None)"
| "startParts startErr (p # ps) =
     (case startErr p of
        Some err \<Rightarrow> ([StartCall p], Some err)
      | None \<Rightarrow> (case startParts startErr ps of (calls, err) \<Rightarrow> (StartCall p # calls, err)))"

definition joinErrors :: "go_error \<Rightarrow> go_error option \<Rightarrow> go_error" where
  "joinErrors err other = ErrorText (error_text err @ (case other of None \<Rightarrow> '''' | Some o' \<Rightarrow> ''\<newline>'' @ error_text o'))"

text \<open>\<open>Pipeline.Start\<close> with its deferred \<open>Stop\<close> on an error.\<close>

definition pipelineStart :: "(part \<Rightarrow> go_error option) \<Rightarrow> go_error option \<Rightarrow> sources \<Rightarrow> part_call list \<times> go_error option" where
  "pipelineStart startErr shutdownErr src =
     (case startParts startErr (pipelineParts src) of
        (calls, None) \<Rightarrow> (calls, None)
      | (calls, Some err) \<Rightarrow> (case pipelineStop shutdownErr src of (stops, stopErr) \<Rightarrow>
          (calls @ stops, Some (Wrapped ''failed to start pipeline'' (joinErrors err stopErr)))))"

text \<open>What ends the \<open>select\<close> of the command: an error of the pipeline, or a signal.\<close>

datatype ending = PipelineError go_error | Signalled

definition discoveryRunE ::
  "init_handler gomap \<Rightarrow> string \<Rightarrow> go_error + registry_provider \<Rightarrow> (part \<Rightarrow> go_error option) \<Rightarrow> go_error option \<Rightarrow> ending \<Rightarrow>
   part_call list \<times> go_error option" where
  "discoveryRunE registered namespace loaded startErr shutdownErr ending =
     (if namespace = '''' then ([], Some (ErrorText ''--namespace is required''))
      else case loaded of
        Inl err \<Rightarrow> ([], Some (Wrapped ''failed to load registries'' err))
      | Inr registries \<Rightarrow> (case newPipeline registered registries of
          Inl err \<Rightarrow> ([], Some (Wrapped ''failed to create discovery pipeline'' err))
        | Inr src \<Rightarrow> (case pipelineStart startErr shutdownErr src of
            (calls, Some err) \<Rightarrow> (calls, Some (Wrapped ''failed to start discovery pipeline'' err))
          | (calls, None) \<Rightarrow> (calls @ fst (pipelineStop shutdownErr src),
              case ending of
                PipelineError err \<Rightarrow> Some (Wrapped ''non-recoverable error occurred in discovery pipeline'' err)
              | Signalled \<Rightarrow> None))))"

lemma startParts_calls: "\<exists>n. fst (startParts startErr ps) = map StartCall (take n ps)"
proof (induction ps)
  case (Cons p ps)
  then obtain n where n: "fst (startParts startErr ps) = map StartCall (take n ps)" by blast
  show ?case
  proof (cases "startErr p")
    case None
    then have "fst (startParts startErr (p # ps)) = map StartCall (take (Suc n) (p # ps))" using n by (auto split: prod.splits)
    then show ?thesis by blast
  next
    case (Some err)
    then have "fst (startParts startErr (p # ps)) = map StartCall (take (Suc 0) (p # ps))" by simp
    then show ?thesis by blast
  qed
qed simp

lemma pipelineStart_calls:
  assumes "pipelineStart startErr shutdownErr src = (calls, err)"
  shows "\<exists>n. calls = map StartCall (take n (pipelineParts src)) @ (if err = None then [] else map StopCall (pipelineParts src))"
proof -
  obtain n where "fst (startParts startErr (pipelineParts src)) = map StartCall (take n (pipelineParts src))"
    using startParts_calls by blast
  then show ?thesis using assms
    by (intro exI [of _ n]) (auto simp: pipelineStart_def pipelineStop_def split: prod.splits option.splits)
qed

lemma pipelineParts_distinct: "distinct (pipelineParts src)"
  by (auto simp: pipelineParts_def distinct_map inj_on_def split: option.splits)

text \<open>The command stops what it has started: however it ends, all calls of \<open>Start\<close> come before all calls of \<open>Stop\<close>, and
  when anything was started every part of the pipeline is stopped once, the sources before the stages and the
  stages in the direction of the events.\<close>

theorem discovery_command_stops:
  assumes "discoveryRunE registered namespace loaded startErr shutdownErr ending = (calls, err)"
  shows "calls = [] \<and> err \<noteq> None \<or>
    (\<exists>registries src started. loaded = Inr registries \<and> newPipeline registered registries = Inr src \<and>
       calls = map StartCall started @ map StopCall (pipelineParts src) \<and> prefix started (pipelineParts src) \<and> distinct (pipelineParts src))"
proof (cases "namespace = '''' \<or> (\<exists>e. loaded = Inl e) \<or> (\<exists>r e. loaded = Inr r \<and> newPipeline registered r = Inl e)")
  case True
  then show ?thesis using assms by (auto simp: discoveryRunE_def split: if_splits)
next
  case False
  then obtain registries src where src: "namespace \<noteq> ''''" "loaded = Inr registries" "newPipeline registered registries = Inr src"
    by (cases loaded; cases "newPipeline registered (projr loaded)") auto
  obtain calls1 err1 where start: "pipelineStart startErr shutdownErr src = (calls1, err1)" by fastforce
  obtain n where "calls1 = map StartCall (take n (pipelineParts src)) @ (if err1 = None then [] else map StopCall (pipelineParts src))"
    using pipelineStart_calls [OF start] by blast
  then have "calls = map StartCall (take n (pipelineParts src)) @ map StopCall (pipelineParts src)"
    using assms start src by (cases err1) (auto simp: discoveryRunE_def pipelineStop_def)
  then show ?thesis using src pipelineParts_distinct take_is_prefix by blast
qed

end
