(* ===== verification/Spec2Isabelle.thy ===== *)
theory Spec2Isabelle
  imports Conflicts Backoff Grants Naming TargetScenarios DiscoveryScenarios WebScenarios RenderingScenarios Lifecycle
begin

text \<open>
  \<^bold>\<open>Solution Arsenal (SolAr): a verification development\<close>

  SolAr is a Kubernetes control plane that distributes software solutions to target clusters. A
  \<^emph>\<open>discovery\<close> finds components in OCI registries and writes Components and ComponentVersions.
  Users write Releases of ComponentVersions, bind them to Targets with ReleaseBindings, or select
  Targets with a Profile; Registries are bound with RegistryBindings; ReferenceGrants allow
  references across namespaces. The \<^emph>\<open>controller manager\<close> runs eight reconcilers. The Target
  reconciler collects the bindings of a Target, resolves conflicts between the releases, creates a
  RenderTask per release and one for the bootstrap chart, and links the pushed charts by
  RenderArtifacts and RenderBindings; the RenderTask reconciler runs each task as a Job; the
  RenderArtifact reconciler deletes charts from the registry when no binding references them. The
  other reconcilers keep finalizers on referenced objects, so that nothing in use can be deleted. A
  \<^emph>\<open>web backend\<close> logs users in and shows them the resources with their own permissions.

  \<^bold>\<open>How the program is modelled.\<close> Go values are HOL values: structs are records, string types with
  constants are datatypes, pointers are options, maps are association lists with distinct keys in any
  order (\<open>gomap\<close>), strings are byte lists, hashes are computed on 32-bit words, durations are integers
  of nanoseconds. A reconcile is a program in the state monad; \<open>Inl\<close> is an early return or an error.
  Code that is not part of the repository is passed in: the record \<open>kube\<close> holds the client operations
  of every kind, the clock, the event recorder, the condition, selector and owner-reference functions,
  JSON codecs and the OCI client. What their documentation promises is the locale \<open>kube_laws\<close>, one
  \<open>resource_laws\<close> per kind over a view of the state as maps of stored objects. Two assumptions are part
  of it: reads see the stored objects (an informer cache that is up to date), and no other client acts
  between two calls of one reconcile; other clients and other reconciles act between reconciles.
  \<open>Mem_Server\<close> is an executable instance, shown to satisfy the contract, on which the concrete runs of
  the \<open>Scenarios\<close> theories are evaluated.

  \<^bold>\<open>The theories.\<close>
  \<^item> \<open>Prelude\<close>: Go's string, sort and map functions, errors, the state monad and its proof rules.
  \<^item> \<open>Sha256\<close>: the digest that names are derived from.
  \<^item> \<open>Api_Types\<close>: the resources of \<open>api/solar/v1alpha1\<close>.
  \<^item> \<open>Helpers\<close>, \<open>Naming\<close>: \<open>pkg/controller/helpers.go\<close>, and that generated names fit their limits,
    are distinct, and that chart URLs can be read back.
  \<^item> \<open>Backoff\<close>: \<open>pkg/controller/backoff.go\<close>. The walk along the backoff curve has the bound of 1000
    steps that the code has; the jittered intervals are any sequence within the documented factors, and
    for waits of up to a day the bound is not reached.
  \<^item> \<open>Grants\<close>: ReferenceGrant matching; \<open>Conflicts\<close>: \<open>resolveReleaseConflicts\<close> of the Target controller
    with its specification: unique names, no repelling pair, highest priority, a reason for every loss,
    independence of the order of the bindings.
  \<^item> \<open>Kube\<close>: the client and its contract, \<open>pkg/controller/errors.go\<close>, and the blocks that all
    reconcilers repeat.
  \<^item> \<open>Protection\<close>, \<open>Protocol\<close>: the deletion-protection protocol, stated once as a locale over a
    referencing and a referenced kind, and as the step relation \<open>evolve\<close> on clusters.
  \<^item> \<open>ComponentVersionController\<close>, \<open>RegistryBindingController\<close>, \<open>ReleaseController\<close>,
    \<open>ReleaseBindingController\<close>, \<open>ProfileController\<close>, \<open>RenderArtifactController\<close>,
    \<open>RenderTaskController\<close>, \<open>TargetSpecs\<close>, \<open>TargetController\<close>, \<open>TargetWatches\<close>: the reconcilers of
    \<open>pkg/controller\<close>, statement by statement, each with the proof that it follows the protocol.
  \<^item> \<open>Manager\<close>: all reconcilers together (\<open>pkg/controller/predicates.go\<close> included). Every reconcile refines
    the protocol, hence the protection guarantees hold along every interleaving.
  \<^item> \<open>TargetProperties\<close>, \<open>ProfileProperties\<close>: what the Target and Profile controllers achieve.
  \<^item> \<open>Mem_Server\<close>, \<open>Scenarios\<close>, \<open>RenderScenarios\<close>, \<open>TargetScenarios\<close>: the in-memory server and concrete runs.
  \<^item> \<open>DiscoveryNames\<close>: \<open>pkg/discovery/helpers.go\<close>, repository names, sanitised names and labels.
  \<^item> \<open>Discovery\<close>: \<open>pkg/discovery/events.go\<close>, \<open>runner.go\<close>, \<open>registry.go\<close> and \<open>registry_provider.go\<close>:
    bounded channels, the turn of a stage, the known registries and their credentials.
  \<^item> \<open>DiscoveryWebhook\<close>: \<open>pkg/discovery/webhook\<close>, the registry of flavors, the router, and the Zot and
    generic handlers; the decoders of requests are parameters (\<open>codecs\<close>).
  \<^item> \<open>DiscoveryStages\<close>: \<open>scanner\<close>, \<open>qualifier\<close> and \<open>handler\<close>, the sources and processors up to the
    writer; the OCM, ORAS and Helm libraries are the parameter \<open>ocm_lib\<close>, of which nothing is assumed.
  \<^item> \<open>DiscoveryWriter\<close>: \<open>pkg/discovery/apiwriter\<close>. The locale \<open>writer_laws\<close> extends \<open>kube_laws\<close> with what
    the typed client's Update does: it replaces metadata and spec when the resource version matches. What
    an event registers, what a deletion removes, and what it costs the deletion protection.
  \<^item> \<open>DiscoveryPipeline\<close>: \<open>pkg/discovery/pipeline\<close>, the construction, and the relation \<open>advance\<close> whose steps
    are scans, requests and turns of the stages; an invariant of the four channels along every
    interleaving, and the events that are lost on the way.
  \<^item> \<open>Lifecycle\<close>: starting and stopping (\<open>runner.go\<close>, \<open>registry_scanner.go\<close>, \<open>pipeline.go\<close>,
    \<open>cmd/solar-discovery\<close>): the goroutines of a service with mutex, stop channel and wait group as a step relation; a
    \<open>Stop\<close> that has returned has waited for the loops, it always returns, and what it does not wait for.
  \<^item> \<open>DiscoveryScenarios\<close>: the writer's part of the in-memory server and concrete runs of the pipeline.

  \<^item> \<open>WebSession\<close>: \<open>pkg/ui/session/store.go\<close>. \<open>WebProgram\<close>: requests as trees of critical sections and calls to
    the outside, run alone (\<open>runAct\<close>) or interleaved (\<open>webStep\<close>), and the locale \<open>session_guarantee\<close>: when
    every handler keeps an invariant at each of its steps, so does every interleaving.
  \<^item> \<open>WebAuth\<close>, \<open>WebApi\<close>, \<open>WebEvents\<close>, \<open>WebServer\<close>: \<open>pkg/ui/auth\<close>, \<open>pkg/ui/api\<close> (the event stream in
    \<open>WebEvents\<close>) and \<open>pkg/ui/server.go\<close>.
  \<^item> \<open>WebProperties\<close>: the handlers satisfy the contract, hence who may act as whom along every
    interleaving; requests without a session; the caches; static paths. \<open>WebScenarios\<close>: concrete runs.

  \<^item> \<open>Storage\<close>: \<open>api/solar/*_rest.go\<close> and \<open>api/solar/helpers.go\<close>, the storage strategies of the extension API server: a
    record of methods per resource and the relation \<open>history\<close>, the versions that the server stores for one object.
    The locales \<open>generation_strategy\<close>, \<open>immutable_field\<close> and \<open>validated\<close> say what a strategy promises and are
    interpreted for the twelve resources.
  \<^item> \<open>StorageProperties\<close>: the generation names the spec of a release, so that a changed release is rendered
    under a new tag; immutable fields; validation against what the Target controller creates and what the discovery
    pipeline accepts; the status column.
  \<^item> \<open>Renderer\<close>: \<open>pkg/renderer\<close> and \<open>cmd/solar-renderer\<close>, the program a renderer Job runs.
    \<open>RendererProperties\<close>: from the documented behaviour of the file system, the template engine and the Helm
    client (\<open>render_laws\<close>), what a run does to the registry and the disk, and why the chart of a changed
    ComponentVersion stays stale.
  \<^item> \<open>RenderingScenarios\<close>: stored histories, an in-memory disk and registry, and runs of the renderer on them.

  \<^bold>\<open>Not modelled.\<close>
  Logging, metrics, flag parsing and the start-up code of the binaries have no effect that a property could speak
  about. Generated clients, conversions, deep copies and OpenAPI definitions are produced by tools. The
  internal API version repeats the v1alpha1 types. The generic API server behind the storage strategies, the
  template engine and the clients of Kubernetes, OCI and Helm are code of other projects: they are parameters.
\<close>

end
